(* ===== verification/Lisa_Prelude.thy ===== *)
theory Lisa_Prelude
  imports Main "HOL-Library.Word"
begin

text \<open>
  Shared vocabulary of the development: the string operations of Rust's \<open>str\<close> that the
  policy code uses, association lists standing for hash maps, and the locale of
  severity-ordered verdicts that both guards (shell lines and Agent Bus calls) share.

  Strings. A Rust string is a sequence of Unicode scalar values. The model's \<open>string\<close> is a
  list of \<open>char\<close>, and each \<open>char\<close> is read as the scalar value U+0000 to U+00FF with that
  code; scalars above U+00FF are outside the model. Every literal the policy compares
  against is ASCII. White space is Rust's \<open>char::is_whitespace\<close> on that range.
\<close>

section \<open>Characters\<close>

abbreviation ccode :: "char \<Rightarrow> nat" where
  "ccode c \<equiv> of_char c"

definition is_ws :: "char \<Rightarrow> bool" where
  "is_ws c \<longleftrightarrow> (let n = ccode c in (9 \<le> n \<and> n \<le> 13) \<or> n = 32 \<or> n = 133 \<or> n = 160)"

definition is_ascii_digit :: "char \<Rightarrow> bool" where
  "is_ascii_digit c \<longleftrightarrow> (let n = ccode c in 48 \<le> n \<and> n \<le> 57)"

definition is_ascii_lower :: "char \<Rightarrow> bool" where
  "is_ascii_lower c \<longleftrightarrow> (let n = ccode c in 97 \<le> n \<and> n \<le> 122)"

definition is_ascii_upper :: "char \<Rightarrow> bool" where
  "is_ascii_upper c \<longleftrightarrow> (let n = ccode c in 65 \<le> n \<and> n \<le> 90)"

definition is_ascii_alnum :: "char \<Rightarrow> bool" where
  "is_ascii_alnum c \<longleftrightarrow> is_ascii_digit c \<or> is_ascii_lower c \<or> is_ascii_upper c"

definition ascii_lower_char :: "char \<Rightarrow> char" where
  "ascii_lower_char c = (if is_ascii_upper c then char_of (ccode c + 32) else c)"

definition ascii_lower :: "string \<Rightarrow> string" where
  "ascii_lower s = map ascii_lower_char s"

text \<open>\<open>str::to_lowercase\<close> on the characters of the model.\<close>

definition lower_char :: "char \<Rightarrow> char" where
  "lower_char c =
     (let n = ccode c
      in if (65 \<le> n \<and> n \<le> 90) \<or> (192 \<le> n \<and> n \<le> 222 \<and> n \<noteq> 215) then char_of (n + 32) else c)"

definition to_lowercase :: "string \<Rightarrow> string" where
  "to_lowercase s = map lower_char s"

text \<open>UTF-8 length of a scalar below U+0100: one byte for ASCII, two above.\<close>

definition utf8_len :: "char \<Rightarrow> nat" where
  "utf8_len c = (if ccode c < 128 then 1 else 2)"

definition byte_len :: "string \<Rightarrow> nat" where
  "byte_len s = sum_list (map utf8_len s)"

text \<open>The character classes by their bits, for evaluation.\<close>

lemma is_ws_code [code]:
  "is_ws (Char b0 b1 b2 b3 b4 b5 b6 b7) \<longleftrightarrow>
     (\<not> b7 \<and> \<not> b6 \<and> \<not> b4 \<and>
       (\<not> b5 \<and> b3 \<and> (b0 \<or> b1 \<or> b2) \<and> \<not> (b1 \<and> b2) \<or> b5 \<and> \<not> b3 \<and> \<not> b2 \<and> \<not> b1 \<and> \<not> b0)) \<or>
     (b7 \<and> \<not> b6 \<and> \<not> b4 \<and> \<not> b3 \<and> \<not> b1 \<and> (b5 \<and> \<not> b2 \<and> \<not> b0 \<or> \<not> b5 \<and> b2 \<and> b0))"
  by (cases b0; cases b1; cases b2; cases b3; cases b4; cases b5; cases b6; cases b7)
    (simp_all add: is_ws_def)

lemma utf8_len_code [code]: "utf8_len (Char b0 b1 b2 b3 b4 b5 b6 b7) = (if b7 then 2 else 1)"
  by (auto simp: utf8_len_def of_bool_def)

lemma is_ascii_digit_code [code]:
  "is_ascii_digit (Char b0 b1 b2 b3 b4 b5 b6 b7) \<longleftrightarrow> \<not> b7 \<and> \<not> b6 \<and> b5 \<and> b4 \<and> \<not> (b3 \<and> (b2 \<or> b1))"
  by (cases b0; cases b1; cases b2; cases b3; cases b4; cases b5; cases b6; cases b7)
    (simp_all add: is_ascii_digit_def)

lemma is_ascii_lower_code [code]:
  "is_ascii_lower (Char b0 b1 b2 b3 b4 b5 b6 b7) \<longleftrightarrow>
     \<not> b7 \<and> b6 \<and> b5 \<and> (b0 \<or> b1 \<or> b2 \<or> b3 \<or> b4) \<and> \<not> (b4 \<and> b3 \<and> (b2 \<or> b1 \<and> b0))"
  by (cases b0; cases b1; cases b2; cases b3; cases b4; cases b5; cases b6; cases b7)
    (simp_all add: is_ascii_lower_def)

lemma is_ascii_upper_code [code]:
  "is_ascii_upper (Char b0 b1 b2 b3 b4 b5 b6 b7) \<longleftrightarrow>
     \<not> b7 \<and> b6 \<and> \<not> b5 \<and> (b0 \<or> b1 \<or> b2 \<or> b3 \<or> b4) \<and> \<not> (b4 \<and> b3 \<and> (b2 \<or> b1 \<and> b0))"
  by (cases b0; cases b1; cases b2; cases b3; cases b4; cases b5; cases b6; cases b7)
    (simp_all add: is_ascii_upper_def)

section \<open>Strings\<close>

fun starts_with :: "'a list \<Rightarrow> 'a list \<Rightarrow> bool" where
  "starts_with s [] = True"
| "starts_with [] (p # ps) = False"
| "starts_with (c # s) (p # ps) = (c = p \<and> starts_with s ps)"

definition ends_with :: "'a list \<Rightarrow> 'a list \<Rightarrow> bool" where
  "ends_with s p = starts_with (rev s) (rev p)"

fun contains_str :: "'a list \<Rightarrow> 'a list \<Rightarrow> bool" where
  "contains_str [] p = (p = [])"
| "contains_str (c # s) p = (starts_with (c # s) p \<or> contains_str s p)"

definition strip_prefix :: "'a list \<Rightarrow> 'a list \<Rightarrow> 'a list option" where
  "strip_prefix s p = (if starts_with s p then Some (drop (length p) s) else None)"

text \<open>Rust's \<open>str::split\<close> on a character predicate: always at least one piece.\<close>

fun split_on :: "('a \<Rightarrow> bool) \<Rightarrow> 'a list \<Rightarrow> 'a list list" where
  "split_on P [] = [[]]"
| "split_on P (c # s) =
     (if P c then [] # split_on P s
      else (case split_on P s of [] \<Rightarrow> [[c]] | w # ws \<Rightarrow> (c # w) # ws))"

text \<open>\<open>str::split_once\<close> on one character.\<close>

fun split_once :: "'a \<Rightarrow> 'a list \<Rightarrow> ('a list \<times> 'a list) option" where
  "split_once d [] = None"
| "split_once d (c # s) =
     (if c = d then Some ([], s)
      else map_option (\<lambda>(a, b). (c # a, b)) (split_once d s))"

definition trim_start_by :: "('a \<Rightarrow> bool) \<Rightarrow> 'a list \<Rightarrow> 'a list" where
  "trim_start_by P s = dropWhile P s"

definition trim_end_by :: "('a \<Rightarrow> bool) \<Rightarrow> 'a list \<Rightarrow> 'a list" where
  "trim_end_by P s = rev (dropWhile P (rev s))"

definition trim_by :: "('a \<Rightarrow> bool) \<Rightarrow> 'a list \<Rightarrow> 'a list" where
  "trim_by P s = trim_end_by P (trim_start_by P s)"

definition trim :: "string \<Rightarrow> string" where
  "trim s = trim_by is_ws s"

fun join :: "'a list \<Rightarrow> 'a list list \<Rightarrow> 'a list" where
  "join sep [] = []"
| "join sep [w] = w"
| "join sep (w # v # ws) = w @ sep @ join sep (v # ws)"

text \<open>
  The word splitting of \<open>tier.rs\<close> and \<open>action.rs\<close>: maximal runs of ASCII letters and digits,
  lower-cased.
\<close>

definition words :: "string \<Rightarrow> string list" where
  "words name = filter (\<lambda>w. w \<noteq> []) (map ascii_lower (split_on (\<lambda>c. \<not> is_ascii_alnum c) name))"

text \<open>\<open>str::split_whitespace\<close> and \<open>str::trim_start_matches\<close> with a string pattern.\<close>

definition split_whitespace :: "string \<Rightarrow> string list" where
  "split_whitespace s = filter (\<lambda>w. w \<noteq> []) (split_on is_ws s)"

function trim_start_matches :: "'a list \<Rightarrow> 'a list \<Rightarrow> 'a list" where
  "trim_start_matches s p =
     (if p \<noteq> [] \<and> s \<noteq> [] \<and> starts_with s p then trim_start_matches (drop (length p) s) p else s)"
  by pat_completeness auto
termination
  by (relation "measure (\<lambda>(s, p). length s)") auto

declare trim_start_matches.simps [simp del]

text \<open>\<open>nat_str\<close> is the decimal text of a number.\<close>

fun nat_str :: "nat \<Rightarrow> string" where
  "nat_str n = (if n < 10 then [char_of (48 + n)] else nat_str (n div 10) @ [char_of (48 + n mod 10)])"

lemma starts_with_iff: "starts_with s p \<longleftrightarrow> (\<exists>t. s = p @ t)"
  by (induction s p rule: starts_with.induct) auto

lemma starts_with_append [simp]: "starts_with (p @ s) p"
  by (auto simp: starts_with_iff)

lemma starts_with_refl [simp]: "starts_with s s"
  by (auto simp: starts_with_iff)

lemma strip_prefix_Some: "strip_prefix s p = Some t \<longleftrightarrow> s = p @ t"
  by (auto simp: strip_prefix_def starts_with_iff)

lemma contains_str_iff: "contains_str s p \<longleftrightarrow> (\<exists>a b. s = a @ p @ b)"
proof (induction s)
  case Nil
  then show ?case by auto
next
  case (Cons c s)
  show ?case (is "?L \<longleftrightarrow> ?R")
  proof
    assume ?L
    then consider t where "c # s = p @ t" | a b where "s = a @ p @ b"
      using Cons.IH by (auto simp: starts_with_iff)
    then show ?R
    proof cases
      case (1 t)
      then have "c # s = [] @ p @ t" by simp
      then show ?thesis by blast
    next
      case (2 a b)
      then have "c # s = (c # a) @ p @ b" by simp
      then show ?thesis by blast
    qed
  next
    assume ?R
    then obtain a b where ab: "c # s = a @ p @ b" by blast
    show ?L
    proof (cases a)
      case Nil
      with ab have "starts_with (c # s) p" by (auto simp: starts_with_iff)
      then show ?thesis by simp
    next
      case (Cons d a')
      with ab have "s = a' @ p @ b" by simp
      with Cons.IH show ?thesis by auto
    qed
  qed
qed

lemma split_on_not_Nil [simp]: "split_on P s \<noteq> []"
  by (induction s) (auto split: list.splits)

lemma split_on_no_sep: "w \<in> set (split_on P s) \<Longrightarrow> c \<in> set w \<Longrightarrow> \<not> P c"
proof (induction s arbitrary: w)
  case Nil
  then show ?case by simp
next
  case (Cons d s)
  show ?case
  proof (cases "split_on P s")
    case Nil
    then show ?thesis by simp
  next
    case (Cons v vs)
    with Cons.IH [of v] Cons.IH [of w] \<open>w \<in> set (split_on P (d # s))\<close> \<open>c \<in> set w\<close>
    show ?thesis by (auto split: if_splits)
  qed
qed

lemma set_split_on: "w \<in> set (split_on P s) \<Longrightarrow> set w \<subseteq> set s"
  by (induction s arbitrary: w) (fastforce split: list.splits if_splits)+

lemma words_nonempty: "w \<in> set (words s) \<Longrightarrow> w \<noteq> []"
  by (simp add: words_def)

section \<open>Association lists as hash maps\<close>

text \<open>
  A \<open>HashMap\<close> is an association list. \<open>al_put\<close> replaces the value of a key that is present
  and appends a new pair otherwise, so keys stay distinct; \<open>al_del\<close> removes a key.
\<close>

fun al_put :: "'k \<Rightarrow> 'v \<Rightarrow> ('k \<times> 'v) list \<Rightarrow> ('k \<times> 'v) list" where
  "al_put k v [] = [(k, v)]"
| "al_put k v ((k', v') # xs) = (if k = k' then (k, v) # xs else (k', v') # al_put k v xs)"

definition al_del :: "'k \<Rightarrow> ('k \<times> 'v) list \<Rightarrow> ('k \<times> 'v) list" where
  "al_del k xs = filter (\<lambda>p. fst p \<noteq> k) xs"

lemma map_of_al_put [simp]: "map_of (al_put k v xs) = (map_of xs)(k \<mapsto> v)"
  by (induction k v xs rule: al_put.induct) (auto simp: fun_eq_iff)

lemma map_of_al_del [simp]: "map_of (al_del k xs) = (map_of xs)(k := None)"
  by (induction xs) (auto simp: al_del_def fun_eq_iff)

lemma dom_keys_al_put [simp]: "fst ` set (al_put k v xs) = insert k (fst ` set xs)"
  by (induction k v xs rule: al_put.induct) auto

lemma distinct_al_put [simp]:
  "distinct (map fst xs) \<Longrightarrow> distinct (map fst (al_put k v xs))"
  by (induction k v xs rule: al_put.induct) (auto simp: image_iff)

lemma distinct_al_del [simp]:
  "distinct (map fst xs) \<Longrightarrow> distinct (map fst (al_del k xs))"
  by (induction xs) (auto simp: al_del_def)

lemma set_al_del: "set (al_del k xs) = {p \<in> set xs. fst p \<noteq> k}"
  by (auto simp: al_del_def)

lemma set_al_put:
  "distinct (map fst xs) \<Longrightarrow> set (al_put k v xs) = insert (k, v) {p \<in> set xs. fst p \<noteq> k}"
  by (induction k v xs rule: al_put.induct) (force simp: image_iff)+

lemma in_al_put: "p \<in> set (al_put k v xs) \<Longrightarrow> p = (k, v) \<or> p \<in> set xs"
  by (induction k v xs rule: al_put.induct) (auto split: if_splits)

lemma al_put_new: "k \<notin> fst ` set xs \<Longrightarrow> al_put k v xs = xs @ [(k, v)]"
  by (induction k v xs rule: al_put.induct) auto

lemma length_al_put:
  "length (al_put k v xs) = (if k \<in> fst ` set xs then length xs else Suc (length xs))"
  by (induction k v xs rule: al_put.induct) auto

lemma length_al_del_le [simp]: "length (al_del k xs) \<le> length xs"
  by (simp add: al_del_def)

section \<open>Fallible steps on a state\<close>

text \<open>\<open>attempt r k\<close> is the source's \<open>?\<close>: an error ends the handler in the state it left.\<close>

definition attempt ::
    "'s \<times> ('e + 'a) \<Rightarrow> ('a \<Rightarrow> 's \<Rightarrow> 's \<times> ('e + 'b)) \<Rightarrow> 's \<times> ('e + 'b)" where
  "attempt r k = (case snd r of Inl e \<Rightarrow> (fst r, Inl e) | Inr x \<Rightarrow> k x (fst r))"

lemma attempt_ok:
  "P (fst r) \<Longrightarrow> (\<And>x. snd r = Inr x \<Longrightarrow> P (fst (k x (fst r)))) \<Longrightarrow> P (fst (attempt r k))"
  by (cases "snd r") (auto simp: attempt_def)

lemma attempt_then:
  "snd (attempt r k) = Inr y \<Longrightarrow> \<exists>x. snd r = Inr x \<and> attempt r k = k x (fst r)"
  by (cases "snd r") (auto simp: attempt_def)

section \<open>Severity-ordered verdicts\<close>

text \<open>
  Both guards combine verdicts with a function \<open>worst\<close> that keeps the first of the two
  unless the second is strictly more severe (\<open>Verdict::worst\<close> in \<open>lib.rs\<close>,
  \<open>ActionVerdict::worst\<close> in \<open>action.rs\<close>). The clients only rely on that law.
\<close>

locale severity_join =
  fixes sev :: "'v \<Rightarrow> nat"
    and worst :: "'v \<Rightarrow> 'v \<Rightarrow> 'v"
  assumes worst_law: "worst a b = (if sev a < sev b then b else a)"
begin

lemma sev_worst [simp]: "sev (worst a b) = max (sev a) (sev b)"
  by (simp add: worst_law)

lemma worst_cases: "worst a b = a \<or> worst a b = b"
  by (simp add: worst_law)

lemma worst_assoc: "worst (worst a b) c = worst a (worst b c)"
  by (auto simp: worst_law)

lemma worst_top: "(\<And>v. sev v \<le> sev a) \<Longrightarrow> worst a b = a"
  by (simp add: worst_law leD)

lemma sev_foldl: "sev (foldl worst a vs) = fold max (map sev vs) (sev a)"
  by (induction vs arbitrary: a) (simp_all add: max.commute)

lemma foldl_mem: "foldl worst a vs \<in> insert a (set vs)"
proof (induction vs arbitrary: a)
  case Nil
  then show ?case by simp
next
  case (Cons v vs)
  from Cons.IH [of "worst a v"] worst_cases [of a v] show ?case by auto
qed

lemma sev_foldl_ge: "v \<in> insert a (set vs) \<Longrightarrow> sev v \<le> sev (foldl worst a vs)"
proof (induction vs arbitrary: a v)
  case Nil
  then show ?case by simp
next
  case (Cons w vs)
  show ?case
  proof (cases "v = a \<or> v = w")
    case True
    have "sev (worst a w) \<le> sev (foldl worst (worst a w) vs)" by (rule Cons.IH) simp
    with True show ?thesis by auto
  next
    case False
    with Cons.prems have "v \<in> insert (worst a w) (set vs)" by simp
    then show ?thesis using Cons.IH by simp
  qed
qed

end

end
