(* ===== verification/Peer.thy ===== *)
theory Peer
  imports Lisa_Prelude
begin

text \<open>
  Caller identity: \<open>libs/lisa-peer\<close>. \<open>peer_id\<close> names a connection, \<open>owner\<close> binds an object to
  the connection that created it, \<open>process\<close> names the running program. What the message bus
  and the kernel answer (the sender of a message, the text of \<open>/proc/self/fdinfo\<close>, the target
  of \<open>/proc/<pid>/exe\<close>) are arguments of the definitions.
\<close>

section \<open>Connections and owners (lib.rs)\<close>

datatype peer_id = Bus string | Direct

datatype peer_error = Unidentified | NotTheOwner | BusFailure string

definition peer_decide :: "bool \<Rightarrow> string option \<Rightarrow> peer_error + peer_id" where
  "peer_decide brokered sender =
     (if \<not> brokered then Inr Direct
      else (case sender of
              Some name \<Rightarrow> Inr (Bus name)
            | None \<Rightarrow> Inl Unidentified))"

fun peer_as_str :: "peer_id \<Rightarrow> string" where
  "peer_as_str (Bus name) = name"
| "peer_as_str Direct = ''(direct)''"

datatype owner = Owner (owner_id: peer_id)

definition owner_allows :: "owner \<Rightarrow> peer_id \<Rightarrow> bool" where
  "owner_allows ow caller \<longleftrightarrow> owner_id ow = caller"

definition owner_require :: "owner \<Rightarrow> peer_id \<Rightarrow> peer_error + unit" where
  "owner_require ow caller = (if owner_allows ow caller then Inr () else Inl NotTheOwner)"

section \<open>Processes (process.rs)\<close>

text \<open>\<open>pinned\<close> is the identity of the pidfd that pins the pid, when there is one.\<close>

record process =
  proc_pid :: "32 word"
  proc_pinned :: "nat option"

definition unpinned :: "32 word \<Rightarrow> process" where
  "unpinned p = \<lparr>proc_pid = p, proc_pinned = None\<rparr>"

definition is_same_as :: "process \<Rightarrow> process \<Rightarrow> bool" where
  "is_same_as a b \<longleftrightarrow> proc_pid a = proc_pid b"

definition is_pinned :: "process \<Rightarrow> bool" where
  "is_pinned p \<longleftrightarrow> proc_pinned p \<noteq> None"

definition same_process :: "process option \<Rightarrow> process option \<Rightarrow> bool" where
  "same_process a b =
     (case (a, b) of (Some x, Some y) \<Rightarrow> is_same_as x y | _ \<Rightarrow> False)"

section \<open>Program identity (identity.rs)\<close>

datatype identity_error = Unsupported | Gone | Replaced string | NoProcessFd

text \<open>
  \<open>str::lines\<close>: split at newlines, a last empty line dropped, one trailing carriage return
  removed from each line. \<open>parse_u32\<close> is \<open>str::parse::<u32>\<close>: an optional plus sign, at least
  one digit, \<open>None\<close> when a character is not a digit or the value does not fit.
\<close>

definition str_lines :: "string \<Rightarrow> string list" where
  "str_lines s =
     (let ps = split_on (\<lambda>c. ccode c = 10) s;
          ls = (if last ps = [] then butlast ps else ps)
      in map (\<lambda>l. if l \<noteq> [] \<and> ccode (last l) = 13 then butlast l else l) ls)"

fun digits_val :: "nat \<Rightarrow> string \<Rightarrow> nat option" where
  "digits_val acc [] = Some acc"
| "digits_val acc (c # s) =
     (if is_ascii_digit c then digits_val (acc * 10 + (ccode c - 48)) s else None)"

definition parse_u32 :: "string \<Rightarrow> (32 word) option" where
  "parse_u32 s =
     (let t = (case s of c # r \<Rightarrow> (if c = CHR ''+'' then r else s) | [] \<Rightarrow> [])
      in if t = [] then None
         else (case digits_val 0 t of
                 Some n \<Rightarrow> if n < 2 ^ 32 then Some (of_nat n) else None
               | None \<Rightarrow> None))"

fun find_map :: "('a \<Rightarrow> 'b option) \<Rightarrow> 'a list \<Rightarrow> 'b option" where
  "find_map f [] = None"
| "find_map f (x # xs) = (case f x of Some y \<Rightarrow> Some y | None \<Rightarrow> find_map f xs)"

text \<open>\<open>fdinfo\<close> is what reading \<open>/proc/self/fdinfo/<fd>\<close> gave, \<open>None\<close> when it failed.\<close>

definition pid_of_pidfd :: "string option \<Rightarrow> identity_error + 32 word" where
  "pid_of_pidfd fdinfo =
     (case fdinfo of
        None \<Rightarrow> Inl Gone
      | Some text \<Rightarrow>
          (case find_map (\<lambda>l. strip_prefix l ''Pid:'') (str_lines text) of
             None \<Rightarrow> Inl Gone
           | Some v \<Rightarrow> (case parse_u32 (trim v) of Some p \<Rightarrow> Inr p | None \<Rightarrow> Inl Gone)))"

text \<open>
  A peer as the transport reports it (\<open>credentials.rs\<close>); \<open>peer_fd\<close> is the pidfd of its process.
\<close>

record peer =
  peer_conn :: peer_id
  peer_uid :: "(32 word) option"
  peer_pid :: "(32 word) option"
  peer_fd :: "nat option"

definition without_process_fd :: "peer_id \<Rightarrow> (32 word) option \<Rightarrow> (32 word) option \<Rightarrow> peer" where
  "without_process_fd i u p = \<lparr>peer_conn = i, peer_uid = u, peer_pid = p, peer_fd = None\<rparr>"

definition is_same_user_as_us :: "32 word \<Rightarrow> peer \<Rightarrow> bool" where
  "is_same_user_as_us us p =
     (case (peer_conn p, peer_uid p) of
        (Direct, _) \<Rightarrow> True
      | (Bus _, Some u) \<Rightarrow> u = us
      | (Bus _, None) \<Rightarrow> False)"

definition pid_of_peer :: "bool \<Rightarrow> (nat \<Rightarrow> string option) \<Rightarrow> peer \<Rightarrow> identity_error + 32 word" where
  "pid_of_peer linux fdinfo p =
     (case peer_fd p of
        None \<Rightarrow> Inl NoProcessFd
      | Some fd \<Rightarrow> if \<not> linux then Inl Unsupported else pid_of_pidfd (fdinfo fd))"

text \<open>\<open>exe_link\<close> reads the symbolic link \<open>/proc/<pid>/exe\<close>.\<close>

definition exe_of_pid ::
    "bool \<Rightarrow> (32 word \<Rightarrow> string option) \<Rightarrow> 32 word \<Rightarrow> identity_error + string" where
  "exe_of_pid linux exe_link p =
     (if \<not> linux then Inl Unsupported
      else (case exe_link p of
              None \<Rightarrow> Inl Gone
            | Some target \<Rightarrow>
                if ends_with target '' (deleted)'' then Inl (Replaced target) else Inr target))"

definition exe_of_peer ::
    "bool \<Rightarrow> (nat \<Rightarrow> string option) \<Rightarrow> (32 word \<Rightarrow> string option) \<Rightarrow> peer \<Rightarrow> identity_error + string" where
  "exe_of_peer linux fdinfo exe_link p =
     (case pid_of_peer linux fdinfo p of
        Inl e \<Rightarrow> Inl e
      | Inr n \<Rightarrow> exe_of_pid linux exe_link n)"

definition process_of_peer :: "bool \<Rightarrow> (nat \<Rightarrow> string option) \<Rightarrow> peer \<Rightarrow> identity_error + process" where
  "process_of_peer linux fdinfo p =
     (case pid_of_peer linux fdinfo p of
        Inl e \<Rightarrow> Inl e
      | Inr n \<Rightarrow> Inr \<lparr>proc_pid = n, proc_pinned = peer_fd p\<rparr>)"

section \<open>Facts\<close>

lemma owner_allows_iff [simp]: "owner_allows (Owner p) q \<longleftrightarrow> p = q"
  by (simp add: owner_allows_def)

lemma peer_decide_unbrokered [simp]: "peer_decide False s = Inr Direct"
  by (simp add: peer_decide_def)

lemma same_process_None [simp]: "\<not> same_process None b" "\<not> same_process a None"
  by (auto simp: same_process_def split: option.splits)

lemma same_process_sym: "same_process a b \<longleftrightarrow> same_process b a"
  by (auto simp: same_process_def is_same_as_def split: option.splits)

text \<open>No identity without a pidfd, whatever pid the broker reported.\<close>

lemma no_fd_no_identity:
  "peer_fd p = None \<Longrightarrow> pid_of_peer linux fdinfo p = Inl NoProcessFd"
  by (simp add: pid_of_peer_def)

lemma process_of_peer_pinned:
  "process_of_peer linux fdinfo p = Inr pr \<Longrightarrow> is_pinned pr"
  by (auto simp: process_of_peer_def pid_of_peer_def is_pinned_def
        split: option.splits if_splits sum.splits)

text \<open>
  The transport alone decides a caller's identity. On a point-to-point connection whatever
  the message claims as its sender, the caller is \<open>Direct\<close>, so it owns no object of a brokered
  peer; on a broker a message without a sender is refused rather than read as \<open>Direct\<close>, and an
  object is answered for exactly the connection that created it.
\<close>

theorem transport_decides_identity:
  "peer_decide brokered sender = Inr q \<Longrightarrow>
     (q = Direct \<longleftrightarrow> \<not> brokered) \<and>
     (owner_require (Owner (Bus n)) q = Inr () \<longleftrightarrow> brokered \<and> sender = Some n) \<and>
     (owner_require (Owner Direct) q = Inr () \<longleftrightarrow> \<not> brokered)"
  by (auto simp: peer_decide_def owner_require_def split: if_splits option.splits)

theorem transport_decides_identity_witness:
  "peer_decide False (Some '':1.10'') = Inr Direct \<and>
   owner_require (Owner (Bus '':1.10'')) Direct = Inl NotTheOwner"
proof -
  have h: "peer_decide False (Some '':1.10'') = Inr Direct" by simp
  from transport_decides_identity [OF h, of "'':1.10''"] h show ?thesis
    by (simp add: owner_require_def)
qed

end
