(* ===== verification/Guard_Consent.thy ===== *)
theory Guard_Consent
  imports Lisa_Prelude
begin

text \<open>
  Who may answer a parked confirmation: \<open>libs/lisa-guard/src/consent.rs\<close>. The decision is a
  function of facts the transport supplied; the bus (\<open>Agent_Bus\<close>) computes them from the parked
  call and the answering connection. Message texts write the source's dash as two hyphens.
\<close>

datatype confirm_class = CChip | CModal

record approval =
  ap_approve :: bool
  ap_is_requester :: bool
  ap_owns_consent_name :: bool
  ap_is_consent_program :: bool
  ap_is_requesters_process :: bool
  ap_requester_hosts_a_model :: bool
  ap_class :: confirm_class
  ap_brokered :: bool

datatype approval_verdict =
    ApAllow
  | ApNotYours
  | ApRefused (ap_rule_id: string) (ap_reason: string)

fun approval_rule :: "approval_verdict \<Rightarrow> string option" where
  "approval_rule (ApRefused r _) = Some r"
| "approval_rule _ = None"

definition SELF_APPROVAL :: string where "SELF_APPROVAL = ''consent.self_approval''"
definition NO_SURFACE :: string where "NO_SURFACE = ''consent.no_surface''"
definition SAME_PROCESS :: string where "SAME_PROCESS = ''consent.same_process''"

text \<open>The rule ids that no dialog and no setting can lift (\<open>action.rs\<close>).\<close>

definition HARD_NO_RULES :: "string list" where
  "HARD_NO_RULES =
     [''exec.shell'', ''escalate.privilege'', ''fill.password_field'', ''secret.read'',
      ''disk.raw_write'', ''rm.system_path'', ''audit.erase'', ''fs.not_yours'',
      ''owner.protected_path'', ''consent.self_approval'', ''consent.same_process'']"

definition approval_is_hard_no :: "approval_verdict \<Rightarrow> bool" where
  "approval_is_hard_no v =
     (case approval_rule v of None \<Rightarrow> False | Some r \<Rightarrow> r \<in> set HARD_NO_RULES)"

definition judge_approval :: "approval \<Rightarrow> approval_verdict" where
  "judge_approval a =
     (let verified_surface = ap_owns_consent_name a \<and> ap_is_consent_program a;
          independent_surface =
            verified_surface \<and> \<not> ap_is_requester a \<and> \<not> ap_is_requesters_process a
      in if \<not> ap_is_requester a \<and> \<not> ap_is_requesters_process a \<and> \<not> verified_surface
         then ApNotYours
         else if \<not> ap_approve a then ApAllow
         else if independent_surface then ApAllow
         else if ap_is_requesters_process a \<and> \<not> ap_is_requester a
         then ApRefused SAME_PROCESS
                ''this call was parked by the same process that is now approving it, over a different connection -- a second socket is not a second party, and only the desktop consent surface can say yes''
         else if ap_requester_hosts_a_model a
         then ApRefused SELF_APPROVAL
                ''the process that asked for this call is the process running the model, so approving it here would be the model approving itself -- only the desktop consent surface can say yes''
         else if ap_class a = CModal \<and> ap_brokered a
         then ApRefused NO_SURFACE
                ''this call is destructive-tier and no independent consent surface answered it -- the peer that asked for it may only withdraw it''
         else ApAllow)"

section \<open>The contract\<close>

text \<open>
  The four questions of the policy as predicates over one attempt: who is party to the call,
  who is an independent human surface, and which approvals the requester may give itself.
\<close>

definition verified_surface :: "approval \<Rightarrow> bool" where
  "verified_surface a \<longleftrightarrow> ap_owns_consent_name a \<and> ap_is_consent_program a"

definition party :: "approval \<Rightarrow> bool" where
  "party a \<longleftrightarrow> ap_is_requester a \<or> ap_is_requesters_process a \<or> verified_surface a"

definition independent_surface :: "approval \<Rightarrow> bool" where
  "independent_surface a \<longleftrightarrow>
     verified_surface a \<and> \<not> ap_is_requester a \<and> \<not> ap_is_requesters_process a"

definition own_chip :: "approval \<Rightarrow> bool" where
  "own_chip a \<longleftrightarrow>
     ap_is_requester a \<and> \<not> ap_requester_hosts_a_model a \<and>
     (ap_class a = CChip \<or> \<not> ap_brokered a)"

lemmas consent_defs = judge_approval_def verified_surface_def party_def
  independent_surface_def own_chip_def Let_def

lemma approval_cases:
  "(judge_approval a = ApAllow \<longleftrightarrow>
      party a \<and> (\<not> ap_approve a \<or> independent_surface a \<or> own_chip a)) \<and>
   (judge_approval a = ApNotYours \<longleftrightarrow> \<not> party a)"
  by (cases "ap_class a") (auto simp: consent_defs)

text \<open>
  The answer to a parked call is allowed exactly when the answerer is party to the call and
  either withdraws it, or is an independent consent surface (the name, the program, and neither
  the connection nor the process that asked), or is the requesting connection answering its own
  chip without hosting a model. Every other party gets a named refusal; a peer that is not party
  gets \<open>ApNotYours\<close>.
\<close>

theorem approval_authority:
  "(judge_approval a = ApAllow \<longleftrightarrow>
      party a \<and> (\<not> ap_approve a \<or> independent_surface a \<or> own_chip a)) \<and>
   (judge_approval a = ApNotYours \<longleftrightarrow> \<not> party a)"
  by (rule approval_cases)

text \<open>The desktop dialog answering a modal call that a model host parked.\<close>

definition the_dialog :: approval where
  "the_dialog =
     \<lparr>ap_approve = True, ap_is_requester = False, ap_owns_consent_name = True,
      ap_is_consent_program = True, ap_is_requesters_process = False,
      ap_requester_hosts_a_model = True, ap_class = CModal, ap_brokered = True\<rparr>"

theorem approval_authority_witness:
  "judge_approval the_dialog = ApAllow \<and>
   judge_approval (the_dialog\<lparr>ap_is_consent_program := False\<rparr>) = ApNotYours"
  using approval_authority [of the_dialog]
    approval_authority [of "the_dialog\<lparr>ap_is_consent_program := False\<rparr>"]
  by (simp add: the_dialog_def party_def verified_surface_def independent_surface_def)

text \<open>
  A process that hosts a model never approves a call it made: whatever connection it answers
  on, whatever name it owns, at every tier and on every transport, an approval that arrives from
  the requesting connection or the requesting process is refused with a rule no setting can lift.
\<close>

theorem model_never_approves_itself:
  assumes "ap_approve a" and "ap_requester_hosts_a_model a"
    and "ap_is_requester a \<or> ap_is_requesters_process a"
  shows "approval_rule (judge_approval a) \<in> {Some SELF_APPROVAL, Some SAME_PROCESS} \<and>
         approval_is_hard_no (judge_approval a)"
  using assms
  by (auto simp: consent_defs approval_is_hard_no_def HARD_NO_RULES_def
        SELF_APPROVAL_def SAME_PROCESS_def)

definition squatting_model :: approval where
  "squatting_model =
     \<lparr>ap_approve = True, ap_is_requester = False, ap_owns_consent_name = True,
      ap_is_consent_program = True, ap_is_requesters_process = True,
      ap_requester_hosts_a_model = True, ap_class = CChip, ap_brokered = True\<rparr>"

theorem model_never_approves_itself_witness:
  "approval_is_hard_no (judge_approval squatting_model) \<and>
   approval_rule (judge_approval squatting_model) = Some SAME_PROCESS"
proof -
  have h: "ap_approve squatting_model" "ap_requester_hosts_a_model squatting_model"
    "ap_is_requester squatting_model \<or> ap_is_requesters_process squatting_model"
    by (simp_all add: squatting_model_def)
  from model_never_approves_itself [OF h] show ?thesis
    by (simp add: consent_defs squatting_model_def)
qed

end
