(* ===== verification/Agent_Tier.thy ===== *)
theory Agent_Tier
  imports Lisa_Prelude
begin

text \<open>
  Confirmation tiers and provenance escalation: \<open>daemons/agentd/src/tier.rs\<close>. \<open>tier\<close> is the
  declared sensitivity of a tool, \<open>provenance\<close> the tag of one link of the trigger chain,
  \<open>resolve\<close> the policy of one call.
\<close>

section \<open>Tiers\<close>

datatype tier = Read | Write | Destructive

text \<open>The source derives \<open>Ord\<close> in declaration order.\<close>

fun tier_rank :: "tier \<Rightarrow> nat" where
  "tier_rank Read = 0"
| "tier_rank Write = 1"
| "tier_rank Destructive = 2"

lemma tier_rank_inj: "tier_rank a = tier_rank b \<Longrightarrow> a = b"
  by (cases a; cases b) auto

instantiation tier :: linorder
begin

definition less_eq_tier :: "tier \<Rightarrow> tier \<Rightarrow> bool" where
  "less_eq_tier a b \<longleftrightarrow> tier_rank a \<le> tier_rank b"

definition less_tier :: "tier \<Rightarrow> tier \<Rightarrow> bool" where
  "less_tier a b \<longleftrightarrow> tier_rank a < tier_rank b"

instance
proof
  fix a b :: tier
  show "a \<le> b \<Longrightarrow> b \<le> a \<Longrightarrow> a = b"
    by (simp add: less_eq_tier_def tier_rank_inj)
qed (auto simp: less_eq_tier_def less_tier_def)

end

lemmas tier_ord = less_eq_tier_def less_tier_def

lemma tier_bounds [simp]: "Read \<le> t" "t \<le> Destructive"
  by (cases t; simp add: tier_ord)+

definition is_privileged :: "tier \<Rightarrow> bool" where
  "is_privileged t \<longleftrightarrow> t \<noteq> Read"

fun escalated :: "tier \<Rightarrow> tier" where
  "escalated Read = Write"
| "escalated Write = Destructive"
| "escalated Destructive = Destructive"

definition DESTRUCTIVE_WORDS :: "string list" where
  "DESTRUCTIVE_WORDS =
     [''delete'', ''remove'', ''purge'', ''wipe'', ''erase'', ''destroy'', ''drop'', ''format'',
      ''truncate'', ''revoke'', ''uninstall'', ''kill'', ''terminate'', ''reset'', ''clear'',
      ''unpublish'', ''shred'']"

definition WRITE_WORDS :: "string list" where
  "WRITE_WORDS =
     [''create'', ''add'', ''insert'', ''write'', ''update'', ''modify'', ''edit'', ''set'', ''put'', ''patch'',
      ''send'', ''post'', ''publish'', ''share'', ''move'', ''rename'', ''copy'', ''install'', ''enable'',
      ''disable'', ''start'', ''stop'', ''restart'', ''upload'', ''schedule'', ''invite'', ''assign'',
      ''archive'', ''import'', ''export'', ''sync'']"

definition implied_floor :: "string \<Rightarrow> tier option" where
  "implied_floor tool_name =
     (let ws = words tool_name
      in if \<exists>w \<in> set ws. w \<in> set DESTRUCTIVE_WORDS then Some Destructive
         else if \<exists>w \<in> set ws. w \<in> set WRITE_WORDS then Some Write
         else None)"

fun tier_as_str :: "tier \<Rightarrow> string" where
  "tier_as_str Read = ''read''"
| "tier_as_str Write = ''write''"
| "tier_as_str Destructive = ''destructive''"

section \<open>Provenance\<close>

datatype provenance = PUser | PApp string | PFile | PMail | PScreen | PWeb | POther string

definition provenance_parse :: "string \<Rightarrow> provenance" where
  "provenance_parse s =
     (if s = ''user'' then PUser
      else if s = ''file'' then PFile
      else if s = ''mail'' then PMail
      else if s = ''screen'' then PScreen
      else if s = ''web'' then PWeb
      else (case strip_prefix s ''app:'' of
              Some i \<Rightarrow> PApp i
            | None \<Rightarrow> POther s))"

definition is_trusted :: "provenance \<Rightarrow> bool" where
  "is_trusted p \<longleftrightarrow> p = PUser"

fun provenance_str :: "provenance \<Rightarrow> string" where
  "provenance_str PUser = ''user''"
| "provenance_str (PApp i) = ''app:'' @ i"
| "provenance_str PFile = ''file''"
| "provenance_str PMail = ''mail''"
| "provenance_str PScreen = ''screen''"
| "provenance_str PWeb = ''web''"
| "provenance_str (POther s) = s"

text \<open>The peer that sent a message, as the transport names it.\<close>

datatype claimant = Claimant (claimant_str: string)

definition CLAIMANT_UNKNOWN :: string where
  "CLAIMANT_UNKNOWN = ''host:unknown''"

definition claimant_from :: "string \<Rightarrow> claimant" where
  "claimant_from s = Claimant (if s = [] then CLAIMANT_UNKNOWN else s)"

record verified_chain =
  vc_chain :: "provenance list"
  vc_downgraded :: bool

definition verify_chain :: "provenance list \<Rightarrow> bool \<Rightarrow> claimant \<Rightarrow> verified_chain" where
  "verify_chain asserted trusted_program c =
     (if trusted_program then \<lparr>vc_chain = asserted, vc_downgraded = False\<rparr>
      else \<lparr>vc_chain = map (\<lambda>p. if p = PUser then PApp (claimant_str c) else p) asserted,
            vc_downgraded = (PUser \<in> set asserted)\<rparr>)"

section \<open>Confirmation and resolution\<close>

datatype confirmation = Silent | Chip | Modal

fun for_tier :: "tier \<Rightarrow> confirmation" where
  "for_tier Read = Silent"
| "for_tier Write = Chip"
| "for_tier Destructive = Modal"

fun confirmation_as_str :: "confirmation \<Rightarrow> string" where
  "confirmation_as_str Silent = ''silent''"
| "confirmation_as_str Chip = ''chip''"
| "confirmation_as_str Modal = ''modal''"

record resolution =
  res_declared :: tier
  res_effective :: tier
  res_confirmation :: confirmation
  res_escalated :: bool

definition resolve :: "tier \<Rightarrow> provenance list \<Rightarrow> resolution" where
  "resolve declared chain =
     (let untrusted = (chain = [] \<or> (\<exists>p \<in> set chain. \<not> is_trusted p));
          effective = (if untrusted then escalated declared else declared)
      in \<lparr>res_declared = declared, res_effective = effective,
          res_confirmation = for_tier effective, res_escalated = untrusted\<rparr>)"

section \<open>Facts\<close>

definition trusted_chain :: "provenance list \<Rightarrow> bool" where
  "trusted_chain chain \<longleftrightarrow> chain \<noteq> [] \<and> (\<forall>p \<in> set chain. is_trusted p)"

lemma escalated_ge [simp]: "t \<le> escalated t"
  by (cases t) (simp_all add: tier_ord)

lemma escalated_mono: "a \<le> b \<Longrightarrow> escalated a \<le> escalated b"
  by (cases a; cases b) (simp_all add: tier_ord)

lemma escalated_privileged [simp]: "is_privileged (escalated t)"
  by (cases t) (simp_all add: is_privileged_def)

lemma for_tier_Silent [simp]: "for_tier t = Silent \<longleftrightarrow> t = Read"
  by (cases t) auto

lemma for_tier_Modal [simp]: "for_tier t = Modal \<longleftrightarrow> t = Destructive"
  by (cases t) auto

lemma resolve_sel [simp]:
  "res_declared (resolve d ch) = d"
  "res_effective (resolve d ch) = (if trusted_chain ch then d else escalated d)"
  "res_confirmation (resolve d ch) = for_tier (if trusted_chain ch then d else escalated d)"
  "res_escalated (resolve d ch) \<longleftrightarrow> \<not> trusted_chain ch"
  by (auto simp: resolve_def trusted_chain_def Let_def)

lemma is_trusted_parse: "is_trusted (provenance_parse s) \<longleftrightarrow> s = ''user''"
  by (auto simp: is_trusted_def provenance_parse_def split: option.splits)

lemma provenance_str_parse [simp]: "provenance_str (provenance_parse s) = s"
  by (auto simp: provenance_parse_def strip_prefix_Some split: option.splits)

text \<open>
  Silent execution needs a read-tier tool and a trigger chain that is not empty and holds
  user turns only; otherwise the effective tier is one above the declared one (never below it)
  and the confirmation is the one of the effective tier.
\<close>

theorem resolve_policy:
  "(res_confirmation (resolve d ch) = Silent \<longleftrightarrow> d = Read \<and> ch \<noteq> [] \<and> set ch = {PUser}) \<and>
   (res_confirmation (resolve d ch) = Modal \<longleftrightarrow>
      d = Destructive \<or> (d = Write \<and> set ch \<noteq> {PUser})) \<and>
   d \<le> res_effective (resolve d ch)"
proof -
  have "(\<forall>p \<in> set ch. is_trusted p) \<longleftrightarrow> set ch \<subseteq> {PUser}"
    by (auto simp: is_trusted_def)
  then have t: "trusted_chain ch \<longleftrightarrow> set ch = {PUser}"
    by (auto simp: trusted_chain_def subset_singleton_iff)
  have ne: "set ch = {PUser} \<Longrightarrow> ch \<noteq> []" by (cases ch) simp_all
  show ?thesis
  proof (cases "set ch = {PUser}")
    case True
    with ne t show ?thesis by (cases d) simp_all
  next
    case False
    with t show ?thesis by (cases d) (simp_all add: tier_ord)
  qed
qed

text \<open>
  A stranger cannot claim that a human typed its input: for a program that is not one of
  Lisa's, the verified chain holds no user tag, is as long as the asserted one, keeps every other
  link in place, is marked exactly when a user tag was claimed, and therefore never resolves to
  silent execution.
\<close>

theorem stranger_cannot_claim_user:
  fixes asserted :: "provenance list" and c :: claimant
  defines "v \<equiv> verify_chain asserted False c"
  shows "PUser \<notin> set (vc_chain v) \<and>
         length (vc_chain v) = length asserted \<and>
         (\<forall>i < length asserted. vc_chain v ! i =
            (if asserted ! i = PUser then PApp (claimant_str c) else asserted ! i)) \<and>
         (vc_downgraded v \<longleftrightarrow> PUser \<in> set asserted) \<and>
         res_confirmation (resolve d (vc_chain v)) \<noteq> Silent"
proof -
  have n: "PUser \<notin> set (vc_chain v)"
    by (auto simp: v_def verify_chain_def)
  then have "\<not> trusted_chain (vc_chain v)"
    by (cases "vc_chain v") (auto simp: trusted_chain_def is_trusted_def)
  moreover have "escalated d \<noteq> Read" by (cases d) auto
  ultimately show ?thesis using n
    by (auto simp: v_def verify_chain_def)
qed

theorem stranger_cannot_claim_user_witness:
  "vc_chain (verify_chain [PUser, PMail] False (claimant_from ''app.lisaos.Mail'')) ! 0 =
     PApp ''app.lisaos.Mail''"
  using stranger_cannot_claim_user [of "[PUser, PMail]" "claimant_from ''app.lisaos.Mail''"]
  by (simp add: claimant_from_def)

text \<open>
  Parsing a provenance tag and printing it again gives the tag back; printing a link and
  parsing it gives an equally trusted link, and the only trusted tag is the literal \<open>user\<close>.
\<close>

theorem provenance_roundtrip:
  "provenance_str (provenance_parse s) = s \<and>
   (is_trusted (provenance_parse s) \<longleftrightarrow> s = ''user'') \<and>
   provenance_parse (provenance_str (provenance_parse s)) = provenance_parse s"
  by (simp add: is_trusted_parse)

end
