(* ===== verification/Ledger.thy ===== *)
theory Ledger
  imports Json "HOL-Library.Sublist"
begin

text \<open>
  The append-only audit log: \<open>libs/lisa-ledger/src/lib.rs\<close>. The SQLite table is the list of its
  rows in the order of their ids. Whether a statement succeeds at the database level and what the
  clock reads are arguments: \<open>db_ok n\<close> and \<open>wall n\<close> answer for the n-th attempted statement, so a
  theorem for all of them covers every pattern of failures.
\<close>

section \<open>Rows, events and statements\<close>

record event =
  ev_kind :: string
  ev_app_id :: string
  ev_model :: string
  ev_input_hash :: string
  ev_preview :: "char option list"
  ev_status :: string
  ev_detail :: string
  ev_ref_id :: "int option"
  ev_output_tokens :: int
  ev_duration_ms :: int

definition default_event :: event where
  "default_event =
     \<lparr>ev_kind = [], ev_app_id = [], ev_model = [], ev_input_hash = [], ev_preview = [],
      ev_status = [], ev_detail = [], ev_ref_id = None, ev_output_tokens = 0, ev_duration_ms = 0\<rparr>"

record entry =
  en_id :: int
  en_ts :: int
  en_event :: event

datatype ledger_error = LedgerDb | LedgerAppendOnly

record ledger =
  l_entries :: "entry list"
  l_tries :: nat

definition empty_ledger :: ledger where
  "empty_ledger = \<lparr>l_entries = [], l_tries = 0\<rparr>"

definition next_row_id :: "entry list \<Rightarrow> int" where
  "next_row_id es = (if es = [] then 1 else en_id (last es) + 1)"

definition ledger_append ::
    "(nat \<Rightarrow> bool) \<Rightarrow> (nat \<Rightarrow> int) \<Rightarrow> ledger \<Rightarrow> event \<Rightarrow> ledger \<times> (ledger_error + int)" where
  "ledger_append db_ok wall l e =
     (let l' = l\<lparr>l_tries := Suc (l_tries l)\<rparr>; i = next_row_id (l_entries l)
      in if db_ok (l_tries l)
         then (l'\<lparr>l_entries := l_entries l @ [\<lparr>en_id = i, en_ts = wall (l_tries l), en_event = e\<rparr>]\<rparr>,
               Inr i)
         else (l', Inl LedgerDb))"

definition ledger_tail :: "ledger \<Rightarrow> nat \<Rightarrow> entry list" where
  "ledger_tail l limit = take limit (rev (l_entries l))"

definition ledger_count :: "ledger \<Rightarrow> nat" where
  "ledger_count l = length (l_entries l)"

text \<open>
  What the schema lets any holder of the file do: the two triggers abort an UPDATE or a DELETE
  that reaches a row; a statement that matches no row changes nothing.
\<close>

datatype sql_stmt = SqlInsert event | SqlUpdate "entry \<Rightarrow> bool" "entry \<Rightarrow> entry" | SqlDelete "entry \<Rightarrow> bool"

fun exec_sql ::
    "(nat \<Rightarrow> bool) \<Rightarrow> (nat \<Rightarrow> int) \<Rightarrow> ledger \<Rightarrow> sql_stmt \<Rightarrow> ledger \<times> (ledger_error + int)" where
  "exec_sql db_ok wall l (SqlInsert e) = ledger_append db_ok wall l e"
| "exec_sql db_ok wall l (SqlUpdate P f) =
     (let l' = l\<lparr>l_tries := Suc (l_tries l)\<rparr>
      in if \<exists>r \<in> set (l_entries l). P r then (l', Inl LedgerAppendOnly)
         else if db_ok (l_tries l) then (l', Inr 0) else (l', Inl LedgerDb))"
| "exec_sql db_ok wall l (SqlDelete P) =
     (let l' = l\<lparr>l_tries := Suc (l_tries l)\<rparr>
      in if \<exists>r \<in> set (l_entries l). P r then (l', Inl LedgerAppendOnly)
         else if db_ok (l_tries l) then (l', Inr 0) else (l', Inl LedgerDb))"

fun run_sql :: "(nat \<Rightarrow> bool) \<Rightarrow> (nat \<Rightarrow> int) \<Rightarrow> ledger \<Rightarrow> sql_stmt list \<Rightarrow> ledger" where
  "run_sql db_ok wall l [] = l"
| "run_sql db_ok wall l (s # ss) = run_sql db_ok wall (fst (exec_sql db_ok wall l s)) ss"

section \<open>Previews\<close>

definition SECRET_NAMES :: "string list" where
  "SECRET_NAMES =
     [''password'', ''passwd'', ''secret'', ''token'', ''api_key'', ''apikey'', ''access_key'',
      ''private_key'', ''client_secret'', ''auth'', ''credential'', ''bearer'']"

definition TOKEN_PREFIXES :: "string list" where
  "TOKEN_PREFIXES =
     [''sk-'', ''sk_live_'', ''sk_test_'', ''pk_live_'', ''ghp_'', ''gho_'', ''ghu_'', ''ghs_'',
      ''github_pat_'', ''xoxb-'', ''xoxp-'', ''AKIA'', ''ASIA'', ''AIza'', ''hf_'', ''glpat-'']"

definition looks_like_token :: "string \<Rightarrow> bool" where
  "looks_like_token w \<longleftrightarrow> 20 \<le> byte_len w \<and> (\<exists>p \<in> set TOKEN_PREFIXES. starts_with w p)"

text \<open>\<open>str::split_inclusive\<close>: every piece but perhaps the last ends with its separator.\<close>

fun split_incl :: "(char \<Rightarrow> bool) \<Rightarrow> string \<Rightarrow> string list" where
  "split_incl P [] = []"
| "split_incl P (c # s) =
     (if P c then [c] # split_incl P s
      else (case split_incl P s of [] \<Rightarrow> [[c]] | w # ws \<Rightarrow> (c # w) # ws))"

definition is_assign :: "char \<Rightarrow> bool" where
  "is_assign c \<longleftrightarrow> c = CHR ''='' \<or> c = CHR '':''"

definition key_is_secret :: "string \<Rightarrow> bool" where
  "key_is_secret w \<longleftrightarrow>
     (\<exists>c \<in> set w. is_assign c) \<and>
     (\<exists>n \<in> set SECRET_NAMES. contains_str (takeWhile (\<lambda>c. \<not> is_assign c) (ascii_lower w)) n)"

definition REDACTED :: string where
  "REDACTED = ''[redacted]''"

text \<open>
  One iteration of the loop of \<open>redact_secrets\<close>, without the trailing white space of its piece:
  the flag \<open>next_word_is_secret\<close> and the word in, the flag and the text pushed out.
\<close>

definition redact_word :: "bool \<Rightarrow> string \<Rightarrow> bool \<times> string" where
  "redact_word next w =
     (if next \<and> w \<noteq> [] then (False, REDACTED)
      else if key_is_secret w
      then (let key = takeWhile (\<lambda>c. \<not> is_assign c) w;
                sep = take 1 (drop (length key) w);
                value = trim (drop (Suc (length key)) w)
            in if value = [] then (True, key @ sep) else (next, key @ sep @ REDACTED))
      else if looks_like_token w then (next, REDACTED)
      else (next, w))"

definition redact_part :: "bool \<Rightarrow> string \<Rightarrow> bool \<times> string" where
  "redact_part next part =
     (let trimmed = trim_end_by is_ws part;
          trailing = drop (length trimmed) part;
          r = redact_word next trimmed
      in (fst r, snd r @ trailing))"

fun redact_parts :: "bool \<Rightarrow> string list \<Rightarrow> string list" where
  "redact_parts next [] = []"
| "redact_parts next (p # ps) =
     (let r = redact_part next p in snd r # redact_parts (fst r) ps)"

definition redact_secrets :: "string \<Rightarrow> string" where
  "redact_secrets text = concat (redact_parts False (split_incl is_ws text))"

text \<open>
  \<open>strip_control\<close> replaces a control character by U+FFFD, which is outside the model's
  characters: \<open>None\<close> stands for it.
\<close>

definition is_control :: "char \<Rightarrow> bool" where
  "is_control c \<longleftrightarrow> ccode c < 32 \<or> (127 \<le> ccode c \<and> ccode c < 160)"

definition strip_control :: "string \<Rightarrow> char option list" where
  "strip_control text =
     map (\<lambda>c. if ccode c \<in> {10, 13, 9} then Some (CHR '' '')
              else if is_control c then None else Some c) text"

definition preview_of :: "string \<Rightarrow> char option list" where
  "preview_of text = take 160 (strip_control (redact_secrets text))"

section \<open>The table is append-only\<close>

text \<open>Row ids count up from 1, as AUTOINCREMENT hands them out in a table that never deletes.\<close>

definition ledger_ok :: "ledger \<Rightarrow> bool" where
  "ledger_ok l \<longleftrightarrow> map en_id (l_entries l) = map int [1..<Suc (length (l_entries l))]"

lemma next_row_id_ok: "ledger_ok l \<Longrightarrow> next_row_id (l_entries l) = int (Suc (length (l_entries l)))"
proof (cases "l_entries l" rule: rev_cases)
  case Nil
  then show ?thesis by (simp add: next_row_id_def)
next
  case (snoc es e)
  assume "ledger_ok l"
  with snoc have "last (map en_id (es @ [e])) = last (map int [1..<Suc (length (es @ [e]))])"
    by (simp only: ledger_ok_def)
  with snoc show ?thesis by (simp add: next_row_id_def)
qed

lemma ledger_append_ok: "ledger_ok l \<Longrightarrow> ledger_ok (fst (ledger_append db wall l e))"
  using next_row_id_ok [of l] by (auto simp: ledger_append_def ledger_ok_def Let_def)

lemma ledger_append_prefix: "prefix (l_entries l) (l_entries (fst (ledger_append db wall l e)))"
  by (simp add: ledger_append_def Let_def)

lemma ledger_append_Inr:
  "ledger_append db wall l e = (l', Inr i) \<Longrightarrow>
     \<exists>r. l_entries l' = l_entries l @ [r] \<and> en_id r = i \<and> en_event r = e"
  by (auto simp: ledger_append_def Let_def split: if_splits)

lemma ledger_append_Inl:
  "ledger_append db wall l e = (l', Inl x) \<Longrightarrow> l_entries l' = l_entries l"
  by (auto simp: ledger_append_def Let_def split: if_splits)

lemma exec_sql_ok: "ledger_ok l \<Longrightarrow> ledger_ok (fst (exec_sql db wall l st))"
  by (cases st) (auto simp: Let_def ledger_append_ok, auto simp: ledger_ok_def)

lemma exec_sql_prefix: "prefix (l_entries l) (l_entries (fst (exec_sql db wall l st)))"
  by (cases st) (simp_all add: ledger_append_prefix Let_def)

text \<open>
  Whatever statements are run against the ledger, in whatever order and with whatever
  failures, every row that was there stays, unchanged and in its place, and the ids stay
  1, 2, 3, ...; an UPDATE or DELETE that reaches a row is refused.
\<close>

theorem ledger_append_only:
  assumes "ledger_ok l"
  shows "prefix (l_entries l) (l_entries (run_sql db wall l sts)) \<and>
         ledger_ok (run_sql db wall l sts) \<and>
         (\<forall>r \<in> set (l_entries l). \<forall>P f. P r \<longrightarrow>
            snd (exec_sql db wall l (SqlUpdate P f)) = Inl LedgerAppendOnly \<and>
            snd (exec_sql db wall l (SqlDelete P)) = Inl LedgerAppendOnly)"
proof -
  have "prefix (l_entries l) (l_entries (run_sql db wall l sts)) \<and> ledger_ok (run_sql db wall l sts)"
    using assms
  proof (induction sts arbitrary: l)
    case Nil
    then show ?case by simp
  next
    case (Cons st sts)
    let ?l = "fst (exec_sql db wall l st)"
    have "prefix (l_entries ?l) (l_entries (run_sql db wall ?l sts)) \<and> ledger_ok (run_sql db wall ?l sts)"
      using Cons by (simp add: exec_sql_ok)
    with exec_sql_prefix [of l db wall st] show ?case
      by (auto dest: prefix_order.trans)
  qed
  then show ?thesis by (auto simp: Let_def)
qed

theorem ledger_append_only_witness:
  "map en_id (l_entries (run_sql (\<lambda>_. True) (\<lambda>_. 0) empty_ledger
     [SqlInsert default_event, SqlDelete (\<lambda>_. True), SqlInsert default_event])) = [1, 2] \<and>
   ledger_ok (run_sql (\<lambda>_. True) (\<lambda>_. 0) empty_ledger [SqlInsert default_event])"
proof -
  have h: "ledger_ok empty_ledger" by (simp add: ledger_ok_def empty_ledger_def)
  from ledger_append_only [OF h, of "\<lambda>_. True" "\<lambda>_. 0" "[SqlInsert default_event]"] show ?thesis
    by (simp add: ledger_append_def empty_ledger_def next_row_id_def)
qed

section \<open>Redaction\<close>

fun pieces :: "(char \<Rightarrow> bool) \<Rightarrow> string list \<Rightarrow> bool" where
  "pieces P [] = True"
| "pieces P [p] = (p \<noteq> [] \<and> (\<forall>c \<in> set (butlast p). \<not> P c))"
| "pieces P (p # q # ps) = (p \<noteq> [] \<and> P (last p) \<and> (\<forall>c \<in> set (butlast p). \<not> P c) \<and> pieces P (q # ps))"

lemma concat_split_incl [simp]: "concat (split_incl P s) = s"
  by (induction s) (auto split: list.splits)

lemma split_incl_Nil [simp]: "split_incl P s = [] \<longleftrightarrow> s = []"
  by (cases s) (auto split: list.splits)

lemma pieces_Cons:
  "pieces P (p # ps) \<longleftrightarrow>
     p \<noteq> [] \<and> (\<forall>c \<in> set (butlast p). \<not> P c) \<and> (ps \<noteq> [] \<longrightarrow> P (last p)) \<and> pieces P ps"
  by (cases ps) auto

lemma pieces_split_incl: "pieces P (split_incl P s)"
proof (induction s)
  case Nil
  then show ?case by simp
next
  case (Cons c s)
  then show ?case
    by (cases "split_incl P s") (auto simp: pieces_Cons)
qed

lemma split_incl_piece:
  "p \<noteq> [] \<Longrightarrow> \<forall>c \<in> set (butlast p). \<not> P c \<Longrightarrow> (s \<noteq> [] \<longrightarrow> P (last p)) \<Longrightarrow>
     split_incl P (p @ s) = p # split_incl P s"
proof (induction p)
  case Nil
  then show ?case by simp
next
  case (Cons c p)
  then show ?case by (cases "p = []") (auto split: list.splits if_splits)
qed

lemma split_incl_concat: "pieces P ps \<Longrightarrow> split_incl P (concat ps) = ps"
proof (induction ps)
  case Nil
  then show ?case by simp
next
  case (Cons p ps)
  have "concat ps \<noteq> [] \<Longrightarrow> ps \<noteq> []" by auto
  with Cons show ?case
    by (simp add: pieces_Cons split_incl_piece)
qed

text \<open>Trimming words and pieces.\<close>

lemma dropWhile_none: "\<forall>c \<in> set w. \<not> P c \<Longrightarrow> dropWhile P w = w"
  by (cases w) auto

lemma trim_none: "\<forall>c \<in> set w. \<not> is_ws c \<Longrightarrow> trim w = w"
  by (simp add: trim_def trim_by_def trim_start_by_def trim_end_by_def dropWhile_none)

lemma trim_end_none: "\<forall>c \<in> set w. \<not> P c \<Longrightarrow> trim_end_by P w = w"
  by (simp add: trim_end_by_def dropWhile_none)

lemma trim_end_snoc: "\<forall>c \<in> set w. \<not> P c \<Longrightarrow> P d \<Longrightarrow> trim_end_by P (w @ [d]) = w"
  by (simp add: trim_end_by_def dropWhile_none)

text \<open>A piece is a word without white space and at most one white-space character.\<close>

lemma piece_cases:
  assumes "p \<noteq> []" and "\<forall>c \<in> set (butlast p). \<not> is_ws c"
  obtains (word) "\<forall>c \<in> set p. \<not> is_ws c" "trim_end_by is_ws p = p"
  | (spaced) w d where "p = w @ [d]" "is_ws d" "\<forall>c \<in> set w. \<not> is_ws c" "trim_end_by is_ws p = w"
proof (cases "is_ws (last p)")
  case True
  have p: "p = butlast p @ [last p]" using assms(1) by simp
  with True assms(2) have "trim_end_by is_ws p = butlast p"
    by (metis trim_end_snoc)
  with p True assms(2) show thesis by (intro spaced [of "butlast p" "last p"])
next
  case False
  have "p = butlast p @ [last p]" using assms(1) by simp
  then have "set p = insert (last p) (set (butlast p))"
    by (metis Un_insert_right append_Nil2 list.simps(15) set_append)
  with False assms(2) have "\<forall>c \<in> set p. \<not> is_ws c" by auto
  then show thesis by (intro word trim_end_none)
qed

lemma is_assign_lower [simp]: "is_assign (ascii_lower_char c) \<longleftrightarrow> is_assign c"
proof (cases "is_ascii_upper c")
  case True
  then have n: "65 \<le> ccode c" "ccode c \<le> 90" by (simp_all add: is_ascii_upper_def Let_def)
  then have "ccode (char_of (ccode c + 32) :: char) = ccode c + 32" by simp
  moreover have "ccode (CHR ''='') = 61" "ccode (CHR '':'') = 58" by simp_all
  ultimately have "char_of (ccode c + 32) \<noteq> CHR ''=''" "char_of (ccode c + 32) \<noteq> CHR '':''"
    "c \<noteq> CHR ''=''" "c \<noteq> CHR '':''"
    using n by force+
  with True show ?thesis by (simp add: is_assign_def ascii_lower_char_def)
next
  case False
  then show ?thesis by (simp add: ascii_lower_char_def)
qed

lemma takeWhile_lower:
  "takeWhile (\<lambda>c. \<not> is_assign c) (ascii_lower w) = ascii_lower (takeWhile (\<lambda>c. \<not> is_assign c) w)"
  by (simp add: ascii_lower_def takeWhile_map comp_def)

text \<open>A word with a separator is its key, the separator and the value.\<close>

lemma assign_split:
  assumes "\<exists>c \<in> set w. is_assign c"
  obtains key c v where "w = key @ c # v" "is_assign c" "\<forall>d \<in> set key. \<not> is_assign d"
  using split_list_first_prop [OF assms] by blast

definition secret_key :: "string \<Rightarrow> bool" where
  "secret_key key \<longleftrightarrow> (\<exists>n \<in> set SECRET_NAMES. contains_str (ascii_lower key) n)"

lemma takeWhile_key:
  "\<forall>d \<in> set key. \<not> is_assign d \<Longrightarrow> is_assign c \<Longrightarrow>
     takeWhile (\<lambda>c. \<not> is_assign c) (key @ c # v) = key"
  by simp

lemma key_is_secret_assign:
  "\<forall>d \<in> set key. \<not> is_assign d \<Longrightarrow> is_assign c \<Longrightarrow>
     key_is_secret (key @ c # v) \<longleftrightarrow> secret_key key"
  by (simp add: key_is_secret_def takeWhile_lower takeWhile_key secret_key_def)

lemma redact_word_assign:
  assumes "\<forall>d \<in> set key. \<not> is_assign d" and "is_assign c" and "\<forall>d \<in> set v. \<not> is_ws d"
    and "secret_key key"
  shows "redact_word next (key @ c # v) =
           (if next then (False, REDACTED)
            else if v = [] then (True, key @ [c]) else (False, key @ c # REDACTED))"
  using assms by (simp add: redact_word_def key_is_secret_assign takeWhile_key trim_none)

lemma looks_like_token_Nil [simp]: "\<not> looks_like_token []"
  by (simp add: looks_like_token_def byte_len_def)

lemma not_secret_no_assign: "\<forall>d \<in> set w. \<not> is_assign d \<Longrightarrow> \<not> key_is_secret w"
  by (simp add: key_is_secret_def)

lemma REDACTED_facts [simp]:
  "REDACTED \<noteq> []" "\<not> key_is_secret REDACTED" "\<not> looks_like_token REDACTED"
  "\<forall>c \<in> set REDACTED. \<not> is_ws c" "\<forall>c \<in> set REDACTED. \<not> is_assign c"
proof -
  show "\<forall>c \<in> set REDACTED. \<not> is_ws c" by (simp add: REDACTED_def is_ws_def)
  show a: "\<forall>c \<in> set REDACTED. \<not> is_assign c" by (simp add: REDACTED_def is_assign_def)
  from a show "\<not> key_is_secret REDACTED" by (rule not_secret_no_assign)
  show "\<not> looks_like_token REDACTED"
    by (simp add: looks_like_token_def REDACTED_def byte_len_def utf8_len_def)
qed (simp add: REDACTED_def)

text \<open>The three ways a word without white space goes through the loop body.\<close>

lemma redact_word_cases:
  assumes ws: "\<forall>c \<in> set w. \<not> is_ws c"
  obtains (hidden) "redact_word next w = (False, REDACTED)"
  | (label) key c where "redact_word next w = (True, key @ [c])" "w = key @ [c]" "\<not> next"
      "is_assign c" "\<forall>d \<in> set key. \<not> is_assign d" "secret_key key"
  | (assigned) key c where "redact_word next w = (False, key @ c # REDACTED)" "\<not> next"
      "is_assign c" "\<forall>d \<in> set key. \<not> is_assign d" "secret_key key"
      "\<forall>d \<in> set (key @ [c]). \<not> is_ws d"
  | (kept) "redact_word next w = (next, w)" "\<not> key_is_secret w" "\<not> looks_like_token w"
      "next \<longrightarrow> w = []"
proof (cases "key_is_secret w")
  case True
  then have "\<exists>c \<in> set w. is_assign c" by (simp add: key_is_secret_def)
  then obtain key c v where w: "w = key @ c # v" "is_assign c" "\<forall>d \<in> set key. \<not> is_assign d"
    by (rule assign_split)
  with True have sk: "secret_key key" by (simp add: key_is_secret_assign)
  have eq: "redact_word next w = (if next then (False, REDACTED)
      else if v = [] then (True, key @ [c]) else (False, key @ c # REDACTED))"
    using w ws sk by (simp add: redact_word_assign)
  show thesis
  proof (cases "next"; cases "v = []")
    assume "next"
    with eq hidden show thesis by simp
  next
    assume "next"
    with eq hidden show thesis by simp
  next
    assume "\<not> next" "v = []"
    with eq w sk label [of key c] show thesis by simp
  next
    assume "\<not> next" "v \<noteq> []"
    with eq w sk ws assigned [of key c] show thesis by simp
  qed
next
  case False
  then show thesis
    using hidden kept by (cases "next \<and> w \<noteq> []"; cases "looks_like_token w")
      (auto simp: redact_word_def)
qed

text \<open>The loop body on a word is stable, keeps words words, and empties only the empty word.\<close>

lemma redact_word_shape:
  assumes "\<forall>c \<in> set w. \<not> is_ws c"
  shows "(\<forall>c \<in> set (snd (redact_word nxt w)). \<not> is_ws c) \<and>
         (snd (redact_word nxt w) = [] \<longrightarrow> w = []) \<and>
         redact_word nxt (snd (redact_word nxt w)) = redact_word nxt w"
  using assms
proof (cases rule: redact_word_cases [where ?next = nxt])
  case hidden
  then show ?thesis by (auto simp: redact_word_def split: if_splits)
next
  case (label key c)
  with assms show ?thesis by auto
next
  case (assigned key c)
  moreover have "redact_word nxt (key @ c # REDACTED) = (False, key @ c # REDACTED)"
    using assigned by (simp add: redact_word_assign)
  ultimately show ?thesis by auto
next
  case kept
  with assms show ?thesis by auto
qed

text \<open>What the redacted text looks like, word by word.\<close>

definition clean_word :: "bool \<Rightarrow> string \<Rightarrow> bool" where
  "clean_word nxt w \<longleftrightarrow>
     (if nxt \<and> w \<noteq> [] then w = REDACTED
      else if key_is_secret w
      then drop (Suc (length (takeWhile (\<lambda>c. \<not> is_assign c) w))) w \<in> {[], REDACTED}
      else \<not> looks_like_token w)"

fun clean :: "bool \<Rightarrow> string list \<Rightarrow> bool" where
  "clean nxt [] = True"
| "clean nxt (p # ps) =
     (let w = trim_end_by is_ws p
      in clean_word nxt w \<and>
         clean (if nxt \<and> w \<noteq> [] then False
                else nxt \<or> (key_is_secret w \<and> is_assign (last w))) ps)"

lemma redact_word_clean:
  assumes "\<forall>c \<in> set w. \<not> is_ws c"
  shows "clean_word nxt (snd (redact_word nxt w)) \<and>
         fst (redact_word nxt w) =
           (let u = snd (redact_word nxt w)
            in if nxt \<and> u \<noteq> [] then False else nxt \<or> (key_is_secret u \<and> is_assign (last u)))"
  using assms
proof (cases rule: redact_word_cases [where ?next = nxt])
  case hidden
  then show ?thesis by (auto simp: clean_word_def)
next
  case (label key c)
  then show ?thesis
    by (auto simp: clean_word_def key_is_secret_assign takeWhile_key)
next
  case (assigned key c)
  moreover have "last (key @ c # REDACTED) = CHR '']''" by (simp add: REDACTED_def)
  ultimately show ?thesis
    by (auto simp: clean_word_def key_is_secret_assign takeWhile_key is_assign_def)
next
  case kept
  then show ?thesis by (auto simp: clean_word_def)
qed

lemma redact_part_word:
  fixes nxt :: bool and p :: string
  assumes "p \<noteq> []" and "\<forall>c \<in> set (butlast p). \<not> is_ws c"
  defines "q \<equiv> snd (redact_part nxt p)"
  shows "q \<noteq> [] \<and> (\<forall>c \<in> set (butlast q). \<not> is_ws c) \<and> (is_ws (last p) \<longrightarrow> is_ws (last q)) \<and>
         redact_part nxt q = redact_part nxt p \<and>
         trim_end_by is_ws q = snd (redact_word nxt (trim_end_by is_ws p)) \<and>
         fst (redact_part nxt p) = fst (redact_word nxt (trim_end_by is_ws p))"
  using assms(1,2)
proof (cases rule: piece_cases)
  case word
  let ?u = "snd (redact_word nxt p)"
  from redact_word_shape [OF word(1), of nxt]
  have u: "\<forall>c \<in> set ?u. \<not> is_ws c" "redact_word nxt ?u = redact_word nxt p" "?u \<noteq> []"
    using assms(1) by auto
  have q: "q = ?u" using word by (simp add: q_def redact_part_def)
  have "\<not> is_ws (last p)" using word assms(1) by simp
  with u word q show ?thesis
    by (simp add: redact_part_def trim_end_none in_set_butlastD)
next
  case (spaced w d)
  let ?u = "snd (redact_word nxt w)"
  from redact_word_shape [OF spaced(3), of nxt]
  have u: "\<forall>c \<in> set ?u. \<not> is_ws c" "redact_word nxt ?u = redact_word nxt w" by auto
  have q: "q = ?u @ [d]" using spaced by (simp add: q_def redact_part_def Let_def)
  with u spaced show ?thesis
    by (simp add: redact_part_def trim_end_snoc Let_def)
qed

lemma redact_parts_clean:
  "pieces is_ws ps \<Longrightarrow>
     pieces is_ws (redact_parts nxt ps) \<and> clean nxt (redact_parts nxt ps) \<and>
     redact_parts nxt (redact_parts nxt ps) = redact_parts nxt ps"
proof (induction ps arbitrary: nxt)
  case Nil
  then show ?case by simp
next
  case (Cons p ps)
  then have p: "p \<noteq> []" "\<forall>c \<in> set (butlast p). \<not> is_ws c" "ps \<noteq> [] \<longrightarrow> is_ws (last p)"
    and ps: "pieces is_ws ps" by (simp_all add: pieces_Cons)
  have w: "\<forall>c \<in> set (trim_end_by is_ws p). \<not> is_ws c"
    using p(1,2) by (cases rule: piece_cases) auto
  have ne: "redact_parts b ps \<noteq> [] \<longrightarrow> ps \<noteq> []" for b by (cases ps) auto
  note part = redact_part_word [OF p(1,2), of nxt]
  note IH = Cons.IH [OF ps, of "fst (redact_part nxt p)"]
  show ?case
    using part IH p(3) ne redact_word_clean [OF w, of nxt]
    by (auto simp: pieces_Cons Let_def)
qed

text \<open>
  What a Ledger preview can show: at most 160 characters, none of them a control character
  (U+FFFD, \<open>None\<close>, is printable); the redacted text is clean (no word looks like a provider token, a
  secret-named \<open>key=value\<close> keeps no value, the word after a bare secret label is the marker), and
  redacting it again changes nothing.
\<close>

theorem preview_is_safe:
  "length (preview_of s) \<le> 160 \<and>
   (\<forall>c. Some c \<in> set (preview_of s) \<longrightarrow> \<not> is_control c) \<and>
   clean False (split_incl is_ws (redact_secrets s)) \<and>
   redact_secrets (redact_secrets s) = redact_secrets s"
proof -
  let ?ps = "split_incl is_ws s"
  from redact_parts_clean [OF pieces_split_incl [of is_ws s], of False]
  have P: "pieces is_ws (redact_parts False ?ps)" "clean False (redact_parts False ?ps)"
    "redact_parts False (redact_parts False ?ps) = redact_parts False ?ps" by auto
  have e: "split_incl is_ws (redact_secrets s) = redact_parts False ?ps"
    using split_incl_concat [OF P(1)] by (simp add: redact_secrets_def)
  have r: "redact_secrets (redact_secrets s) = redact_secrets s"
    using e P(3) by (simp add: redact_secrets_def)
  have "\<not> is_control (CHR '' '')" by (simp add: is_control_def)
  then have "Some c \<in> set (strip_control t) \<Longrightarrow> \<not> is_control c" for c t
    by (auto simp: strip_control_def split: if_splits)
  with e r P show ?thesis
    by (auto simp: preview_of_def dest: in_set_takeD)
qed

theorem preview_is_safe_witness:
  "redact_secrets ''PASSWORD: hunter2 token=abc ok'' = ''PASSWORD: [redacted] token=[redacted] ok'' \<and>
   clean False (split_incl is_ws (redact_secrets ''PASSWORD: hunter2''))"
proof -
  have "redact_secrets ''PASSWORD: hunter2 token=abc ok'' = ''PASSWORD: [redacted] token=[redacted] ok''"
    by code_simp
  moreover from preview_is_safe [of "''PASSWORD: hunter2''"]
  have "clean False (split_incl is_ws (redact_secrets ''PASSWORD: hunter2''))" by blast
  ultimately show ?thesis by blast
qed

end
