(* ===== verification/Guard_Verdict.thy ===== *)
theory Guard_Verdict
  imports Lisa_Prelude Peer "HOL-Library.Char_ord" "HOL-Library.List_Lexorder"
begin

text \<open>
  Verdicts of the shell guard and the owner's relaxations of them: \<open>Verdict\<close> of
  \<open>libs/lisa-guard/src/lib.rs\<close> and \<open>libs/lisa-guard/src/overrides.rs\<close>. A \<open>BTreeSet\<close> is the
  sorted list of its elements without repetition.
\<close>

section \<open>Verdicts (lib.rs)\<close>

datatype verdict = VAllow | VConfirm string string | VDeny string string

definition is_allowed :: "verdict \<Rightarrow> bool" where
  "is_allowed v \<longleftrightarrow> v = VAllow"

fun is_denied :: "verdict \<Rightarrow> bool" where
  "is_denied (VDeny r m) = True"
| "is_denied v = False"

fun is_overridable :: "verdict \<Rightarrow> bool" where
  "is_overridable (VConfirm r m) = True"
| "is_overridable v = False"

fun verdict_rule :: "verdict \<Rightarrow> string option" where
  "verdict_rule VAllow = None"
| "verdict_rule (VConfirm r m) = Some r"
| "verdict_rule (VDeny r m) = Some r"

fun verdict_reason :: "verdict \<Rightarrow> string option" where
  "verdict_reason VAllow = None"
| "verdict_reason (VConfirm r m) = Some m"
| "verdict_reason (VDeny r m) = Some m"

fun severity :: "verdict \<Rightarrow> nat" where
  "severity VAllow = 0"
| "severity (VConfirm r m) = 1"
| "severity (VDeny r m) = 2"

definition worst :: "verdict \<Rightarrow> verdict \<Rightarrow> verdict" where
  "worst self other = (if severity self < severity other then other else self)"

interpretation vj: severity_join severity worst
  by unfold_locales (simp add: worst_def)

lemma severity_le_2 [simp]: "severity v \<le> 2"
  by (cases v) auto

lemma severity_0 [simp]: "severity v = 0 \<longleftrightarrow> v = VAllow"
  by (cases v) auto

lemma is_denied_severity: "is_denied v \<longleftrightarrow> severity v = 2"
  by (cases v) auto

section \<open>Relaxations (overrides.rs)\<close>

type_synonym overrides = "string list"

definition btree_insert :: "'a::linorder \<Rightarrow> 'a list \<Rightarrow> bool \<times> 'a list" where
  "btree_insert x xs = (x \<notin> set xs, if x \<in> set xs then xs else insort x xs)"

definition btree_remove :: "'a \<Rightarrow> 'a list \<Rightarrow> bool \<times> 'a list" where
  "btree_remove x xs = (x \<in> set xs, remove1 x xs)"

definition btree_collect :: "'a::linorder list \<Rightarrow> 'a list" where
  "btree_collect xs = foldl (\<lambda>acc x. snd (btree_insert x acc)) [] xs"

text \<open>One line of a rule file: what stands before the first \<open>#\<close>, trimmed.\<close>

definition rule_line :: "string \<Rightarrow> string" where
  "rule_line line = trim (hd (split_on (\<lambda>c. c = CHR ''#'') line))"

definition overrides_parse :: "string \<Rightarrow> overrides" where
  "overrides_parse text = btree_collect (filter (\<lambda>l. l \<noteq> []) (map rule_line (str_lines text)))"

abbreviation NL :: string where
  "NL \<equiv> [CHR 10]"

definition OVERRIDES_HEADER :: "string list" where
  "OVERRIDES_HEADER =
     [''# Guard rules this machine's owner has relaxed (ADR-0030).'',
      ''#'',
      ''# A rule listed here stops being a hard refusal and becomes a'',
      ''# warning you can act on. It is never silenced entirely.'',
      ''#'',
      ''# Nothing the agent runs can read or write this file, which is'',
      ''# what makes it safe to have: you can widen your own limits,'',
      ''# and a web page the model happened to read cannot.'',
      ''#'',
      ''# Manage with `lisa guard allow|forbid|list`.'',
      '''']"

definition lines_text :: "string list \<Rightarrow> string" where
  "lines_text ls = concat (map (\<lambda>l. l @ NL) ls)"

definition overrides_render :: "overrides \<Rightarrow> string" where
  "overrides_render ov = lines_text OVERRIDES_HEADER @ lines_text ov"

definition overrides_allow :: "string \<Rightarrow> overrides \<Rightarrow> bool \<times> overrides" where
  "overrides_allow rule ov = btree_insert (trim rule) ov"

definition overrides_forbid :: "string \<Rightarrow> overrides \<Rightarrow> bool \<times> overrides" where
  "overrides_forbid rule ov = btree_remove (trim rule) ov"

definition is_relaxed :: "overrides \<Rightarrow> string \<Rightarrow> bool" where
  "is_relaxed ov rule \<longleftrightarrow> rule \<in> set ov"

fun relax :: "overrides \<Rightarrow> verdict \<Rightarrow> verdict" where
  "relax ov (VDeny rule reason) =
     (if rule \<in> set ov
      then VConfirm rule (reason @ '' -- normally refused, relaxed by `lisa guard allow '' @ rule @ ''`'')
      else VDeny rule reason)"
| "relax ov v = v"

section \<open>Facts\<close>

definition btree_ok :: "'a::linorder list \<Rightarrow> bool" where
  "btree_ok xs \<longleftrightarrow> sorted xs \<and> distinct xs"

lemma btree_insert_ok [simp]: "btree_ok xs \<Longrightarrow> btree_ok (snd (btree_insert x xs))"
  by (simp add: btree_ok_def btree_insert_def sorted_insort distinct_insort)

lemma set_btree_insert [simp]: "set (snd (btree_insert x xs)) = insert x (set xs)"
  by (auto simp: btree_insert_def set_insort_key)

lemma btree_remove_ok [simp]: "btree_ok xs \<Longrightarrow> btree_ok (snd (btree_remove x xs))"
  by (simp add: btree_ok_def btree_remove_def sorted_remove1)

lemma btree_foldl:
  "btree_ok acc \<Longrightarrow>
   btree_ok (foldl (\<lambda>a x. snd (btree_insert x a)) acc xs) \<and>
   set (foldl (\<lambda>a x. snd (btree_insert x a)) acc xs) = set acc \<union> set xs"
  by (induction xs arbitrary: acc) auto

lemma btree_collect_ok [simp]: "btree_ok (btree_collect xs)"
  using btree_foldl [of "[]" xs] by (simp add: btree_collect_def btree_ok_def)

lemma set_btree_collect [simp]: "set (btree_collect xs) = set xs"
  using btree_foldl [of "[]" xs] by (simp add: btree_collect_def btree_ok_def)

lemma btree_eqI: "btree_ok xs \<Longrightarrow> btree_ok ys \<Longrightarrow> set xs = set ys \<Longrightarrow> xs = ys"
  by (simp add: btree_ok_def sorted_distinct_set_unique)

lemma btree_collect_id: "btree_ok xs \<Longrightarrow> btree_collect xs = xs"
  by (rule btree_eqI) simp_all

text \<open>Splitting a text made of lines gives the lines back.\<close>

lemma split_on_append_sep:
  "(\<forall>c \<in> set l. \<not> P c) \<Longrightarrow> P d \<Longrightarrow> split_on P (l @ d # s) = l # split_on P s"
  by (induction l) auto

definition line_ok :: "string \<Rightarrow> bool" where
  "line_ok l \<longleftrightarrow> (\<forall>c \<in> set l. ccode c \<noteq> 10 \<and> ccode c \<noteq> 13)"

lemma split_on_lines_text:
  "(\<forall>l \<in> set ls. line_ok l) \<Longrightarrow>
   split_on (\<lambda>c. ccode c = 10) (lines_text ls) = ls @ [[]]"
  by (induction ls) (auto simp: lines_text_def line_ok_def split_on_append_sep)

lemma str_lines_lines_text:
  assumes "\<forall>l \<in> set ls. line_ok l"
  shows "str_lines (lines_text ls) = ls"
proof -
  have "(if l \<noteq> [] \<and> ccode (last l) = 13 then butlast l else l) = l" if "l \<in> set ls" for l
    using assms that by (auto simp: line_ok_def)
  then show ?thesis
    using split_on_lines_text [OF assms]
    by (simp add: str_lines_def Let_def map_idI)
qed

lemma trim_id:
  assumes "s = [] \<or> (\<not> is_ws (hd s) \<and> \<not> is_ws (last s))"
  shows "trim s = s"
proof -
  have "dropWhile P xs = xs" if "xs = [] \<or> \<not> P (hd xs)" for P :: "char \<Rightarrow> bool" and xs
    using that by (cases xs) auto
  then have "dropWhile is_ws s = s" "dropWhile is_ws (rev s) = rev s"
    using assms by (auto simp: hd_rev)
  then show ?thesis
    by (simp add: trim_def trim_by_def trim_start_by_def trim_end_by_def)
qed

text \<open>A rule id or path that a line of the file can carry.\<close>

definition entry_ok :: "string \<Rightarrow> bool" where
  "entry_ok s \<longleftrightarrow>
     s \<noteq> [] \<and> \<not> is_ws (hd s) \<and> \<not> is_ws (last s) \<and>
     (\<forall>c \<in> set s. c \<noteq> CHR ''#'' \<and> ccode c \<noteq> 10 \<and> ccode c \<noteq> 13)"

lemma split_on_none: "(\<forall>c \<in> set s. \<not> P c) \<Longrightarrow> split_on P s = [s]"
  by (induction s) auto

lemma rule_line_entry [simp]: "entry_ok s \<Longrightarrow> rule_line s = s"
  by (simp add: rule_line_def entry_ok_def split_on_none trim_id)

lemma rule_line_comment [simp]: "rule_line (CHR ''#'' # s) = []"
  by (simp add: rule_line_def trim_id)

lemma entry_line_ok: "entry_ok s \<Longrightarrow> line_ok s"
  by (simp add: entry_ok_def line_ok_def)

lemma header_lines_ok: "\<forall>l \<in> set OVERRIDES_HEADER. line_ok l"
  by code_simp

lemma header_rule_lines: "filter (\<lambda>l. l \<noteq> []) (map rule_line OVERRIDES_HEADER) = []"
  by code_simp

text \<open>
  A relaxation only softens: the relaxed verdict is never more severe, a refusal of a rule
  the owner named becomes a question and never silence, and every other verdict is unchanged.
\<close>

theorem relax_only_softens:
  "severity (relax ov v) \<le> severity v \<and>
   (relax ov v = VAllow \<longleftrightarrow> v = VAllow) \<and>
   (is_denied (relax ov v) \<longleftrightarrow> is_denied v \<and> \<not> is_relaxed ov (the (verdict_rule v))) \<and>
   verdict_rule (relax ov v) = verdict_rule v \<and>
   (relax ov v \<noteq> v \<longrightarrow> is_denied v \<and> is_overridable (relax ov v))"
  by (cases v) (auto simp: is_relaxed_def)

theorem relax_only_softens_witness:
  "is_overridable (relax [''net.egress''] (VDeny ''net.egress'' ''sends data''))"
proof -
  have "relax [''net.egress''] (VDeny ''net.egress'' ''sends data'') \<noteq> VDeny ''net.egress'' ''sends data''"
    by simp
  then show ?thesis
    using relax_only_softens [of "[''net.egress'']" "VDeny ''net.egress'' ''sends data''"] by blast
qed

text \<open>
  The relaxation file round-trips: parsing what \<open>render\<close> wrote gives the same set, header
  comments included, for every set of rule ids that a line can carry.
\<close>

theorem overrides_roundtrip:
  assumes "btree_ok ov" and "\<forall>r \<in> set ov. entry_ok r"
  shows "overrides_parse (overrides_render ov) = ov"
proof -
  have ok: "\<forall>l \<in> set (OVERRIDES_HEADER @ ov). line_ok l"
    using assms(2) header_lines_ok by (auto simp: entry_line_ok)
  have "overrides_render ov = lines_text (OVERRIDES_HEADER @ ov)"
    by (simp add: overrides_render_def lines_text_def)
  then have "str_lines (overrides_render ov) = OVERRIDES_HEADER @ ov"
    using str_lines_lines_text [OF ok] by simp
  moreover have "filter (\<lambda>l. l \<noteq> []) (map rule_line ov) = ov"
    using assms(2) by (induction ov) (auto simp: entry_ok_def)
  ultimately show ?thesis
    using assms(1) header_rule_lines by (simp add: overrides_parse_def btree_collect_id)
qed

theorem overrides_roundtrip_witness:
  "overrides_parse (overrides_render [''escalate.privilege'', ''net.egress'']) =
     [''escalate.privilege'', ''net.egress'']"
proof (rule overrides_roundtrip)
  show "btree_ok [''escalate.privilege'', ''net.egress'']" by code_simp
  show "\<forall>r \<in> set [''escalate.privilege'', ''net.egress'']. entry_ok r" by code_simp
qed

end
