(* ===== verification/Guard_Path.thy ===== *)
theory Guard_Path
  imports Lisa_Prelude
begin

text \<open>
  Paths. The first half is the lexical path vocabulary of the shell rules
  (\<open>normalize_target\<close>, \<open>is_system_target\<close>, \<open>is_under_system_root\<close> of
  \<open>libs/lisa-guard/src/rules.rs\<close>). The second half models \<open>std::path\<close> on Unix: a path is the
  list of its components, which is what \<open>Path\<close> compares, and the file system is two functions,
  reading a symbolic link and asking for the owner of an entry.
\<close>

section \<open>Lexical targets\<close>

definition SYSTEM_ROOTS :: "string list" where
  "SYSTEM_ROOTS =
     [''/'', ''/bin'', ''/boot'', ''/dev'', ''/efi'', ''/etc'', ''/home'', ''/lib'', ''/lib64'', ''/opt'', ''/proc'',
      ''/root'', ''/run'', ''/sbin'', ''/srv'', ''/sys'', ''/usr'', ''/var'']"

definition IMAGE_ROOTS :: "string list" where
  "IMAGE_ROOTS =
     [''/etc'', ''/usr'', ''/boot'', ''/efi'', ''/bin'', ''/sbin'', ''/lib'', ''/lib64'', ''/sys'', ''/proc'',
      ''/dev'', ''/run'']"

definition is_quote :: "char \<Rightarrow> bool" where
  "is_quote c \<longleftrightarrow> c = CHR 34 \<or> c = CHR 39"

definition is_slash :: "char \<Rightarrow> bool" where
  "is_slash c \<longleftrightarrow> c = CHR ''/''"

text \<open>The loop of \<open>normalize_target\<close>; the accumulator is the vector \<open>parts\<close>, last element first.\<close>

fun norm_parts :: "string list \<Rightarrow> string list \<Rightarrow> string list" where
  "norm_parts acc [] = rev acc"
| "norm_parts acc (s # ss) =
     (if s = [] \<or> s = ''.'' \<or> s = ''*'' then norm_parts acc ss
      else if s = ''..'' then norm_parts (tl acc) ss
      else norm_parts (s # acc) ss)"

definition is_home_word :: "string \<Rightarrow> bool" where
  "is_home_word t \<longleftrightarrow> t = ''~'' \<or> t = ''$HOME'' \<or> t = ''${HOME}''"

definition normalize_target :: "string \<Rightarrow> string" where
  "normalize_target target =
     (let trimmed = trim_by is_quote (trim target);
          parts = norm_parts [] (split_on is_slash trimmed)
      in if is_home_word trimmed then trimmed
         else if starts_with trimmed ''/'' then ''/'' @ join ''/'' parts
         else join ''/'' parts)"

definition is_system_target :: "string \<Rightarrow> bool" where
  "is_system_target target =
     (let t = normalize_target target; pieces = split_on is_slash t
      in if t = ''/'' then True
         else if is_home_word t then True
         else if \<not> starts_with t ''/'' then False
         else if t \<in> set SYSTEM_ROOTS then True
         else length (filter (\<lambda>s. s \<noteq> []) pieces) \<le> 2 \<and>
              ''/'' @ (case pieces of _ # f # _ \<Rightarrow> f | _ \<Rightarrow> []) \<in> set SYSTEM_ROOTS)"

definition is_under_system_root :: "string \<Rightarrow> bool" where
  "is_under_system_root target =
     (let t = normalize_target target
      in \<exists>r \<in> set IMAGE_ROOTS. t = r \<or> starts_with t (r @ ''/''))"

section \<open>Paths as component lists\<close>

datatype comp = RootDir | CurDir | ParentDir | Normal string

type_synonym path = "comp list"

definition name_comp :: "string \<Rightarrow> comp" where
  "name_comp s = (if s = ''..'' then ParentDir else Normal s)"

text \<open>\<open>Path::components\<close>: empty and \<open>.\<close> segments vanish, except a leading \<open>.\<close> of a relative path.\<close>

definition path_components :: "string \<Rightarrow> path" where
  "path_components s =
     (let segs = split_on is_slash s;
          body = map name_comp (filter (\<lambda>w. w \<noteq> [] \<and> w \<noteq> ''.'') segs)
      in if starts_with s ''/'' then RootDir # body
         else if hd segs = ''.'' then CurDir # body
         else body)"

definition is_absolute :: "path \<Rightarrow> bool" where
  "is_absolute p \<longleftrightarrow> (case p of RootDir # _ \<Rightarrow> True | _ \<Rightarrow> False)"

fun comp_str :: "comp \<Rightarrow> string" where
  "comp_str RootDir = ''/''"
| "comp_str CurDir = ''.''"
| "comp_str ParentDir = ''..''"
| "comp_str (Normal s) = s"

definition path_str :: "path \<Rightarrow> string" where
  "path_str p =
     (case p of
        RootDir # r \<Rightarrow> ''/'' @ join ''/'' (map comp_str r)
      | _ \<Rightarrow> join ''/'' (map comp_str p))"

text \<open>
  \<open>PathBuf::push\<close> of one component and \<open>PathBuf::pop\<close>. The list stands for the text of the
  path, so a pushed \<open>.\<close> stays in it; \<open>norm_comps\<close> gives the components that \<open>Path\<close>
  compares, where only a leading \<open>.\<close> survives.
\<close>

definition path_push :: "path \<Rightarrow> comp \<Rightarrow> path" where
  "path_push p c = (if c = RootDir then [RootDir] else p @ [c])"

fun norm_comps :: "path \<Rightarrow> path" where
  "norm_comps [] = []"
| "norm_comps (c # p) = c # filter (\<lambda>d. d \<noteq> CurDir) p"

definition path_eq :: "path \<Rightarrow> path \<Rightarrow> bool" where
  "path_eq p q \<longleftrightarrow> norm_comps p = norm_comps q"

definition path_pop :: "path \<Rightarrow> path" where
  "path_pop p = (if p = [] \<or> p = [RootDir] then p else butlast p)"

definition path_join :: "path \<Rightarrow> string \<Rightarrow> path" where
  "path_join p s = foldl path_push p (path_components s)"

definition path_starts_with :: "path \<Rightarrow> path \<Rightarrow> bool" where
  "path_starts_with p q \<longleftrightarrow> starts_with (norm_comps p) (norm_comps q)"

definition path_strip_prefix :: "path \<Rightarrow> path \<Rightarrow> path option" where
  "path_strip_prefix p q = strip_prefix (norm_comps p) (norm_comps q)"

definition file_name :: "path \<Rightarrow> string option" where
  "file_name p = (if p = [] then None else (case last p of Normal s \<Rightarrow> Some s | _ \<Rightarrow> None))"

section \<open>Resolution (action.rs)\<close>

record fs =
  fs_readlink :: "path \<Rightarrow> path option"
  fs_uid :: "path \<Rightarrow> (32 word) option"

definition lexical_step :: "path \<Rightarrow> comp \<Rightarrow> path" where
  "lexical_step out c =
     (case c of
        CurDir \<Rightarrow> out
      | ParentDir \<Rightarrow> path_pop out
      | _ \<Rightarrow> path_push out c)"

definition lexical_normalize :: "path \<Rightarrow> path" where
  "lexical_normalize p = foldl lexical_step [] p"

definition MAX_HOPS :: nat where
  "MAX_HOPS = 40"

text \<open>
  The loop of \<open>resolution_chain\<close>: hops so far, the path walked so far, the queue of components to
  go; the result is the chain of spellings from here on.
\<close>

function chain_loop :: "fs \<Rightarrow> nat \<Rightarrow> path \<Rightarrow> comp list \<Rightarrow> path list" where
  "chain_loop f hops out [] = [out]"
| "chain_loop f hops out (RootDir # q) = chain_loop f hops [RootDir] q"
| "chain_loop f hops out (CurDir # q) = chain_loop f hops out q"
| "chain_loop f hops out (ParentDir # q) = chain_loop f hops (path_pop out) q"
| "chain_loop f hops out (Normal n # q) =
     (let out' = path_push out (Normal n)
      in if MAX_HOPS \<le> hops then chain_loop f hops out' q
         else (case fs_readlink f out' of
                 None \<Rightarrow> chain_loop f hops out' q
               | Some link \<Rightarrow>
                   (let base = path_pop out'; q' = link @ q
                    in foldl path_push base q' # chain_loop f (Suc hops) base q')))"
  by pat_completeness auto
termination
  by (relation "measures [\<lambda>(f, hops, out, q). MAX_HOPS - hops, \<lambda>(f, hops, out, q). length q]")
    (auto simp: MAX_HOPS_def)

definition resolution_chain :: "fs \<Rightarrow> path \<Rightarrow> path list" where
  "resolution_chain f p = chain_loop f 0 [] p"

definition real_path :: "fs \<Rightarrow> path \<Rightarrow> path" where
  "real_path f p = last (resolution_chain f p)"

function owner_uid :: "fs \<Rightarrow> path \<Rightarrow> (32 word) option" where
  "owner_uid f p =
     (case fs_uid f p of
        Some u \<Rightarrow> Some u
      | None \<Rightarrow> if p = [] \<or> p = [RootDir] then None else owner_uid f (butlast p))"
  by pat_completeness auto
termination
  by (relation "measure (\<lambda>(f, p). length p)") auto

declare owner_uid.simps [simp del]

definition spellings :: "fs \<Rightarrow> path \<Rightarrow> path list" where
  "spellings f p =
     (let lexical = lexical_normalize p; real = real_path f lexical
      in if lexical = real then [lexical] else [lexical, real])"

definition roots_of :: "fs \<Rightarrow> path option \<Rightarrow> path list" where
  "roots_of f p = (case p of None \<Rightarrow> [] | Some q \<Rightarrow> spellings f q)"

definition hides_something :: "path \<Rightarrow> bool" where
  "hides_something rel \<longleftrightarrow> (\<exists>c \<in> set rel. starts_with (comp_str c) ''.'')"

definition starts_with_str :: "path \<Rightarrow> string \<Rightarrow> bool" where
  "starts_with_str p pre \<longleftrightarrow> (let t = path_str p in t = pre \<or> starts_with t (pre @ ''/''))"

definition display_rel :: "path list \<Rightarrow> path \<Rightarrow> string" where
  "display_rel homes p =
     (case filter (\<lambda>h. path_strip_prefix p h \<noteq> None) homes of
        [] \<Rightarrow> path_str p
      | h # _ \<Rightarrow> ''~/'' @ path_str (the (path_strip_prefix p h)))"

end
