(* ===== verification/Guard_Owner.thy ===== *)
theory Guard_Owner
  imports Guard_Path Guard_Verdict
begin

text \<open>
  Paths the owner put out of bounds: \<open>libs/lisa-guard/src/protections.rs\<close>. The set of paths is a
  \<open>BTreeSet\<close>, so paths carry the order that \<open>Path\<close> derives from its components.
\<close>

section \<open>The order of paths\<close>

fun comp_key :: "comp \<Rightarrow> nat \<times> string" where
  "comp_key RootDir = (0, [])"
| "comp_key CurDir = (1, [])"
| "comp_key ParentDir = (2, [])"
| "comp_key (Normal s) = (3, s)"

lemma comp_key_inj: "comp_key a = comp_key b \<Longrightarrow> a = b"
  by (cases a; cases b) auto

instantiation comp :: linorder
begin

definition less_eq_comp :: "comp \<Rightarrow> comp \<Rightarrow> bool" where
  "less_eq_comp a b \<longleftrightarrow>
     fst (comp_key a) < fst (comp_key b) \<or>
     (fst (comp_key a) = fst (comp_key b) \<and> snd (comp_key a) \<le> snd (comp_key b))"

definition less_comp :: "comp \<Rightarrow> comp \<Rightarrow> bool" where
  "less_comp a b \<longleftrightarrow> a \<le> b \<and> \<not> b \<le> (a :: comp)"

instance
proof
  fix a b c :: comp
  show "a < b \<longleftrightarrow> a \<le> b \<and> \<not> b \<le> a" by (rule less_comp_def)
  show "a \<le> a" by (simp add: less_eq_comp_def)
  show "a \<le> b \<Longrightarrow> b \<le> c \<Longrightarrow> a \<le> c" by (auto simp: less_eq_comp_def)
  show "a \<le> b \<Longrightarrow> b \<le> a \<Longrightarrow> a = b"
    by (rule comp_key_inj) (auto simp: less_eq_comp_def prod_eq_iff)
  show "a \<le> b \<or> b \<le> a" by (auto simp: less_eq_comp_def)
qed

end

section \<open>Protections\<close>

type_synonym protections = "path list"

definition protections_from_paths :: "string list \<Rightarrow> protections" where
  "protections_from_paths ps = btree_collect (map path_components ps)"

definition protections_add :: "string \<Rightarrow> protections \<Rightarrow> bool \<times> protections" where
  "protections_add s ps =
     (let p = path_components s
      in if \<not> is_absolute p then (False, ps) else btree_insert p ps)"

definition protections_remove :: "string \<Rightarrow> protections \<Rightarrow> bool \<times> protections" where
  "protections_remove s ps = btree_remove (path_components s) ps"

definition covers :: "protections \<Rightarrow> path \<Rightarrow> bool" where
  "covers ps target \<longleftrightarrow> (\<exists>p \<in> set ps. path_starts_with target p)"

definition protections_parse :: "string \<Rightarrow> protections" where
  "protections_parse text =
     foldl (\<lambda>out line. let l = rule_line line in if l \<noteq> [] then snd (protections_add l out) else out)
       [] (str_lines text)"

definition PROTECTIONS_HEADER :: "string list" where
  "PROTECTIONS_HEADER =
     [''# Folders agents may not change on this machine (#253).'',
      ''#'',
      ''# One absolute path per line. Adding a line TIGHTENS what agents'',
      ''# may do and is always safe. Nothing here can widen anything:'',
      ''# removing a line takes back only what you added, never a rule'',
      ''# Lisa ships. Loosening lives in `guard-allow`, next to this file.'',
      ''#'',
      ''# Written by Settings; safe to edit by hand.'']"

text \<open>The text \<open>save\<close> writes; creating the directory and writing the file are not modelled.\<close>

definition protections_save :: "protections \<Rightarrow> string" where
  "protections_save ps = lines_text PROTECTIONS_HEADER @ lines_text (map path_str ps)"

section \<open>Facts\<close>

definition line_path :: "string \<Rightarrow> path option" where
  "line_path line =
     (let l = rule_line line; p = path_components l
      in if l \<noteq> [] \<and> is_absolute p then Some p else None)"

lemma parse_fold:
  "btree_ok acc \<Longrightarrow>
   btree_ok (foldl (\<lambda>out line. let l = rule_line line in
       if l \<noteq> [] then snd (protections_add l out) else out) acc ls) \<and>
   set (foldl (\<lambda>out line. let l = rule_line line in
       if l \<noteq> [] then snd (protections_add l out) else out) acc ls) =
     set acc \<union> {p. \<exists>l \<in> set ls. line_path l = Some p}"
proof (induction ls arbitrary: acc)
  case Nil
  then show ?case by simp
next
  case (Cons l ls)
  then show ?case
    by (auto simp: Let_def protections_add_def line_path_def)
qed

lemma protections_parse_ok [simp]: "btree_ok (protections_parse text)"
  using parse_fold [of "[]"] by (simp add: protections_parse_def btree_ok_def)

lemma set_protections_parse:
  "set (protections_parse text) = {p. \<exists>l \<in> set (str_lines text). line_path l = Some p}"
  using parse_fold [of "[]" "str_lines text"]
  by (simp add: protections_parse_def btree_ok_def)

lemma covers_insert: "covers (snd (btree_insert p ps)) t \<longleftrightarrow> path_starts_with t p \<or> covers ps t"
  by (auto simp: covers_def)

text \<open>
  A path that \<open>Path\<close> could have parsed: absolute, with names that hold no slash and are not the
  reserved ones.
\<close>

definition name_ok :: "string \<Rightarrow> bool" where
  "name_ok s \<longleftrightarrow> s \<noteq> [] \<and> s \<noteq> ''.'' \<and> s \<noteq> ''..'' \<and> CHR ''/'' \<notin> set s"

fun seg_ok :: "comp \<Rightarrow> bool" where
  "seg_ok (Normal s) = name_ok s"
| "seg_ok ParentDir = True"
| "seg_ok c = False"

fun clean_path :: "path \<Rightarrow> bool" where
  "clean_path (RootDir # p) = (\<forall>c \<in> set p. seg_ok c)"
| "clean_path p = False"

lemma seg_ok_text:
  assumes "seg_ok c"
  shows "name_comp (comp_str c) = c" "comp_str c \<noteq> []" "comp_str c \<noteq> ''.''"
    "d \<in> set (comp_str c) \<Longrightarrow> \<not> is_slash d"
  using assms by (cases c; auto simp: name_ok_def name_comp_def is_slash_def)+

lemma split_on_join:
  assumes "P d" and "ws \<noteq> []" and "\<forall>w \<in> set ws. \<forall>c \<in> set w. \<not> P c"
  shows "split_on P (join [d] ws) = ws"
  using assms(2,3)
proof (induction ws rule: induct_list012)
  case (3 w v ws)
  then show ?case using assms(1) by (simp add: split_on_append_sep)
qed (simp_all add: split_on_none)

lemma components_path_str:
  assumes "clean_path p"
  shows "path_components (path_str p) = p"
proof -
  obtain r where p: "p = RootDir # r"
    and r: "\<forall>c \<in> set r. seg_ok c"
    using assms by (cases p rule: clean_path.cases) auto
  have rt: "map name_comp (filter (\<lambda>w. w \<noteq> [] \<and> w \<noteq> ''.'') (map comp_str r)) = r"
    using r by (induction r) (simp_all add: seg_ok_text)
  have seg: "\<forall>w \<in> set (map comp_str r). \<forall>c \<in> set w. \<not> is_slash c"
    using r by (auto simp: seg_ok_text(4))
  have sl: "is_slash (CHR ''/'')" by (simp add: is_slash_def)
  have "split_on is_slash (path_str p) =
      [] # (if r = [] then [[]] else map comp_str r)"
    using split_on_join [of is_slash, OF sl, of "map comp_str r"] seg sl
    by (simp add: p path_str_def)
  moreover have "starts_with (path_str p) ''/''"
    by (simp add: p path_str_def)
  ultimately show ?thesis
    using rt by (simp add: path_components_def p Let_def)
qed

definition savable :: "path \<Rightarrow> bool" where
  "savable p \<longleftrightarrow> clean_path p \<and> entry_ok (path_str p)"

lemma savable_line: "savable p \<Longrightarrow> line_path (path_str p) = Some p"
  by (cases p rule: clean_path.cases)
    (auto simp: savable_def line_path_def components_path_str Let_def is_absolute_def entry_ok_def)

lemma protections_header_ok: "\<forall>l \<in> set PROTECTIONS_HEADER. line_ok l"
  by code_simp

lemma protections_header_dropped: "\<forall>l \<in> set PROTECTIONS_HEADER. line_path l = None"
  by code_simp

text \<open>
  Every line of the protections file stands alone: the parsed set holds exactly the absolute
  paths of the lines (comments and blanks dropped), so a bad line costs itself and no other, a
  target is covered exactly when one such path is a component-wise prefix of it, and adding a
  path afterwards never uncovers anything.
\<close>

theorem protections_parse_lines:
  "(covers (protections_parse text) t \<longleftrightarrow>
      (\<exists>l \<in> set (str_lines text). \<exists>p. line_path l = Some p \<and> path_starts_with t p)) \<and>
   covers (snd (protections_add s (protections_parse text))) t =
     (covers (protections_parse text) t \<or>
      (is_absolute (path_components s) \<and> path_starts_with t (path_components s)))"
  by (auto simp: covers_def set_protections_parse protections_add_def Let_def)

text \<open>
  What \<open>save\<close> writes is what \<open>load\<close> reads, for every set of paths that a line of the file
  can carry.
\<close>

theorem protections_roundtrip:
  assumes "btree_ok ps" and "\<forall>p \<in> set ps. savable p"
  shows "protections_parse (protections_save ps) = ps"
proof (rule btree_eqI)
  let ?ls = "PROTECTIONS_HEADER @ map path_str ps"
  have ok: "\<forall>l \<in> set ?ls. line_ok l"
    using assms(2) protections_header_ok by (auto simp: savable_def entry_line_ok)
  have "protections_save ps = lines_text ?ls"
    by (simp add: protections_save_def lines_text_def)
  then have "str_lines (protections_save ps) = ?ls"
    using str_lines_lines_text [OF ok] by simp
  then show "set (protections_parse (protections_save ps)) = set ps"
    using assms(2) protections_header_dropped
    by (force simp: set_protections_parse savable_line)
  show "btree_ok ps" by (rule assms(1))
qed simp

theorem protections_roundtrip_witness:
  "protections_parse (protections_save
     [path_components ''/home/me/Legal'', path_components ''/home/me/Tax'']) =
   [path_components ''/home/me/Legal'', path_components ''/home/me/Tax'']"
proof (rule protections_roundtrip)
  show "btree_ok [path_components ''/home/me/Legal'', path_components ''/home/me/Tax'']"
    by code_simp
  show "\<forall>p \<in> set [path_components ''/home/me/Legal'', path_components ''/home/me/Tax'']. savable p"
    by code_simp
qed

text \<open>
  Outside that class the file is not faithful: a folder with \<open>#\<close> in its name is accepted by
  \<open>add\<close>, but what is saved is read back as a different folder, and the protected one is no
  longer covered.
\<close>

theorem hash_protection_is_lost:
  "let s = ''/home/me/Plans#1''; ps = snd (protections_add s []);
       back = protections_parse (protections_save ps)
   in covers ps (path_components s) \<and> \<not> covers back (path_components s) \<and>
      covers back (path_components ''/home/me/Plans'')"
  by code_simp

end
