(* ===== verification/Guard_Action.thy ===== *)
theory Guard_Action
  imports Json Guard_Owner
begin

text \<open>
  Verdicts for Agent Bus tool calls: \<open>libs/lisa-guard/src/action.rs\<close>. A call is judged from the
  tool's name, its argument tree and the grant of the run; the file system is the parameter
  \<open>fs\<close> of \<open>Guard_Path\<close>. Rust's em dash is written \<open>--\<close> in messages.
\<close>

section \<open>Data\<close>

datatype action_class = ClRead | ClWrite | ClDelete

fun class_verb :: "action_class \<Rightarrow> string" where
  "class_verb ClRead = ''read''"
| "class_verb ClWrite = ''write to''"
| "class_verb ClDelete = ''delete''"

definition mutates :: "action_class \<Rightarrow> bool" where
  "mutates c \<longleftrightarrow> c \<noteq> ClRead"

datatype trigger = Prompt | Unattended

record grant =
  g_home :: "path option"
  g_uid :: "(32 word) option"
  g_workspace :: "path option"
  g_scratch :: "path option"
  g_allowlist :: "path list"
  g_protections :: protections
  g_trigger :: trigger
  g_trusted :: bool

definition default_grant :: grant where
  "default_grant =
     \<lparr>g_home = None, g_uid = None, g_workspace = None, g_scratch = None, g_allowlist = [],
      g_protections = [], g_trigger = Unattended, g_trusted = False\<rparr>"

text \<open>The environment of the process: \<open>$HOME\<close>, its uid and the owner's protections.\<close>

definition grant_for_this_user :: "string option \<Rightarrow> 32 word \<Rightarrow> protections \<Rightarrow> grant" where
  "grant_for_this_user home uid protections =
     default_grant\<lparr>g_home := map_option path_components home, g_uid := Some uid,
       g_protections := protections\<rparr>"

definition with_trigger :: "trigger \<Rightarrow> grant \<Rightarrow> grant" where
  "with_trigger t g = g\<lparr>g_trigger := t\<rparr>"

definition with_trusted_chain :: "bool \<Rightarrow> grant \<Rightarrow> grant" where
  "with_trusted_chain b g = g\<lparr>g_trusted := b\<rparr>"

definition home_roots :: "fs \<Rightarrow> grant \<Rightarrow> path list" where
  "home_roots f g = roots_of f (g_home g)"

record action =
  a_app :: string
  a_tool :: string
  a_class :: action_class
  a_args :: json

datatype action_verdict =
    AHardNo string string
  | ANo string string string
  | AAsk string bool
  | AAllow

fun is_refused :: "action_verdict \<Rightarrow> bool" where
  "is_refused (AHardNo r m) = True"
| "is_refused (ANo r m n) = True"
| "is_refused v = False"

fun is_hard_no :: "action_verdict \<Rightarrow> bool" where
  "is_hard_no (AHardNo r m) = True"
| "is_hard_no v = False"

fun av_rule :: "action_verdict \<Rightarrow> string option" where
  "av_rule (AHardNo r m) = Some r"
| "av_rule (ANo r m n) = Some r"
| "av_rule v = None"

fun av_reason :: "action_verdict \<Rightarrow> string option" where
  "av_reason (AHardNo r m) = Some m"
| "av_reason (ANo r m n) = Some m"
| "av_reason v = None"

fun av_severity :: "action_verdict \<Rightarrow> nat" where
  "av_severity AAllow = 0"
| "av_severity (AAsk e r) = 1"
| "av_severity (ANo r m n) = 2"
| "av_severity (AHardNo r m) = 3"

definition av_worst :: "action_verdict \<Rightarrow> action_verdict \<Rightarrow> action_verdict" where
  "av_worst self other = (if av_severity self < av_severity other then other else self)"

interpretation avj: severity_join av_severity av_worst
  by unfold_locales (simp add: av_worst_def)

section \<open>Reading the arguments\<close>

fun strings_walk :: "json \<Rightarrow> string \<Rightarrow> (string \<times> string) list" where
  "strings_walk (JStr s) key = [(key, s)]"
| "strings_walk (JArr items) key = concat (map (\<lambda>i. strings_walk i key) items)"
| "strings_walk (JObj kvs) key = concat (map (\<lambda>p. strings_walk (snd p) (fst p)) kvs)"
| "strings_walk v key = []"

definition strings_of :: "json \<Rightarrow> (string \<times> string) list" where
  "strings_of args = strings_walk args []"

fun flags_walk :: "json \<Rightarrow> string \<Rightarrow> (string \<times> bool) list" where
  "flags_walk (JBool b) key = [(key, b)]"
| "flags_walk (JArr items) key = concat (map (\<lambda>i. flags_walk i key) items)"
| "flags_walk (JObj kvs) key = concat (map (\<lambda>p. flags_walk (snd p) (fst p)) kvs)"
| "flags_walk v key = []"

definition flags_of :: "json \<Rightarrow> (string \<times> bool) list" where
  "flags_of args = flags_walk args []"

fun keys_of :: "json \<Rightarrow> string list" where
  "keys_of (JArr items) = concat (map keys_of items)"
| "keys_of (JObj kvs) = concat (map (\<lambda>p. fst p # keys_of (snd p)) kvs)"
| "keys_of v = []"

definition strip_file_uri :: "string \<Rightarrow> string" where
  "strip_file_uri s =
     (case strip_prefix s ''file://'' of
        None \<Rightarrow> s
      | Some rest \<Rightarrow> (case strip_prefix rest ''localhost'' of None \<Rightarrow> rest | Some r \<Rightarrow> r))"

definition is_path_shaped :: "string \<Rightarrow> bool" where
  "is_path_shaped s =
     (let t = strip_file_uri (trim s)
      in if t = [] then False
         else if is_home_word t \<or> t = ''..'' then True
         else starts_with t ''/'' \<or> starts_with t ''~/'' \<or> starts_with t ''$HOME/'' \<or>
              starts_with t ''${HOME}/'' \<or> starts_with t ''./'' \<or> starts_with t ''../'' \<or>
              ''..'' \<in> set (split_on is_slash t))"

definition path_arguments :: "json \<Rightarrow> string list" where
  "path_arguments args = filter is_path_shaped (map snd (strings_of args))"

definition or_else :: "'a option \<Rightarrow> 'a option \<Rightarrow> 'a option" where
  "or_else a b = (case a of None \<Rightarrow> b | Some x \<Rightarrow> Some x)"

definition absolutize :: "string \<Rightarrow> grant \<Rightarrow> path option" where
  "absolutize raw g =
     (let t = strip_file_uri (trim_by is_quote (trim raw)); home = g_home g
      in case or_else (strip_prefix t ''~/'')
                (or_else (strip_prefix t ''$HOME/'') (strip_prefix t ''${HOME}/'')) of
           Some rest \<Rightarrow> map_option (\<lambda>h. path_join h rest) home
         | None \<Rightarrow>
             if is_home_word t then home
             else if starts_with t ''/'' then Some (path_components t)
             else map_option (\<lambda>r. path_join r t)
                    (or_else (g_workspace g) (or_else (g_scratch g) home)))"

definition truthy :: "string \<Rightarrow> bool" where
  "truthy v \<longleftrightarrow> ascii_lower (trim v) \<in> {''1'', ''true'', ''yes'', ''on'', ''root''}"

definition describe_tool :: "action \<Rightarrow> string" where
  "describe_tool a = join '' '' (words (a_tool a))"

section \<open>Targets\<close>

record target =
  t_raw :: string
  t_forms :: "path list"

definition push_form :: "path list \<Rightarrow> path \<Rightarrow> path list" where
  "push_form forms p = (if \<exists>q \<in> set forms. path_eq q p then forms else forms @ [p])"

definition target_of :: "fs \<Rightarrow> string \<Rightarrow> grant \<Rightarrow> target option" where
  "target_of f raw g =
     map_option (\<lambda>absolute. let lexical = lexical_normalize absolute in
         \<lparr>t_raw = raw, t_forms = foldl push_form [lexical] (resolution_chain f lexical)\<rparr>)
       (absolutize raw g)"

definition t_any :: "target \<Rightarrow> (path \<Rightarrow> bool) \<Rightarrow> bool" where
  "t_any t P \<longleftrightarrow> (\<exists>p \<in> set (t_forms t). P p)"

definition all_inside :: "target \<Rightarrow> path list \<Rightarrow> bool" where
  "all_inside t roots \<longleftrightarrow>
     roots \<noteq> [] \<and> (\<forall>p \<in> set (t_forms t). \<exists>r \<in> set roots. path_starts_with p r)"

definition t_resolved :: "target \<Rightarrow> path" where
  "t_resolved t = (if t_forms t = [] then [] else last (t_forms t))"

section \<open>HARD NO by what the call is\<close>

definition EXEC_WORDS :: "string list" where
  "EXEC_WORDS =
     [''exec'', ''execute'', ''shell'', ''bash'', ''zsh'', ''ksh'', ''sh'', ''terminal'', ''subprocess'',
      ''spawn'', ''eval'', ''command'', ''cmd'', ''interpreter'', ''repl'', ''pty'']"

definition EXEC_KEYS :: "string list" where
  "EXEC_KEYS = [''command'', ''cmd'', ''shell'', ''script'', ''argv'', ''exec'']"

definition hands_over_a_shell :: "action \<Rightarrow> action_verdict option" where
  "hands_over_a_shell a =
     (let named = (\<exists>w \<in> set (words (a_tool a)). w \<in> set EXEC_WORDS);
          keyed = (\<exists>k \<in> set (keys_of (a_args a)). ascii_lower k \<in> set EXEC_KEYS)
      in if named \<or> keyed
         then Some (AHardNo ''exec.shell''
           (''`'' @ a_tool a @ ''` runs a command of the model's choosing. An agent does not get a shell -- everything the shell guard refuses would arrive through this one''))
         else None)"

definition ESCALATORS :: "string list" where
  "ESCALATORS = [''sudo'', ''doas'', ''pkexec'', ''run0'', ''setuid'', ''escalate'']"

definition asks_for_root :: "string \<Rightarrow> bool" where
  "asks_for_root key =
     (let k = ascii_lower key
      in contains_str k ''sudo'' \<or> contains_str k ''privileg'' \<or> contains_str k ''elevat'' \<or>
         contains_str k ''root'')"

definition is_escalator :: "string \<Rightarrow> bool" where
  "is_escalator v =
     (case split_whitespace v of
        [] \<Rightarrow> False
      | first # _ \<Rightarrow> trim_start_matches first ''/usr/bin/'' \<in> set ESCALATORS)"

definition escalates_privilege :: "action \<Rightarrow> action_verdict option" where
  "escalates_privilege a =
     (let named = (\<exists>w \<in> set (words (a_tool a)). w \<in> set ESCALATORS);
          asked =
            ((\<exists>(key, v) \<in> set (strings_of (a_args a)).
                (asks_for_root key \<and> truthy v) \<or> is_escalator v) \<or>
             (\<exists>(key, on) \<in> set (flags_of (a_args a)). on \<and> asks_for_root key))
      in if named \<or> asked
         then Some (AHardNo ''escalate.privilege''
           (''`'' @ a_tool a @ ''` asks to act as root. An agent never escalates privilege on its own -- that is a decision for the person at their own prompt''))
         else None)"

definition FILL_WORDS :: "string list" where
  "FILL_WORDS = [''fill'', ''autofill'', ''type'', ''keyboard'', ''input'', ''enter'']"

definition CREDENTIAL :: "string list" where
  "CREDENTIAL =
     [''password'', ''passwd'', ''passphrase'', ''otp'', ''totp'', ''cvv'', ''cvc'', ''credential'', ''secret'']"

definition fills_a_credential :: "action \<Rightarrow> action_verdict option" where
  "fills_a_credential a =
     (if \<not> mutates (a_class a) then None
      else if \<not> (\<exists>w \<in> set (words (a_tool a)). w \<in> set FILL_WORDS) then None
      else if \<exists>(key, v) \<in> set (strings_of (a_args a)).
                \<exists>c \<in> set CREDENTIAL. contains_str (ascii_lower (key @ '' '' @ v)) c
      then Some (AHardNo ''fill.password_field''
        (''`'' @ a_tool a @ ''` is aimed at a credential field. Nothing an agent legitimately does involves typing a password -- sign in yourself''))
      else None)"

definition SECRET_WORDS :: "string list" where
  "SECRET_WORDS =
     [''password'', ''passwords'', ''passwd'', ''passphrase'', ''keyring'', ''keychain'', ''credential'',
      ''credentials'', ''secret'', ''secrets'', ''totp'']"

definition reads_a_credential :: "action \<Rightarrow> action_verdict option" where
  "reads_a_credential a =
     (let named = (\<exists>w \<in> set (words (a_tool a)). w \<in> set SECRET_WORDS);
          keyed = (\<exists>k \<in> set (keys_of (a_args a)). \<exists>w \<in> set (words k). w \<in> set SECRET_WORDS)
      in if named \<or> keyed
         then Some (AHardNo ''secret.read''
           (''`'' @ a_tool a @ ''` would read a stored credential. The keyring is not the agent's to open -- no tier, no grant and no dialog makes it so''))
         else None)"

section \<open>HARD NO by where the call points\<close>

definition writes_raw_device :: "action \<Rightarrow> target \<Rightarrow> action_verdict option" where
  "writes_raw_device a t =
     (if mutates (a_class a) \<and> t_any t (\<lambda>p. starts_with_str p ''/dev'')
      then Some (AHardNo ''disk.raw_write''
        (''`'' @ t_raw t @ ''` is a raw device -- writing it destroys whatever is on the disk''))
      else None)"

definition is_system_or_home :: "path list \<Rightarrow> path \<Rightarrow> bool" where
  "is_system_or_home homes p \<longleftrightarrow>
     (\<exists>h \<in> set homes. path_eq h p) \<or> is_system_target (path_str p) \<or> is_under_system_root (path_str p)"

definition destroys_the_system_or_a_home :: "fs \<Rightarrow> action \<Rightarrow> grant \<Rightarrow> target \<Rightarrow> action_verdict option" where
  "destroys_the_system_or_a_home f a g t =
     (if \<not> mutates (a_class a) then None
      else if t_any t (is_system_or_home (home_roots f g))
      then Some (AHardNo ''rm.system_path''
        (''`'' @ t_raw t @ ''` is the system, or a whole home directory. There is no agent task that needs it '' @
         (case a_class a of ClDelete \<Rightarrow> ''deleted'' | _ \<Rightarrow> ''rewritten'')))
      else None)"

definition the_owner_put_it_out_of_bounds :: "action \<Rightarrow> grant \<Rightarrow> target \<Rightarrow> action_verdict option" where
  "the_owner_put_it_out_of_bounds a g t =
     (if \<not> mutates (a_class a) \<or> g_protections g = [] then None
      else if t_any t (covers (g_protections g))
      then Some (AHardNo ''owner.protected_path''
        (''`'' @ t_raw t @ ''` is inside a folder you put out of bounds in Settings. Remove it there if you want agents to act on it.''))
      else None)"

definition is_the_record :: "path list \<Rightarrow> path \<Rightarrow> bool" where
  "is_the_record state p =
     (let t = path_str p
      in (\<exists>s \<in> set state. path_starts_with p s) \<or> starts_with t ''/var/log'' \<or>
         ends_with t ''.ledger'' \<or> ends_with t ''_history'' \<or> ends_with t ''ledger.db'')"

definition erases_the_record :: "fs \<Rightarrow> action \<Rightarrow> grant \<Rightarrow> target \<Rightarrow> action_verdict option" where
  "erases_the_record f a g t =
     (if \<not> mutates (a_class a) then None
      else if t_any t (is_the_record (map (\<lambda>h. path_join h ''.local/share/lisa'') (home_roots f g)))
      then Some (AHardNo ''audit.erase''
        (''`'' @ t_raw t @ ''` is part of the record of what happened. The Ledger is append-only so the trail survives whatever else went wrong''))
      else None)"

text \<open>The loop over the three home roots; \<open>continue\<close> is the recursive call.\<close>

fun another_home :: "path list \<Rightarrow> string \<Rightarrow> string list \<Rightarrow> bool" where
  "another_home homes t [] = False"
| "another_home homes t (root # roots) =
     (case strip_prefix t root of
        None \<Rightarrow> another_home homes t roots
      | Some rest \<Rightarrow>
          (let who = hd (split_on is_slash rest)
           in if who = [] then another_home homes t roots
              else \<not> (\<exists>h \<in> set homes. path_eq h (path_components (root @ who)))))"

definition lexically_another_users_home :: "path list \<Rightarrow> path \<Rightarrow> bool" where
  "lexically_another_users_home homes p =
     (let t = path_str p
      in if t = ''/root'' \<or> starts_with t ''/root/''
         then \<not> (\<exists>h \<in> set homes. path_eq h (path_components ''/root''))
         else another_home homes t [''/home/'', ''/Users/'', ''/var/home/''])"

definition touches_another_users_file :: "fs \<Rightarrow> grant \<Rightarrow> target \<Rightarrow> action_verdict option" where
  "touches_another_users_file f g t =
     (let refuse = AHardNo ''fs.not_yours''
            (''`'' @ t_raw t @ ''` resolves to a file that is not this user's. Another person's files are not yours to touch through an agent, whoever you are'');
          reachable = concat (map (roots_of f) [g_home g, g_workspace g, g_scratch g])
      in if t_any t (lexically_another_users_home (home_roots f g)) then Some refuse
         else if \<not> all_inside t reachable then None
         else (case (g_uid g, owner_uid f (t_resolved t)) of
                 (Some uid, Some o') \<Rightarrow> if o' \<noteq> uid then Some refuse else None
               | _ \<Rightarrow> None))"

section \<open>The scope ladder\<close>

definition may_remember :: "grant \<Rightarrow> bool" where
  "may_remember g \<longleftrightarrow> g_trusted g \<and> g_trigger g = Prompt"

definition hidden_in :: "path list \<Rightarrow> path \<Rightarrow> bool" where
  "hidden_in homes p \<longleftrightarrow>
     (\<exists>h \<in> set homes. case path_strip_prefix p h of None \<Rightarrow> False | Some rel \<Rightarrow> hides_something rel)"

definition scope_of :: "fs \<Rightarrow> action \<Rightarrow> grant \<Rightarrow> target \<Rightarrow> action_verdict" where
  "scope_of f a g t =
     (let raw = t_raw t; homes = home_roots f g;
          allowed = concat (map (spellings f) (g_allowlist g));
          hidden = t_any t (hidden_in homes);
          in_workspace = all_inside t (roots_of f (g_workspace g))
      in if homes = []
         then ANo ''scope.outside_home''
                (''`'' @ raw @ ''` cannot be checked: this process cannot tell where your home is'')
                ''a session with HOME set''
         else if all_inside t (roots_of f (g_scratch g)) then AAllow
         else if \<not> all_inside t homes
         then ANo ''scope.outside_home''
                (''`'' @ raw @ ''` is outside your home directory'')
                ''a folder inside your home, granted as this run's working folder''
         else if hidden \<and> \<not> all_inside t allowed
         then ANo ''scope.hidden_folder''
                (''`'' @ raw @ ''` is inside a hidden folder -- that is where programs keep configuration and credentials, not where you keep your work'')
                ''an entry you add yourself in Settings > Policies''
         else if \<not> in_workspace \<and> g_trigger g \<noteq> Prompt
         then ANo ''scope.unattended_reach''
                (''`'' @ raw @ ''` is outside this run's working folder, and no person started this run'')
                ''the folder granted as this run's working folder''
         else if \<not> mutates (a_class a) then AAllow
         else AAsk
                (class_verb (a_class a) @ '' `'' @ display_rel homes (t_resolved t) @ ''`'' @
                 (if in_workspace then '' in this run's working folder'' else '' in your home''))
                (may_remember g))"

section \<open>The verdict\<close>

definition target_refusal :: "fs \<Rightarrow> action \<Rightarrow> grant \<Rightarrow> target \<Rightarrow> action_verdict option" where
  "target_refusal f a g t =
     or_else (writes_raw_device a t)
       (or_else (touches_another_users_file f g t)
         (or_else (destroys_the_system_or_a_home f a g t)
           (or_else (erases_the_record f a g t)
             (the_owner_put_it_out_of_bounds a g t))))"

definition judge_target :: "fs \<Rightarrow> action \<Rightarrow> grant \<Rightarrow> string \<Rightarrow> action_verdict" where
  "judge_target f a g raw =
     (case target_of f raw g of
        None \<Rightarrow>
          ANo ''scope.outside_home''
            (''`'' @ raw @ ''` cannot be placed relative to anything you granted'')
            ''a working folder, chosen by you, that the path sits inside''
      | Some t \<Rightarrow>
          (case target_refusal f a g t of
             Some v \<Rightarrow> v
           | None \<Rightarrow> scope_of f a g t))"

fun judge_loop :: "fs \<Rightarrow> action \<Rightarrow> grant \<Rightarrow> action_verdict \<Rightarrow> string list \<Rightarrow> action_verdict" where
  "judge_loop f a g w [] = w"
| "judge_loop f a g w (raw # raws) =
     (let w' = av_worst w (judge_target f a g raw)
      in if is_hard_no w' then w' else judge_loop f a g w' raws)"

definition refused_by_kind :: "action \<Rightarrow> action_verdict option" where
  "refused_by_kind a =
     or_else (hands_over_a_shell a)
       (or_else (escalates_privilege a)
         (or_else (fills_a_credential a) (reads_a_credential a)))"

definition judge :: "fs \<Rightarrow> action \<Rightarrow> grant \<Rightarrow> action_verdict" where
  "judge f a g =
     (case refused_by_kind a of
        Some v \<Rightarrow> v
      | None \<Rightarrow>
          (let targets = path_arguments (a_args a)
           in if targets = []
              then (if mutates (a_class a)
                    then AAsk (describe_tool a @ '' in '' @ a_app a) (may_remember g)
                    else AAllow)
              else judge_loop f a g AAllow targets))"

end
