(* ===== verification/Guard_Judge.thy ===== *)
theory Guard_Judge
  imports Guard_Action
begin

text \<open>
  What the Agent Bus guard guarantees. The loop of \<open>judge\<close> is first reduced to the worst verdict
  of the path arguments (the break is only an optimisation); then the verdict of one argument is
  inverted, and the theorems follow.
\<close>

section \<open>The loop is a maximum\<close>

lemma av_severity_le_3 [simp]: "av_severity v \<le> 3"
  by (cases v) auto

lemma hard_no_iff: "is_hard_no v \<longleftrightarrow> av_severity v = 3"
  by (cases v) auto

lemma refused_iff: "is_refused v \<longleftrightarrow> 2 \<le> av_severity v"
  by (cases v) auto

lemma hard_refused: "is_hard_no v \<Longrightarrow> is_refused v"
  by (cases v) auto

lemma av_worst_hard [simp]: "is_hard_no w \<Longrightarrow> av_worst w v = w"
  by (rule avj.worst_top) (simp add: hard_no_iff)

lemma foldl_worst_hard: "is_hard_no w \<Longrightarrow> foldl av_worst w vs = w"
  by (induction vs) simp_all

lemma judge_loop_foldl: "judge_loop f a g w raws = foldl av_worst w (map (judge_target f a g) raws)"
  by (induction raws arbitrary: w) (simp_all add: foldl_worst_hard Let_def)

lemma judge_loop_max:
  "raw \<in> set raws \<Longrightarrow> av_severity (judge_target f a g raw) \<le> av_severity (judge_loop f a g AAllow raws)"
  unfolding judge_loop_foldl by (rule avj.sev_foldl_ge) simp

lemma judge_loop_mem:
  "judge_loop f a g AAllow raws \<in> insert AAllow (judge_target f a g ` set raws)"
  using avj.foldl_mem [of AAllow "map (judge_target f a g) raws"] by (simp add: judge_loop_foldl)

lemma fold_max_mono:
  "list_all2 (\<le>) xs ys \<Longrightarrow> a \<le> b \<Longrightarrow> fold max xs a \<le> fold max ys (b :: nat)"
proof (induction arbitrary: a b rule: list_all2_induct)
  case (Cons x xs y ys)
  then have "max x a \<le> max y b" by (intro max.mono)
  then show ?case by (simp add: Cons.IH)
qed simp

lemma judge_loop_sev_mono:
  assumes "\<And>raw. raw \<in> set raws \<Longrightarrow>
      av_severity (judge_target f a g raw) \<le> av_severity (judge_target f' a' g' raw)"
  shows "av_severity (judge_loop f a g AAllow raws) \<le> av_severity (judge_loop f' a' g' AAllow raws)"
  unfolding judge_loop_foldl avj.sev_foldl
  by (rule fold_max_mono) (simp_all add: list_all2_map1 list_all2_map2 list.rel_refl_strong assms)

lemma or_else_Some: "or_else a b = Some v \<longleftrightarrow> a = Some v \<or> (a = None \<and> b = Some v)"
  by (cases a) (simp_all add: or_else_def)

lemma or_else_None [simp]: "or_else a b = None \<longleftrightarrow> a = None \<and> b = None"
  by (cases a) (simp_all add: or_else_def)

lemmas kind_defs = hands_over_a_shell_def escalates_privilege_def fills_a_credential_def
  reads_a_credential_def

lemmas refusal_defs = writes_raw_device_def touches_another_users_file_def
  destroys_the_system_or_a_home_def erases_the_record_def the_owner_put_it_out_of_bounds_def

lemma refused_by_kind_hard: "refused_by_kind a = Some v \<Longrightarrow> is_hard_no v"
  by (auto simp: refused_by_kind_def or_else_Some kind_defs Let_def split: if_splits)

lemma target_refusal_hard: "target_refusal f a g t = Some v \<Longrightarrow> is_hard_no v"
  unfolding target_refusal_def or_else_Some refusal_defs Let_def
  by (auto split: if_splits option.splits)

section \<open>What survives for one argument\<close>

definition in_bounds :: "fs \<Rightarrow> grant \<Rightarrow> target \<Rightarrow> bool" where
  "in_bounds f g t \<longleftrightarrow>
     home_roots f g \<noteq> [] \<and>
     (all_inside t (roots_of f (g_scratch g)) \<or>
      (all_inside t (home_roots f g) \<and>
       (t_any t (hidden_in (home_roots f g)) \<longrightarrow> all_inside t (concat (map (spellings f) (g_allowlist g)))) \<and>
       (g_trigger g = Unattended \<longrightarrow> all_inside t (roots_of f (g_workspace g)))))"

definition untouchable :: "fs \<Rightarrow> grant \<Rightarrow> path \<Rightarrow> bool" where
  "untouchable f g p \<longleftrightarrow>
     starts_with_str p ''/dev'' \<or>
     is_system_or_home (home_roots f g) p \<or>
     is_the_record (map (\<lambda>h. path_join h ''.local/share/lisa'') (home_roots f g)) p \<or>
     covers (g_protections g) p"

lemma not_Prompt [simp]: "x \<noteq> Prompt \<longleftrightarrow> x = Unattended"
  by (cases x) auto

lemma scope_of_refused: "is_refused (scope_of f a g t) \<longleftrightarrow> \<not> in_bounds f g t"
  by (auto simp: scope_of_def in_bounds_def Let_def)

lemma scope_of_not_hard [simp]: "\<not> is_hard_no (scope_of f a g t)"
  by (auto simp: scope_of_def Let_def)

lemma covers_Nil [simp]: "\<not> covers [] p"
  by (simp add: covers_def)

lemma target_refusal_None:
  assumes "target_refusal f a g t = None"
  shows "\<not> t_any t (lexically_another_users_home (home_roots f g))"
    and "mutates (a_class a) \<Longrightarrow> p \<in> set (t_forms t) \<Longrightarrow> \<not> untouchable f g p"
    and "all_inside t (home_roots f g) \<Longrightarrow> g_uid g = Some u \<Longrightarrow>
      owner_uid f (t_resolved t) = Some o' \<Longrightarrow> o' = u"
  subgoal using assms by (auto simp: target_refusal_def refusal_defs Let_def split: if_splits)
  subgoal using assms
    by (auto simp: target_refusal_def refusal_defs Let_def untouchable_def t_any_def
        split: if_splits option.splits)
  subgoal
  proof -
    assume h: "all_inside t (home_roots f g)" and u: "g_uid g = Some u"
      and o: "owner_uid f (t_resolved t) = Some o'"
    have "all_inside t (concat (map (roots_of f) [g_home g, g_workspace g, g_scratch g]))"
      using h by (auto simp: all_inside_def home_roots_def)
    with assms u o show "o' = u"
      by (auto simp: target_refusal_def touches_another_users_file_def Let_def split: if_splits)
  qed
  done

lemma judge_target_passes:
  "\<not> is_refused (judge_target f a g raw) \<longleftrightarrow>
   (\<exists>t. target_of f raw g = Some t \<and> target_refusal f a g t = None \<and> in_bounds f g t)"
  using target_refusal_hard [of f a g]
  by (auto simp: judge_target_def scope_of_refused hard_refused split: option.splits)

lemma judge_passes:
  assumes "\<not> is_refused (judge f a g)" and "raw \<in> set (path_arguments (a_args a))"
  shows "\<not> is_refused (judge_target f a g raw)"
proof -
  have "refused_by_kind a = None"
    using assms(1) refused_by_kind_hard [of a]
    by (auto simp: judge_def hard_no_iff refused_iff split: option.splits)
  then have "judge f a g = judge_loop f a g AAllow (path_arguments (a_args a))"
    using assms(2) by (auto simp: judge_def Let_def)
  then show ?thesis
    using assms(1) judge_loop_max [OF assms(2), of f a g] by (simp add: refused_iff)
qed

section \<open>Every part of the argument tree is read\<close>

inductive sub_value :: "json \<Rightarrow> json \<Rightarrow> bool" where
  self: "sub_value v v"
| item: "x \<in> set xs \<Longrightarrow> sub_value v x \<Longrightarrow> sub_value v (JArr xs)"
| member: "(k, x) \<in> set kvs \<Longrightarrow> sub_value v x \<Longrightarrow> sub_value v (JObj kvs)"

inductive_simps sub_value_scalar [simp]:
  "sub_value v (JStr s)" "sub_value v JNull" "sub_value v (JBool b)" "sub_value v (JNum n)"
inductive_simps sub_value_JArr: "sub_value v (JArr xs)"
inductive_simps sub_value_JObj: "sub_value v (JObj kvs)"

lemma sub_value_arr [simp]: "sub_value v (JArr xs) \<longleftrightarrow> v = JArr xs \<or> (\<exists>x \<in> set xs. sub_value v x)"
  by (auto simp: sub_value_JArr)

lemma sub_value_obj [simp]:
  "sub_value v (JObj kvs) \<longleftrightarrow> v = JObj kvs \<or> (\<exists>p \<in> set kvs. sub_value v (snd p))"
proof
  show "sub_value v (JObj kvs) \<Longrightarrow> v = JObj kvs \<or> (\<exists>p \<in> set kvs. sub_value v (snd p))"
    by (force simp: sub_value_JObj)
  show "v = JObj kvs \<or> (\<exists>p \<in> set kvs. sub_value v (snd p)) \<Longrightarrow> sub_value v (JObj kvs)"
    by (elim disjE bexE) (auto intro: sub_value.intros)
qed

lemma strings_walk_iff: "s \<in> snd ` set (strings_walk v key) \<longleftrightarrow> sub_value (JStr s) v"
proof (induction v key rule: strings_walk.induct)
  case (2 items key)
  then show ?case by (simp add: image_UN)
next
  case (3 kvs key)
  then show ?case by (simp add: image_UN)
qed auto

definition has_key :: "json \<Rightarrow> string \<Rightarrow> bool" where
  "has_key v k \<longleftrightarrow> (\<exists>kvs. sub_value (JObj kvs) v \<and> k \<in> fst ` set kvs)"

lemma has_key_simps [simp]:
  "has_key (JArr xs) k \<longleftrightarrow> (\<exists>x \<in> set xs. has_key x k)"
  "has_key (JObj kvs) k \<longleftrightarrow> (\<exists>p \<in> set kvs. k = fst p \<or> has_key (snd p) k)"
  "\<not> has_key (JStr s) k" "\<not> has_key JNull k" "\<not> has_key (JBool b) k" "\<not> has_key (JNum n) k"
  unfolding has_key_def by (simp_all add: image_iff) blast+

lemma keys_of_iff: "k \<in> set (keys_of v) \<longleftrightarrow> has_key v k"
  by (induction v rule: keys_of.induct) simp_all

section \<open>A concrete run\<close>

text \<open>
  A user \<open>me\<close> with uid 1000 at a prompt; \<open>ws/shared\<close> is a symbolic link to another user's notes,
  \<open>Documents/pic\<close> a relative link into \<open>Pictures\<close>.
\<close>

definition sample_fs :: fs where
  "sample_fs =
     \<lparr>fs_readlink = (\<lambda>p.
        if p = path_components ''/home/me/ws/shared'' then Some (path_components ''/home/alice/notes'')
        else if p = path_components ''/home/me/Documents/pic'' then Some (path_components ''../Pictures/a.png'')
        else if p = path_components ''/home/me/Documents/abs'' then Some (path_components ''/home/me/Pictures/a.png'')
        else None),
      fs_uid = (\<lambda>p. Some 1000)\<rparr>"

definition sample_grant :: grant where
  "sample_grant = with_trusted_chain True (with_trigger Prompt (grant_for_this_user (Some ''/home/me'') 1000 []))"

definition sample_call :: "action_class \<Rightarrow> string \<Rightarrow> action" where
  "sample_call c p =
     \<lparr>a_app = ''org.lisa.Notes'', a_tool = ''save_note'', a_class = c,
      a_args = JObj [(''body'', JStr ''Dear diary''), (''where'', JArr [JStr p])]\<rparr>"

section \<open>Properties\<close>

text \<open>
  Every string is read. Wherever a path-shaped string stands in the argument tree, under
  whatever key and at whatever depth, it is one of the arguments that are judged, and nothing
  else is; and every object key at any depth is among the keys the name rules look at.
\<close>

theorem every_argument_is_read:
  "(raw \<in> set (path_arguments args) \<longleftrightarrow> sub_value (JStr raw) args \<and> is_path_shaped raw) \<and>
   (k \<in> set (keys_of args) \<longleftrightarrow> (\<exists>kvs. sub_value (JObj kvs) args \<and> k \<in> fst ` set kvs))"
  using strings_walk_iff [of raw args "[]"] keys_of_iff [of k args]
  by (auto simp: path_arguments_def strings_of_def has_key_def)


text \<open>
  C11. Bounds of every call that is not refused. Each path argument can be placed, and all its
  spellings (the lexical one and every step of the symbolic link resolution) lie inside the home
  or the agent's scratch, outside hidden folders unless the owner allowlisted them, and inside the
  granted working folder when no person started the run; none of them names another user's home,
  and the resolved file belongs to this user when its owner is known. If the call changes
  anything, no spelling is a device, a system directory, a whole home, part of the record or
  inside a folder the owner protected.
\<close>

theorem bus_call_bounds:
  assumes "\<not> is_refused (judge f a g)" and "raw \<in> set (path_arguments (a_args a))"
  shows "\<exists>t. target_of f raw g = Some t \<and> in_bounds f g t \<and>
     \<not> t_any t (lexically_another_users_home (home_roots f g)) \<and>
     (all_inside t (home_roots f g) \<longrightarrow>
        g_uid g = None \<or> owner_uid f (t_resolved t) \<in> {None, g_uid g}) \<and>
     (mutates (a_class a) \<longrightarrow> (\<forall>p \<in> set (t_forms t). \<not> untouchable f g p))"
proof -
  obtain t where t: "target_of f raw g = Some t" "target_refusal f a g t = None" "in_bounds f g t"
    using judge_passes [OF assms] judge_target_passes by blast
  have "g_uid g = None \<or> owner_uid f (t_resolved t) \<in> {None, g_uid g}"
    if "all_inside t (home_roots f g)"
    using target_refusal_None(3) [OF t(2) that]
    by (cases "g_uid g"; cases "owner_uid f (t_resolved t)") auto
  with t target_refusal_None(1,2) [OF t(2)] show ?thesis by blast
qed

theorem bus_call_bounds_witness:
  "\<exists>t. target_of sample_fs ''~/Documents/a.txt'' sample_grant = Some t \<and>
     in_bounds sample_fs sample_grant t \<and> (\<forall>p \<in> set (t_forms t). \<not> untouchable sample_fs sample_grant p)"
proof -
  have "\<not> is_refused (judge sample_fs (sample_call ClWrite ''~/Documents/a.txt'') sample_grant)"
    by code_simp
  moreover have "''~/Documents/a.txt'' \<in> set (path_arguments (a_args (sample_call ClWrite ''~/Documents/a.txt'')))"
    by code_simp
  moreover have "mutates (a_class (sample_call ClWrite ''~/Documents/a.txt''))" by code_simp
  ultimately show ?thesis
    using bus_call_bounds [of sample_fs "sample_call ClWrite ''~/Documents/a.txt''" sample_grant] by blast
qed

text \<open>
  A call is judged by its worst argument: when the call's own kind does not already refuse
  it and it names a path at all, the verdict is the verdict of one of its path arguments, and no
  argument has a more severe one; breaking out of the loop at a HARD NO loses nothing.
\<close>

theorem judged_by_worst_argument:
  assumes "refused_by_kind a = None" and "path_arguments (a_args a) \<noteq> []"
  shows "(\<exists>raw \<in> set (path_arguments (a_args a)). judge f a g = judge_target f a g raw) \<and>
     (\<forall>raw \<in> set (path_arguments (a_args a)).
        av_severity (judge_target f a g raw) \<le> av_severity (judge f a g))"
proof -
  let ?ts = "path_arguments (a_args a)"
  have j: "judge f a g = judge_loop f a g AAllow ?ts"
    using assms by (simp add: judge_def)
  have le: "\<forall>raw \<in> set ?ts. av_severity (judge_target f a g raw) \<le> av_severity (judge f a g)"
    by (simp add: j judge_loop_max)
  have "\<exists>raw \<in> set ?ts. judge f a g = judge_target f a g raw"
  proof (cases "judge f a g = AAllow")
    case True
    have "hd ?ts \<in> set ?ts" using assms(2) by simp
    moreover from this le True have "av_severity (judge_target f a g (hd ?ts)) = 0" by fastforce
    then have "judge_target f a g (hd ?ts) = AAllow"
      by (cases "judge_target f a g (hd ?ts)") simp_all
    ultimately show ?thesis using True by metis
  next
    case False
    then show ?thesis using judge_loop_mem [of f a g ?ts] j by auto
  qed
  with le show ?thesis by blast
qed

theorem judged_by_worst_argument_witness:
  "av_severity (judge_target sample_fs (sample_call ClRead ''~/ws/shared'') sample_grant ''~/ws/shared'') = 3 \<and>
   av_severity (judge sample_fs (sample_call ClRead ''~/ws/shared'') sample_grant) = 3"
proof -
  let ?a = "sample_call ClRead ''~/ws/shared''"
  have k: "refused_by_kind ?a = None" by code_simp
  have p: "path_arguments (a_args ?a) = [''~/ws/shared'']" by code_simp
  have s: "av_severity (judge_target sample_fs ?a sample_grant ''~/ws/shared'') = 3" by code_simp
  have "path_arguments (a_args ?a) \<noteq> []" by (simp only: p list.distinct not_False_eq_True)
  from judged_by_worst_argument [OF k this, of sample_fs sample_grant]
  have "judge sample_fs ?a sample_grant = judge_target sample_fs ?a sample_grant ''~/ws/shared''"
    unfolding p by simp
  with s show ?thesis by simp
qed

section \<open>How the verdict depends on the grant\<close>

lemma target_of_cong [simp]:
  "target_of f raw (g\<lparr>g_protections := ps\<rparr>) = target_of f raw g"
  "target_of f raw (g\<lparr>g_trigger := t\<rparr>) = target_of f raw g"
  "target_of f raw (g\<lparr>g_trusted := b\<rparr>) = target_of f raw g"
  by (simp_all add: target_of_def absolutize_def Let_def cong: option.case_cong if_cong)

lemma home_roots_cong [simp]:
  "home_roots f (g\<lparr>g_protections := ps\<rparr>) = home_roots f g"
  "home_roots f (g\<lparr>g_trigger := t\<rparr>) = home_roots f g"
  "home_roots f (g\<lparr>g_trusted := b\<rparr>) = home_roots f g"
  by (simp_all add: home_roots_def)

lemma touches_cong [simp]:
  "touches_another_users_file f (g\<lparr>g_protections := ps\<rparr>) t = touches_another_users_file f g t"
  "touches_another_users_file f (g\<lparr>g_trigger := x\<rparr>) t = touches_another_users_file f g t"
  "touches_another_users_file f (g\<lparr>g_trusted := b\<rparr>) t = touches_another_users_file f g t"
  by (simp_all add: touches_another_users_file_def Let_def cong: if_cong)

lemma target_refusal_cong [simp]:
  "target_refusal f a (g\<lparr>g_trigger := t\<rparr>) = target_refusal f a g"
  "target_refusal f a (g\<lparr>g_trusted := b\<rparr>) = target_refusal f a g"
  unfolding target_refusal_def fun_eq_iff
  by (simp_all add: destroys_the_system_or_a_home_def erases_the_record_def
      the_owner_put_it_out_of_bounds_def)

lemma may_remember_protections [simp]: "may_remember (g\<lparr>g_protections := ps\<rparr>) = may_remember g"
  by (simp add: may_remember_def)

lemma scope_of_protections [simp]: "scope_of f a (g\<lparr>g_protections := ps\<rparr>) t = scope_of f a g t"
  by (simp add: scope_of_def Let_def cong: if_cong)

definition owners_refusal :: "action_verdict \<Rightarrow> bool" where
  "owners_refusal v \<longleftrightarrow> is_hard_no v \<and> av_rule v = Some ''owner.protected_path''"

lemma target_refusal_protections:
  assumes "set ps \<subseteq> set ps'"
  shows "target_refusal f a (g\<lparr>g_protections := ps'\<rparr>) t = target_refusal f a (g\<lparr>g_protections := ps\<rparr>) t \<or>
    (\<exists>v. target_refusal f a (g\<lparr>g_protections := ps'\<rparr>) t = Some v \<and> owners_refusal v)"
proof -
  have own: "the_owner_put_it_out_of_bounds a (g\<lparr>g_protections := ps'\<rparr>) t =
      the_owner_put_it_out_of_bounds a (g\<lparr>g_protections := ps\<rparr>) t \<or>
      (\<exists>v. the_owner_put_it_out_of_bounds a (g\<lparr>g_protections := ps'\<rparr>) t = Some v \<and> owners_refusal v)"
    using assms
    by (auto simp: the_owner_put_it_out_of_bounds_def owners_refusal_def t_any_def covers_def)
  have rest:
      "destroys_the_system_or_a_home f a (g\<lparr>g_protections := ps'\<rparr>) t =
        destroys_the_system_or_a_home f a (g\<lparr>g_protections := ps\<rparr>) t"
      "erases_the_record f a (g\<lparr>g_protections := ps'\<rparr>) t = erases_the_record f a (g\<lparr>g_protections := ps\<rparr>) t"
    by (simp_all add: destroys_the_system_or_a_home_def erases_the_record_def)
  show ?thesis
    using own unfolding target_refusal_def rest touches_cong or_else_def
    by (auto split: option.splits)
qed

lemma judge_target_protections:
  assumes "set ps \<subseteq> set ps'"
  shows "judge_target f a (g\<lparr>g_protections := ps'\<rparr>) raw = judge_target f a (g\<lparr>g_protections := ps\<rparr>) raw \<or>
    owners_refusal (judge_target f a (g\<lparr>g_protections := ps'\<rparr>) raw)"
proof (cases "target_of f raw g")
  case None
  then show ?thesis by (simp add: judge_target_def)
next
  case (Some t)
  then show ?thesis
    using target_refusal_protections [OF assms, of f a g t]
    by (auto simp: judge_target_def split: option.split)
qed

lemma judge_loop_protections:
  assumes "set ps \<subseteq> set ps'" and "\<not> is_hard_no w"
  shows "judge_loop f a (g\<lparr>g_protections := ps'\<rparr>) w raws = judge_loop f a (g\<lparr>g_protections := ps\<rparr>) w raws \<or>
    owners_refusal (judge_loop f a (g\<lparr>g_protections := ps'\<rparr>) w raws)"
  using assms(2)
proof (induction raws arbitrary: w)
  case (Cons raw raws)
  let ?v' = "judge_target f a (g\<lparr>g_protections := ps'\<rparr>) raw"
  consider (same) "?v' = judge_target f a (g\<lparr>g_protections := ps\<rparr>) raw" | (own) "owners_refusal ?v'"
    using judge_target_protections [OF assms(1)] by blast
  then show ?case
  proof cases
    case same
    then show ?thesis using Cons.IH by (simp add: Let_def)
  next
    case own
    then have "av_worst w ?v' = ?v'"
      using Cons.prems by (cases w; cases ?v') (auto simp: owners_refusal_def av_worst_def)
    then show ?thesis using own by (auto simp: owners_refusal_def)
  qed
qed simp

text \<open>
  Protections only tighten. Under a larger set of protected folders every call gets the same
  verdict as before or is refused by the owner's rule; in particular no verdict becomes less
  severe, whatever is added.
\<close>

theorem protections_only_tighten:
  assumes "set ps \<subseteq> set ps'"
  shows "(judge f a (g\<lparr>g_protections := ps'\<rparr>) = judge f a (g\<lparr>g_protections := ps\<rparr>) \<or>
      owners_refusal (judge f a (g\<lparr>g_protections := ps'\<rparr>))) \<and>
    av_severity (judge f a (g\<lparr>g_protections := ps\<rparr>)) \<le> av_severity (judge f a (g\<lparr>g_protections := ps'\<rparr>))"
proof -
  have "judge f a (g\<lparr>g_protections := ps'\<rparr>) = judge f a (g\<lparr>g_protections := ps\<rparr>) \<or>
      owners_refusal (judge f a (g\<lparr>g_protections := ps'\<rparr>))"
    using judge_loop_protections [OF assms, of AAllow]
    by (auto simp: judge_def Let_def split: option.split)
  then show ?thesis
    by (auto simp: owners_refusal_def hard_no_iff)
qed

theorem protections_only_tighten_witness:
  "owners_refusal (judge sample_fs (sample_call ClDelete ''~/Legal/a.txt'')
     (sample_grant\<lparr>g_protections := [path_components ''/home/me/Legal'']\<rparr>))"
proof -
  let ?a = "sample_call ClDelete ''~/Legal/a.txt''"
  have "set [] \<subseteq> set [path_components ''/home/me/Legal'']" by simp
  from protections_only_tighten [OF this, of sample_fs ?a sample_grant]
  have "judge sample_fs ?a (sample_grant\<lparr>g_protections := [path_components ''/home/me/Legal'']\<rparr>) =
      judge sample_fs ?a (sample_grant\<lparr>g_protections := []\<rparr>) \<or> ?thesis" by blast
  moreover have "judge sample_fs ?a (sample_grant\<lparr>g_protections := [path_components ''/home/me/Legal'']\<rparr>) \<noteq>
      judge sample_fs ?a (sample_grant\<lparr>g_protections := []\<rparr>)" by code_simp
  ultimately show ?thesis by blast
qed

lemma scope_of_trigger:
  "av_severity (scope_of f a (g\<lparr>g_trigger := Prompt\<rparr>) t) \<le> av_severity (scope_of f a (g\<lparr>g_trigger := x\<rparr>) t)"
  by (cases x) (auto simp: scope_of_def Let_def)

lemma scope_of_trusted [simp]: "av_severity (scope_of f a (g\<lparr>g_trusted := b\<rparr>) t) = av_severity (scope_of f a g t)"
  by (auto simp: scope_of_def Let_def)

lemma judge_target_trigger:
  "av_severity (judge_target f a (g\<lparr>g_trigger := Prompt\<rparr>) raw) \<le> av_severity (judge_target f a (g\<lparr>g_trigger := x\<rparr>) raw)"
  by (auto simp: judge_target_def scope_of_trigger split: option.split)

lemma judge_target_trusted:
  "av_severity (judge_target f a (g\<lparr>g_trusted := b\<rparr>) raw) = av_severity (judge_target f a g raw)"
  by (auto simp: judge_target_def split: option.split)

lemma judge_sev_mono:
  assumes "\<And>raw. av_severity (judge_target f a g raw) \<le> av_severity (judge_target f a g' raw)"
  shows "av_severity (judge f a g) \<le> av_severity (judge f a g')"
  using judge_loop_sev_mono [of "path_arguments (a_args a)", OF assms]
  by (auto simp: judge_def Let_def split: option.split)

text \<open>
  An unattended run is never allowed more than a run a person started, and the trust of the
  chain never widens anything: it only decides whether a remembered answer may be offered, which
  happens at a prompt, with a trusted chain, for a call that changes something and is not
  refused.
\<close>

theorem trigger_and_trust:
  "av_severity (judge f a (with_trigger Prompt g)) \<le> av_severity (judge f a (with_trigger x g)) \<and>
   av_severity (judge f a (with_trusted_chain b g)) = av_severity (judge f a g) \<and>
   (judge f a g = AAsk e True \<longrightarrow> g_trusted g \<and> g_trigger g = Prompt \<and> mutates (a_class a))"
proof (intro conjI impI)
  show "av_severity (judge f a (with_trigger Prompt g)) \<le> av_severity (judge f a (with_trigger x g))"
    unfolding with_trigger_def by (rule judge_sev_mono) (rule judge_target_trigger)
  show "av_severity (judge f a (with_trusted_chain b g)) = av_severity (judge f a g)"
    unfolding with_trusted_chain_def
    by (rule antisym; rule judge_sev_mono; simp add: judge_target_trusted)
next
  assume ask: "judge f a g = AAsk e True"
  have tgt: "g_trusted g \<and> g_trigger g = Prompt \<and> mutates (a_class a)"
    if "judge_target f a g raw = AAsk e True" for raw
    using that target_refusal_hard [of f a g]
    by (fastforce simp: judge_target_def scope_of_def may_remember_def Let_def
        split: option.splits if_splits)
  have kind: "refused_by_kind a = None"
    using ask refused_by_kind_hard [of a] by (auto simp: judge_def split: option.splits)
  have "judge_loop f a g AAllow (path_arguments (a_args a)) = AAsk e True \<Longrightarrow>
      \<exists>raw. judge_target f a g raw = AAsk e True"
    using judge_loop_mem [of f a g "path_arguments (a_args a)"] by auto
  with ask kind tgt have "g_trusted g \<and> g_trigger g = Prompt \<and> mutates (a_class a)"
    by (auto simp: judge_def may_remember_def Let_def split: if_splits)
  then show "g_trusted g" "g_trigger g = Prompt" "mutates (a_class a)" by simp_all
qed

theorem trigger_and_trust_witness:
  "mutates (a_class (sample_call ClWrite ''~/Documents/a.txt'')) \<and> g_trusted sample_grant"
proof -
  let ?e = "''write to `~/Documents/a.txt` in your home''"
  have "judge sample_fs (sample_call ClWrite ''~/Documents/a.txt'') sample_grant = AAsk ?e True"
    by code_simp
  with trigger_and_trust [of sample_fs "sample_call ClWrite ''~/Documents/a.txt''" sample_grant Prompt True ?e]
  show ?thesis by blast
qed

text \<open>A refusal never looks at the declared class beyond \<open>mutates\<close>.\<close>

lemma kind_class [simp]:
  "hands_over_a_shell (a\<lparr>a_class := c\<rparr>) = hands_over_a_shell a"
  "escalates_privilege (a\<lparr>a_class := c\<rparr>) = escalates_privilege a"
  "reads_a_credential (a\<lparr>a_class := c\<rparr>) = reads_a_credential a"
  "fills_a_credential (a\<lparr>a_class := ClRead\<rparr>) = None"
  "fills_a_credential (a\<lparr>a_class := ClDelete\<rparr>) = fills_a_credential (a\<lparr>a_class := ClWrite\<rparr>)"
  by (simp_all add: kind_defs mutates_def)

lemma refused_by_kind_class:
  "refused_by_kind (a\<lparr>a_class := ClRead\<rparr>) \<noteq> None \<Longrightarrow> refused_by_kind (a\<lparr>a_class := c\<rparr>) \<noteq> None"
  "(refused_by_kind (a\<lparr>a_class := ClWrite\<rparr>) = None) = (refused_by_kind (a\<lparr>a_class := ClDelete\<rparr>) = None)"
  unfolding refused_by_kind_def or_else_None kind_class by blast+

lemma scope_of_class:
  "av_severity (scope_of f (a\<lparr>a_class := ClRead\<rparr>) g t) \<le> av_severity (scope_of f (a\<lparr>a_class := c\<rparr>) g t)"
  "av_severity (scope_of f (a\<lparr>a_class := ClWrite\<rparr>) g t) = av_severity (scope_of f (a\<lparr>a_class := ClDelete\<rparr>) g t)"
  by (auto simp: scope_of_def mutates_def Let_def)

lemma target_refusal_class:
  "target_refusal f (a\<lparr>a_class := ClRead\<rparr>) g t \<noteq> None \<Longrightarrow> target_refusal f (a\<lparr>a_class := c\<rparr>) g t \<noteq> None"
  "(target_refusal f (a\<lparr>a_class := ClWrite\<rparr>) g t = None) = (target_refusal f (a\<lparr>a_class := ClDelete\<rparr>) g t = None)"
  by (auto simp: target_refusal_def writes_raw_device_def destroys_the_system_or_a_home_def
      erases_the_record_def the_owner_put_it_out_of_bounds_def mutates_def)

lemma hard_sev: "is_hard_no v \<Longrightarrow> av_severity v = 3"
  by (simp add: hard_no_iff)

lemma judge_target_refused_sev:
  "target_of f raw g = Some t \<Longrightarrow> target_refusal f a g t \<noteq> None \<Longrightarrow> av_severity (judge_target f a g raw) = 3"
  using target_refusal_hard [of f a g t] by (auto simp: judge_target_def hard_no_iff)

lemma judge_target_class:
  "av_severity (judge_target f (a\<lparr>a_class := ClRead\<rparr>) g raw) \<le> av_severity (judge_target f (a\<lparr>a_class := c\<rparr>) g raw)"
  "av_severity (judge_target f (a\<lparr>a_class := ClWrite\<rparr>) g raw) = av_severity (judge_target f (a\<lparr>a_class := ClDelete\<rparr>) g raw)"
proof -
  show "av_severity (judge_target f (a\<lparr>a_class := ClRead\<rparr>) g raw) \<le> av_severity (judge_target f (a\<lparr>a_class := c\<rparr>) g raw)"
  proof (cases "target_of f raw g")
    case (Some t)
    then show ?thesis
      using target_refusal_class(1) [of f a g t c] judge_target_refused_sev [OF Some, of "a\<lparr>a_class := c\<rparr>"]
        scope_of_class(1) [of f a g t c]
      by (cases "target_refusal f (a\<lparr>a_class := c\<rparr>) g t")
        (auto simp: judge_target_def split: option.split)
  qed (simp add: judge_target_def)
  show "av_severity (judge_target f (a\<lparr>a_class := ClWrite\<rparr>) g raw) = av_severity (judge_target f (a\<lparr>a_class := ClDelete\<rparr>) g raw)"
  proof (cases "target_of f raw g")
    case (Some t)
    show ?thesis
    proof (cases "target_refusal f (a\<lparr>a_class := ClDelete\<rparr>) g t = None")
      case True
      with Some target_refusal_class(2) [of f a g t] show ?thesis
        by (simp add: judge_target_def scope_of_class(2))
    next
      case False
      with target_refusal_class(2) [of f a g t] have
        "target_refusal f (a\<lparr>a_class := ClWrite\<rparr>) g t \<noteq> None" by simp
      with False judge_target_refused_sev [OF Some] show ?thesis by simp
    qed
  qed (simp add: judge_target_def)
qed

lemma judge_class_mono:
  assumes "refused_by_kind (a\<lparr>a_class := c\<rparr>) \<noteq> None \<Longrightarrow> refused_by_kind (a\<lparr>a_class := d\<rparr>) \<noteq> None"
    and "\<And>raw. av_severity (judge_target f (a\<lparr>a_class := c\<rparr>) g raw) \<le> av_severity (judge_target f (a\<lparr>a_class := d\<rparr>) g raw)"
    and "mutates c \<Longrightarrow> mutates d"
  shows "av_severity (judge f (a\<lparr>a_class := c\<rparr>) g) \<le> av_severity (judge f (a\<lparr>a_class := d\<rparr>) g)"
proof (cases "refused_by_kind (a\<lparr>a_class := d\<rparr>)")
  case None
  with assms(1) have "refused_by_kind (a\<lparr>a_class := c\<rparr>) = None" by blast
  with None show ?thesis
    using judge_loop_sev_mono [of "path_arguments (a_args a)", OF assms(2)] assms(3)
    by (simp add: judge_def Let_def)
next
  case (Some v)
  then have "av_severity (judge f (a\<lparr>a_class := d\<rparr>) g) = 3"
    using refused_by_kind_hard [OF Some] by (simp add: judge_def hard_no_iff)
  then show ?thesis by simp
qed

text \<open>
  A tool cannot gain by declaring less: judged as a read the same call is never treated more
  severely than judged as a write or a delete, and write and delete are equally severe, so
  raising a tool's class can only tighten the verdict.
\<close>

theorem declared_class_monotone:
  "av_severity (judge f (a\<lparr>a_class := ClRead\<rparr>) g) \<le> av_severity (judge f (a\<lparr>a_class := c\<rparr>) g) \<and>
   av_severity (judge f (a\<lparr>a_class := ClWrite\<rparr>) g) = av_severity (judge f (a\<lparr>a_class := ClDelete\<rparr>) g)"
proof
  show "av_severity (judge f (a\<lparr>a_class := ClRead\<rparr>) g) \<le> av_severity (judge f (a\<lparr>a_class := c\<rparr>) g)"
    by (rule judge_class_mono, erule refused_by_kind_class(1), rule judge_target_class(1))
      (simp add: mutates_def)
  have k: "refused_by_kind (a\<lparr>a_class := ClWrite\<rparr>) \<noteq> None \<longleftrightarrow> refused_by_kind (a\<lparr>a_class := ClDelete\<rparr>) \<noteq> None"
    using refused_by_kind_class(2) [of a] by simp
  show "av_severity (judge f (a\<lparr>a_class := ClWrite\<rparr>) g) = av_severity (judge f (a\<lparr>a_class := ClDelete\<rparr>) g)"
  proof (rule antisym; rule judge_class_mono)
    fix raw
    show "av_severity (judge_target f (a\<lparr>a_class := ClWrite\<rparr>) g raw) \<le> av_severity (judge_target f (a\<lparr>a_class := ClDelete\<rparr>) g raw)"
      "av_severity (judge_target f (a\<lparr>a_class := ClDelete\<rparr>) g raw) \<le> av_severity (judge_target f (a\<lparr>a_class := ClWrite\<rparr>) g raw)"
      by (simp_all only: judge_target_class(2) order_refl)
  qed (use k in \<open>simp_all add: mutates_def\<close>)
qed

section \<open>Spelling\<close>

text \<open>
  Two spellings of one place: \<open>.\<close> segments, a name followed by \<open>..\<close>, and \<open>..\<close> at the root may be
  inserted and removed.
\<close>

inductive respelled :: "path \<Rightarrow> path \<Rightarrow> bool" where
  same: "respelled p p"
| dot: "respelled (p @ CurDir # q) (p @ q)"
| dotdot: "respelled (p @ Normal n # ParentDir # q) (p @ q)"
| root: "respelled (RootDir # ParentDir # q) (RootDir # q)"
| symm: "respelled p q \<Longrightarrow> respelled q p"
| trans: "respelled p q \<Longrightarrow> respelled q r \<Longrightarrow> respelled p r"

lemma lexical_step_dotdot [simp]:
  "lexical_step (lexical_step out (Normal n)) ParentDir = out"
  by (simp add: lexical_step_def path_push_def path_pop_def)

lemma lexical_normalize_respelled:
  "respelled p q \<Longrightarrow> lexical_normalize p = lexical_normalize q"
proof (induction rule: respelled.induct)
  case (dot p q)
  then show ?case by (simp add: lexical_normalize_def lexical_step_def)
next
  case (dotdot p n q)
  then show ?case by (simp add: lexical_normalize_def)
next
  case (root q)
  then show ?case by (simp add: lexical_normalize_def lexical_step_def path_push_def path_pop_def)
qed simp_all

lemma t_any_raw [simp]: "t_any (t\<lparr>t_raw := r\<rparr>) P = t_any t P"
  by (simp add: t_any_def)

lemma all_inside_raw [simp]: "all_inside (t\<lparr>t_raw := r\<rparr>) rs = all_inside t rs"
  by (simp add: all_inside_def)

lemma t_resolved_raw [simp]: "t_resolved (t\<lparr>t_raw := r\<rparr>) = t_resolved t"
  by (simp add: t_resolved_def)

lemma map_or_else: "map_option h (or_else x y) = or_else (map_option h x) (map_option h y)"
  by (cases x) (simp_all add: or_else_def)

lemma touches_raw:
  "map_option av_rule (touches_another_users_file f g (t\<lparr>t_raw := r\<rparr>)) =
   map_option av_rule (touches_another_users_file f g t)"
  by (auto simp: touches_another_users_file_def Let_def split: option.split)

lemma target_refusal_raw:
  "map_option av_rule (target_refusal f a g (t\<lparr>t_raw := r\<rparr>)) = map_option av_rule (target_refusal f a g t)"
  unfolding target_refusal_def map_or_else touches_raw
  by (simp add: writes_raw_device_def destroys_the_system_or_a_home_def erases_the_record_def
      the_owner_put_it_out_of_bounds_def)

lemma scope_of_raw:
  "av_rule (scope_of f a g (t\<lparr>t_raw := r\<rparr>)) = av_rule (scope_of f a g t)"
  "av_severity (scope_of f a g (t\<lparr>t_raw := r\<rparr>)) = av_severity (scope_of f a g t)"
  by (simp_all add: scope_of_def Let_def)

lemma judge_target_raw:
  assumes "map_option lexical_normalize (absolutize raw g) = map_option lexical_normalize (absolutize raw' g)"
  shows "av_rule (judge_target f a g raw) = av_rule (judge_target f a g raw') \<and>
    av_severity (judge_target f a g raw) = av_severity (judge_target f a g raw')"
proof (cases "target_of f raw' g")
  case None
  then have "target_of f raw g = None" using assms by (simp add: target_of_def)
  with None show ?thesis by (simp add: judge_target_def)
next
  case (Some t)
  then have t: "target_of f raw g = Some (t\<lparr>t_raw := raw\<rparr>)"
    using assms by (auto simp: target_of_def Let_def map_option_case split: option.splits)
  note r = target_refusal_raw [of f a g raw t]
  show ?thesis
  proof (cases "target_refusal f a g t")
    case None
    with r have "target_refusal f a g (t\<lparr>t_raw := raw\<rparr>) = None" by simp
    with None t Some show ?thesis by (simp add: judge_target_def scope_of_raw)
  next
    case (Some v)
    with r obtain w where w: "target_refusal f a g (t\<lparr>t_raw := raw\<rparr>) = Some w" "av_rule w = av_rule v"
      by auto
    with target_refusal_hard [OF Some] target_refusal_hard [OF w(1)] Some t \<open>target_of f raw' g = Some t\<close>
    show ?thesis by (simp add: judge_target_def hard_no_iff)
  qed
qed

text \<open>
  Spelling is irrelevant: two arguments whose absolute paths differ only by \<open>.\<close> segments,
  by names taken back with \<open>..\<close>, or by \<open>..\<close> at the root get the same severity under the same
  rule, so traversal segments neither reach further nor dodge a rule.
\<close>

theorem spelling_is_irrelevant:
  assumes "absolutize raw g = Some p" and "absolutize raw' g = Some q" and "respelled p q"
  shows "av_rule (judge_target f a g raw) = av_rule (judge_target f a g raw') \<and>
    av_severity (judge_target f a g raw) = av_severity (judge_target f a g raw')"
  using lexical_normalize_respelled [OF assms(3)] assms(1,2) by (intro judge_target_raw) simp

theorem spelling_is_irrelevant_witness:
  "av_severity (judge_target sample_fs (sample_call ClWrite []) sample_grant ''/home/me/Documents/../a'') =
   av_severity (judge_target sample_fs (sample_call ClWrite []) sample_grant ''~/a'')"
proof -
  have "absolutize ''/home/me/Documents/../a'' sample_grant =
      Some ([RootDir, Normal ''home'', Normal ''me''] @ Normal ''Documents'' # ParentDir # [Normal ''a''])"
    by code_simp
  moreover have "absolutize ''~/a'' sample_grant = Some ([RootDir, Normal ''home'', Normal ''me''] @ [Normal ''a''])"
    by code_simp
  ultimately show ?thesis using spelling_is_irrelevant [OF _ _ respelled.dotdot] by blast
qed

section \<open>Two surprises\<close>

text \<open>
  With no home a grant fails closed, but an empty \<open>$HOME\<close> is a home whose root is the empty path, a
  prefix of every path: every file of this user's uid is then in bounds.
\<close>

theorem empty_home_is_not_fail_closed:
  "let g = (\<lambda>h. with_trigger Prompt (grant_for_this_user h 1000 []));
       a = sample_call ClRead ''/mnt/backup/a.txt''
   in is_refused (judge sample_fs a (g None)) \<and> is_refused (judge sample_fs a (g (Some ''/home/me''))) \<and>
      judge sample_fs a (g (Some [])) = AAllow"
  by code_simp

text \<open>
  A relative symbolic link that climbs with \<open>..\<close> is refused as a hidden folder, because the
  spelling kept for its hop has a \<open>..\<close> component and that begins with a dot; the same link written
  absolutely is allowed.
\<close>

theorem climbing_link_is_called_hidden:
  "av_rule (judge sample_fs (sample_call ClRead ''~/Documents/pic'') sample_grant) = Some ''scope.hidden_folder'' \<and>
   judge sample_fs (sample_call ClRead ''~/Documents/abs'') sample_grant = AAllow"
  by code_simp

end
