(* ===== verification/Guard_Rules.thy ===== *)
theory Guard_Rules
  imports Guard_Verdict Guard_Path
begin

text \<open>
  The destructive-action rules of the shell guard: \<open>libs/lisa-guard/src/rules.rs\<close>, over the
  \<open>Invocation\<close> of \<open>shell.rs\<close>. \<open>scan\<close> runs the rules in order and stops at the first refusal. An
  em dash in a message is written as two hyphens.
\<close>

section \<open>Invocations (shell.rs)\<close>

record invocation =
  inv_escalated :: bool
  inv_program :: string
  inv_args :: "string list"

definition operands :: "invocation \<Rightarrow> string list" where
  "operands iv = filter (\<lambda>a. \<not> starts_with a ''-'') (inv_args iv)"

text \<open>What stands before the first \<open>=\<close>.\<close>

definition flag_head :: "string \<Rightarrow> string" where
  "flag_head a = hd (split_on (\<lambda>c. c = CHR ''='') a)"

definition has_flag :: "invocation \<Rightarrow> string \<Rightarrow> bool" where
  "has_flag iv flag \<longleftrightarrow> (\<exists>a \<in> set (inv_args iv). a = flag \<or> flag_head a = flag)"

definition short_flag_with :: "string \<Rightarrow> string \<Rightarrow> bool" where
  "short_flag_with letters a \<longleftrightarrow>
     starts_with a ''-'' \<and> \<not> starts_with a ''--'' \<and> (\<exists>c \<in> set (drop 1 a). c \<in> set letters)"

definition has_any_short_flag :: "invocation \<Rightarrow> string \<Rightarrow> bool" where
  "has_any_short_flag iv letters \<longleftrightarrow> (\<exists>a \<in> set (inv_args iv). short_flag_with letters a)"

definition quoted :: "string \<Rightarrow> string" where
  "quoted s = ''`'' @ s @ ''`''"

section \<open>Rules\<close>

definition DEVICE_WRITERS :: "string list" where
  "DEVICE_WRITERS =
     [''mkfs'', ''wipefs'', ''blkdiscard'', ''sgdisk'', ''fdisk'', ''parted'', ''badblocks'', ''cfdisk'']"

definition privilege_escalation :: "invocation \<Rightarrow> verdict" where
  "privilege_escalation iv =
     (if inv_escalated iv
      then VDeny ''escalate.privilege'' ''runs as root -- an agent never escalates privilege on its own''
      else VAllow)"

definition READ_ONLY_VERBS :: "string list list" where
  "READ_ONLY_VERBS = [[''dev'', ''check''], [''tools''], [''skills'', ''list''], [''skills'', ''show'']]"

definition lisa_verb_that_changes_the_machine :: "invocation \<Rightarrow> verdict" where
  "lisa_verb_that_changes_the_machine iv =
     (if inv_program iv \<noteq> ''lisa'' then VAllow
      else (let verbs = operands iv
            in if \<exists>allowed \<in> set READ_ONLY_VERBS. starts_with verbs allowed then VAllow
               else VDeny ''lisa.write_verb''
                 (quoted (if verbs = [] then ''lisa'' else ''lisa '' @ join '' '' verbs) @
                  '' is not one of the read-only verbs a loop may run (dev check, tools, skills list|show). Everything else on `lisa` changes the machine.'')))"

definition RUNTIMES :: "string list" where
  "RUNTIMES = [''gjs'', ''node'', ''nodejs'']"

definition EVAL_FLAGS :: "string list" where
  "EVAL_FLAGS =
     [''-c'', ''--command'', ''-e'', ''--eval'', ''-p'', ''--print'', ''-r'', ''--require'', ''-I'', ''--include-path'']"

definition runtime_evaluates_a_string :: "invocation \<Rightarrow> verdict" where
  "runtime_evaluates_a_string iv =
     (if inv_program iv \<notin> set RUNTIMES then VAllow
      else (case List.find (\<lambda>n. n \<in> set EVAL_FLAGS) (map flag_head (inv_args iv)) of
              Some n \<Rightarrow>
                VDeny ''exec.shell''
                  (quoted (inv_program iv @ '' '' @ n) @
                   '' evaluates code given as an argument -- that is a shell with a different name. Run a file instead.'')
            | None \<Rightarrow>
                (case List.find (\<lambda>a. \<not> starts_with a ''-'' \<and> (is_under_system_root a \<or> is_system_target a))
                        (inv_args iv) of
                   Some a \<Rightarrow>
                     VDeny ''exec.shell''
                       (quoted (inv_program iv @ '' '' @ a) @
                        '' executes a file that belongs to the system. A runtime may run the project's own code, not the machine's.'')
                 | None \<Rightarrow> VAllow)))"

text \<open>The first operand that makes \<open>f\<close> answer.\<close>

fun first_refusal :: "('a \<Rightarrow> verdict option) \<Rightarrow> 'a list \<Rightarrow> verdict option" where
  "first_refusal f [] = None"
| "first_refusal f (x # xs) = (case f x of Some v \<Rightarrow> Some v | None \<Rightarrow> first_refusal f xs)"

definition delete_target :: "string \<Rightarrow> verdict option" where
  "delete_target target =
     (if is_system_target target
      then Some (VDeny ''rm.system_path''
             (''recursively deletes '' @ quoted target @ '', which is a system or home root''))
      else if is_under_system_root target
      then Some (VDeny ''rm.system_path''
             (''recursively deletes '' @ quoted target @ '', which belongs to the OS image''))
      else None)"

definition recursive_delete :: "invocation \<Rightarrow> verdict" where
  "recursive_delete iv =
     (if inv_program iv \<noteq> ''rm'' \<and> inv_program iv \<noteq> ''rmdir'' \<and> inv_program iv \<noteq> ''shred'' then VAllow
      else if has_flag iv ''--no-preserve-root''
      then VDeny ''rm.no_preserve_root'' ''disables the root-deletion guard built into `rm`''
      else (let recursive = has_any_short_flag iv ''rR'' \<or> has_flag iv ''--recursive'';
                forced = has_any_short_flag iv ''f'' \<or> has_flag iv ''--force''
            in if \<not> recursive \<and> \<not> forced \<and> inv_program iv = ''rm'' then VAllow
               else (case first_refusal delete_target (operands iv) of
                       Some v \<Rightarrow> v
                     | None \<Rightarrow>
                         if recursive \<and> forced \<and> operands iv = []
                         then VConfirm ''rm.piped_targets''
                                ''recursive force-delete whose targets come from a pipe -- the guard cannot see what it removes''
                         else VAllow)))"

definition FIND_ACTIONS :: "string list" where
  "FIND_ACTIONS = [''-delete'', ''-exec'', ''-execdir'', ''-ok'', ''-okdir'']"

definition find_actions :: "invocation \<Rightarrow> verdict" where
  "find_actions iv =
     (if inv_program iv \<noteq> ''find'' then VAllow
      else (case List.find (\<lambda>a. a \<in> set FIND_ACTIONS) (inv_args iv) of
              None \<Rightarrow> VAllow
            | Some act \<Rightarrow>
                (case List.find is_system_target (operands iv) of
                   Some target \<Rightarrow>
                     VDeny ''find.system_scope''
                       (''runs '' @ quoted act @ '' across '' @ quoted target @ '', which is a system or home root'')
                 | None \<Rightarrow>
                     VConfirm ''find.action''
                       (quoted act @ '' runs on every match, and the match set is not visible here''))))"

definition dd_output :: "invocation \<Rightarrow> string option" where
  "dd_output iv = find_map (\<lambda>a. strip_prefix a ''of='') (inv_args iv)"

definition device_write :: "invocation \<Rightarrow> verdict" where
  "device_write iv =
     (if inv_program iv = ''dd''
      then (case dd_output iv of
              Some target \<Rightarrow>
                if starts_with (normalize_target target) ''/dev/''
                then VDeny ''disk.raw_write'' (''writes raw bytes to the block device '' @ quoted target)
                else VAllow
            | None \<Rightarrow> VAllow)
      else if inv_program iv \<in> set DEVICE_WRITERS \<or> starts_with (inv_program iv) ''mkfs.'' \<or>
              starts_with (inv_program iv) ''mke2fs''
      then VDeny ''disk.raw_write'' (quoted (inv_program iv) @ '' reformats or repartitions a block device'')
      else if inv_program iv = ''shred'' \<and> (\<exists>t \<in> set (operands iv). starts_with t ''/dev/'')
      then VDeny ''disk.raw_write'' ''shreds a block device''
      else VAllow)"

text \<open>\<open>arg.len()\<close> counts bytes; four ASCII digits are four bytes. The octal digit test is \<open>lead & 0b110\<close>.\<close>

definition is_setuid_mode :: "string \<Rightarrow> bool" where
  "is_setuid_mode arg \<longleftrightarrow>
     contains_str arg ''+s'' \<or>
     (byte_len arg = 4 \<and> list_all is_ascii_digit arg \<and> hd arg \<in> set ''234567'')"

definition perm_target :: "string \<Rightarrow> string \<Rightarrow> string \<Rightarrow> string \<Rightarrow> verdict option" where
  "perm_target program how tail target =
     (if is_system_target target \<or> is_under_system_root target
      then Some (VDeny ''perm.system_path''
             (quoted program @ '' rewrites ownership or permissions '' @ how @ quoted target @ tail))
      else None)"

definition recursive_permissions :: "invocation \<Rightarrow> verdict" where
  "recursive_permissions iv =
     (if inv_program iv \<noteq> ''chmod'' \<and> inv_program iv \<noteq> ''chown'' \<and> inv_program iv \<noteq> ''chgrp'' then VAllow
      else (case (if inv_program iv = ''chmod'' then List.find is_setuid_mode (operands iv) else None) of
              Some arg \<Rightarrow>
                VDeny ''perm.setuid''
                  (''`chmod '' @ arg @ ''` grants setuid/setgid -- a privilege escalation primitive'')
            | None \<Rightarrow>
                (case (if \<not> has_any_short_flag iv ''R'' \<and> \<not> has_flag iv ''--recursive''
                       then first_refusal (perm_target (inv_program iv) ''on '' '', which belongs to the OS image'')
                              (operands iv)
                       else first_refusal (perm_target (inv_program iv) ''recursively across '' []) (operands iv)) of
                   Some v \<Rightarrow> v
                 | None \<Rightarrow> VAllow)))"

section \<open>Writing into the system\<close>

text \<open>The file a \<open>w\<close> flag of a \<open>sed\<close> script names: scanned at every \<open>w\<close> followed by white space.\<close>

definition is_ascii_ws :: "char \<Rightarrow> bool" where
  "is_ascii_ws c \<longleftrightarrow> ccode c \<in> {9, 10, 12, 13, 32}"

fun w_target :: "string \<Rightarrow> string option" where
  "w_target [] = None"
| "w_target (c # s) =
     (if c = CHR ''w'' \<and> s \<noteq> [] \<and> is_ascii_ws (hd s) \<and> starts_with (trim s) ''/'' then Some (trim s)
      else w_target s)"

definition sed_script_writes :: "invocation \<Rightarrow> string option" where
  "sed_script_writes iv = find_map w_target (operands iv)"

fun target_directory_of :: "string list \<Rightarrow> string option" where
  "target_directory_of [] = None"
| "target_directory_of (arg # args) =
     (if arg = ''-t'' \<or> arg = ''--target-directory'' then (case args of [] \<Rightarrow> None | dir # _ \<Rightarrow> Some dir)
      else (case strip_prefix arg ''--target-directory='' of
              Some dir \<Rightarrow> Some dir
            | None \<Rightarrow>
                (case strip_prefix arg ''-t'' of
                   Some dir \<Rightarrow>
                     if \<not> starts_with dir ''-'' \<and> dir \<noteq> [] then Some dir else target_directory_of args
                 | None \<Rightarrow> target_directory_of args)))"

definition target_directory :: "invocation \<Rightarrow> string option" where
  "target_directory iv = target_directory_of (inv_args iv)"

definition DESTINATION_IS_LAST :: "string list" where
  "DESTINATION_IS_LAST = [''cp'', ''mv'', ''install'', ''ln'']"

definition ALL_OPERANDS_WRITTEN :: "string list" where
  "ALL_OPERANDS_WRITTEN = [''tee'', ''truncate'', ''sed'']"

definition opt_list :: "'a option \<Rightarrow> 'a list" where
  "opt_list x = (case x of None \<Rightarrow> [] | Some y \<Rightarrow> [y])"

definition last_opt :: "'a list \<Rightarrow> 'a option" where
  "last_opt xs = (if xs = [] then None else Some (last xs))"

definition moved_source :: "string \<Rightarrow> verdict option" where
  "moved_source source =
     (if is_system_target source \<or> is_under_system_root source
      then Some (VDeny ''fs.system_write''
             (''`mv` REMOVES '' @ quoted source @ '', which belongs to the OS image''))
      else None)"

definition written_target :: "string \<Rightarrow> verdict option" where
  "written_target target =
     (if is_under_system_root target
      then Some (VDeny ''fs.system_write'' (''writes into '' @ quoted target @ '', which belongs to the OS image''))
      else None)"

definition judge_written :: "string list \<Rightarrow> verdict" where
  "judge_written targets = (case first_refusal written_target targets of Some v \<Rightarrow> v | None \<Rightarrow> VAllow)"

definition destination_of :: "invocation \<Rightarrow> string list" where
  "destination_of iv =
     (case target_directory iv of Some dir \<Rightarrow> [dir] | None \<Rightarrow> opt_list (last_opt (operands iv)))"

definition system_path_write :: "invocation \<Rightarrow> verdict" where
  "system_path_write iv =
     (case (if inv_program iv = ''mv'' then first_refusal moved_source (drop 1 (rev (operands iv))) else None) of
        Some v \<Rightarrow> v
      | None \<Rightarrow>
          if inv_program iv \<in> set DESTINATION_IS_LAST then judge_written (destination_of iv)
          else if inv_program iv = ''sed''
          then (case sed_script_writes iv of
                  Some written \<Rightarrow>
                    if is_under_system_root written
                    then VDeny ''fs.system_write''
                           (''`sed`'s w flag writes '' @ quoted written @ '', which belongs to the OS image'')
                    else if \<not> has_any_short_flag iv ''i'' \<and> \<not> has_flag iv ''--in-place'' then VAllow
                    else judge_written (operands iv)
                | None \<Rightarrow>
                    if \<not> has_any_short_flag iv ''i'' \<and> \<not> has_flag iv ''--in-place'' then VAllow
                    else judge_written (operands iv))
          else if inv_program iv \<in> set ALL_OPERANDS_WRITTEN then judge_written (operands iv)
          else if inv_program iv = ''dd'' then judge_written (opt_list (dd_output iv))
          else VAllow)"

section \<open>The remaining rules\<close>

definition audit_erasure :: "invocation \<Rightarrow> verdict" where
  "audit_erasure iv =
     (if inv_program iv = ''history'' \<and> has_any_short_flag iv ''cw''
      then VDeny ''audit.erase'' ''clears the shell history''
      else if inv_program iv = ''journalctl'' \<and> (\<exists>a \<in> set (inv_args iv). starts_with a ''--vacuum-'')
      then VDeny ''audit.erase'' ''vacuums the systemd journal''
      else if (\<exists>t \<in> set (operands iv).
                 starts_with t ''/var/log'' \<or> ends_with t ''_history'' \<or> ends_with t ''.ledger'') \<and>
              inv_program iv \<in> {''rm'', ''shred'', ''truncate'', ''tee''}
      then VDeny ''audit.erase'' ''destroys log or ledger files''
      else VAllow)"

definition POWER_VERBS :: "string list" where
  "POWER_VERBS = [''reboot'', ''poweroff'', ''halt'', ''shutdown'', ''kexec'']"

definition power_state :: "invocation \<Rightarrow> verdict" where
  "power_state iv =
     (if inv_program iv \<in> set POWER_VERBS \<or>
         (inv_program iv = ''systemctl'' \<and> (\<exists>a \<in> set (operands iv). a \<in> set POWER_VERBS))
      then VConfirm ''power.state''
             ''changes the machine's power state -- in the middle of an update this can brick it''
      else VAllow)"

definition mutates_packages :: "invocation \<Rightarrow> bool" where
  "mutates_packages iv =
     (let p = inv_program iv; uses = (\<lambda>verbs. \<exists>a \<in> set (operands iv). a \<in> set verbs)
      in if p = ''pacman''
         then (\<exists>a \<in> set (inv_args iv). starts_with a ''-'' \<and> \<not> starts_with a ''--'' \<and> (\<exists>c \<in> set a. c \<in> set ''SRU''))
         else if p \<in> {''apt'', ''apt-get'', ''dnf'', ''yum'', ''zypper''}
         then uses [''install'', ''remove'', ''purge'', ''autoremove'', ''upgrade'']
         else if p \<in> {''npm'', ''pnpm'', ''yarn''} then uses [''install'', ''i'', ''add'', ''remove'', ''uninstall'']
         else if p \<in> {''pip'', ''pip3''} then uses [''install'', ''uninstall'']
         else if p = ''cargo'' then uses [''install'', ''uninstall'']
         else False)"

definition package_mutation :: "invocation \<Rightarrow> verdict" where
  "package_mutation iv =
     (if mutates_packages iv
      then VConfirm ''pkg.mutate'' (''changes installed software via '' @ quoted (inv_program iv))
      else VAllow)"

definition FETCHERS :: "string list" where
  "FETCHERS = [''curl'', ''wget'', ''nc'', ''ncat'', ''ssh'', ''scp'', ''rsync'', ''ftp'']"

definition network_egress :: "invocation \<Rightarrow> verdict" where
  "network_egress iv =
     (if inv_program iv \<in> set FETCHERS
      then VConfirm ''net.egress'' (quoted (inv_program iv) @ '' sends or fetches data over the network'')
      else VAllow)"

definition version_control :: "invocation \<Rightarrow> verdict" where
  "version_control iv =
     (if inv_program iv \<noteq> ''git'' then VAllow
      else (let sub = (case operands iv of [] \<Rightarrow> [] | a # _ \<Rightarrow> a);
                forced = has_flag iv ''--force'' \<or> has_any_short_flag iv ''f'';
                risky = (if sub = ''reset'' then has_flag iv ''--hard''
                         else if sub = ''clean'' \<or> sub = ''push'' then forced
                         else if sub = ''branch'' then ''-D'' \<in> set (inv_args iv)
                         else if sub = ''checkout'' \<or> sub = ''restore'' then forced
                         else False)
            in if risky
               then VConfirm ''git.destructive''
                      (''`git '' @ sub @ ''` here discards work that is not committed anywhere else'')
               else VAllow))"

section \<open>The scan\<close>

definition RULES :: "(invocation \<Rightarrow> verdict) list" where
  "RULES =
     [privilege_escalation, recursive_delete, find_actions, device_write, recursive_permissions,
      system_path_write, audit_erasure, power_state, package_mutation, network_egress, version_control,
      runtime_evaluates_a_string, lisa_verb_that_changes_the_machine]"

fun scan_loop :: "invocation \<Rightarrow> verdict \<Rightarrow> (invocation \<Rightarrow> verdict) list \<Rightarrow> verdict" where
  "scan_loop iv v [] = v"
| "scan_loop iv v (r # rs) =
     (let v' = worst v (r iv) in if is_denied v' then v' else scan_loop iv v' rs)"

definition scan :: "invocation \<Rightarrow> verdict" where
  "scan iv = scan_loop iv VAllow RULES"

end
