(* ===== verification/Guard_Shell_Lex.thy ===== *)
theory Guard_Shell_Lex
  imports Guard_Rules
begin

text \<open>
  Reading a shell line: the expansions, the command substitutions and the splitting into segments
  of \<open>libs/lisa-guard/src/shell.rs\<close>. The index loops of the source are recursions over the rest of
  the line. An escape can decode to a scalar above U+00FF, which the model's characters do not
  have: such a scalar is read as U+00A0 when it is white space and as U+00FF otherwise, which no
  rule tells from the original.
\<close>

section \<open>Expansions\<close>

function replace_str :: "string \<Rightarrow> string \<Rightarrow> string \<Rightarrow> string" where
  "replace_str pat rep s =
     (if s = [] \<or> pat = [] then s
      else if starts_with s pat then rep @ replace_str pat rep (drop (length pat) s)
      else hd s # replace_str pat rep (tl s))"
  by pat_completeness auto
termination
  by (relation "measure (\<lambda>(pat, rep, s). length s)") auto

declare replace_str.simps [simp del]

definition digit_value :: "nat \<Rightarrow> char \<Rightarrow> nat option" where
  "digit_value radix c =
     (let n = ccode c;
          v = (if is_ascii_digit c then Some (n - 48)
               else if is_ascii_lower c then Some (n - 87)
               else if is_ascii_upper c then Some (n - 55)
               else None)
      in case v of Some d \<Rightarrow> if d < radix then Some d else None | None \<Rightarrow> None)"

definition is_digit :: "nat \<Rightarrow> char \<Rightarrow> bool" where
  "is_digit radix c \<longleftrightarrow> digit_value radix c \<noteq> None"

definition radix_value :: "nat \<Rightarrow> string \<Rightarrow> nat" where
  "radix_value radix s = foldl (\<lambda>acc c. radix * acc + (case digit_value radix c of Some d \<Rightarrow> d | None \<Rightarrow> 0)) 0 s"

text \<open>\<open>char::from_u32\<close>: no scalar for a surrogate.\<close>

definition WIDE_SPACES :: "nat list" where
  "WIDE_SPACES = 5760 # [8192..<8203] @ [8232, 8233, 8239, 8287, 12288]"

definition scalar_char :: "nat \<Rightarrow> char option" where
  "scalar_char n =
     (if 55296 \<le> n \<and> n \<le> 57343 then None
      else if n < 256 then Some (char_of n)
      else if n \<in> set WIDE_SPACES then Some (char_of (160 :: nat))
      else Some (char_of (255 :: nat)))"

definition take_radix :: "string \<Rightarrow> nat \<Rightarrow> nat \<Rightarrow> (char \<times> nat) option" where
  "take_radix digits radix most =
     (let taken = takeWhile (is_digit radix) (take most digits)
      in if taken = [] then None
         else (case scalar_char (radix_value radix taken) of
                 Some c \<Rightarrow> Some (c, length taken)
               | None \<Rightarrow> None))"

definition decode_escape :: "string \<Rightarrow> string \<times> nat" where
  "decode_escape rest =
     (case rest of
        [] \<Rightarrow> ([], 0)
      | c # cs \<Rightarrow>
          if c = CHR ''x''
          then (case take_radix cs 16 2 of Some (d, used) \<Rightarrow> ([d], 1 + used) | None \<Rightarrow> (''x'', 1))
          else if c = CHR ''u''
          then (case take_radix cs 16 4 of Some (d, used) \<Rightarrow> ([d], 1 + used) | None \<Rightarrow> (''u'', 1))
          else if is_digit 8 c
          then (case take_radix rest 8 3 of Some (d, used) \<Rightarrow> ([d], used) | None \<Rightarrow> ([c], 1))
          else if c = CHR ''n'' then ([CHR 10], 1)
          else if c = CHR ''t'' then ([CHR 9], 1)
          else if c = CHR ''r'' then ([CHR 13], 1)
          else if c = CHR ''e'' then ([CHR 27], 1)
          else ([c], 1))"

definition SYNTAX_CHARS :: string where
  "SYNTAX_CHARS = [CHR 39, CHR 34, CHR ''`'', CHR '';'', CHR ''|'', CHR ''&'', CHR ''<'', CHR ''>'', CHR ''('', CHR '')'', CHR ''$'', CHR ''#'']"

text \<open>Inside \<open>$'...'\<close>: the decoded text, whether it holds syntax, and what follows the closing quote.\<close>

function ansi_c_body :: "string \<Rightarrow> string \<times> bool \<times> string" where
  "ansi_c_body s =
     (case s of
        [] \<Rightarrow> ([], False, [])
      | c # cs \<Rightarrow>
          if c = CHR 39 then ([], False, cs)
          else if c = CHR 92 \<and> cs \<noteq> []
          then (let d = decode_escape cs; r = ansi_c_body (drop (snd d) cs)
                in (fst d @ fst r, (\<exists>x \<in> set (fst d). x \<in> set SYNTAX_CHARS) \<or> fst (snd r), snd (snd r)))
          else (let r = ansi_c_body cs in (c # fst r, fst (snd r), snd (snd r))))"
  by pat_completeness auto
termination
  by (relation "measure length") auto

declare ansi_c_body.simps [simp del]

lemma ansi_c_body_rest: "length (snd (snd (ansi_c_body s))) \<le> length s"
proof (induction s rule: ansi_c_body.induct)
  case (1 s)
  show ?case
  proof (cases s)
    case Nil
    then show ?thesis by (simp add: ansi_c_body.simps)
  next
    case (Cons c cs)
    have "length (snd (snd (ansi_c_body (drop (snd (decode_escape cs)) cs)))) \<le> Suc (length cs)"
      if "c \<noteq> CHR 39" "c = CHR 92" "cs \<noteq> []"
      using "1.IH"(1) [OF Cons that(1)] that(2,3) by (fastforce dest: le_trans [OF _ diff_le_self])
    moreover have "length (snd (snd (ansi_c_body cs))) \<le> Suc (length cs)"
      if "c \<noteq> CHR 39" "\<not> (c = CHR 92 \<and> cs \<noteq> [])"
      using "1.IH"(2) [OF Cons that] by simp
    ultimately show ?thesis
      using Cons by (auto simp: ansi_c_body.simps [of "c # cs"] Let_def)
  qed
qed

lemma ansi_c_body_code [code]:
  "ansi_c_body [] = ([], False, [])"
  "ansi_c_body (c # cs) =
     (if c = CHR 39 then ([], False, cs)
      else if c = CHR 92 \<and> cs \<noteq> []
      then (case decode_escape cs of
              (d, used) \<Rightarrow>
                (case ansi_c_body (drop used cs) of
                   (t, syn, rest) \<Rightarrow> (d @ t, list_ex (\<lambda>x. x \<in> set SYNTAX_CHARS) d \<or> syn, rest)))
      else (case ansi_c_body cs of (t, syn, rest) \<Rightarrow> (c # t, syn, rest)))"
  by (simp_all add: ansi_c_body.simps [of "[]"] ansi_c_body.simps [of "c # cs"] Let_def split_beta list_ex_iff)

function decode_ansi_c :: "string \<Rightarrow> string \<times> bool" where
  "decode_ansi_c s =
     (case s of
        [] \<Rightarrow> ([], False)
      | c # cs \<Rightarrow>
          if c = CHR ''$'' \<and> starts_with cs [CHR 39]
          then (let b = ansi_c_body (tl cs); r = decode_ansi_c (snd (snd b))
                in (fst b @ fst r, fst (snd b) \<or> snd r))
          else (let r = decode_ansi_c cs in (c # fst r, snd r)))"
  by pat_completeness auto
termination
  by (relation "measure length") (auto simp: less_Suc_eq_le intro!: le_trans [OF ansi_c_body_rest])

declare decode_ansi_c.simps [simp del]

lemma decode_ansi_c_code [code]:
  "decode_ansi_c [] = ([], False)"
  "decode_ansi_c (c # cs) =
     (if c = CHR ''$'' \<and> starts_with cs [CHR 39]
      then (case ansi_c_body (tl cs) of
              (t, syn, rest) \<Rightarrow> (case decode_ansi_c rest of (u, b) \<Rightarrow> (t @ u, syn \<or> b)))
      else (case decode_ansi_c cs of (u, b) \<Rightarrow> (c # u, b)))"
  by (simp_all add: decode_ansi_c.simps [of "[]"] decode_ansi_c.simps [of "c # cs"] Let_def split_beta)

definition normalize_expansions :: "string \<Rightarrow> string \<times> bool" where
  "normalize_expansions line = decode_ansi_c (replace_str ''$IFS'' '' '' (replace_str ''${IFS}'' '' '' line))"

section \<open>Substitutions\<close>

text \<open>Up to the parenthesis that closes the opened one, and what follows it.\<close>

fun until_close :: "nat \<Rightarrow> string \<Rightarrow> string \<times> string" where
  "until_close depth [] = ([], [])"
| "until_close depth (c # cs) =
     (if c = CHR ''('' then (let r = until_close (Suc depth) cs in (c # fst r, snd r))
      else if c = CHR '')'' then
        (if depth \<le> 1 then ([], cs) else (let r = until_close (depth - 1) cs in (c # fst r, snd r)))
      else (let r = until_close depth cs in (c # fst r, snd r)))"

lemma until_close_code [code]:
  "until_close depth [] = ([], [])"
  "until_close depth (c # cs) =
     (if c = CHR '')'' \<and> depth \<le> 1 then ([], cs)
      else (case until_close (if c = CHR ''('' then Suc depth else if c = CHR '')'' then depth - 1 else depth) cs of
              (t, rest) \<Rightarrow> (c # t, rest)))"
  by (auto simp: Let_def split_beta)

lemma until_close_rest: "length (snd (until_close depth s)) \<le> length s"
  by (induction depth s rule: until_close.induct) (auto simp: Let_def)

lemma tl_dropWhile_le: "length (tl (dropWhile P s)) \<le> length s" "length (dropWhile P s) \<le> length s"
proof -
  show "length (dropWhile P s) \<le> length s" by (rule length_dropWhile_le)
  then show "length (tl (dropWhile P s)) \<le> length s" by simp
qed

lemma tl_le: "length (tl s) \<le> length s"
  by simp

function substitutions :: "string \<Rightarrow> string list" where
  "substitutions s =
     (case s of
        [] \<Rightarrow> []
      | c # cs \<Rightarrow>
          if (c = CHR ''$'' \<or> c = CHR ''<'' \<or> c = CHR ''>'') \<and> starts_with cs ''(''
          then (let r = until_close 1 (tl cs) in fst r # substitutions (snd r))
          else if c = CHR ''`''
          then takeWhile (\<lambda>x. x \<noteq> CHR ''`'') cs # substitutions (tl (dropWhile (\<lambda>x. x \<noteq> CHR ''`'') cs))
          else substitutions cs)"
  by pat_completeness auto
termination
  by (relation "measure length")
    (auto simp: less_Suc_eq_le simp del: length_tl intro: tl_dropWhile_le le_trans [OF until_close_rest tl_le])

declare substitutions.simps [simp del]

lemma substitutions_code [code]:
  "substitutions [] = []"
  "substitutions (c # cs) =
     (if (c = CHR ''$'' \<or> c = CHR ''<'' \<or> c = CHR ''>'') \<and> starts_with cs ''(''
      then (case until_close 1 (tl cs) of (t, rest) \<Rightarrow> t # substitutions rest)
      else if c = CHR ''`''
      then takeWhile (\<lambda>x. x \<noteq> CHR ''`'') cs # substitutions (tl (dropWhile (\<lambda>x. x \<noteq> CHR ''`'') cs))
      else substitutions cs)"
  by (simp_all add: substitutions.simps [of "[]"] substitutions.simps [of "c # cs"] Let_def split_beta)

section \<open>Segments\<close>

record segment =
  seg_words :: "string list"
  seg_piped_into :: bool
  seg_redirects :: "string list"

definition empty_segment :: segment where
  "empty_segment = \<lparr>seg_words = [], seg_piped_into = False, seg_redirects = []\<rparr>"

text \<open>The local variables of \<open>segments\<close>.\<close>

record lexer =
  lx_out :: "segment list"
  lx_cur :: segment
  lx_piped_next :: bool
  lx_word :: string
  lx_has_word :: bool
  lx_redirect_pending :: bool

definition lexer_start :: lexer where
  "lexer_start =
     \<lparr>lx_out = [], lx_cur = empty_segment, lx_piped_next = False, lx_word = [], lx_has_word = False,
      lx_redirect_pending = False\<rparr>"

definition push_word :: "lexer \<Rightarrow> lexer" where
  "push_word x =
     (if \<not> lx_has_word x then x
      else (let cur = lx_cur x; w = lx_word x
            in if lx_redirect_pending x
               then x\<lparr>lx_cur := cur\<lparr>seg_redirects := seg_redirects cur @ [w]\<rparr>, lx_redirect_pending := False,
                      lx_word := [], lx_has_word := False\<rparr>
               else x\<lparr>lx_cur := cur\<lparr>seg_words := seg_words cur @ [w]\<rparr>, lx_word := [], lx_has_word := False\<rparr>))"

definition flush :: "bool \<Rightarrow> lexer \<Rightarrow> lexer" where
  "flush next_is_pipe x =
     (let cur = lx_cur x
      in if seg_words cur \<noteq> [] \<or> seg_redirects cur \<noteq> []
         then x\<lparr>lx_out := lx_out x @ [cur\<lparr>seg_piped_into := lx_piped_next x\<rparr>], lx_cur := empty_segment,
                lx_piped_next := next_is_pipe\<rparr>
         else x\<lparr>lx_piped_next := next_is_pipe\<rparr>)"

definition add_chars :: "string \<Rightarrow> lexer \<Rightarrow> lexer" where
  "add_chars cs x = x\<lparr>lx_word := lx_word x @ cs, lx_has_word := True\<rparr>"

text \<open>A double-quoted stretch: its text and what follows the closing quote.\<close>

fun double_quoted :: "string \<Rightarrow> string \<times> string" where
  "double_quoted [] = ([], [])"
| "double_quoted (c # cs) =
     (if c = CHR 34 then ([], cs)
      else if c = CHR 92 then
        (case cs of
           [] \<Rightarrow> ([c], [])
         | d # ds \<Rightarrow> (let r = double_quoted ds in (d # fst r, snd r)))
      else (let r = double_quoted cs in (c # fst r, snd r)))"

lemma double_quoted_rest: "length (snd (double_quoted s)) \<le> length s"
proof (induction s rule: double_quoted.induct)
  case (2 c cs)
  then show ?case
    unfolding double_quoted.simps(2) [of c cs]
    by (cases cs) (auto simp: Let_def le_SucI simp del: double_quoted.simps)
qed simp

lemma double_quoted_code [code]:
  "double_quoted [] = ([], [])"
  "double_quoted (c # cs) =
     (if c = CHR 34 then ([], cs)
      else if c = CHR 92 \<and> cs = [] then ([c], [])
      else (case double_quoted (if c = CHR 92 then tl cs else cs) of
              (t, rest) \<Rightarrow> ((if c = CHR 92 then hd cs else c) # t, rest)))"
  by (simp, cases cs) (simp_all add: Let_def split_beta)

definition standalone_brace :: "char option \<Rightarrow> string \<Rightarrow> bool" where
  "standalone_brace prev after \<longleftrightarrow>
     (case prev of None \<Rightarrow> True | Some p \<Rightarrow> is_ws p \<or> p \<in> set '';&|()'') \<and>
     (case after of [] \<Rightarrow> True | a # _ \<Rightarrow> is_ws a)"

definition last_of :: "char \<Rightarrow> string \<Rightarrow> char option" where
  "last_of c s = Some (if s = [] then c else last s)"

text \<open>
  The loop of \<open>segments\<close>: the character before the rest of the line, the variables, the rest.
\<close>

function lex :: "char option \<Rightarrow> lexer \<Rightarrow> string \<Rightarrow> lexer" where
  "lex prev x s =
     (case s of
        [] \<Rightarrow> x
      | c # cs \<Rightarrow>
          if c = CHR 39
          then lex (Some c) (add_chars (takeWhile (\<lambda>d. d \<noteq> CHR 39) cs) x) (tl (dropWhile (\<lambda>d. d \<noteq> CHR 39) cs))
          else if c = CHR 34
          then lex (Some c) (add_chars (fst (double_quoted cs)) x) (snd (double_quoted cs))
          else if c = CHR 92 \<and> cs \<noteq> []
          then lex (Some (hd cs)) (add_chars [hd cs] x) (tl cs)
          else if is_ws c \<and> c \<noteq> CHR 10
          then lex (Some c) (push_word x) cs
          else if c = CHR ''('' \<or> c = CHR '')''
          then lex (Some c) (flush False (push_word x)) cs
          else if (c = CHR ''{'' \<or> c = CHR ''}'') \<and> standalone_brace prev cs
          then lex (Some c) (flush False (push_word x)) cs
          else if c = CHR ''&'' \<and> starts_with cs ''>''
          then lex (last_of c (takeWhile (\<lambda>d. d \<in> set ''>|'') cs)) ((push_word x)\<lparr>lx_redirect_pending := True\<rparr>)
                 (dropWhile (\<lambda>d. d \<in> set ''>|'') cs)
          else if c = CHR ''|'' \<or> c = CHR ''&'' \<or> c = CHR '';'' \<or> c = CHR 10
          then (let x' = flush (c = CHR ''|'' \<and> \<not> starts_with cs ''|'') (push_word x)
                in if (c = CHR ''&'' \<or> c = CHR ''|'') \<and> cs \<noteq> [] \<and> (hd cs = c \<or> (c = CHR ''|'' \<and> hd cs = CHR ''&''))
                   then lex (Some (hd cs)) x' (tl cs)
                   else lex (Some c) x' cs)
          else if c = CHR ''>'' \<or> c = CHR ''<''
          then lex (last_of c (takeWhile (\<lambda>d. d \<in> set ''><|'') cs))
                 ((push_word x)\<lparr>lx_redirect_pending := (c = CHR ''>'' \<or> starts_with cs ''>'')\<rparr>)
                 (dropWhile (\<lambda>d. d \<in> set ''><|'') cs)
          else if c = CHR ''#'' \<and> \<not> lx_has_word x
          then lex (last_of c (takeWhile (\<lambda>d. d \<noteq> CHR 10) cs)) x (dropWhile (\<lambda>d. d \<noteq> CHR 10) cs)
          else lex (Some c) (add_chars [c] x) cs)"
  by pat_completeness auto
termination
  by (relation "measure (\<lambda>(prev, x, s). length s)")
    (simp_all add: less_Suc_eq_le tl_dropWhile_le double_quoted_rest tl_le del: length_tl)

declare lex.simps [simp del]

definition segments :: "string \<Rightarrow> segment list" where
  "segments line = lx_out (flush False (push_word (lex None lexer_start line)))"

end
