(* ===== verification/Guard_Shell.thy ===== *)
theory Guard_Shell
  imports Guard_Shell_Lex
begin

text \<open>
  Judging a shell line: \<open>check_shell_line\<close> of \<open>libs/lisa-guard/src/shell.rs\<close>. The result is \<open>None\<close>
  where the source panics: slicing \<open>trimmed[2..]\<close> inside a character of more than one byte. The
  depth counter of the source counts up to \<open>MAX_DEPTH\<close>; here the levels that are left count down.
\<close>

section \<open>Vocabulary\<close>

definition SHELLS :: "string list" where
  "SHELLS =
     [''sh'', ''bash'', ''zsh'', ''dash'', ''ksh'', ''fish'', ''csh'', ''tcsh'']"

definition INTERPRETERS :: "string list" where
  "INTERPRETERS =
     [''python'', ''perl'', ''ruby'', ''node'', ''php'', ''awk'', ''gawk'', ''mawk'', ''nawk'', ''lua'',
      ''deno'', ''bun'', ''osascript'', ''tclsh'', ''expect'']"

definition WRAPPERS :: "string list" where
  "WRAPPERS =
     [''env'', ''nohup'', ''command'', ''builtin'', ''exec'', ''nice'', ''ionice'', ''stdbuf'', ''time'',
      ''timeout'', ''xargs'', ''setsid'', ''chrt'', ''busybox'', ''toybox'', ''flock'', ''script'',
      ''taskset'', ''unshare'', ''nsenter'', ''systemd-run'', ''proot'', ''eatmydata'']"

definition KNOWN_LEAF_PROGRAMS :: "string list" where
  "KNOWN_LEAF_PROGRAMS =
     [''rm'', ''rmdir'', ''shred'', ''chmod'', ''chown'', ''chgrp'', ''dd'', ''mkfs'', ''wipefs'',
      ''blkdiscard'', ''sgdisk'', ''fdisk'', ''parted'', ''badblocks'', ''cfdisk'', ''tee'', ''cp'',
      ''mv'', ''install'', ''ln'', ''truncate'', ''sed'', ''find'', ''history'', ''journalctl'',
      ''reboot'', ''poweroff'', ''halt'', ''shutdown'', ''kexec'', ''systemctl'', ''pacman'', ''apt'',
      ''apt-get'', ''dnf'', ''yum'', ''zypper'', ''npm'', ''pnpm'', ''yarn'', ''pip'', ''pip3'',
      ''cargo'', ''curl'', ''wget'', ''nc'', ''ncat'', ''ssh'', ''scp'', ''rsync'', ''ftp'', ''git'',
      ''rg'', ''ag'', ''ack'', ''jj'', ''hg'', ''svn'', ''gh'', ''glab'', ''trap'', ''watch'', ''eval'',
      ''echo'', ''printf'', ''ls'', ''cat'', ''head'', ''tail'', ''wc'', ''sort'', ''uniq'', ''diff'',
      ''grep'', ''less'', ''more'', ''man'', ''which'', ''file'', ''stat'', ''du'', ''df'', ''ps'',
      ''kill'', ''pkill'', ''tar'', ''zip'', ''unzip'', ''gzip'', ''gunzip'', ''xz'', ''zstd'', ''date'',
      ''whoami'', ''id'', ''uname'', ''hostname'', ''mkdir'', ''touch'', ''pwd'', ''cd'', ''true'',
      ''false'', ''test'', ''sleep'', ''seq'', ''tr'', ''cut'', ''paste'', ''join'', ''basename'',
      ''dirname'', ''realpath'', ''readlink'', ''mktemp'', ''make'', ''just'', ''cmake'', ''ninja'',
      ''meson'', ''docker'', ''podman'', ''kubectl'', ''dart'', ''rustc'', ''rustup'', ''go'', ''gcc'',
      ''clang'', ''ping'', ''dig'', ''host'', ''ip'', ''lsblk'', ''blkid'', ''mount'', ''umount'',
      ''systemd-analyze'']"

definition DEFERRED_CODE :: "string list" where
  "DEFERRED_CODE =
     [''trap'', ''watch'']"

definition TARGET_SENSITIVE :: "string list" where
  "TARGET_SENSITIVE =
     [''rm'', ''rmdir'', ''shred'', ''chmod'', ''chown'', ''chgrp'', ''dd'', ''wipefs'', ''blkdiscard'',
      ''tee'', ''truncate'', ''mkfs'']"

definition ESCALATORS :: "string list" where
  "ESCALATORS =
     [''sudo'', ''doas'', ''pkexec'', ''su'', ''run0'']"

definition KEYWORDS :: "string list" where
  "KEYWORDS =
     [''if'', ''then'', ''else'', ''elif'', ''fi'', ''do'', ''done'', ''while'', ''until'', ''for'',
      ''case'', ''esac'', ''select'', ''function'', ''in'', ''{'', ''}'', ''('', '')'', ''!'',
      ''coproc'']"

definition MAX_DEPTH :: nat where
  "MAX_DEPTH = 6"

definition basename :: "string \<Rightarrow> string" where
  "basename word =
     (if \<not> contains_str word ''/'' then word
      else (case file_name (path_components word) of Some n \<Rightarrow> n | None \<Rightarrow> word))"

definition is_env_assignment :: "string \<Rightarrow> bool" where
  "is_env_assignment word =
     (case split_once (CHR ''='') word of
        None \<Rightarrow> False
      | Some (key, value) \<Rightarrow>
          key \<noteq> [] \<and> \<not> is_ascii_digit (hd key) \<and> list_all (\<lambda>c. is_ascii_alnum c \<or> c = CHR ''_'') key)"

definition canonical_program :: "string \<Rightarrow> string" where
  "canonical_program name =
     (let trimmed = trim_end_by (\<lambda>c. is_ascii_digit c \<or> c = CHR ''.'') name
      in if trimmed = [] then name else trimmed)"

definition is_shell :: "string \<Rightarrow> bool" where
  "is_shell program \<longleftrightarrow> program \<in> set SHELLS \<or> canonical_program program \<in> set SHELLS"

definition executes_code :: "string \<Rightarrow> bool" where
  "executes_code program \<longleftrightarrow>
     is_shell program \<or> program \<in> set INTERPRETERS \<or> canonical_program program \<in> set INTERPRETERS"

definition is_meta :: "char \<Rightarrow> bool" where
  "is_meta c \<longleftrightarrow> c \<in> set ''*?[{''"

text \<open>The text before the last slash, \<open>/\<close> when that slash is the first character.\<close>

definition pinned_dir :: "string \<Rightarrow> string" where
  "pinned_dir fixed =
     (let d = rev (tl (dropWhile (\<lambda>c. c \<noteq> CHR ''/'') (rev fixed))) in if d = [] then ''/'' else d)"

definition is_unresolved :: "string \<Rightarrow> bool" where
  "is_unresolved word =
     (let bare = trim_by is_quote word
      in if CHR ''$'' \<in> set word \<or> CHR ''`'' \<in> set word then True
         else if \<not> starts_with bare ''/'' then False
         else if \<not> list_ex is_meta bare then False
         else length (filter (\<lambda>c. c \<noteq> []) (split_on is_slash (trim_by is_slash
                (pinned_dir (takeWhile (\<lambda>c. \<not> is_meta c) bare))))) < 2)"

section \<open>Inline source\<close>

definition AWK_EXEC_PRIMITIVES :: "string list" where
  "AWK_EXEC_PRIMITIVES = [''system('', ''|'', ''getline'', ''close('', ''ENVIRON'']"

text \<open>White space directly before an opening parenthesis is dropped.\<close>

fun squeeze_calls :: "string \<Rightarrow> string" where
  "squeeze_calls [] = []"
| "squeeze_calls (c # cs) =
     (if is_ws c \<and> starts_with (dropWhile is_ws cs) ''('' then squeeze_calls cs else c # squeeze_calls cs)"

fun redirects_into_quote :: "string \<Rightarrow> bool" where
  "redirects_into_quote [] = False"
| "redirects_into_quote (c # cs) =
     ((c = CHR ''>'' \<and> starts_with (dropWhile is_ws cs) [CHR 34]) \<or> redirects_into_quote cs)"

definition awk_primitive :: "string \<Rightarrow> string option" where
  "awk_primitive source =
     (let squeezed = squeeze_calls source
      in case List.find (\<lambda>p. contains_str squeezed p) AWK_EXEC_PRIMITIVES of
           Some p \<Rightarrow> Some p
         | None \<Rightarrow>
             if redirects_into_quote squeezed then Some (''> '' @ [CHR 34] @ ''file'' @ [CHR 34] @ '' redirection'') else None)"

definition AWKS :: "string list" where
  "AWKS = [''awk'', ''gawk'', ''mawk'', ''nawk'']"

definition awk_source :: "invocation \<Rightarrow> string option" where
  "awk_source iv =
     (if canonical_program (inv_program iv) \<notin> set AWKS then None
      else if \<exists>a \<in> set (inv_args iv). a = ''-f'' \<or> starts_with a ''--file'' then None
      else List.find (\<lambda>a. \<not> starts_with a ''-'') (inv_args iv))"

definition inline_letters :: "string \<Rightarrow> string" where
  "inline_letters program =
     (let p = canonical_program program
      in if p = ''python'' then ''c''
         else if p \<in> set AWKS \<or> p = ''lua'' \<or> p = ''deno'' \<or> p = ''bun'' \<or> p = ''osascript'' \<or> p = ''ruby'' then ''e''
         else if p = ''perl'' then ''eE''
         else if p = ''node'' then ''ep''
         else if p = ''php'' then ''r''
         else [])"

definition inline_source_flag :: "string \<Rightarrow> string list \<Rightarrow> bool" where
  "inline_source_flag program args \<longleftrightarrow>
     inline_letters program \<noteq> [] \<and>
     (\<exists>a \<in> set args. a = ''--eval'' \<or> a = ''--print'' \<or> short_flag_with (inline_letters program) a)"

section \<open>What a segment runs\<close>

function peel :: "bool \<Rightarrow> string list \<Rightarrow> bool \<times> string list" where
  "peel esc [] = (esc, [])"
| "peel esc (w # ws) =
     (if basename w \<in> set ESCALATORS then peel True ws
      else if w \<in> set KEYWORDS then peel esc ws
      else if basename w \<in> set WRAPPERS
      then peel esc (dropWhile (\<lambda>a. starts_with a ''-'' \<or> list_all is_ascii_digit a) ws)
      else if is_env_assignment w then peel esc ws
      else (esc, w # ws))"
  by pat_completeness auto
termination
  by (relation "measure (\<lambda>(esc, ws). length ws)") (simp_all add: less_Suc_eq_le tl_dropWhile_le)

definition seg_invocation :: "segment \<Rightarrow> invocation option" where
  "seg_invocation seg =
     (case peel False (seg_words seg) of
        (esc, []) \<Rightarrow> None
      | (esc, w # ws) \<Rightarrow> Some \<lparr>inv_escalated = esc, inv_program = basename w, inv_args = ws\<rparr>)"

definition is_opaque :: "segment \<Rightarrow> bool" where
  "is_opaque seg \<longleftrightarrow>
     (\<exists>w \<in> set (seg_words seg). basename w \<in> set WRAPPERS \<or> basename w \<in> set ESCALATORS) \<or>
     (case seg_invocation seg of
        None \<Rightarrow> False
      | Some iv \<Rightarrow> inv_program iv \<notin> set KNOWN_LEAF_PROGRAMS \<and> \<not> executes_code (inv_program iv))"

fun candidates :: "bool \<Rightarrow> invocation list \<Rightarrow> string list \<Rightarrow> invocation list" where
  "candidates esc out [] = out"
| "candidates esc out (w # ws) =
     (if starts_with w ''-'' \<or> is_env_assignment w \<or> is_unresolved w \<or>
         (\<exists>iv \<in> set out. inv_program iv = basename w)
      then candidates esc out ws
      else candidates esc (out @ [\<lparr>inv_escalated = esc, inv_program = basename w, inv_args = ws\<rparr>]) ws)"

definition invocations :: "segment \<Rightarrow> invocation list" where
  "invocations seg =
     (case seg_invocation seg of
        None \<Rightarrow> []
      | Some primary \<Rightarrow>
          if \<not> is_opaque seg then [primary]
          else candidates (\<exists>w \<in> set (seg_words seg). basename w \<in> set ESCALATORS) [primary] (seg_words seg))"

definition CODE_FLAGS :: "string list" where
  "CODE_FLAGS = [''-c'', ''--command'', ''-e'', ''--eval'', ''-x'', ''--exec'', ''--execute'', ''-S'', ''--run'']"

text \<open>\<open>s[2..]\<close> of a string that starts with a hyphen: it panics inside a longer character.\<close>

definition after_short_flag :: "string \<Rightarrow> string option" where
  "after_short_flag s = (if utf8_len (s ! 1) = 1 then Some (drop 2 s) else None)"

text \<open>The extra reading of a payload welded to its flag; the outer option is the panic.\<close>

definition welded :: "string \<Rightarrow> (string \<times> bool) list option" where
  "welded trimmed =
     (case strip_prefix trimmed ''--'' of
        Some rest \<Rightarrow> Some (case split_once (CHR ''='') rest of Some (k, payload) \<Rightarrow> [(payload, True)] | None \<Rightarrow> [])
      | None \<Rightarrow>
          if starts_with trimmed ''-'' \<and> 2 < byte_len trimmed
          then map_option (\<lambda>p. [(p, True)]) (after_short_flag trimmed)
          else Some [])"

fun embedded_in :: "string option \<Rightarrow> string list \<Rightarrow> (string \<times> bool) list option" where
  "embedded_in prev [] = Some []"
| "embedded_in prev (w # ws) =
     (if \<not> list_ex is_ws (trim w) then embedded_in (Some w) ws
      else (case welded (trim w) of
              None \<Rightarrow> None
            | Some extra \<Rightarrow>
                map_option
                  (\<lambda>r. (w, case prev of None \<Rightarrow> False | Some p \<Rightarrow> trim p \<in> set CODE_FLAGS) # extra @ r)
                  (embedded_in (Some w) ws)))"

definition embedded_command_lines :: "segment \<Rightarrow> (string \<times> bool) list option" where
  "embedded_command_lines seg = (if \<not> is_opaque seg then Some [] else embedded_in None (seg_words seg))"

definition RUNS_NEXT :: "string list" where
  "RUNS_NEXT =
     [''-x'', ''--exec'', ''--tree-filter'', ''--index-filter'', ''--msg-filter'', ''--commit-filter'',
      ''--env-filter'', ''--parent-filter'', ''--subdirectory-filter'']"

fun git_payloads :: "string list \<Rightarrow> string list" where
  "git_payloads [] = []"
| "git_payloads [a] = opt_list (if a \<in> set RUNS_NEXT then None else find_map (\<lambda>f. strip_prefix a (f @ ''='')) RUNS_NEXT)"
| "git_payloads (a # b # args) =
     (if a \<in> set RUNS_NEXT then b # git_payloads args
      else opt_list (find_map (\<lambda>f. strip_prefix a (f @ ''='')) RUNS_NEXT) @ git_payloads (b # args))"

fun watch_payload :: "string list \<Rightarrow> string list" where
  "watch_payload [] = []"
| "watch_payload (a # args) =
     (if a = ''-n'' \<or> a = ''--interval'' then (case args of [] \<Rightarrow> [] | _ # rest \<Rightarrow> watch_payload rest)
      else if starts_with a ''-'' then watch_payload args
      else [a])"

definition executed_arguments :: "invocation \<Rightarrow> string list" where
  "executed_arguments iv =
     (if inv_program iv = ''trap'' then opt_list (List.find (\<lambda>a. a \<noteq> ''--'' \<and> \<not> starts_with a ''-'') (inv_args iv))
      else if inv_program iv = ''watch'' then watch_payload (inv_args iv)
      else if inv_program iv = ''git'' then git_payloads (inv_args iv)
      else [])"

section \<open>Verdicts\<close>

definition dense :: "string \<Rightarrow> string" where
  "dense line = filter (\<lambda>c. \<not> is_ws c) line"

definition is_fork_bomb :: "string \<Rightarrow> bool" where
  "is_fork_bomb line \<longleftrightarrow>
     contains_str (dense line) '':(){:|:&};:'' \<or> contains_str (dense line) '':(){:|:&};''"

definition REDIRECT_ROOTS :: "string list" where
  "REDIRECT_ROOTS = [''/etc/'', ''/usr/'', ''/boot/'', ''/efi/'', ''/bin/'', ''/sbin/'', ''/lib/'']"

definition DEVICE_PREFIXES :: "string list" where
  "DEVICE_PREFIXES = [''/dev/sd'', ''/dev/nvme'', ''/dev/vd'', ''/dev/hd'', ''/dev/mmcblk'']"

definition redirect_verdict :: "string \<Rightarrow> verdict" where
  "redirect_verdict raw =
     (let target = normalize_target raw
      in if is_unresolved raw
         then VDeny ''shell.unreadable''
                (''redirects into '' @ quoted raw @ '', whose target cannot be determined here'')
         else if \<exists>p \<in> set DEVICE_PREFIXES. starts_with target p
         then VDeny ''disk.raw_write'' (''redirects output onto the block device '' @ quoted target)
         else if (\<exists>r \<in> set REDIRECT_ROOTS. starts_with target r) \<or> target = ''/etc''
         then VDeny ''fs.system_write''
                (''redirects output into '' @ quoted target @ '', which belongs to the OS image'')
         else if ends_with target ''_history'' \<or> starts_with target ''/var/log/''
         then VDeny ''audit.erase'' (''truncates '' @ quoted target @ '', erasing the record of what ran'')
         else VAllow)"

fun soften :: "verdict \<Rightarrow> verdict" where
  "soften (VDeny rule reason) =
     VConfirm rule (reason @ '' (guessed from an unknown program's arguments)'')"
| "soften v = v"

text \<open>
  A loop of the source that keeps the worst verdict and returns as soon as it is a refusal;
  \<open>proceed\<close> goes on to the next loop unless the verdict is one.
\<close>

fun each :: "('a \<Rightarrow> verdict option) \<Rightarrow> 'a list \<Rightarrow> verdict \<Rightarrow> verdict option" where
  "each f [] v = Some v"
| "each f (x # xs) v =
     (case f x of
        None \<Rightarrow> None
      | Some w \<Rightarrow> (let v' = worst v w in if is_denied v' then Some v' else each f xs v'))"

definition proceed :: "verdict option \<Rightarrow> (verdict \<Rightarrow> verdict option) \<Rightarrow> verdict option" where
  "proceed r k = (case r of None \<Rightarrow> None | Some v \<Rightarrow> if is_denied v then Some v else k v)"

text \<open>\<open>judge\<close>: \<open>recur\<close> is \<open>check_shell_line_inner\<close> one level deeper.\<close>

definition computed_target :: "invocation \<Rightarrow> bool" where
  "computed_target iv \<longleftrightarrow>
     (inv_program iv \<in> set TARGET_SENSITIVE \<or> starts_with (inv_program iv) ''mkfs.'') \<and>
     (\<exists>a \<in> set (inv_args iv). is_unresolved a)"

definition judge_source :: "invocation \<Rightarrow> verdict option" where
  "judge_source iv =
     (case Option.bind (awk_source iv) awk_primitive of
        Some primitive \<Rightarrow>
          Some (VDeny ''interpreter.inline_source''
            (''the '' @ quoted (inv_program iv) @ '' program uses '' @ quoted primitive @
             '', which runs external commands''))
      | None \<Rightarrow>
          if inline_source_flag (inv_program iv) (inv_args iv)
          then Some (VDeny ''interpreter.inline_source''
            (''runs an inline '' @ quoted (inv_program iv) @
             '' program, which this guard cannot read -- write it to a file you can review, or ask for the shell command you want''))
          else None)"

definition judge_tail :: "invocation \<Rightarrow> bool \<Rightarrow> verdict \<Rightarrow> verdict" where
  "judge_tail iv piped v =
     (case judge_source iv of
        Some d \<Rightarrow> d
      | None \<Rightarrow>
          if piped \<and> executes_code (inv_program iv)
          then VDeny ''pipe.to.shell''
                 (''pipes output into '' @ quoted (inv_program iv) @ '', which executes whatever arrives'')
          else worst v (scan iv))"

definition judge_deferred :: "(string \<Rightarrow> verdict option) \<Rightarrow> invocation \<Rightarrow> verdict option" where
  "judge_deferred recur iv =
     (if inv_program iv \<in> set DEFERRED_CODE \<and> inv_args iv \<noteq> []
      then map_option (worst VAllow) (recur (hd (inv_args iv)))
      else Some VAllow)"

definition judge_invocation :: "(string \<Rightarrow> verdict option) \<Rightarrow> bool \<Rightarrow> invocation \<Rightarrow> verdict option" where
  "judge_invocation recur piped iv =
     (if is_unresolved (inv_program iv)
      then Some (VDeny ''shell.unreadable''
             ''the program name is computed at runtime, so what would actually run cannot be determined'')
      else if computed_target iv
      then Some (VDeny ''shell.unreadable''
             (quoted (inv_program iv) @
              '' acts on a target computed at runtime, so what it would destroy cannot be determined''))
      else if inv_program iv = ''eval'' then recur (join '' '' (inv_args iv))
      else (case judge_deferred recur iv of
              None \<Rightarrow> None
            | Some v \<Rightarrow>
                if is_shell (inv_program iv)
                then proceed (each recur (inv_args iv) v) (\<lambda>v'. Some (judge_tail iv piped v'))
                else Some (judge_tail iv piped v)))"

definition judge_segment :: "(string \<Rightarrow> verdict option) \<Rightarrow> segment \<Rightarrow> verdict \<Rightarrow> verdict option" where
  "judge_segment recur seg v =
     proceed (each (\<lambda>t. Some (redirect_verdict t)) (seg_redirects seg) v)
       (\<lambda>v1. case embedded_command_lines seg of
          None \<Rightarrow> None
        | Some embedded \<Rightarrow>
            proceed (each (\<lambda>(code, names_code). map_option (if names_code then id else soften) (recur code)) embedded v1)
              (\<lambda>v2. proceed (each recur (concat (map executed_arguments (invocations seg))) v2)
                 (each (judge_invocation recur (seg_piped_into seg)) (invocations seg))))"

fun judge_segments :: "(string \<Rightarrow> verdict option) \<Rightarrow> segment list \<Rightarrow> verdict \<Rightarrow> verdict option" where
  "judge_segments recur [] v = Some v"
| "judge_segments recur (seg # segs) v = proceed (judge_segment recur seg v) (judge_segments recur segs)"

definition fork_bomb_verdict :: verdict where
  "fork_bomb_verdict = VDeny ''fork.bomb'' ''a fork bomb -- it takes the machine down''"

fun check_inner :: "nat \<Rightarrow> string \<Rightarrow> verdict option" where
  "check_inner 0 raw =
     Some (VDeny ''shell.unreadable''
       ''nests deeper than this reader will follow -- it cannot be judged safely'')"
| "check_inner (Suc levels) raw =
     (let norm = normalize_expansions raw; line = fst norm
      in if is_fork_bomb raw then Some fork_bomb_verdict
         else if snd norm
         then Some (VDeny ''shell.unreadable''
                ''an escape sequence decodes into shell syntax, so the command cannot be read as written'')
         else if is_fork_bomb line then Some fork_bomb_verdict
         else proceed (each (check_inner levels) (substitutions line) VAllow)
                (judge_segments (check_inner levels) (segments line)))"

text \<open>The same equations, with each intermediate result computed once when they are evaluated.\<close>

lemma each_code [code]:
  "each f [] v = Some v"
  "each f (x # xs) v =
     (case f x of
        None \<Rightarrow> None
      | Some w \<Rightarrow> (case worst v w of
                    VDeny rule reason \<Rightarrow> Some (VDeny rule reason)
                  | VAllow \<Rightarrow> each f xs VAllow
                  | VConfirm rule reason \<Rightarrow> each f xs (VConfirm rule reason)))"
  by (simp, cases "f x") (auto simp: Let_def split: verdict.split)

lemma check_inner_code [code]:
  "check_inner 0 raw =
     Some (VDeny ''shell.unreadable''
       ''nests deeper than this reader will follow -- it cannot be judged safely'')"
  "check_inner (Suc levels) raw =
     (case normalize_expansions raw of
        (line, syntax) \<Rightarrow>
          if is_fork_bomb raw then Some fork_bomb_verdict
          else if syntax
          then Some (VDeny ''shell.unreadable''
                 ''an escape sequence decodes into shell syntax, so the command cannot be read as written'')
          else if is_fork_bomb line then Some fork_bomb_verdict
          else proceed (each (check_inner levels) (substitutions line) VAllow)
                 (judge_segments (check_inner levels) (segments line)))"
  by (simp_all add: Let_def split_beta)

definition check_shell_line :: "string \<Rightarrow> verdict option" where
  "check_shell_line line = check_inner (Suc MAX_DEPTH) line"

end
