(* ===== verification/Guard_Command.thy ===== *)
theory Guard_Command
  imports Guard_Shell
begin

text \<open>
  The argv policy of the forge agent: \<open>libs/lisa-guard/src/command.rs\<close>. The result is \<open>None\<close> where
  the source panics: \<open>path_candidates\<close> slices one byte off an attached short option.
\<close>

section \<open>Policies\<close>

definition ALLOWED_COMMANDS :: "string list" where
  "ALLOWED_COMMANDS =
     [''lisa'', ''gjs'', ''node'', ''dart'', ''cargo'', ''ls'', ''cat'', ''grep'', ''find'', ''echo'', ''pwd'',
      ''mkdir'', ''touch'']"

record program_policy =
  pp_denied_flags :: "string list"
  pp_subcommands :: "string list"
  pp_pattern_flags :: "string list"
  pp_first_operand_is_pattern :: bool
  pp_pattern_supplied_by :: "string list"
  pp_denied_operands :: "string list list"
  pp_value_flags :: "string list"

definition DEFAULT_POLICY :: program_policy where
  "DEFAULT_POLICY =
     \<lparr>pp_denied_flags = [], pp_subcommands = [], pp_pattern_flags = [], pp_first_operand_is_pattern = False,
      pp_pattern_supplied_by = [], pp_denied_operands = [], pp_value_flags = []\<rparr>"

definition FIND_POLICY :: program_policy where
  "FIND_POLICY = DEFAULT_POLICY\<lparr>
     pp_denied_flags :=
       [''-exec'', ''-execdir'', ''-ok'', ''-okdir'', ''-delete'', ''-fprintf'', ''-fprint'', ''-fprint0'', ''-fls''],
     pp_pattern_flags :=
       [''-name'', ''-iname'', ''-path'', ''-ipath'', ''-wholename'', ''-iwholename'', ''-regex'', ''-iregex'',
        ''-lname'', ''-ilname'']\<rparr>"

definition CARGO_POLICY :: program_policy where
  "CARGO_POLICY = DEFAULT_POLICY\<lparr>
     pp_denied_flags := [''--config''],
     pp_subcommands :=
       [''build'', ''b'', ''test'', ''t'', ''check'', ''c'', ''clippy'', ''fmt'', ''doc'', ''tree'', ''metadata'',
        ''add'', ''remove'', ''update'', ''run'', ''r'', ''bench'', ''clean'', ''search'', ''vendor'',
        ''verify-project'', ''locate-project'', ''package'', ''generate-lockfile'', ''fix''],
     pp_value_flags := [''--color'', ''-Z'', ''--target'', ''-j'', ''--jobs'', ''--message-format'']\<rparr>"

definition GREP_POLICY :: program_policy where
  "GREP_POLICY = DEFAULT_POLICY\<lparr>
     pp_pattern_flags := [''-e'', ''--regexp'', ''--include'', ''--exclude''],
     pp_first_operand_is_pattern := True,
     pp_pattern_supplied_by := [''-e'', ''--regexp'', ''-f'', ''--file'']\<rparr>"

definition policy_for :: "string \<Rightarrow> program_policy" where
  "policy_for program =
     (if program = ''find'' then FIND_POLICY
      else if program = ''cargo'' then CARGO_POLICY
      else if program = ''lisa'' then DEFAULT_POLICY\<lparr>pp_subcommands := [''dev'', ''tools'', ''skills'']\<rparr>
      else if program = ''gjs''
      then DEFAULT_POLICY\<lparr>pp_denied_flags := [''-c'', ''--command'', ''-I'', ''--include-path'']\<rparr>
      else if program = ''node'' \<or> program = ''nodejs''
      then DEFAULT_POLICY\<lparr>pp_denied_flags := [''-e'', ''--eval'', ''-p'', ''--print'', ''-r'', ''--require'']\<rparr>
      else if program = ''dart''
      then DEFAULT_POLICY\<lparr>
             pp_subcommands :=
               [''analyze'', ''format'', ''test'', ''pub'', ''compile'', ''fix'', ''doc'', ''run'', ''info'', ''create''],
             pp_denied_operands := [[''pub'', ''global'']]\<rparr>
      else if program = ''grep'' then GREP_POLICY
      else DEFAULT_POLICY)"

section \<open>Arguments\<close>

datatype allowlist = Enforced | Advisory

definition names_subcommand :: "string list \<Rightarrow> bool" where
  "names_subcommand args \<longleftrightarrow> (\<exists>a \<in> set args. \<not> starts_with a ''-'' \<and> \<not> starts_with a ''+'')"

text \<open>Everything before \<open>--\<close>, once a subcommand has been named there.\<close>

definition own_args :: "string list \<Rightarrow> string list" where
  "own_args args =
     (let before = takeWhile (\<lambda>a. a \<noteq> ''--'') args
      in if ''--'' \<in> set args \<and> names_subcommand before then before else args)"

fun subcommand_operands :: "program_policy \<Rightarrow> string list \<Rightarrow> string list" where
  "subcommand_operands pol [] = []"
| "subcommand_operands pol (a # args) =
     (if a \<in> set (pp_value_flags pol)
      then (case args of [] \<Rightarrow> [] | _ # rest \<Rightarrow> subcommand_operands pol rest)
      else if starts_with a ''-'' \<or> starts_with a ''+'' then subcommand_operands pol args
      else a # subcommand_operands pol args)"

text \<open>The tail of an attached short option; the outer option is the panic of \<open>rest[1..]\<close>.\<close>

definition attached_tail :: "string \<Rightarrow> string list option" where
  "attached_tail arg =
     (case strip_prefix arg ''-'' of
        None \<Rightarrow> Some []
      | Some rest \<Rightarrow>
          if starts_with rest ''-'' \<or> byte_len rest \<le> 1 then Some []
          else if utf8_len (hd rest) = 1 then Some [tl rest]
          else None)"

definition path_candidates :: "string \<Rightarrow> string list option" where
  "path_candidates arg =
     map_option (\<lambda>tail. [arg] @ (case split_once (CHR ''='') arg of Some (k, value) \<Rightarrow> [value] | None \<Rightarrow> []) @ tail)
       (attached_tail arg)"

definition escapes :: "string \<Rightarrow> bool" where
  "escapes candidate \<longleftrightarrow>
     (let p = path_components candidate in is_absolute p \<or> ParentDir \<in> set p)"

text \<open>The loop of \<open>escaping_argument\<close> with its three flags.\<close>

definition longer_than_flag :: "string \<Rightarrow> string list \<Rightarrow> bool" where
  "longer_than_flag a flags \<longleftrightarrow> (\<exists>f \<in> set flags. byte_len f < byte_len a \<and> starts_with a f)"

definition expects_pattern :: "program_policy \<Rightarrow> string list \<Rightarrow> bool" where
  "expects_pattern pol args \<longleftrightarrow>
     pp_first_operand_is_pattern pol \<and>
     \<not> (\<exists>a \<in> set args. a \<in> set (pp_pattern_supplied_by pol) \<or> longer_than_flag a (pp_pattern_supplied_by pol))"

fun escaping_loop :: "program_policy \<Rightarrow> bool \<Rightarrow> bool \<Rightarrow> bool \<Rightarrow> bool \<Rightarrow> string list \<Rightarrow> string option option" where
  "escaping_loop pol expects seen pattern past [] = Some None"
| "escaping_loop pol expects seen pattern past (a # args) =
     (let judge = (\<lambda>seen'.
            case path_candidates a of
              None \<Rightarrow> None
            | Some cs \<Rightarrow>
                (case List.find escapes cs of
                   Some c \<Rightarrow> Some (Some c)
                 | None \<Rightarrow> escaping_loop pol expects seen' False past args))
      in if a = ''--'' \<and> \<not> past then escaping_loop pol expects seen False True args
         else if past
         then (if \<not> seen \<and> expects then escaping_loop pol expects True pattern past args
               else (case path_candidates a of
                       None \<Rightarrow> None
                     | Some cs \<Rightarrow>
                         (case List.find escapes cs of
                            Some c \<Rightarrow> Some (Some c)
                          | None \<Rightarrow> escaping_loop pol expects True pattern past args)))
         else if pattern then escaping_loop pol expects True False past args
         else if a \<in> set (pp_pattern_flags pol) then escaping_loop pol expects seen True past args
         else if longer_than_flag a (pp_pattern_flags pol) then escaping_loop pol expects seen False past args
         else if \<not> starts_with a ''-'' \<and> \<not> seen
         then (if expects then escaping_loop pol expects True False past args else judge True)
         else judge seen)"

definition escaping_argument :: "program_policy \<Rightarrow> string list \<Rightarrow> string option option" where
  "escaping_argument pol args = escaping_loop pol (expects_pattern pol args) False False False args"

section \<open>The verdict\<close>

definition by_path_verdict :: "string \<Rightarrow> verdict" where
  "by_path_verdict program =
     VDeny ''command.not_allowlisted''
       (quoted program @ '' names a program by path; only bare command names are allowed'')"

definition not_listed_verdict :: "string \<Rightarrow> verdict" where
  "not_listed_verdict program =
     VDeny ''command.not_allowlisted''
       (quoted program @ '' is not one of the commands the agent may run: '' @ join '', '' ALLOWED_COMMANDS)"

definition denied_flag :: "program_policy \<Rightarrow> string list \<Rightarrow> string option" where
  "denied_flag pol args =
     List.find (\<lambda>a. a \<in> set (pp_denied_flags pol) \<or> flag_head a \<in> set (pp_denied_flags pol)) args"

definition denied_operands :: "program_policy \<Rightarrow> string list \<Rightarrow> string list option" where
  "denied_operands pol ops = List.find (\<lambda>d. starts_with ops d) (pp_denied_operands pol)"

definition unknown_subcommand :: "program_policy \<Rightarrow> string list \<Rightarrow> string option" where
  "unknown_subcommand pol ops =
     (case ops of
        [] \<Rightarrow> None
      | sub # _ \<Rightarrow> if pp_subcommands pol \<noteq> [] \<and> sub \<notin> set (pp_subcommands pol) then Some sub else None)"

definition judge_arguments :: "string \<Rightarrow> string list \<Rightarrow> verdict option" where
  "judge_arguments program args =
     (let pol = policy_for program; own = own_args args; ops = subcommand_operands pol own
      in case denied_flag pol own of
           Some a \<Rightarrow>
             Some (VDeny ''command.exec_predicate''
               (quoted (program @ '' '' @ flag_head a) @
                '' can name and run an arbitrary program -- that is a shell, not a build step''))
         | None \<Rightarrow>
             (case denied_operands pol ops of
                Some d \<Rightarrow>
                  Some (VDeny ''command.denied_subcommand''
                    (quoted (program @ '' '' @ join '' '' d) @
                     '' installs and runs third-party code outside the project''))
              | None \<Rightarrow>
                  (case unknown_subcommand pol ops of
                     Some sub \<Rightarrow>
                       Some (VDeny ''command.unknown_subcommand''
                         (quoted (program @ '' '' @ sub) @
                          '' is not a known subcommand; an unrecognised one resolves to whatever '' @
                          quoted (program @ ''-'' @ sub) @ '' happens to be on PATH''))
                   | None \<Rightarrow>
                       (case escaping_argument pol args of
                          None \<Rightarrow> None
                        | Some (Some escaping) \<Rightarrow>
                            Some (VDeny ''command.path_escape''
                              (quoted escaping @ '' points outside the directory the agent was given''))
                        | Some None \<Rightarrow>
                            Some (scan \<lparr>inv_escalated = False, inv_program = program, inv_args = args\<rparr>)))))"

definition check_argv :: "string \<Rightarrow> string list \<Rightarrow> allowlist \<Rightarrow> verdict option" where
  "check_argv program args mode =
     (if contains_str program ''/'' \<or> contains_str program [CHR 92] then Some (by_path_verdict program)
      else if mode = Enforced \<and> program \<notin> set ALLOWED_COMMANDS then Some (not_listed_verdict program)
      else judge_arguments program args)"

definition check_command :: "string \<Rightarrow> string list \<Rightarrow> verdict option" where
  "check_command program args = check_argv program args Enforced"

definition check_command_advisory :: "string \<Rightarrow> string list \<Rightarrow> verdict option" where
  "check_command_advisory program args = check_argv program args Advisory"

end
