(* ===== verification/Guard_Rules_Safety.thy ===== *)
theory Guard_Rules_Safety
  imports Guard_Rules
begin

text \<open>
  What the rules refuse. \<open>destroys iv t\<close> and \<open>uproots iv t\<close> say, program by program, which target
  an invocation overwrites, deletes, moves away or re-permissions; the scan refuses an invocation
  that does this to a part of the OS image or to a system or home root. The scan is the worst of
  the thirteen rules although it stops at the first refusal.
\<close>

section \<open>The scan is the worst rule\<close>

lemma fold_max_top: "(\<And>x. x \<in> set xs \<Longrightarrow> x \<le> a) \<Longrightarrow> fold max xs a = (a :: nat)"
  by (induction xs) (simp_all add: max_absorb2)

lemma scan_loop_severity:
  "severity (scan_loop iv v rs) = fold max (map (\<lambda>r. severity (r iv)) rs) (severity v)"
proof (induction rs arbitrary: v)
  case (Cons r rs)
  have top: "fold max (map (\<lambda>r. severity (r iv)) rs) 2 = 2"
    by (rule fold_max_top) auto
  show ?case
    using Cons.IH [of "worst v (r iv)"] top
    by (cases "is_denied (worst v (r iv))") (auto simp: Let_def is_denied_severity max.commute)
qed simp

lemma scan_Max: "severity (scan iv) = Max (set (map (\<lambda>r. severity (r iv)) RULES))"
proof -
  have "severity (scan iv) = fold max (map (\<lambda>r. severity (r iv)) RULES) 0"
    by (simp add: scan_def scan_loop_severity)
  also have "\<dots> = Max (set (0 # map (\<lambda>r. severity (r iv)) RULES))"
    by (rule Max.set_eq_fold [symmetric])
  also have "\<dots> = max 0 (Max (set (map (\<lambda>r. severity (r iv)) RULES)))"
    unfolding list.set by (rule Max_insert) (simp_all add: RULES_def)
  finally show ?thesis by simp
qed

lemma scan_denies: "r \<in> set RULES \<Longrightarrow> is_denied (r iv) \<Longrightarrow> is_denied (scan iv)"
proof -
  assume r: "r \<in> set RULES" and d: "is_denied (r iv)"
  have "severity (r iv) \<le> severity (scan iv)"
    unfolding scan_Max using r by (intro Max_ge) auto
  with d show "is_denied (scan iv)" by (cases "scan iv") (auto simp: is_denied_severity)
qed

lemma first_refusal_None: "first_refusal f xs = None \<longleftrightarrow> (\<forall>x \<in> set xs. f x = None)"
  by (induction xs) (auto split: option.split)

lemma first_refusal_Some: "first_refusal f xs = Some v \<Longrightarrow> \<exists>x \<in> set xs. f x = Some v"
  by (induction xs) (auto split: option.splits)

lemma first_refusal_denied:
  assumes "x \<in> set xs" "f x \<noteq> None" "\<And>y w. f y = Some w \<Longrightarrow> is_denied w"
  obtains w where "first_refusal f xs = Some w" "is_denied w"
proof -
  from assms(1,2) have "first_refusal f xs \<noteq> None" by (auto simp: first_refusal_None)
  then obtain w where "first_refusal f xs = Some w" by blast
  with first_refusal_Some [OF this] assms(3) that show ?thesis by blast
qed

section \<open>What an invocation does to a target\<close>

definition sed_in_place :: "invocation \<Rightarrow> bool" where
  "sed_in_place iv \<longleftrightarrow> has_any_short_flag iv ''i'' \<or> has_flag iv ''--in-place''"

definition deletes_for_good :: "invocation \<Rightarrow> bool" where
  "deletes_for_good iv \<longleftrightarrow>
     inv_program iv = ''rmdir'' \<or> inv_program iv = ''shred'' \<or>
     (inv_program iv = ''rm'' \<and>
       (has_any_short_flag iv ''rR'' \<or> has_flag iv ''--recursive'' \<or>
        has_any_short_flag iv ''f'' \<or> has_flag iv ''--force''))"

inductive uproots :: "invocation \<Rightarrow> string \<Rightarrow> bool" where
  deleted: "deletes_for_good iv \<Longrightarrow> t \<in> set (operands iv) \<Longrightarrow> uproots iv t"
| moved_away: "inv_program iv = ''mv'' \<Longrightarrow> t \<in> set (butlast (operands iv)) \<Longrightarrow> uproots iv t"
| repermissioned: "inv_program iv \<in> {''chmod'', ''chown'', ''chgrp''} \<Longrightarrow> t \<in> set (operands iv) \<Longrightarrow> uproots iv t"

inductive destroys :: "invocation \<Rightarrow> string \<Rightarrow> bool" where
  uprooted: "uproots iv t \<Longrightarrow> destroys iv t"
| into_directory: "inv_program iv \<in> set DESTINATION_IS_LAST \<Longrightarrow> target_directory iv = Some t \<Longrightarrow> destroys iv t"
| onto_last: "inv_program iv \<in> set DESTINATION_IS_LAST \<Longrightarrow> target_directory iv = None \<Longrightarrow>
    operands iv = ts @ [t] \<Longrightarrow> destroys iv t"
| overwritten: "inv_program iv \<in> {''tee'', ''truncate''} \<Longrightarrow> t \<in> set (operands iv) \<Longrightarrow> destroys iv t"
| edited: "inv_program iv = ''sed'' \<Longrightarrow> sed_in_place iv \<Longrightarrow> t \<in> set (operands iv) \<Longrightarrow> destroys iv t"
| script_written: "inv_program iv = ''sed'' \<Longrightarrow> sed_script_writes iv = Some t \<Longrightarrow> destroys iv t"
| imaged: "inv_program iv = ''dd'' \<Longrightarrow> dd_output iv = Some t \<Longrightarrow> destroys iv t"

lemma judge_written_denies:
  assumes "t \<in> set ts" "is_under_system_root t"
  shows "is_denied (judge_written ts)"
proof -
  obtain w where "first_refusal written_target ts = Some w" "is_denied w"
    using assms by (rule_tac first_refusal_denied [of t ts written_target])
      (auto simp: written_target_def split: if_splits)
  then show ?thesis by (simp add: judge_written_def)
qed

lemma uproots_denied:
  assumes "uproots iv t" "is_system_target t \<or> is_under_system_root t"
  shows "is_denied (scan iv)"
  using assms(1)
proof cases
  case deleted
  obtain w where w: "first_refusal delete_target (operands iv) = Some w" "is_denied w"
    using deleted(2) assms(2) by (rule_tac first_refusal_denied [of t "operands iv" delete_target])
      (auto simp: delete_target_def split: if_splits)
  then have "is_denied (recursive_delete iv)"
    using deleted(1) by (auto simp: recursive_delete_def deletes_for_good_def Let_def)
  then show ?thesis by (rule scan_denies [rotated]) (simp add: RULES_def)
next
  case moved_away
  obtain w where w: "first_refusal moved_source (drop 1 (rev (operands iv))) = Some w" "is_denied w"
    using moved_away(2) assms(2)
    by (rule_tac first_refusal_denied [of t "drop 1 (rev (operands iv))" moved_source])
      (auto simp: moved_source_def butlast_rev [of "rev (operands iv)", simplified] drop_Suc split: if_splits)
  then have "is_denied (system_path_write iv)"
    using moved_away(1) by (simp add: system_path_write_def)
  then show ?thesis by (rule scan_denies [rotated]) (simp add: RULES_def)
next
  case repermissioned
  have perm: "\<exists>w. first_refusal (perm_target (inv_program iv) how tail) (operands iv) = Some w \<and> is_denied w" for how tail
    using repermissioned(2) assms(2)
    by (rule_tac first_refusal_denied [of t "operands iv" "perm_target (inv_program iv) how tail"])
      (auto simp: perm_target_def split: if_splits)
  have "is_denied (recursive_permissions iv)"
    using repermissioned(1) perm [of "''on ''" "'', which belongs to the OS image''"]
      perm [of "''recursively across ''" "[]"]
    unfolding recursive_permissions_def by (force split: option.split)
  then show ?thesis by (rule scan_denies [rotated]) (simp add: RULES_def)
qed

lemma destroys_denied:
  assumes "destroys iv t" "is_under_system_root t"
  shows "is_denied (scan iv)"
proof (cases "uproots iv t")
  case True
  then show ?thesis using assms(2) by (blast intro: uproots_denied)
next
  case False
  have moved: "first_refusal moved_source xs = Some v \<Longrightarrow> is_denied v" for xs v
    by (drule first_refusal_Some) (auto simp: moved_source_def split: if_splits)
  from assms(1) have "is_denied (system_path_write iv)"
  proof cases
    case uprooted
    with False show ?thesis by simp
  next
    case into_directory
    then have "is_denied (judge_written (destination_of iv))"
      using assms(2) by (auto simp: destination_of_def intro: judge_written_denies)
    with into_directory(1) show ?thesis by (auto simp: system_path_write_def moved split: option.split)
  next
    case (onto_last ts)
    then have "is_denied (judge_written (destination_of iv))"
      using assms(2) by (auto simp: destination_of_def opt_list_def last_opt_def intro: judge_written_denies)
    with onto_last(1) show ?thesis by (auto simp: system_path_write_def moved split: option.split)
  next
    case overwritten
    then show ?thesis
      using judge_written_denies [OF overwritten(2) assms(2)]
      by (auto simp: system_path_write_def ALL_OPERANDS_WRITTEN_def DESTINATION_IS_LAST_def)
  next
    case edited
    then show ?thesis
      using judge_written_denies [OF edited(3) assms(2)]
      by (auto simp: system_path_write_def sed_in_place_def DESTINATION_IS_LAST_def split: option.split)
  next
    case script_written
    then show ?thesis
      using assms(2) by (simp add: system_path_write_def DESTINATION_IS_LAST_def)
  next
    case imaged
    then show ?thesis
      using judge_written_denies [of t "[t]"] assms(2)
      by (simp add: system_path_write_def ALL_OPERANDS_WRITTEN_def DESTINATION_IS_LAST_def opt_list_def)
  qed
  then show ?thesis by (rule scan_denies [rotated]) (simp add: RULES_def)
qed

end
