(* ===== verification/Guard_Shell_Safety.thy ===== *)
theory Guard_Shell_Safety
  imports Guard_Command Guard_Rules_Safety
begin

text \<open>
  What the shell guard guarantees. \<open>runs line iv\<close> says which invocations a line reaches, through
  segments, substitutions, \<open>eval\<close>, shells, deferred and executed arguments; the guard's verdict is
  at least as severe as the rules' verdict on each of them. The rules refuse every invocation that
  destroys or overwrites a part of the system, and the argv policy is the stricter of the two
  surfaces.
\<close>

section \<open>Loops that stop at a refusal\<close>

lemma each_bounds:
  assumes "each f xs v = Some r"
  shows "severity v \<le> severity r" and "x \<in> set xs \<Longrightarrow> f x = Some w \<Longrightarrow> severity w \<le> severity r"
    and "x \<in> set xs \<Longrightarrow> \<not> is_denied r \<Longrightarrow> f x \<noteq> None"
proof -
  have "severity v \<le> severity r \<and> (\<forall>x \<in> set xs. (\<forall>w. f x = Some w \<longrightarrow> severity w \<le> severity r) \<and>
      (\<not> is_denied r \<longrightarrow> f x \<noteq> None))"
    using assms
  proof (induction f xs v rule: each.induct)
    case (1 f v)
    then show ?case by simp
  next
    case (2 f x xs v)
    then obtain w where w: "f x = Some w" by (auto split: option.splits)
    show ?case
    proof (cases "is_denied (worst v w)")
      case True
      then have "r = worst v w" using 2(2) w by (simp add: Let_def)
      with True have "severity r = 2" by (simp add: is_denied_severity)
      then show ?thesis using True \<open>r = worst v w\<close> w by simp
    next
      case False
      with 2(2) w have "each f xs (worst v w) = Some r" by (simp add: Let_def)
      from "2.IH" [OF w refl False this] w show ?thesis by auto
    qed
  qed
  then show "severity v \<le> severity r" and "x \<in> set xs \<Longrightarrow> f x = Some w \<Longrightarrow> severity w \<le> severity r"
    and "x \<in> set xs \<Longrightarrow> \<not> is_denied r \<Longrightarrow> f x \<noteq> None" by blast+
qed

lemma each_total: "(\<And>x. x \<in> set xs \<Longrightarrow> f x \<noteq> None) \<Longrightarrow> each f xs v \<noteq> None"
  by (induction f xs v rule: each.induct) (auto simp: Let_def split: option.split)

lemma proceed_Some:
  "proceed r k = Some v \<longleftrightarrow> (\<exists>u. r = Some u \<and> (if is_denied u then v = u else k u = Some v))"
  by (auto simp: proceed_def split: option.split)

text \<open>
  \<open>covers v r w\<close>: the final verdict \<open>v\<close> bounds what \<open>r\<close> answered, and \<open>r\<close> did answer unless the
  line was refused.
\<close>

definition bounded_by :: "verdict \<Rightarrow> verdict option \<Rightarrow> bool" where
  "bounded_by v r \<longleftrightarrow> (case r of None \<Rightarrow> is_denied v | Some w \<Rightarrow> severity w \<le> severity v)"

lemma bounded_by_denied: "is_denied v \<Longrightarrow> bounded_by v r"
  by (simp add: bounded_by_def is_denied_severity split: option.split)

lemma bounded_by_Some: "bounded_by v (Some w) \<longleftrightarrow> severity w \<le> severity v"
  by (simp add: bounded_by_def)

lemma bounded_by_mono: "bounded_by u r \<Longrightarrow> severity u \<le> severity v \<Longrightarrow> bounded_by v r"
  by (auto simp: bounded_by_def is_denied_severity intro: antisym split: option.splits)

lemma each_bounded: "each f xs v = Some r \<Longrightarrow> x \<in> set xs \<Longrightarrow> bounded_by r (f x)"
  using each_bounds(2) [of f xs v r x] each_bounds(3) [of f xs v r x]
  by (cases "f x") (auto simp: bounded_by_def)

section \<open>A segment's verdict\<close>

lemma judge_tail_scan: "severity (scan iv) \<le> severity (judge_tail iv piped v)"
proof -
  have "is_denied d" if "judge_source iv = Some d" for d
    using that by (auto simp: judge_source_def split: option.splits if_splits)
  then show ?thesis
    by (auto simp: judge_tail_def is_denied_severity split: option.split)
qed

lemma judge_tail_ge: "severity v \<le> severity (judge_tail iv piped v)"
proof -
  have "is_denied d" if "judge_source iv = Some d" for d
    using that by (auto simp: judge_source_def split: option.splits if_splits)
  then show ?thesis
    by (auto simp: judge_tail_def is_denied_severity split: option.split)
qed

lemma judge_invocation_bounds:
  assumes "judge_invocation recur piped iv = Some v"
  shows "inv_program iv \<noteq> ''eval'' \<Longrightarrow> severity (scan iv) \<le> severity v"
    and "inv_program iv = ''eval'' \<Longrightarrow> bounded_by v (recur (join '' '' (inv_args iv)))"
    and "is_shell (inv_program iv) \<Longrightarrow> a \<in> set (inv_args iv) \<Longrightarrow> bounded_by v (recur a)"
    and "is_unresolved (inv_program iv) \<or> computed_target iv \<Longrightarrow> is_denied v"
proof -
  show "inv_program iv \<noteq> ''eval'' \<Longrightarrow> severity (scan iv) \<le> severity v"
    using assms judge_tail_scan [of iv piped]
    by (auto simp: judge_invocation_def proceed_Some is_denied_severity split: if_splits option.splits)
  show "inv_program iv = ''eval'' \<Longrightarrow> bounded_by v (recur (join '' '' (inv_args iv)))"
    using assms by (auto simp: judge_invocation_def bounded_by_denied bounded_by_Some split: if_splits)
  show "is_unresolved (inv_program iv) \<or> computed_target iv \<Longrightarrow> is_denied v"
    using assms by (auto simp: judge_invocation_def split: if_splits)
  have noteval: "is_shell p \<Longrightarrow> p \<noteq> ''eval''" for p
    by (auto simp: is_shell_def SHELLS_def canonical_program_def Let_def trim_end_by_def is_ascii_digit_def)
  show "is_shell (inv_program iv) \<Longrightarrow> a \<in> set (inv_args iv) \<Longrightarrow> bounded_by v (recur a)"
  proof (cases "is_unresolved (inv_program iv) \<or> computed_target iv")
    case True
    then show ?thesis using assms by (auto simp: judge_invocation_def bounded_by_denied split: if_splits)
  next
    case False
    assume sh: "is_shell (inv_program iv)" and a: "a \<in> set (inv_args iv)"
    with False assms noteval obtain u v0 where u: "each recur (inv_args iv) v0 = Some u"
      and v: "if is_denied u then v = u else v = judge_tail iv piped u"
      by (auto simp: judge_invocation_def proceed_Some split: option.splits if_splits)
    have "severity u \<le> severity v" using v judge_tail_ge [of u iv piped] by (auto split: if_splits)
    with each_bounded [OF u a] show ?thesis by (rule bounded_by_mono)
  qed
qed

lemma judge_segment_bounds:
  assumes "judge_segment recur seg v = Some r"
  shows "severity v \<le> severity r"
    and "t \<in> set (seg_redirects seg) \<Longrightarrow> severity (redirect_verdict t) \<le> severity r"
    and "iv \<in> set (invocations seg) \<Longrightarrow> bounded_by r (judge_invocation recur (seg_piped_into seg) iv)"
    and "iv \<in> set (invocations seg) \<Longrightarrow> code \<in> set (executed_arguments iv) \<Longrightarrow> bounded_by r (recur code)"
    and "embedded_command_lines seg = Some em \<Longrightarrow> (code, True) \<in> set em \<Longrightarrow> bounded_by r (recur code)"
proof -
  obtain v1 where v1: "each (\<lambda>t. Some (redirect_verdict t)) (seg_redirects seg) v = Some v1"
    and k1: "if is_denied v1 then r = v1 else (case embedded_command_lines seg of
          None \<Rightarrow> None
        | Some embedded \<Rightarrow>
            proceed (each (\<lambda>(code, names_code). map_option (if names_code then id else soften) (recur code)) embedded v1)
              (\<lambda>v2. proceed (each recur (concat (map executed_arguments (invocations seg))) v2)
                 (each (judge_invocation recur (seg_piped_into seg)) (invocations seg)))) = Some r"
    using assms by (auto simp: judge_segment_def proceed_Some)
  have r1: "severity v1 \<le> severity r \<and>
      (iv \<in> set (invocations seg) \<longrightarrow> bounded_by r (judge_invocation recur (seg_piped_into seg) iv)) \<and>
      (iv \<in> set (invocations seg) \<longrightarrow> code \<in> set (executed_arguments iv) \<longrightarrow> bounded_by r (recur code)) \<and>
      (embedded_command_lines seg = Some em \<longrightarrow> (code, True) \<in> set em \<longrightarrow> bounded_by r (recur code))"
  proof (cases "is_denied v1")
    case True
    with k1 show ?thesis by (simp add: bounded_by_denied)
  next
    case False
    with k1 obtain em' v2 where em: "embedded_command_lines seg = Some em'"
      and v2: "each (\<lambda>(code, names_code). map_option (if names_code then id else soften) (recur code)) em' v1 = Some v2"
      and k2: "if is_denied v2 then r = v2 else proceed (each recur (concat (map executed_arguments (invocations seg))) v2)
                 (each (judge_invocation recur (seg_piped_into seg)) (invocations seg)) = Some r"
      by (auto simp: proceed_Some split: option.splits)
    have e2: "(c, True) \<in> set em' \<Longrightarrow> bounded_by v2 (recur c)" for c
      using each_bounded [OF v2, of "(c, True)"] by (simp add: option.map_id)
    show ?thesis
    proof (cases "is_denied v2")
      case True
      with k2 each_bounds(1) [OF v2] show ?thesis by (simp add: bounded_by_denied)
    next
      case False
      with k2 obtain v3 where v3: "each recur (concat (map executed_arguments (invocations seg))) v2 = Some v3"
        and k3: "if is_denied v3 then r = v3 else each (judge_invocation recur (seg_piped_into seg)) (invocations seg) v3 = Some r"
        by (auto simp: proceed_Some)
      have s: "severity v3 \<le> severity r" using k3 each_bounds(1) by (cases "is_denied v3") auto
      have s2: "severity v1 \<le> severity v2" "severity v2 \<le> severity v3"
        using each_bounds(1) [OF v2] each_bounds(1) [OF v3] .
      have "iv \<in> set (invocations seg) \<longrightarrow> bounded_by r (judge_invocation recur (seg_piped_into seg) iv)"
        using k3 by (cases "is_denied v3") (auto simp: bounded_by_denied each_bounded)
      moreover have "iv \<in> set (invocations seg) \<longrightarrow> code \<in> set (executed_arguments iv) \<longrightarrow> bounded_by r (recur code)"
        using each_bounded [OF v3, of code] bounded_by_mono [OF _ s] by auto
      moreover have "embedded_command_lines seg = Some em \<longrightarrow> (code, True) \<in> set em \<longrightarrow> bounded_by r (recur code)"
        using em e2 bounded_by_mono [of v2 _ r] s s2 by auto
      ultimately show ?thesis using s s2 by simp
    qed
  qed
  then show "severity v \<le> severity r" using each_bounds(1) [OF v1] by linarith
  show "t \<in> set (seg_redirects seg) \<Longrightarrow> severity (redirect_verdict t) \<le> severity r"
    using each_bounds(2) [OF v1, of t "redirect_verdict t"] r1 by simp
  show "iv \<in> set (invocations seg) \<Longrightarrow> bounded_by r (judge_invocation recur (seg_piped_into seg) iv)"
    and "iv \<in> set (invocations seg) \<Longrightarrow> code \<in> set (executed_arguments iv) \<Longrightarrow> bounded_by r (recur code)"
    and "embedded_command_lines seg = Some em \<Longrightarrow> (code, True) \<in> set em \<Longrightarrow> bounded_by r (recur code)"
    using r1 by simp_all
qed

lemma judge_segments_bounds:
  assumes "judge_segments recur segs v = Some r"
  shows "severity v \<le> severity r"
    and "seg \<in> set segs \<Longrightarrow> is_denied r \<or> (\<exists>u w. judge_segment recur seg u = Some w \<and> severity w \<le> severity r)"
proof -
  have "severity v \<le> severity r \<and>
      (seg \<in> set segs \<longrightarrow> is_denied r \<or> (\<exists>u w. judge_segment recur seg u = Some w \<and> severity w \<le> severity r))"
    using assms
  proof (induction segs arbitrary: v)
    case (Cons sg segs)
    then obtain u where u: "judge_segment recur sg v = Some u"
      and k: "if is_denied u then r = u else judge_segments recur segs u = Some r"
      by (auto simp: proceed_Some)
    show ?case
    proof (cases "is_denied u")
      case True
      with k judge_segment_bounds(1) [OF u] show ?thesis by simp
    next
      case False
      with k Cons.IH [of u] judge_segment_bounds(1) [OF u] u show ?thesis by fastforce
    qed
  qed simp
  then show "severity v \<le> severity r"
    and "seg \<in> set segs \<Longrightarrow> is_denied r \<or> (\<exists>u w. judge_segment recur seg u = Some w \<and> severity w \<le> severity r)"
    by blast+
qed

lemma judge_deferred_bounds:
  assumes "judge_invocation recur piped iv = Some v"
    and "inv_program iv \<in> set DEFERRED_CODE" "inv_args iv = a # as"
  shows "bounded_by v (recur a)"
proof (cases "is_unresolved (inv_program iv) \<or> computed_target iv")
  case True
  then show ?thesis using judge_invocation_bounds(4) [OF assms(1)] by (simp add: bounded_by_denied)
next
  case False
  have prog: "inv_program iv \<noteq> ''eval'' \<and> \<not> is_shell (inv_program iv)"
    using assms(2) by (auto simp: DEFERRED_CODE_def is_shell_def SHELLS_def canonical_program_def
        Let_def trim_end_by_def is_ascii_digit_def)
  with False assms obtain w where w: "recur a = Some w" and v: "v = judge_tail iv piped (worst VAllow w)"
    by (auto simp: judge_invocation_def judge_deferred_def split: option.splits)
  have "severity w \<le> severity (worst VAllow w)" by simp
  then show ?thesis using w v judge_tail_ge [of "worst VAllow w" iv piped] by (auto simp: bounded_by_Some)
qed

lemma judge_tail_denies:
  assumes "judge_source iv \<noteq> None \<or> (piped \<and> executes_code (inv_program iv))"
  shows "is_denied (judge_tail iv piped v)"
  using assms by (auto simp: judge_tail_def judge_source_def split: option.splits if_splits)

lemma judge_invocation_denies:
  assumes "judge_invocation recur piped iv = Some v" "inv_program iv \<noteq> ''eval''"
    and "judge_source iv \<noteq> None \<or> (piped \<and> executes_code (inv_program iv))"
  shows "is_denied v"
  using assms(1,2) judge_tail_denies [OF assms(3)]
  by (auto simp: judge_invocation_def proceed_Some split: if_splits option.splits)

section \<open>What a line reaches\<close>

definition normalized :: "string \<Rightarrow> string" where
  "normalized line = fst (normalize_expansions line)"

definition invoked_by :: "string \<Rightarrow> segment \<Rightarrow> invocation \<Rightarrow> bool" where
  "invoked_by line seg iv \<longleftrightarrow> seg \<in> set (segments (normalized line)) \<and> iv \<in> set (invocations seg)"

text \<open>\<open>reads line code\<close>: running \<open>line\<close> hands the text \<open>code\<close> to a shell.\<close>

inductive reads :: "string \<Rightarrow> string \<Rightarrow> bool" where
  substitution: "code \<in> set (substitutions (normalized line)) \<Longrightarrow> reads line code"
| evaluated: "invoked_by line seg iv \<Longrightarrow> inv_program iv = ''eval'' \<Longrightarrow> reads line (join '' '' (inv_args iv))"
| shell_argument: "invoked_by line seg iv \<Longrightarrow> is_shell (inv_program iv) \<Longrightarrow> code \<in> set (inv_args iv) \<Longrightarrow> reads line code"
| executed: "invoked_by line seg iv \<Longrightarrow> code \<in> set (executed_arguments iv) \<Longrightarrow> reads line code"
| deferred: "invoked_by line seg iv \<Longrightarrow> inv_program iv \<in> set DEFERRED_CODE \<Longrightarrow> inv_args iv = code # args \<Longrightarrow> reads line code"
| flagged: "seg \<in> set (segments (normalized line)) \<Longrightarrow> embedded_command_lines seg = Some em \<Longrightarrow>
    (code, True) \<in> set em \<Longrightarrow> reads line code"

lemma check_inner_bounds:
  assumes "check_inner (Suc m) line = Some v"
  shows "code \<in> set (substitutions (normalized line)) \<Longrightarrow> bounded_by v (check_inner m code)"
    and "seg \<in> set (segments (normalized line)) \<Longrightarrow>
      is_denied v \<or> (\<exists>u w. judge_segment (check_inner m) seg u = Some w \<and> severity w \<le> severity v)"
proof -
  have *: "is_denied v \<or> (\<exists>u. each (check_inner m) (substitutions (normalized line)) VAllow = Some u \<and>
      (if is_denied u then v = u else judge_segments (check_inner m) (segments (normalized line)) u = Some v))"
    using assms by (auto simp: Let_def normalized_def proceed_Some fork_bomb_verdict_def split: if_splits)
  show "code \<in> set (substitutions (normalized line)) \<Longrightarrow> bounded_by v (check_inner m code)"
  proof (cases "is_denied v")
    case False
    assume c: "code \<in> set (substitutions (normalized line))"
    from False * obtain u where u: "each (check_inner m) (substitutions (normalized line)) VAllow = Some u"
      and k: "judge_segments (check_inner m) (segments (normalized line)) u = Some v"
      by (auto split: if_splits)
    from each_bounded [OF u c] judge_segments_bounds(1) [OF k] show ?thesis by (rule bounded_by_mono)
  qed (simp add: bounded_by_denied)
  show "seg \<in> set (segments (normalized line)) \<Longrightarrow>
      is_denied v \<or> (\<exists>u w. judge_segment (check_inner m) seg u = Some w \<and> severity w \<le> severity v)"
    using * judge_segments_bounds(2) [of "check_inner m" "segments (normalized line)" _ v seg]
    by (auto split: if_splits)
qed

lemma check_inner_segment:
  assumes "check_inner (Suc m) line = Some v" "seg \<in> set (segments (normalized line))" "\<not> is_denied v"
  obtains u w where "judge_segment (check_inner m) seg u = Some w" "severity w \<le> severity v" "\<not> is_denied w"
proof -
  from check_inner_bounds(2) [OF assms(1,2)] assms(3)
  obtain u w where "judge_segment (check_inner m) seg u = Some w" "severity w \<le> severity v" by blast
  moreover have "\<not> is_denied w"
    using calculation(2) assms(3) by (cases w; cases v) (auto simp: is_denied_severity)
  ultimately show ?thesis by (rule that)
qed

lemma check_inner_invocation:
  assumes "check_inner (Suc m) line = Some v" "invoked_by line seg iv" "\<not> is_denied v"
  obtains w where "judge_invocation (check_inner m) (seg_piped_into seg) iv = Some w"
    "severity w \<le> severity v" "\<not> is_denied w"
proof -
  from assms(2) have seg: "seg \<in> set (segments (normalized line))" and iv: "iv \<in> set (invocations seg)"
    by (simp_all add: invoked_by_def)
  from check_inner_segment [OF assms(1) seg assms(3)] obtain u s
    where s: "judge_segment (check_inner m) seg u = Some s" "severity s \<le> severity v" "\<not> is_denied s" .
  from judge_segment_bounds(3) [OF s(1) iv] s(3) obtain w
    where w: "judge_invocation (check_inner m) (seg_piped_into seg) iv = Some w" "severity w \<le> severity s"
    by (auto simp: bounded_by_def split: option.splits)
  moreover have "\<not> is_denied w"
    using w(2) s(3) by (cases w; cases s) (auto simp: is_denied_severity)
  ultimately show ?thesis using s(2) that by fastforce
qed

text \<open>One step of \<open>reads\<close> is judged one level deeper, at most as severely.\<close>

lemma check_inner_reads:
  assumes "reads line code" "check_inner (Suc m) line = Some v"
  shows "bounded_by v (check_inner m code)"
proof (cases "is_denied v")
  case True
  then show ?thesis by (rule bounded_by_denied)
next
  case False
  note inv = check_inner_invocation [OF assms(2) _ False]
  from assms(1) show ?thesis
  proof cases
    case substitution
    then show ?thesis by (rule check_inner_bounds(1) [OF assms(2)])
  next
    case (evaluated seg iv)
    from inv [OF evaluated(2)] obtain w
      where "judge_invocation (check_inner m) (seg_piped_into seg) iv = Some w" "severity w \<le> severity v" by blast
    then show ?thesis using judge_invocation_bounds(2) evaluated(1,3) bounded_by_mono by metis
  next
    case (shell_argument seg iv)
    from inv [OF shell_argument(1)] obtain w
      where "judge_invocation (check_inner m) (seg_piped_into seg) iv = Some w" "severity w \<le> severity v" by blast
    then show ?thesis using judge_invocation_bounds(3) shell_argument(2,3) bounded_by_mono by metis
  next
    case (executed seg iv)
    then have seg: "seg \<in> set (segments (normalized line))" and iv: "iv \<in> set (invocations seg)"
      by (simp_all add: invoked_by_def)
    from check_inner_segment [OF assms(2) seg False] obtain u s
      where s: "judge_segment (check_inner m) seg u = Some s" "severity s \<le> severity v" by blast
    from judge_segment_bounds(4) [OF s(1) iv executed(2)] s(2) show ?thesis by (rule bounded_by_mono)
  next
    case (deferred seg iv args)
    from inv [OF deferred(1)] obtain w
      where "judge_invocation (check_inner m) (seg_piped_into seg) iv = Some w" "severity w \<le> severity v" by blast
    then show ?thesis using judge_deferred_bounds deferred(2,3) bounded_by_mono by metis
  next
    case (flagged seg em)
    from check_inner_segment [OF assms(2) flagged(1) False] obtain u s
      where s: "judge_segment (check_inner m) seg u = Some s" "severity s \<le> severity v" by blast
    from judge_segment_bounds(5) [OF s(1) flagged(2,3)] s(2) show ?thesis by (rule bounded_by_mono)
  qed
qed

lemma check_inner_reaches:
  assumes "reads\<^sup>*\<^sup>* line code" "check_inner m line = Some v" "\<not> is_denied v"
  obtains k w where "check_inner (Suc k) code = Some w" "severity w \<le> severity v" "\<not> is_denied w"
proof -
  have "\<exists>k w. check_inner (Suc k) code = Some w \<and> severity w \<le> severity v \<and> \<not> is_denied w"
    using assms
  proof (induction arbitrary: m v rule: converse_rtranclp_induct)
    case base
    then show ?case by (cases m) auto
  next
    case (step line next_line)
    then obtain k where k: "m = Suc k" by (cases m) auto
    have "bounded_by v (check_inner k next_line)"
      using check_inner_reads [OF step.hyps(1)] step.prems(1) unfolding k .
    with step.prems(2) obtain w where w: "check_inner k next_line = Some w" "severity w \<le> severity v"
      by (auto simp: bounded_by_def split: option.splits)
    moreover have "\<not> is_denied w"
      using w(2) step.prems(2) by (cases w; cases v) (auto simp: is_denied_severity)
    ultimately obtain j u where "check_inner (Suc j) code = Some u" "severity u \<le> severity w" "\<not> is_denied u"
      using step.IH by blast
    with w(2) show ?case by (meson le_trans)
  qed
  then show ?thesis using that by blast
qed

section \<open>The guarantees\<close>

text \<open>C13. Every command is judged: however deep a command line hides a command - in a substitution,
  behind \<open>eval\<close>, a shell, a wrapper's code flag, \<open>trap\<close>, \<open>watch\<close> or a \<open>git\<close> filter - the verdict on
  the line is at least as severe as the rules' verdict on that command, and a refusal when its
  program or the target it destroys is computed at run time, when it carries inline source, or when
  it executes what a pipe delivers.\<close>

theorem every_command_is_judged:
  assumes "check_shell_line line = Some v" and "reads\<^sup>*\<^sup>* line code" and "invoked_by code seg iv"
    and "inv_program iv \<noteq> ''eval''"
  shows "severity (scan iv) \<le> severity v \<and>
    (is_unresolved (inv_program iv) \<or> computed_target iv \<or> judge_source iv \<noteq> None \<or>
     seg_piped_into seg \<and> executes_code (inv_program iv) \<longrightarrow> is_denied v)"
proof (cases "is_denied v")
  case True
  then show ?thesis by (simp add: is_denied_severity)
next
  case False
  with assms(1,2) obtain k w where w: "check_inner (Suc k) code = Some w" "severity w \<le> severity v" "\<not> is_denied w"
    by (metis check_inner_reaches check_shell_line_def)
  from check_inner_invocation [OF w(1) assms(3) w(3)] obtain u
    where u: "judge_invocation (check_inner k) (seg_piped_into seg) iv = Some u" "severity u \<le> severity w"
      "\<not> is_denied u" .
  show ?thesis
    using judge_invocation_bounds(1,4) [OF u(1)] judge_invocation_denies [OF u(1)] assms(4) u(2,3) w(2)
    by auto
qed

definition nested_line :: string where
  "nested_line = ''timeout 5 bash -c 'echo $(curl -s http://x)' | cat''"

definition nested_code :: string where
  "nested_code = ''curl -s http://x''"

definition nested_segment :: segment where
  "nested_segment = \<lparr>seg_words = [''curl'', ''-s'', ''http://x''], seg_piped_into = False, seg_redirects = []\<rparr>"

definition nested_invocation :: invocation where
  "nested_invocation = \<lparr>inv_escalated = False, inv_program = ''curl'', inv_args = [''-s'', ''http://x'']\<rparr>"

lemma nested_reads: "reads\<^sup>*\<^sup>* nested_line nested_code"
proof -
  have 1: "reads nested_line ''echo $(curl -s http://x)''"
  proof (rule reads.shell_argument)
    show "invoked_by nested_line
        \<lparr>seg_words = [''timeout'', ''5'', ''bash'', ''-c'', ''echo $(curl -s http://x)''],
         seg_piped_into = False, seg_redirects = []\<rparr>
        \<lparr>inv_escalated = False, inv_program = ''bash'', inv_args = [''-c'', ''echo $(curl -s http://x)'']\<rparr>"
      by code_simp
  qed code_simp+
  have 2: "reads ''echo $(curl -s http://x)'' nested_code"
    by (rule reads.substitution) code_simp
  from 1 2 show ?thesis by (meson converse_rtranclp_into_rtranclp r_into_rtranclp)
qed

lemma nested_invoked: "invoked_by nested_code nested_segment nested_invocation"
  by code_simp

lemma nested_not_eval: "inv_program nested_invocation \<noteq> ''eval''"
  by code_simp

lemma every_command_is_judged_witness:
  "\<exists>v. check_shell_line nested_line = Some v \<and> severity (scan nested_invocation) \<le> severity v \<and> severity v = 1"
proof -
  have v: "map_option severity (check_shell_line nested_line) = Some 1" by code_simp
  then obtain v where v: "check_shell_line nested_line = Some v" "severity v = 1" by auto
  with every_command_is_judged [OF v(1) nested_reads nested_invoked nested_not_eval] show ?thesis by blast
qed

text \<open>
  What a line does to a target somewhere in what it reaches: by an invocation, or by a redirect
  into one of the roots the redirect check knows.
\<close>

inductive line_destroys :: "string \<Rightarrow> bool" where
  of_the_image: "reads\<^sup>*\<^sup>* line code \<Longrightarrow> invoked_by code seg iv \<Longrightarrow> destroys iv t \<Longrightarrow> is_under_system_root t \<Longrightarrow>
    line_destroys line"
| of_a_root: "reads\<^sup>*\<^sup>* line code \<Longrightarrow> invoked_by code seg iv \<Longrightarrow> uproots iv t \<Longrightarrow> is_system_target t \<Longrightarrow>
    line_destroys line"
| by_redirect: "reads\<^sup>*\<^sup>* line code \<Longrightarrow> seg \<in> set (segments (normalized code)) \<Longrightarrow> t \<in> set (seg_redirects seg) \<Longrightarrow>
    r \<in> set REDIRECT_ROOTS \<Longrightarrow> starts_with (normalize_target t) r \<Longrightarrow> line_destroys line"

lemma destroyer_is_not_eval: "destroys iv t \<Longrightarrow> inv_program iv \<noteq> ''eval''"
  by (auto elim!: destroys.cases uproots.cases simp: deletes_for_good_def DESTINATION_IS_LAST_def)

lemma destructive_invocation_denied:
  assumes "check_inner m line = Some v" "reads\<^sup>*\<^sup>* line code" "invoked_by code seg iv"
    and "inv_program iv \<noteq> ''eval''" "is_denied (scan iv)"
  shows "is_denied v"
proof (rule ccontr)
  assume nd: "\<not> is_denied v"
  with assms(1,2) obtain k w where w: "check_inner (Suc k) code = Some w" "severity w \<le> severity v" "\<not> is_denied w"
    by (rule_tac check_inner_reaches)
  from check_inner_invocation [OF w(1) assms(3) w(3)] obtain u
    where u: "judge_invocation (check_inner k) (seg_piped_into seg) iv = Some u" "severity u \<le> severity w" .
  from judge_invocation_bounds(1) [OF u(1) assms(4)] u(2) assms(5) w(3) show False
    by (cases w) (auto simp: is_denied_severity)
qed


lemma nested_destroys: "line_destroys ''sh -c 'mv a /usr/lib' ''"
proof (rule line_destroys.of_the_image)
  let ?iv = "\<lparr>inv_escalated = False, inv_program = ''mv'', inv_args = [''a'', ''/usr/lib'']\<rparr>"
  have "reads ''sh -c 'mv a /usr/lib' '' ''mv a /usr/lib''"
  proof (rule reads.shell_argument)
    show "invoked_by ''sh -c 'mv a /usr/lib' ''
        \<lparr>seg_words = [''sh'', ''-c'', ''mv a /usr/lib''], seg_piped_into = False, seg_redirects = []\<rparr>
        \<lparr>inv_escalated = False, inv_program = ''sh'', inv_args = [''-c'', ''mv a /usr/lib'']\<rparr>"
      by code_simp
  qed code_simp+
  then show "reads\<^sup>*\<^sup>* ''sh -c 'mv a /usr/lib' '' ''mv a /usr/lib''" by (rule r_into_rtranclp)
  show "invoked_by ''mv a /usr/lib''
      \<lparr>seg_words = [''mv'', ''a'', ''/usr/lib''], seg_piped_into = False, seg_redirects = []\<rparr> ?iv"
    by code_simp
  show "destroys ?iv ''/usr/lib''"
    by (rule destroys.onto_last [where ts = "[''a'']"]) code_simp+
  show "is_under_system_root ''/usr/lib''" by code_simp
qed


text \<open>
  The redirect check keeps its own list of roots, and that list misses folders the write rules
  protect: what \<open>tee\<close> may not write, a redirect may.
\<close>

theorem redirects_reach_proc:
  "check_shell_line ''echo b > /proc/sysrq-trigger'' = Some VAllow \<and>
   check_shell_line ''echo b > /lib64/ld-linux.so'' = Some VAllow \<and>
   map_option is_denied (check_shell_line ''echo b | tee /proc/sysrq-trigger'') = Some True"
  by (intro conjI) code_simp+

text \<open>
  With an explicit target directory the last operand of \<open>mv\<close> is a source like the others, but the
  rule still takes it for the destination.
\<close>

theorem move_with_target_directory_passes:
  "check_shell_line ''mv -t /tmp /etc'' = Some VAllow \<and>
   map_option is_denied (check_shell_line ''mv /etc /tmp'') = Some True"
  by (intro conjI) code_simp+

end
