(* ===== verification/Guard_Command_Safety.thy ===== *)
theory Guard_Command_Safety
  imports Guard_Command
begin

text \<open>
  What the argv policy guarantees to the surface that runs commands without asking: only listed
  programs, none of their flags that run other programs, only known subcommands, and no argument
  that names a path outside the project unless it stands where the program reads a pattern. The
  policy answers on every argument list whose short options are ASCII.
\<close>

section \<open>Arguments that leave the project\<close>

definition names_escape :: "string \<Rightarrow> bool" where
  "names_escape a \<longleftrightarrow> (case path_candidates a of None \<Rightarrow> False | Some cs \<Rightarrow> list_ex escapes cs)"

definition harmless_flags :: "program_policy \<Rightarrow> bool" where
  "harmless_flags pol \<longleftrightarrow>
     list_all (\<lambda>f. starts_with f ''-'' \<and> \<not> names_escape f) (pp_pattern_flags pol)"

lemma harmless_policies: "harmless_flags (policy_for program)"
proof -
  have "harmless_flags FIND_POLICY" "harmless_flags CARGO_POLICY" "harmless_flags GREP_POLICY"
    by code_simp+
  then show ?thesis
    by (auto simp: policy_for_def harmless_flags_def DEFAULT_POLICY_def)
qed

lemma names_escape_found:
  "names_escape a \<Longrightarrow> \<exists>c. (case path_candidates a of None \<Rightarrow> None
     | Some cs \<Rightarrow> (case List.find escapes cs of Some c \<Rightarrow> Some (Some c) | None \<Rightarrow> k)) = Some (Some c)"
  by (auto simp: names_escape_def list_ex_iff find_None_iff split: option.splits)

lemma longer_than_flag_hyphen:
  assumes "harmless_flags pol" "longer_than_flag a (pp_pattern_flags pol)"
  shows "starts_with a ''-''"
  using assms by (auto simp: longer_than_flag_def harmless_flags_def list_all_iff starts_with_iff)

lemma escaping_loop_passes:
  assumes "escaping_loop pol ex seen pat past (pre @ a # post) = Some None"
    and "names_escape a" and "harmless_flags pol" and "past \<Longrightarrow> \<not> pat"
  shows "(if pre = [] then pat else last pre \<in> set (pp_pattern_flags pol)) \<or>
    longer_than_flag a (pp_pattern_flags pol) \<or>
    ex \<and> \<not> seen \<and> list_all (\<lambda>b. starts_with b ''-'') pre"
  using assms
proof (induction pre arbitrary: seen pat past)
  case Nil
  have dashes: "a \<noteq> ''--''" using Nil.prems(2) by (auto simp: names_escape_def) code_simp
  have flag: "a \<notin> set (pp_pattern_flags pol)"
    using Nil.prems(2,3) by (auto simp: harmless_flags_def list_all_iff)
  have found: "\<And>k. (case path_candidates a of None \<Rightarrow> None
     | Some cs \<Rightarrow> (case List.find escapes cs of Some c \<Rightarrow> Some (Some c) | None \<Rightarrow> k)) \<noteq> Some None"
    using names_escape_found [OF Nil.prems(2)] by (metis option.distinct(1) option.inject)
  show ?case
    using Nil.prems(1,4) dashes flag found by (auto simp: Let_def split: if_splits)
next
  case (Cons b pre)
  have next_arg: "\<exists>seen' pat' past'. escaping_loop pol ex seen' pat' past' (pre @ a # post) = Some None \<and>
      (past' \<longrightarrow> \<not> pat') \<and> (pat' \<longrightarrow> b \<in> set (pp_pattern_flags pol)) \<and>
      (\<not> seen' \<longrightarrow> \<not> seen \<and> starts_with b ''-'')"
    using Cons.prems(1,4) longer_than_flag_hyphen [OF Cons.prems(3), of b] Cons.prems(3)
    by (auto simp: Let_def harmless_flags_def list_all_iff split: if_splits option.splits)
  then obtain seen' pat' past' where
    loop: "escaping_loop pol ex seen' pat' past' (pre @ a # post) = Some None" and
    past: "past' \<Longrightarrow> \<not> pat'" and pat: "pat' \<longrightarrow> b \<in> set (pp_pattern_flags pol)" and
    seen: "\<not> seen' \<longrightarrow> \<not> seen \<and> starts_with b ''-''" by blast
  from Cons.IH [OF loop Cons.prems(2,3) past] pat seen show ?case by (auto split: if_splits)
qed

section \<open>The guarantees\<close>

lemma dashes_are_no_flag: "flag_head ''--'' \<notin> set (pp_denied_flags (policy_for program))"
proof -
  have "list_all (\<lambda>pol. flag_head ''--'' \<notin> set (pp_denied_flags pol)) [FIND_POLICY, CARGO_POLICY, GREP_POLICY, DEFAULT_POLICY]"
    by code_simp
  then show ?thesis by (auto simp: policy_for_def flag_head_def)
qed

text \<open>A denied flag that passes belongs to an inner program: it stands behind \<open>--\<close> and a subcommand.\<close>

lemma denied_flag_behind_dashes:
  assumes "denied_flag (policy_for program) (own_args args) = None"
    and "args = pre @ a # post" "flag_head a \<in> set (pp_denied_flags (policy_for program))"
  shows "\<exists>own inner. pre = own @ ''--'' # inner \<and> names_subcommand own"
proof -
  define before where "before = takeWhile (\<lambda>a. a \<noteq> ''--'') args"
  have out: "a \<notin> set (own_args args)" using assms(1,3) by (auto simp: denied_flag_def find_None_iff)
  then have sub: "names_subcommand before" "''--'' \<in> set args" and a: "a \<notin> set before"
    using assms(2) by (auto simp: own_args_def before_def Let_def split: if_splits)
  have dashes: "''--'' \<in> set pre"
  proof (rule ccontr)
    assume "''--'' \<notin> set pre"
    then have "before = pre @ takeWhile (\<lambda>a. a \<noteq> ''--'') (a # post)"
      unfolding before_def assms(2) by (subst takeWhile_append2) auto
    with a have "a = ''--''" by (auto split: if_splits)
    with assms(3) dashes_are_no_flag show False by simp
  qed
  then have "before = takeWhile (\<lambda>a. a \<noteq> ''--'') pre"
    unfolding before_def assms(2) by (subst takeWhile_append1) auto
  moreover from dashes obtain own inner where "pre = own @ ''--'' # inner" and "''--'' \<notin> set own"
    by (meson split_list_first)
  moreover have "takeWhile (\<lambda>a. a \<noteq> ''--'') (own @ ''--'' # inner) = own"
    using \<open>''--'' \<notin> set own\<close> by (subst takeWhile_append2) auto
  ultimately have "before = own" by simp
  with sub(1) \<open>pre = own @ ''--'' # inner\<close> show ?thesis by blast
qed

lemma judge_arguments_passes:
  assumes "judge_arguments program args = Some v" "\<not> is_denied v"
  shows "denied_flag (policy_for program) (own_args args) = None"
    and "denied_operands (policy_for program) (subcommand_operands (policy_for program) (own_args args)) = None"
    and "unknown_subcommand (policy_for program) (subcommand_operands (policy_for program) (own_args args)) = None"
    and "escaping_argument (policy_for program) args = Some None"
    and "v = scan \<lparr>inv_escalated = False, inv_program = program, inv_args = args\<rparr>"
  using assms by (auto simp: judge_arguments_def Let_def split: option.splits)



section \<open>Answers\<close>

definition ascii_char :: "char \<Rightarrow> bool" where
  "ascii_char c \<longleftrightarrow> utf8_len c = 1"

lemma attached_tail_None:
  assumes "attached_tail a = None"
  shows "\<exists>c \<in> set a. \<not> ascii_char c"
proof -
  from assms obtain rest where rest: "a = ''-'' @ rest" and long: "1 < byte_len rest" and wide: "utf8_len (hd rest) \<noteq> 1"
    by (auto simp: attached_tail_def strip_prefix_Some split: option.splits if_splits)
  from long have "rest \<noteq> []" by (auto simp: byte_len_def)
  with rest wide show ?thesis by (auto simp: ascii_char_def intro!: bexI [of _ "hd rest"])
qed

lemma escaping_loop_total:
  "(\<And>a. a \<in> set args \<Longrightarrow> path_candidates a \<noteq> None) \<Longrightarrow> escaping_loop pol ex seen pat past args \<noteq> None"
proof (induction args arbitrary: ex seen pat past)
  case (Cons a args)
  from Cons.prems [of a] obtain cs where cs: "path_candidates a = Some cs" by auto
  have IH: "\<And>ex seen pat past. escaping_loop pol ex seen pat past args \<noteq> None"
    using Cons.IH Cons.prems by simp
  show ?case
    unfolding escaping_loop.simps(2) [of pol ex seen pat past a args] Let_def cs option.case
    using IH by (auto simp del: not_None_eq split: option.split)
qed simp

lemma judge_arguments_total:
  assumes "\<And>a. a \<in> set args \<Longrightarrow> list_all ascii_char a"
  shows "judge_arguments program args \<noteq> None"
proof -
  have "path_candidates a \<noteq> None" if "a \<in> set args" for a
    using assms [OF that] attached_tail_None [of a] by (auto simp: path_candidates_def list_all_iff)
  then have "escaping_argument (policy_for program) args \<noteq> None"
    unfolding escaping_argument_def by (rule escaping_loop_total)
  then show ?thesis by (auto simp: judge_arguments_def Let_def split: option.split)
qed

lemma check_command_total:
  assumes "\<And>a. a \<in> set args \<Longrightarrow> list_all ascii_char a"
  shows "check_argv program args mode \<noteq> None"
  using judge_arguments_total [OF assms] by (auto simp: check_argv_def)

text \<open>A short option that is not ASCII makes the policy panic instead of answering.\<close>

theorem accented_option_panics:
  "check_command ''ls'' [[CHR ''-'', CHR 0xE9]] = None \<and>
   check_command_advisory ''ls'' [[CHR ''-'', CHR 0xE9]] = None"
  by (intro conjI) code_simp+

end
