(* ===== verification/Guard_Shell_Total.thy ===== *)
theory Guard_Shell_Total
  imports Guard_Shell_Safety Guard_Command_Safety
begin

text \<open>
  The shell guard answers. Nothing it reads back out of a line holds a character the line did not
  have, so a line of ASCII characters without an expansion is judged without a panic at every level
  of nesting. A decoded escape can bring in a longer character, and then slicing at a fixed byte
  panics.
\<close>

section \<open>Characters of a segment come from the line\<close>

definition words_in :: "char set \<Rightarrow> string list \<Rightarrow> bool" where
  "words_in S ws \<longleftrightarrow> (\<forall>w \<in> set ws. set w \<subseteq> S)"

lemma words_in_simps [simp]:
  "words_in S []" "words_in S (w # ws) \<longleftrightarrow> set w \<subseteq> S \<and> words_in S ws"
  "words_in S (ws @ vs) \<longleftrightarrow> words_in S ws \<and> words_in S vs"
  by (auto simp: words_in_def)

lemma words_in_mono: "words_in S ws \<Longrightarrow> set vs \<subseteq> set ws \<Longrightarrow> words_in S vs"
  by (auto simp: words_in_def)

definition segment_in :: "char set \<Rightarrow> segment \<Rightarrow> bool" where
  "segment_in S seg \<longleftrightarrow> words_in S (seg_words seg) \<and> words_in S (seg_redirects seg)"

definition lexer_in :: "char set \<Rightarrow> lexer \<Rightarrow> bool" where
  "lexer_in S x \<longleftrightarrow> list_all (segment_in S) (lx_out x) \<and> segment_in S (lx_cur x) \<and> set (lx_word x) \<subseteq> S"

lemma push_word_in: "lexer_in S x \<Longrightarrow> lexer_in S (push_word x)"
  by (auto simp: lexer_in_def push_word_def segment_in_def Let_def)

lemma flush_in: "lexer_in S x \<Longrightarrow> lexer_in S (flush b x)"
  by (auto simp: lexer_in_def flush_def segment_in_def empty_segment_def Let_def)

lemma add_chars_in: "lexer_in S x \<Longrightarrow> set cs \<subseteq> S \<Longrightarrow> lexer_in S (add_chars cs x)"
  by (auto simp: lexer_in_def add_chars_def)

lemma pending_in [simp]: "lexer_in S (x\<lparr>lx_redirect_pending := b\<rparr>) \<longleftrightarrow> lexer_in S x"
  by (simp add: lexer_in_def)

lemma set_tl_dropWhile: "set (tl (dropWhile P s)) \<subseteq> set s" "set (dropWhile P s) \<subseteq> set s"
  by (auto dest: set_dropWhileD list.set_sel(2) [rotated])
    (metis dropWhile_eq_Nil_conv list.sel(2) list.set_sel(2) set_dropWhileD)

lemma double_quoted_in: "set (fst (double_quoted s)) \<subseteq> set s" "set (snd (double_quoted s)) \<subseteq> set s"
proof -
  have "set (fst (double_quoted s)) \<subseteq> set s \<and> set (snd (double_quoted s)) \<subseteq> set s"
  proof (induction s rule: double_quoted.induct)
    case (2 c cs)
    then show ?case
      unfolding double_quoted_code(2) [of c cs]
      by (cases cs) (auto simp: split_beta simp del: double_quoted.simps)
  qed simp
  then show "set (fst (double_quoted s)) \<subseteq> set s" "set (snd (double_quoted s)) \<subseteq> set s" by blast+
qed

lemma lexer_in_if: "(b \<Longrightarrow> lexer_in S x) \<Longrightarrow> (\<not> b \<Longrightarrow> lexer_in S y) \<Longrightarrow> lexer_in S (if b then x else y)"
  by simp

lemma lex_in: "lexer_in S x \<Longrightarrow> set s \<subseteq> S \<Longrightarrow> lexer_in S (lex prev x s)"
proof (induction "length s" arbitrary: prev x s rule: less_induct)
  case less
  show ?case
  proof (cases s)
    case Nil
    then show ?thesis using less.prems by (simp add: lex.simps)
  next
    case (Cons c cs)
    with less.prems have c: "c \<in> S" and cs: "set cs \<subseteq> S" by auto
    have rec: "lexer_in S y \<Longrightarrow> set t \<subseteq> set cs \<Longrightarrow> length t \<le> length cs \<Longrightarrow> lexer_in S (lex p y t)" for y p t
      using less.hyps [of t y p] cs Cons by auto
    have tl: "set (tl cs) \<subseteq> set cs" "length (tl cs) \<le> length cs" by (cases cs; auto)+
    have hd: "cs \<noteq> [] \<Longrightarrow> hd cs \<in> S" using cs by (cases cs) auto
    have take: "set (takeWhile P cs) \<subseteq> S" for P using cs set_takeWhileD by fastforce
    have quoted: "set (fst (double_quoted cs)) \<subseteq> S" using double_quoted_in(1) cs by blast
    note parts = push_word_in flush_in add_chars_in less.prems(1)
    show ?thesis
      unfolding Cons lex.simps [of prev x "c # cs"] list.case Let_def
      by (intro lexer_in_if rec)
        (simp_all add: parts set_tl_dropWhile tl_dropWhile_le double_quoted_in double_quoted_rest tl hd take quoted c
          del: length_tl)
  qed
qed

lemma segments_in: "seg \<in> set (segments line) \<Longrightarrow> segment_in (set line) seg"
proof -
  assume seg: "seg \<in> set (segments line)"
  have "lexer_in (set line) (flush False (push_word (lex None lexer_start line)))"
    by (intro flush_in push_word_in lex_in) (simp_all add: lexer_in_def lexer_start_def segment_in_def empty_segment_def)
  with seg show ?thesis by (auto simp: segments_def lexer_in_def list_all_iff)
qed

lemma until_close_in: "set (fst (until_close d s)) \<subseteq> set s" "set (snd (until_close d s)) \<subseteq> set s"
proof -
  have "set (fst (until_close d s)) \<subseteq> set s \<and> set (snd (until_close d s)) \<subseteq> set s"
    by (induction d s rule: until_close.induct) (auto simp: Let_def)
  then show "set (fst (until_close d s)) \<subseteq> set s" "set (snd (until_close d s)) \<subseteq> set s" by blast+
qed

lemma substitutions_in: "words_in (set s) (substitutions s)"
proof -
  have "set s \<subseteq> S \<Longrightarrow> words_in S (substitutions s)" for S
  proof (induction "length s" arbitrary: s rule: less_induct)
    case less
    show ?case
    proof (cases s)
      case (Cons c cs)
      have rec: "set t \<subseteq> set cs \<Longrightarrow> length t \<le> length cs \<Longrightarrow> words_in S (substitutions t)" for t
        using less.hyps [of t] less.prems Cons by auto
      have tl: "set (tl cs) \<subseteq> set cs" by (cases cs; auto)
      have close: "set (fst (until_close 1 (tl cs))) \<subseteq> S" "set (snd (until_close 1 (tl cs))) \<subseteq> set cs"
        using until_close_in [of 1 "tl cs"] tl less.prems Cons by auto
      have "length (snd (until_close 1 (tl cs))) \<le> length cs"
        using until_close_rest [of 1 "tl cs"] tl_le [of cs] by linarith
      with rec [OF close(2)] have r1: "words_in S (substitutions (snd (until_close 1 (tl cs))))" .
      have r2: "words_in S (substitutions (tl (dropWhile (\<lambda>x. x \<noteq> CHR ''`'') cs)))"
        by (rule rec [OF set_tl_dropWhile(1) tl_dropWhile_le(1)])
      have "set (takeWhile (\<lambda>x. x \<noteq> CHR ''`'') cs) \<subseteq> S"
        using less.prems Cons by (auto dest: set_takeWhileD)
      then show ?thesis
        using Cons r1 r2 rec [of cs] close(1) by (simp add: substitutions_code split_beta)
    qed (simp add: substitutions_code)
  qed
  then show ?thesis by simp
qed

section \<open>Arguments of invocations\<close>

lemma peel_in: "set (snd (peel esc ws)) \<subseteq> set ws"
  by (induction esc ws rule: peel.induct) (auto dest: set_dropWhileD)

lemma seg_invocation_in: "seg_invocation seg = Some iv \<Longrightarrow> set (inv_args iv) \<subseteq> set (seg_words seg)"
  using peel_in [of False "seg_words seg"]
  by (auto simp: seg_invocation_def split: prod.splits list.splits)

lemma candidates_in:
  "iv \<in> set (candidates esc out ws) \<Longrightarrow> iv \<in> set out \<or> set (inv_args iv) \<subseteq> set ws"
  by (induction esc out ws rule: candidates.induct) (auto split: if_splits)

lemma invocations_in:
  assumes "iv \<in> set (invocations seg)"
  shows "set (inv_args iv) \<subseteq> set (seg_words seg)"
proof (cases "seg_invocation seg")
  case None
  then show ?thesis using assms by (simp add: invocations_def)
next
  case (Some primary)
  have "iv = primary \<or> set (inv_args iv) \<subseteq> set (seg_words seg)"
    using assms candidates_in [of iv _ "[primary]" "seg_words seg"]
    by (auto simp: invocations_def Some split: if_splits)
  with seg_invocation_in [OF Some] show ?thesis by blast
qed

lemma set_trim: "set (trim w) \<subseteq> set w"
  by (auto simp: trim_def trim_by_def trim_end_by_def trim_start_by_def dest!: set_dropWhileD)

lemma set_split_once: "split_once d s = Some (a, b) \<Longrightarrow> set a \<subseteq> set s \<and> set b \<subseteq> set s"
  by (induction s arbitrary: a b) (auto split: if_splits)

lemma set_strip_prefix: "strip_prefix s p = Some t \<Longrightarrow> set t \<subseteq> set s"
  by (auto simp: strip_prefix_Some)

lemma set_join: "words_in S ws \<Longrightarrow> set sep \<subseteq> S \<Longrightarrow> set (join sep ws) \<subseteq> S"
  by (induction sep ws rule: join.induct) auto

lemma git_payloads_in: "words_in S args \<Longrightarrow> words_in S (git_payloads args)"
proof -
  have find: "words_in S (opt_list (find_map (\<lambda>f. strip_prefix a (f @ ''='')) fs))" if "set a \<subseteq> S" for a fs
    using that by (induction fs) (auto simp: opt_list_def dest: set_strip_prefix split: option.split)
  show "words_in S args \<Longrightarrow> words_in S (git_payloads args)"
  proof (induction args rule: git_payloads.induct)
    case (2 a)
    then show ?case using find [of a RUNS_NEXT] by (simp add: opt_list_def)
  qed (auto simp: find)
qed

lemma watch_payload_in: "words_in S args \<Longrightarrow> words_in S (watch_payload args)"
  by (induction args rule: watch_payload.induct) (auto split: list.splits)

lemma executed_in:
  assumes "words_in S (inv_args iv)"
  shows "words_in S (executed_arguments iv)"
proof -
  have "words_in S ws \<Longrightarrow> words_in S (opt_list (List.find P ws))" for P ws
    by (induction ws) (auto simp: opt_list_def)
  then show ?thesis
    using assms git_payloads_in [OF assms] watch_payload_in [OF assms] by (simp add: executed_arguments_def)
qed

section \<open>No panic\<close>

definition plain_char :: "char \<Rightarrow> bool" where
  "plain_char c \<longleftrightarrow> ascii_char c \<and> c \<noteq> CHR ''$''"

abbreviation plain :: "string \<Rightarrow> bool" where
  "plain s \<equiv> set s \<subseteq> Collect plain_char"

lemma replace_str_absent: "p \<notin> set s \<Longrightarrow> replace_str (p # ps) rep s = s"
  by (induction s) (auto simp: replace_str.simps [of _ _ "[]"] replace_str.simps [of _ _ "_ # _"])

lemma normalize_plain:
  assumes "plain s"
  shows "normalize_expansions s = (s, False)"
proof -
  have "CHR ''$'' \<notin> set s" using assms by (auto simp: plain_char_def)
  moreover have "CHR ''$'' \<notin> set t \<Longrightarrow> decode_ansi_c t = (t, False)" for t
    by (induction t) (auto simp: decode_ansi_c_code)
  ultimately show ?thesis by (simp add: normalize_expansions_def replace_str_absent)
qed

lemma welded_total:
  assumes "plain s"
  shows "\<exists>r. welded s = Some r \<and> (\<forall>(t, b) \<in> set r. plain t)"
proof -
  have "after_short_flag s = Some (drop 2 s)" if "starts_with s ''-''" "2 < byte_len s"
  proof -
    from that obtain t where t: "s = CHR ''-'' # t" by (auto simp: starts_with_iff)
    with that(2) have "t \<noteq> []" by (auto simp: byte_len_def utf8_len_def)
    then have "t ! 0 \<in> set t" by simp
    with t assms have "ascii_char (t ! 0)" by (auto simp: plain_char_def)
    then show ?thesis by (simp add: after_short_flag_def t ascii_char_def)
  qed
  then have welded: "welded s = (case strip_prefix s ''--'' of
      Some rest \<Rightarrow> Some (case split_once (CHR ''='') rest of Some (k, payload) \<Rightarrow> [(payload, True)] | None \<Rightarrow> [])
    | None \<Rightarrow> Some (if starts_with s ''-'' \<and> 2 < byte_len s then [(drop 2 s, True)] else []))"
    by (auto simp: welded_def split: option.split)
  show ?thesis
  proof (cases "strip_prefix s ''--''")
    case None
    have "plain (drop 2 s)" using assms set_drop_subset [of 2 s] by blast
    with None show ?thesis unfolding welded by simp
  next
    case (Some rest)
    have "plain rest" using set_strip_prefix [OF Some] assms by blast
    then show ?thesis
    proof (cases "split_once (CHR ''='') rest")
      case None
      then show ?thesis unfolding welded Some by simp
    next
      case (Some kp)
      obtain k payload where kp: "kp = (k, payload)" by (cases kp)
      have "set payload \<subseteq> set rest" using set_split_once [OF Some [unfolded kp]] by (rule conjunct2)
      with \<open>plain rest\<close> have "plain payload" by (rule subset_trans [rotated])
      then show ?thesis unfolding welded \<open>strip_prefix s ''--'' = Some rest\<close> by (simp add: Some kp)
    qed
  qed
qed

lemma embedded_total:
  "words_in (Collect plain_char) ws \<Longrightarrow>
     \<exists>r. embedded_in prev ws = Some r \<and> (\<forall>(t, b) \<in> set r. plain t)"
proof (induction prev ws rule: embedded_in.induct)
  case (2 prev w ws)
  then have w: "plain w" and IH: "\<exists>r. embedded_in (Some w) ws = Some r \<and> (\<forall>(t, b) \<in> set r. plain t)"
    by (cases "list_ex is_ws (trim w)"; auto dest: welded_total [OF order_trans [OF set_trim]])+
  from welded_total [of "trim w"] w set_trim [of w] obtain extra
    where "welded (trim w) = Some extra" "\<forall>(t, b) \<in> set extra. plain t" by auto
  with IH w show ?case by (fastforce simp: split_beta)
qed simp

lemma proceed_total: "r \<noteq> None \<Longrightarrow> (\<And>u. k u \<noteq> None) \<Longrightarrow> proceed r k \<noteq> None"
  by (auto simp: proceed_def)

lemma judge_invocation_total:
  assumes "\<And>s. plain s \<Longrightarrow> recur s \<noteq> None" and "words_in (Collect plain_char) (inv_args iv)"
  shows "judge_invocation recur piped iv \<noteq> None"
proof -
  have args: "a \<in> set (inv_args iv) \<Longrightarrow> recur a \<noteq> None" for a
    using assms by (simp add: words_in_def)
  have "plain (join '' '' (inv_args iv))"
    by (rule set_join [OF assms(2)]) (simp add: plain_char_def ascii_char_def utf8_len_def)
  then have eval: "recur (join '' '' (inv_args iv)) \<noteq> None" by (rule assms(1))
  have shell: "each recur (inv_args iv) v \<noteq> None" for v
    by (rule each_total) (rule args)
  have "judge_deferred recur iv \<noteq> None"
    using args [of "hd (inv_args iv)"] by (auto simp: judge_deferred_def)
  then show ?thesis
    using eval shell unfolding judge_invocation_def proceed_def
    by (simp del: not_None_eq split: option.split)
qed

lemma judge_segment_total:
  assumes recur: "\<And>s. plain s \<Longrightarrow> recur s \<noteq> None" and "segment_in (Collect plain_char) seg"
  shows "judge_segment recur seg v \<noteq> None"
proof -
  have words: "words_in (Collect plain_char) (seg_words seg)" using assms(2) by (simp add: segment_in_def)
  then obtain em where em: "embedded_command_lines seg = Some em" "\<forall>(t, b) \<in> set em. plain t"
    using embedded_total [OF words, of None] by (cases "is_opaque seg") (auto simp: embedded_command_lines_def)
  have args: "words_in (Collect plain_char) (inv_args iv)" if "iv \<in> set (invocations seg)" for iv
    using words_in_mono [OF words invocations_in [OF that]] .
  have 1: "each (\<lambda>t. Some (redirect_verdict t)) (seg_redirects seg) u \<noteq> None" for u
    by (rule each_total) simp
  have 2: "each (\<lambda>(code, names_code). map_option (if names_code then id else soften) (recur code)) em u \<noteq> None" for u
    by (rule each_total) (use em(2) recur in fastforce)
  have 3: "each recur (concat (map executed_arguments (invocations seg))) u \<noteq> None" for u
    by (rule each_total) (use args executed_in recur in \<open>fastforce simp: words_in_def\<close>)
  have 4: "each (judge_invocation recur (seg_piped_into seg)) (invocations seg) u \<noteq> None" for u
    by (rule each_total) (rule judge_invocation_total [OF recur args])
  show ?thesis
    unfolding judge_segment_def em(1) option.case by (intro proceed_total 1 2 3 4)
qed

lemma judge_segments_total:
  assumes "\<And>s. plain s \<Longrightarrow> recur s \<noteq> None" and "\<And>seg. seg \<in> set segs \<Longrightarrow> segment_in (Collect plain_char) seg"
  shows "judge_segments recur segs v \<noteq> None"
  using assms(2)
proof (induction segs arbitrary: v)
  case (Cons seg segs)
  have "judge_segment recur seg v \<noteq> None" using judge_segment_total [OF assms(1)] Cons.prems by simp
  moreover have "judge_segments recur segs u \<noteq> None" for u using Cons by simp
  ultimately show ?case unfolding judge_segments.simps by (rule proceed_total)
qed simp

lemma check_inner_total: "plain s \<Longrightarrow> check_inner m s \<noteq> None"
proof (induction m arbitrary: s)
  case (Suc m)
  have subs: "each (check_inner m) (substitutions s) VAllow \<noteq> None"
    by (rule each_total) (use Suc.IH Suc.prems substitutions_in [of s] in \<open>fastforce simp: words_in_def\<close>)
  have segs: "judge_segments (check_inner m) (segments s) v \<noteq> None" for v
  proof (rule judge_segments_total [OF Suc.IH])
    fix seg assume "seg \<in> set (segments s)"
    then have "segment_in (set s) seg" by (rule segments_in)
    then show "segment_in (Collect plain_char) seg"
      using Suc.prems by (auto simp: segment_in_def words_in_def)
  qed
  show ?case
    using proceed_total [OF subs segs] by (simp add: normalize_plain [OF Suc.prems])
qed simp

text \<open>C40. The guard always answers on ASCII input: a shell line of ASCII characters without a dollar
  sign is judged however deep it nests, and an argument list of ASCII strings is judged on both argv
  surfaces; neither ends in a panic.\<close>

theorem ascii_input_is_judged:
  "(list_all plain_char line \<longrightarrow> check_shell_line line \<noteq> None) \<and>
   (list_all (list_all ascii_char) args \<longrightarrow>
      check_command program args \<noteq> None \<and> check_command_advisory program args \<noteq> None)"
  using check_inner_total [of line "Suc MAX_DEPTH"] check_command_total [of args program]
  by (auto simp: check_shell_line_def check_command_def check_command_advisory_def list_all_iff
      simp del: check_inner.simps not_None_eq)

lemma ascii_input_is_judged_witness:
  "check_shell_line ''rm -rf /tmp/x; ls'' \<noteq> None \<and> check_command ''cargo'' [''build'', ''-j4''] \<noteq> None"
proof -
  have "list_all plain_char ''rm -rf /tmp/x; ls''" "list_all (list_all ascii_char) [''build'', ''-j4'']"
    by code_simp+
  with ascii_input_is_judged [of "''rm -rf /tmp/x; ls''" "[''build'', ''-j4'']" "''cargo''"]
  show ?thesis by blast
qed

text \<open>
  Without these bounds the guard can panic, even on ASCII text: the escape decodes into a character
  of two bytes behind a hyphen.
\<close>

definition escaped_option :: string where
  "escaped_option = ''foo '' @ [CHR 34] @ ''-$'' @ [CHR 39] @ [CHR 92] @ ''xe9'' @ [CHR 39] @ '' x'' @ [CHR 34]"

lemma escaped_option_decoded:
  "normalize_expansions escaped_option = (''foo '' @ [CHR 34] @ ''-'' @ [CHR 0xE9] @ '' x'' @ [CHR 34], False)"
proof -
  have e9: "decode_escape (''xe9'' @ CHR 39 # s) = ([CHR 0xE9], 3)" for s
    by (simp add: decode_escape_def take_radix_def is_digit_def digit_value_def is_ascii_digit_def
        is_ascii_lower_def is_ascii_upper_def radix_value_def scalar_char_def WIDE_SPACES_def char_of_eq_iff)
  have "replace_str ''$IFS'' '' '' (replace_str ''${IFS}'' '' '' escaped_option) = escaped_option"
    by code_simp
  then show ?thesis
    using e9 [of "'' x'' @ [CHR 34]"]
    by (simp add: normalize_expansions_def escaped_option_def decode_ansi_c_code ansi_c_body_code SYNTAX_CHARS_def)
qed

theorem escaped_option_panics: "list_all ascii_char escaped_option \<and> check_shell_line escaped_option = None"
proof
  show "list_all ascii_char escaped_option" by code_simp
  let ?line = "''foo '' @ [CHR 34] @ ''-'' @ [CHR 0xE9] @ '' x'' @ [CHR 34]"
  have "\<not> is_fork_bomb escaped_option" "\<not> is_fork_bomb ?line" "substitutions ?line = []"
    "judge_segments (check_inner MAX_DEPTH) (segments ?line) VAllow = None"
    by code_simp+
  then show "check_shell_line escaped_option = None"
    by (simp add: check_shell_line_def escaped_option_decoded proceed_def)
qed

end
