(* ===== verification/Guard_Contain.thy ===== *)
theory Guard_Contain
  imports Guard_Path "HOL-Library.Sublist"
begin

text \<open>
  File system containment: \<open>libs/lisa-guard/src/path.rs\<close>, over a file system given as a map from
  absolute positions to entries. The operations of \<open>std::fs\<close> that the code calls are written out on
  that map: resolution follows symbolic links and gives up after forty of them, creating a file
  with \<open>O_NOFOLLOW\<close> does not. \<open>write_contained\<close> checks in one file system and writes in another,
  the one it finds when the file is opened, so what happens in between is explicit.
\<close>

section \<open>The file system\<close>

datatype node = Dir | File string | Link path

type_synonym fsys = "string list \<Rightarrow> node option"

datatype io_error = NotFound | NotADirectory | FilesystemLoop | AlreadyExists | IsADirectory

definition abs_path :: "string list \<Rightarrow> path" where
  "abs_path ns = RootDir # map Normal ns"

lemma abs_path_not_Nil [simp]: "abs_path ns \<noteq> []"
  by (simp add: abs_path_def)

lemma abs_path_inject: "abs_path ns = abs_path ms \<longleftrightarrow> ns = ms"
  by (simp add: abs_path_def inj_map_eq_map inj_def)

definition LINK_LIMIT :: nat where
  "LINK_LIMIT = 40"

text \<open>Resolution: the links left to follow, the directory reached so far, the components to go.\<close>

function walk_path :: "fsys \<Rightarrow> nat \<Rightarrow> string list \<Rightarrow> comp list \<Rightarrow> io_error + string list" where
  "walk_path f hops at [] = Inr at"
| "walk_path f hops at (RootDir # q) = walk_path f hops [] q"
| "walk_path f hops at (CurDir # q) = walk_path f hops at q"
| "walk_path f hops at (ParentDir # q) = walk_path f hops (butlast at) q"
| "walk_path f hops at (Normal n # q) =
     (case f (at @ [n]) of
        None \<Rightarrow> Inl NotFound
      | Some Dir \<Rightarrow> walk_path f hops (at @ [n]) q
      | Some (File content) \<Rightarrow> if q = [] then Inr (at @ [n]) else Inl NotADirectory
      | Some (Link target) \<Rightarrow>
          (case hops of 0 \<Rightarrow> Inl FilesystemLoop | Suc left \<Rightarrow> walk_path f left at (target @ q)))"
  by pat_completeness auto
termination
  by (relation "measures [\<lambda>(f, hops, at, q). hops, \<lambda>(f, hops, at, q). length q]") auto

definition canonicalize :: "fsys \<Rightarrow> path \<Rightarrow> io_error + path" where
  "canonicalize f p = map_sum id abs_path (walk_path f LINK_LIMIT [] p)"

definition is_dir_at :: "fsys \<Rightarrow> string list \<Rightarrow> bool" where
  "is_dir_at f at \<longleftrightarrow> at = [] \<or> f at = Some Dir"

text \<open>The entry a path names when its last component is not followed.\<close>

definition entry_of :: "fsys \<Rightarrow> path \<Rightarrow> io_error + string list" where
  "entry_of f p =
     (case file_name p of
        None \<Rightarrow> Inl IsADirectory
      | Some n \<Rightarrow>
          (case walk_path f LINK_LIMIT [] (butlast p) of
             Inl e \<Rightarrow> Inl e
           | Inr at \<Rightarrow> if is_dir_at f at then Inr (at @ [n]) else Inl NotADirectory))"

definition is_symlink :: "fsys \<Rightarrow> path \<Rightarrow> bool" where
  "is_symlink f p \<longleftrightarrow>
     (case entry_of f p of Inl e \<Rightarrow> False | Inr at \<Rightarrow> (case f at of Some (Link t) \<Rightarrow> True | _ \<Rightarrow> False))"

definition path_is_dir :: "fsys \<Rightarrow> path \<Rightarrow> bool" where
  "path_is_dir f p \<longleftrightarrow> (case walk_path f LINK_LIMIT [] p of Inl e \<Rightarrow> False | Inr at \<Rightarrow> is_dir_at f at)"

definition mkdir :: "fsys \<Rightarrow> path \<Rightarrow> (io_error + unit) \<times> fsys" where
  "mkdir f p =
     (case entry_of f p of
        Inl IsADirectory \<Rightarrow> (Inl AlreadyExists, f)
      | Inl e \<Rightarrow> (Inl e, f)
      | Inr at \<Rightarrow> if f at = None then (Inr (), f(at \<mapsto> Dir)) else (Inl AlreadyExists, f))"

definition parent_of :: "path \<Rightarrow> path option" where
  "parent_of p = (if p = [] \<or> p = [RootDir] then None else Some (butlast p))"

definition mkdir_or_there :: "fsys \<Rightarrow> path \<Rightarrow> (io_error + unit) \<times> fsys" where
  "mkdir_or_there f p =
     (case mkdir f p of
        (Inl e, g) \<Rightarrow> if path_is_dir f p then (Inr (), g) else (Inl e, g)
      | ok \<Rightarrow> ok)"

function create_dir_all :: "fsys \<Rightarrow> path \<Rightarrow> (io_error + unit) \<times> fsys" where
  "create_dir_all f p =
     (if p = [] then (Inr (), f)
      else if fst (mkdir f p) \<noteq> Inl NotFound then mkdir_or_there f p
      else (case parent_of p of
              None \<Rightarrow> (Inl NotFound, f)
            | Some parent \<Rightarrow>
                (case create_dir_all f parent of
                   (Inl e, g) \<Rightarrow> (Inl e, g)
                 | (Inr u, g) \<Rightarrow> mkdir_or_there g p)))"
  by pat_completeness auto
termination
  by (relation "measure (\<lambda>(f, p). length p)") (auto simp: parent_of_def split: if_splits)

declare create_dir_all.simps [simp del]

text \<open>Opening with create, truncate and \<open>O_NOFOLLOW\<close>, and writing; \<open>ELOOP\<close> is \<open>FilesystemLoop\<close>.\<close>

definition open_and_write :: "fsys \<Rightarrow> path \<Rightarrow> string \<Rightarrow> (io_error + unit) \<times> fsys" where
  "open_and_write f p content =
     (case entry_of f p of
        Inl e \<Rightarrow> (Inl e, f)
      | Inr at \<Rightarrow>
          (case f at of
             Some Dir \<Rightarrow> (Inl IsADirectory, f)
           | Some (Link t) \<Rightarrow> (Inl FilesystemLoop, f)
           | _ \<Rightarrow> (Inr (), f(at \<mapsto> File content))))"

section \<open>The code\<close>

datatype contain_error = ContainEscape string | ContainIo io_error

fun contain_loop :: "fsys \<Rightarrow> path \<Rightarrow> string \<Rightarrow> path \<Rightarrow> comp list \<Rightarrow> contain_error + path" where
  "contain_loop f root rel cur [] = Inr cur"
| "contain_loop f root rel cur (CurDir # cs) = contain_loop f root rel cur cs"
| "contain_loop f root rel cur (Normal n # cs) =
     (let cur' = path_push cur (Normal n)
      in case canonicalize f cur' of
           Inr real \<Rightarrow>
             if \<not> path_starts_with real root then Inl (ContainEscape rel) else contain_loop f root rel real cs
         | Inl e \<Rightarrow>
             if is_symlink f cur' then Inl (ContainEscape rel)
             else if e \<noteq> NotFound then Inl (ContainIo e)
             else contain_loop f root rel cur' cs)"
| "contain_loop f root rel cur (_ # cs) = Inl (ContainEscape rel)"

definition contain :: "fsys \<Rightarrow> path \<Rightarrow> string \<Rightarrow> contain_error + path" where
  "contain f root rel =
     (if is_absolute (path_components rel) then Inl (ContainEscape rel)
      else contain_loop f root rel root (path_components rel))"

definition write_at :: "fsys \<Rightarrow> path \<Rightarrow> string \<Rightarrow> string \<Rightarrow> (contain_error + unit) \<times> fsys" where
  "write_at g path rel content =
     (case (case parent_of path of Some parent \<Rightarrow> create_dir_all g parent | None \<Rightarrow> (Inr (), g)) of
        (Inl e, g1) \<Rightarrow> (Inl (ContainIo e), g1)
      | (Inr u, g1) \<Rightarrow>
          (case open_and_write g1 path content of
             (Inl FilesystemLoop, g2) \<Rightarrow> (Inl (ContainEscape rel), g2)
           | (Inl e, g2) \<Rightarrow> (Inl (ContainIo e), g2)
           | (Inr v, g2) \<Rightarrow> (Inr (), g2)))"

text \<open>The check sees \<open>f\<close>, the write sees \<open>g\<close>.\<close>

definition write_contained :: "fsys \<Rightarrow> fsys \<Rightarrow> path \<Rightarrow> string \<Rightarrow> string \<Rightarrow> (contain_error + unit) \<times> fsys" where
  "write_contained f g root rel content =
     (case contain f root rel of
        Inl e \<Rightarrow> (Inl e, g)
      | Inr path \<Rightarrow> write_at g path rel content)"

section \<open>Resolution\<close>

text \<open>A tree: what has an entry stands in a directory.\<close>

definition tree_fs :: "fsys \<Rightarrow> bool" where
  "tree_fs f \<longleftrightarrow> f [] = None \<and> (\<forall>at n. f (at @ [n]) \<noteq> None \<longrightarrow> is_dir_at f at)"

definition linkless :: "fsys \<Rightarrow> string list \<Rightarrow> bool" where
  "linkless f ns \<longleftrightarrow> (\<forall>q t. prefix q ns \<longrightarrow> f q \<noteq> Some (Link t))"

lemma linkless_prefix: "linkless f ns \<Longrightarrow> prefix q ns \<Longrightarrow> linkless f q"
  by (auto simp: linkless_def dest: prefix_order.trans)

lemma linkless_snoc: "linkless f (at @ [n]) \<longleftrightarrow> linkless f at \<and> (\<forall>t. f (at @ [n]) \<noteq> Some (Link t))"
  by (auto simp: linkless_def)

text \<open>What resolution reaches is never a link.\<close>

lemma walk_linkless:
  assumes "linkless f (at @ ns)" "walk_path f hops at (map Normal ns) = Inr r"
  shows "r = at @ ns"
  using assms
proof (induction ns arbitrary: at)
  case (Cons n ns)
  have "linkless f (at @ [n])" using Cons.prems(1) linkless_prefix by fastforce
  with Cons.prems(2) have "f (at @ [n]) = Some Dir \<and> walk_path f hops (at @ [n]) (map Normal ns) = Inr r \<or>
      ns = [] \<and> r = at @ [n]"
    by (auto simp: linkless_snoc split: option.splits node.splits if_splits)
  with Cons.IH [of "at @ [n]"] Cons.prems(1) show ?case by auto
qed simp

lemma tree_dirs: "tree_fs f \<Longrightarrow> is_dir_at f at \<Longrightarrow> prefix q at \<Longrightarrow> is_dir_at f q"
proof (induction at rule: rev_induct)
  case (snoc n at)
  show ?case
  proof (cases "q = at @ [n]")
    case False
    with snoc.prems(3) have "prefix q at" by simp
    moreover have "is_dir_at f at" using snoc.prems(1,2) by (auto simp: tree_fs_def is_dir_at_def)
    ultimately show ?thesis using snoc.IH snoc.prems(1) by blast
  qed (use snoc.prems in simp)
qed simp

lemma dirs_linkless: "tree_fs f \<Longrightarrow> is_dir_at f at \<Longrightarrow> linkless f at"
  unfolding linkless_def by (metis is_dir_at_def node.distinct(3) option.distinct(1) option.inject tree_dirs tree_fs_def)

lemma walk_reaches:
  assumes "tree_fs f" "is_dir_at f at" "walk_path f hops at q = Inr r"
  shows "linkless f r"
  using assms
proof (induction f hops at q rule: walk_path.induct)
  case (4 f hops at q)
  then show ?case using tree_dirs [of f at "butlast at"] prefixeq_butlast by auto
next
  case (5 f hops at n q)
  show ?case
  proof (cases "f (at @ [n])")
    case (Some nd)
    then show ?thesis
    proof (cases nd)
      case Dir
      then show ?thesis using 5 Some by (simp add: is_dir_at_def)
    next
      case (File content)
      then show ?thesis
        using 5 Some dirs_linkless [of f at] by (auto simp: linkless_snoc split: if_splits)
    next
      case (Link target)
      then show ?thesis using 5 Some by (cases hops) simp_all
    qed
  qed (use 5 in simp)
qed (auto simp: is_dir_at_def dirs_linkless)

lemma canonicalize_linkless:
  "tree_fs f \<Longrightarrow> canonicalize f p = Inr real \<Longrightarrow> \<exists>r. real = abs_path r \<and> linkless f r"
  using walk_reaches [of f "[]" LINK_LIMIT p]
  by (auto simp: canonicalize_def is_dir_at_def map_sum_def split: sum.splits)

lemma entry_of_linkless:
  assumes "linkless f ns" "entry_of f (abs_path (ns @ [n])) = Inr at"
  shows "at = ns @ [n]"
proof -
  have "file_name (abs_path (ns @ [n])) = Some n" "butlast (abs_path (ns @ [n])) = abs_path ns"
    by (simp_all add: abs_path_def file_name_def butlast_append)
  with assms show ?thesis
    using walk_linkless [of f "[]" ns LINK_LIMIT]
    by (auto simp: entry_of_def abs_path_def split: sum.splits if_splits)
qed

lemma entry_of_root: "entry_of f (abs_path []) = Inl IsADirectory"
  by (simp add: entry_of_def abs_path_def file_name_def)

lemma abs_path_starts [simp]: "path_starts_with (abs_path ns) (abs_path rs) \<longleftrightarrow> prefix rs ns"
proof -
  have "filter (\<lambda>d. d \<noteq> CurDir) (map Normal xs) = map Normal xs" for xs by (induction xs) auto
  then have n: "norm_comps (abs_path xs) = abs_path xs" for xs by (simp add: abs_path_def)
  have "(\<exists>t. map Normal ns = map Normal rs @ t) \<longleftrightarrow> prefix rs ns"
    by (auto simp: prefix_def map_eq_append_conv inj_map_eq_map inj_def)
  then show ?thesis
    unfolding path_starts_with_def n by (simp add: starts_with_iff abs_path_def)
qed

section \<open>The check\<close>

definition inside :: "fsys \<Rightarrow> string list \<Rightarrow> path \<Rightarrow> bool" where
  "inside f rs p \<longleftrightarrow> (\<exists>ns. p = abs_path ns \<and> prefix rs ns \<and> linkless f ns)"

text \<open>One step: an entry that does not resolve and is no link leaves the path free of links.\<close>

lemma absent_linkless:
  assumes "tree_fs f" "linkless f ns" "\<not> is_symlink f (abs_path (ns @ [n]))"
  shows "linkless f (ns @ [n])"
proof (cases "f (ns @ [n])")
  case None
  then show ?thesis using assms(2) by (simp add: linkless_snoc)
next
  case (Some nd)
  then have d: "is_dir_at f ns" using assms(1) by (auto simp: tree_fs_def)
  have walk: "is_dir_at f at \<Longrightarrow> at = as @ bs \<Longrightarrow> walk_path f LINK_LIMIT as (map Normal bs) = Inr at" for at as bs
  proof (induction bs arbitrary: as)
    case (Cons b bs)
    have "is_dir_at f (as @ [b])" using tree_dirs [OF assms(1) Cons.prems(1), of "as @ [b]"] Cons.prems(2) by simp
    then have "f (as @ [b]) = Some Dir" by (simp add: is_dir_at_def)
    then show ?case using Cons.IH [of "as @ [b]"] Cons.prems by simp
  qed simp
  have "file_name (abs_path (ns @ [n])) = Some n" "butlast (abs_path (ns @ [n])) = RootDir # map Normal ns"
    by (simp_all add: abs_path_def file_name_def butlast_append)
  with walk [OF d, of "[]" ns] d have "entry_of f (abs_path (ns @ [n])) = Inr (ns @ [n])"
    by (simp add: entry_of_def)
  with assms(2,3) Some show ?thesis
    by (auto simp: is_symlink_def linkless_snoc split: node.splits)
qed

lemma contain_loop_inside:
  assumes "tree_fs f" "inside f rs cur" "contain_loop f (abs_path rs) rel cur cs = Inr p"
  shows "inside f rs p"
  using assms(2,3)
proof (induction cs arbitrary: cur)
  case (Cons c cs)
  then obtain ns where ns: "cur = abs_path ns" "prefix rs ns" "linkless f ns" by (auto simp: inside_def)
  show ?case
  proof (cases c)
    case (Normal n)
    have cur': "path_push cur (Normal n) = abs_path (ns @ [n])"
      using ns(1) by (simp add: path_push_def abs_path_def)
    have inside: "inside f rs (abs_path (ns @ [n]))" if "\<not> is_symlink f (abs_path (ns @ [n]))"
      using absent_linkless [OF assms(1) ns(3) that] ns(2) by (auto simp: inside_def)
    show ?thesis
    proof (cases "canonicalize f (abs_path (ns @ [n]))")
      case (Inl e)
      with Cons.prems(2) have "\<not> is_symlink f (abs_path (ns @ [n]))"
        "contain_loop f (abs_path rs) rel (abs_path (ns @ [n])) cs = Inr p"
        by (auto simp: Normal cur' Let_def split: if_splits)
      with inside Cons.IH show ?thesis by blast
    next
      case (Inr real)
      with canonicalize_linkless [OF assms(1)] obtain r where r: "real = abs_path r" "linkless f r" by blast
      with Inr Cons.prems(2) have "prefix rs r" "contain_loop f (abs_path rs) rel real cs = Inr p"
        by (auto simp: Normal cur' Let_def split: if_splits)
      with r Cons.IH [of real] show ?thesis by (auto simp: inside_def)
    qed
  qed (use Cons in auto)
qed simp

text \<open>The root is a directory under its canonical name.\<close>

definition root_ok :: "fsys \<Rightarrow> string list \<Rightarrow> bool" where
  "root_ok f rs \<longleftrightarrow> tree_fs f \<and> is_dir_at f rs"

lemma contain_inside:
  assumes "root_ok f rs" "contain f (abs_path rs) rel = Inr p"
  shows "inside f rs p"
proof -
  have "inside f rs (abs_path rs)"
    using assms(1) dirs_linkless by (auto simp: root_ok_def inside_def)
  then show ?thesis
    using assms contain_loop_inside by (auto simp: contain_def root_ok_def split: if_splits)
qed

section \<open>The write\<close>

text \<open>Making directories along a path without links only adds directories on that path.\<close>

definition only_dirs_on :: "string list \<Rightarrow> fsys \<Rightarrow> fsys \<Rightarrow> bool" where
  "only_dirs_on ns f g \<longleftrightarrow> (\<forall>q. g q \<noteq> f q \<longrightarrow> f q = None \<and> g q = Some Dir \<and> prefix q ns \<and> q \<noteq> [])"

lemma only_dirs_refl [simp]: "only_dirs_on ns f f"
  by (simp add: only_dirs_on_def)

lemma only_dirs_trans: "only_dirs_on ns f g \<Longrightarrow> only_dirs_on ns g h \<Longrightarrow> only_dirs_on ns f h"
  unfolding only_dirs_on_def by (metis option.distinct(1))

lemma only_dirs_longer: "only_dirs_on ns f g \<Longrightarrow> prefix ns ms \<Longrightarrow> only_dirs_on ms f g"
  by (auto simp: only_dirs_on_def dest: prefix_order.trans)

lemma only_dirs_linkless: "only_dirs_on ns f g \<Longrightarrow> linkless f ms \<Longrightarrow> linkless g ms"
  unfolding linkless_def only_dirs_on_def by (metis node.distinct(3) option.inject)

lemma only_dirs_dir: "only_dirs_on ns f g \<Longrightarrow> is_dir_at f at \<Longrightarrow> is_dir_at g at"
  unfolding only_dirs_on_def is_dir_at_def by (metis option.distinct(1))

lemma mkdir_on_path:
  assumes "linkless f ns" "mkdir f (abs_path ns) = (r, g)"
  shows "only_dirs_on ns f g"
proof (cases ns rule: rev_cases)
  case Nil
  then show ?thesis using assms(2) by (simp add: mkdir_def entry_of_root)
next
  case (snoc ms n)
  have "linkless f ms" using assms(1) snoc by (simp add: linkless_snoc)
  with assms(2) show ?thesis
    using entry_of_linkless [of f ms n]
    by (auto simp: mkdir_def snoc only_dirs_on_def split: sum.splits io_error.splits if_splits)
qed

lemma mkdir_or_there_on_path:
  "linkless f ns \<Longrightarrow> mkdir_or_there f (abs_path ns) = (r, g) \<Longrightarrow> only_dirs_on ns f g"
  using mkdir_on_path [of f ns] by (auto simp: mkdir_or_there_def split: prod.splits sum.splits if_splits)

lemma create_dir_all_on_path:
  "linkless f ns \<Longrightarrow> create_dir_all f (abs_path ns) = (r, g) \<Longrightarrow> only_dirs_on ns f g"
proof (induction ns arbitrary: f r g rule: rev_induct)
  case Nil
  have "create_dir_all f (abs_path []) = mkdir_or_there f (abs_path [])"
    by (subst create_dir_all.simps) (simp add: mkdir_def entry_of_root)
  with Nil show ?case using mkdir_or_there_on_path by simp
next
  case (snoc n ns)
  have parent: "parent_of (abs_path (ns @ [n])) = Some (abs_path ns)"
    by (simp add: parent_of_def abs_path_def butlast_append)
  show ?case
  proof (cases "fst (mkdir f (abs_path (ns @ [n]))) \<noteq> Inl NotFound")
    case True
    then have "mkdir_or_there f (abs_path (ns @ [n])) = (r, g)"
      using snoc.prems(2) by (simp add: create_dir_all.simps [of f "abs_path (ns @ [n])"])
    with snoc.prems(1) show ?thesis by (rule mkdir_or_there_on_path)
  next
    case False
    obtain r1 g1 where g1: "create_dir_all f (abs_path ns) = (r1, g1)" by force
    have o1: "only_dirs_on ns f g1"
      using snoc.IH [OF _ g1] snoc.prems(1) by (simp add: linkless_snoc)
    then have o1': "only_dirs_on (ns @ [n]) f g1" by (rule only_dirs_longer) simp
    have rest: "(case r1 of Inl e \<Rightarrow> (Inl e, g1) | Inr u \<Rightarrow> mkdir_or_there g1 (abs_path (ns @ [n]))) = (r, g)"
      using False snoc.prems(2) g1 parent
      by (auto simp: create_dir_all.simps [of f "abs_path (ns @ [n])"] split: sum.splits)
    then show ?thesis
      using o1' mkdir_or_there_on_path [OF only_dirs_linkless [OF o1' snoc.prems(1)]]
        only_dirs_trans by (auto split: sum.splits)
  qed
qed

lemma open_and_write_at:
  assumes "linkless f ns" "open_and_write f (abs_path (ns @ [n])) content = (r, g)"
  shows "q \<noteq> ns @ [n] \<Longrightarrow> g q = f q" and "r = Inr () \<Longrightarrow> g (ns @ [n]) = Some (File content)"
  using assms(2)
  by (auto simp: open_and_write_def dest!: entry_of_linkless [OF assms(1)] split: sum.splits option.splits node.splits)

text \<open>
  The write itself, when no directory on the way to the target was swapped for a link: it touches
  the target and adds directories on the way.
\<close>

lemma write_at_path:
  assumes "linkless g ns" "write_at g (abs_path (ns @ [n])) rel content = (r, h)"
  shows "\<exists>g1. only_dirs_on ns g g1 \<and> (\<forall>q. q \<noteq> ns @ [n] \<longrightarrow> h q = g1 q) \<and>
    (r = Inr () \<longrightarrow> h (ns @ [n]) = Some (File content))"
proof -
  have "parent_of (abs_path (ns @ [n])) = Some (abs_path ns)"
    by (simp add: parent_of_def abs_path_def butlast_append)
  moreover obtain r1 g1 where g1: "create_dir_all g (abs_path ns) = (r1, g1)" by force
  moreover have o1: "only_dirs_on ns g g1" by (rule create_dir_all_on_path [OF assms(1) g1])
  moreover obtain r2 h2 where h2: "open_and_write g1 (abs_path (ns @ [n])) content = (r2, h2)" by force
  ultimately show ?thesis
    using assms(2) open_and_write_at [OF only_dirs_linkless [OF o1 assms(1)] h2]
    by (intro exI [of _ g1]) (auto simp: write_at_def split: sum.splits io_error.splits)
qed

lemma write_at_root:
  assumes "write_at g (abs_path []) rel content = (r, h)"
  shows "h = g \<and> r \<noteq> Inr ()"
  using assms by (auto simp: write_at_def parent_of_def abs_path_def open_and_write_def
      entry_of_root [unfolded abs_path_def, simplified])

text \<open>Between the check and the write no directory on the way was swapped for a link.\<close>

definition parents_kept :: "fsys \<Rightarrow> fsys \<Rightarrow> path \<Rightarrow> bool" where
  "parents_kept f g p \<longleftrightarrow>
     (\<forall>ns q t. p = abs_path ns \<and> strict_prefix q ns \<and> g q = Some (Link t) \<longrightarrow> (\<exists>u. f q = Some (Link u)))"

lemma parents_kept_refl [simp]: "parents_kept f f p"
  by (simp add: parents_kept_def)

lemma parents_kept_linkless:
  assumes "parents_kept f g (abs_path (ns @ [n]))" "linkless f (ns @ [n])"
  shows "linkless g ns"
  unfolding linkless_def
proof (intro allI impI notI)
  fix q t assume q: "prefix q ns" and link: "g q = Some (Link t)"
  from q have "strict_prefix q (ns @ [n])" by (auto simp: strict_prefix_def)
  with assms(1) link obtain u where "f q = Some (Link u)" unfolding parents_kept_def by blast
  moreover have "prefix q (ns @ [n])" using q by simp
  ultimately show False using assms(2) unfolding linkless_def by blast
qed

text \<open>C15. A write stays inside the directory: whatever links the tree holds, and whatever happens to
  the target between the check and the write - it may have become a link to anywhere -, a write
  changes nothing outside the root; and when it reports success, the file inside the root holds
  exactly the content. Only a directory on the way that is swapped for a link is excluded.\<close>

theorem write_stays_inside:
  assumes "root_ok f rs" and "root_ok g rs"
    and "\<And>p. contain f (abs_path rs) rel = Inr p \<Longrightarrow> parents_kept f g p"
    and "write_contained f g (abs_path rs) rel content = (r, h)"
  shows "(\<forall>q. \<not> prefix rs q \<longrightarrow> h q = g q) \<and>
    (r = Inr () \<longrightarrow> (\<exists>ns. contain f (abs_path rs) rel = Inr (abs_path ns) \<and> prefix rs ns \<and>
       h ns = Some (File content)))"
proof (cases "contain f (abs_path rs) rel")
  case (Inl e)
  then show ?thesis using assms(4) by (auto simp: write_contained_def)
next
  case (Inr p)
  from contain_inside [OF assms(1) Inr] obtain ns where ns: "p = abs_path ns" "prefix rs ns" "linkless f ns"
    by (auto simp: inside_def)
  have w: "write_at g (abs_path ns) rel content = (r, h)"
    using assms(4) Inr ns(1) by (simp add: write_contained_def)
  show ?thesis
  proof (cases ns rule: rev_cases)
    case Nil
    then show ?thesis using write_at_root w by blast
  next
    case (snoc ms n)
    have dirs: "is_dir_at g rs" "tree_fs g" using assms(2) by (simp_all add: root_ok_def)
    have "linkless g ms"
      using parents_kept_linkless [of f g ms n] assms(3) [OF Inr] ns(1,3) snoc by simp
    with write_at_path w snoc obtain g1 where g1: "only_dirs_on ms g g1" "\<forall>q. q \<noteq> ns \<longrightarrow> h q = g1 q"
      and wrote: "r = Inr () \<longrightarrow> h ns = Some (File content)" by blast
    have "h q = g q" if out: "\<not> prefix rs q" for q
    proof -
      have "q \<noteq> ns" using ns(2) out by blast
      moreover have "g1 q = g q"
      proof (rule ccontr)
        assume "g1 q \<noteq> g q"
        with g1(1) have q: "g q = None" "prefix q ms" "q \<noteq> []" by (auto simp: only_dirs_on_def)
        then have "prefix q ns" using snoc by auto
        with ns(2) out have "prefix q rs" using prefix_same_cases by blast
        with q tree_dirs [OF dirs(2,1), of q] show False by (simp add: is_dir_at_def)
      qed
      ultimately show ?thesis using g1(2) by simp
    qed
    then show ?thesis using wrote Inr ns by blast
  qed
qed

text \<open>A project with a link out of it, before and after its target file became a link.\<close>

definition sample_files :: fsys where
  "sample_files = (\<lambda>q.
     if q = [''home''] \<or> q = [''home'', ''p''] \<or> q = [''home'', ''p'', ''src''] \<or> q = [''etc''] then Some Dir
     else if q = [''etc'', ''passwd''] then Some (File ''root'')
     else if q = [''home'', ''p'', ''out''] then Some (Link (abs_path [''etc'']))
     else if q = [''home'', ''p'', ''in''] then Some (Link [Normal ''src''])
     else None)"

definition swapped_files :: fsys where
  "swapped_files = sample_files([''home'', ''p'', ''src'', ''a''] \<mapsto> Link (abs_path [''etc'', ''passwd'']))"

lemma sample_tree: "tree_fs sample_files"
  unfolding tree_fs_def sample_files_def is_dir_at_def
  by (auto simp: append_eq_Cons_conv split: if_splits)

lemma swapped_tree: "tree_fs swapped_files"
  using sample_tree unfolding tree_fs_def swapped_files_def is_dir_at_def
  by (auto simp: append_eq_Cons_conv sample_files_def split: if_splits)

lemma sample_contain:
  "contain sample_files (abs_path [''home'', ''p'']) ''in/a'' = Inr (abs_path [''home'', ''p'', ''src'', ''a''])"
  "contain sample_files (abs_path [''home'', ''p'']) ''out/passwd'' = Inl (ContainEscape ''out/passwd'')"
  "contain sample_files (abs_path [''home'', ''p'']) ''../q'' = Inl (ContainEscape ''../q'')"
  "contain sample_files (abs_path [''home'', ''p'']) ''/etc/passwd'' = Inl (ContainEscape ''/etc/passwd'')"
  by code_simp+

lemma write_stays_inside_witness:
  "fst (write_contained sample_files swapped_files (abs_path [''home'', ''p'']) ''in/a'' ''x'') = Inl (ContainEscape ''in/a'') \<and>
   snd (write_contained sample_files swapped_files (abs_path [''home'', ''p'']) ''in/a'' ''x'') [''etc'', ''passwd'']
     = Some (File ''root'')"
proof -
  let ?w = "write_contained sample_files swapped_files (abs_path [''home'', ''p'']) ''in/a'' ''x''"
  have roots: "root_ok sample_files [''home'', ''p'']" "root_ok swapped_files [''home'', ''p'']"
    using sample_tree swapped_tree by (simp_all add: root_ok_def is_dir_at_def sample_files_def swapped_files_def)
  have kept: "parents_kept sample_files swapped_files p"
    if "contain sample_files (abs_path [''home'', ''p'']) ''in/a'' = Inr p" for p
  proof -
    have "q \<noteq> [''home'', ''p'', ''src'', ''a''] \<Longrightarrow> swapped_files q = sample_files q" for q
      by (simp add: swapped_files_def)
    moreover have "p = abs_path [''home'', ''p'', ''src'', ''a'']" using that sample_contain(1) by simp
    ultimately show ?thesis
      by (metis abs_path_inject parents_kept_def prefix_order.less_irrefl)
  qed
  have "\<not> prefix [''home'', ''p''] [''etc'', ''passwd'']" by simp
  with write_stays_inside [OF roots kept, where content = "''x''" and r = "fst ?w" and h = "snd ?w"]
  have "snd ?w [''etc'', ''passwd''] = swapped_files [''etc'', ''passwd'']" by simp
  then have "snd ?w [''etc'', ''passwd''] = Some (File ''root'')"
    by (simp add: swapped_files_def sample_files_def)
  moreover have "fst ?w = Inl (ContainEscape ''in/a'')" by code_simp
  ultimately show ?thesis by blast
qed

end
