(* ===== verification/Agent_Manifest.thy ===== *)
theory Agent_Manifest
  imports Agent_Tier Json
begin

text \<open>
  App manifests: \<open>daemons/agentd/src/manifest.rs\<close>. Decoding the JSON text of a manifest file
  into the structure is \<open>serde\<close>'s and an argument; everything the loader does with the decoded
  manifest is modelled: the tier floor, the removal of large length bounds, the validation, and
  the check of call arguments against a tool's schema.
\<close>

section \<open>Data\<close>

record undo_decl =
  ud_tool :: string
  ud_map :: "(string \<times> string) list"

record tool_decl =
  td_name :: string
  td_tier :: tier
  td_description :: string
  td_input_schema :: json
  td_undo :: "undo_decl option"
  td_raised_from :: "tier option"
  td_stripped :: "string list"

record resource_decl =
  rd_uri :: string
  rd_description :: string

record mcp_decl =
  mcp_transport :: string
  mcp_activatable :: bool

record manifest =
  m_version :: "64 word"
  m_app_id :: string
  m_mcp :: mcp_decl
  m_tools :: "tool_decl list"
  m_resources :: "resource_decl list"

datatype manifest_error =
    MeJson string
  | MeVersion "64 word"
  | MeAppId string
  | MeTransport string
  | MeToolName string
  | MeDuplicateTool string
  | MeInputSchema string
  | MeUndoOnRead string
  | MeUndoUnknownTool string string
  | MeUndoMapRef string string
  | MeResourceUri string

definition MANIFEST_VERSION :: "64 word" where
  "MANIFEST_VERSION = 1"

definition MAX_GRAMMAR_LENGTH :: "64 word" where
  "MAX_GRAMMAR_LENGTH = 256"

section \<open>Length bounds\<close>

definition child_path :: "string \<Rightarrow> string \<Rightarrow> string" where
  "child_path path k = (if path = [] then k else path @ ''.'' @ k)"

definition item_path :: "string \<Rightarrow> nat \<Rightarrow> string" where
  "item_path path i = path @ ''['' @ nat_str i @ '']''"

definition too_big :: "(string \<times> json) list \<Rightarrow> string \<Rightarrow> bool" where
  "too_big kvs key =
     (case map_of kvs key of
        None \<Rightarrow> False
      | Some v \<Rightarrow> (case as_u64 v of None \<Rightarrow> False | Some n \<Rightarrow> MAX_GRAMMAR_LENGTH < n))"

definition bound_keys :: "string list" where
  "bound_keys = [''maxLength'', ''minLength'']"

lemma size_zip_item [termination_simp]:
  "p \<in> set (zip ns items) \<Longrightarrow> size (snd p) < Suc (size_list size items)"
proof -
  assume "p \<in> set (zip ns items)"
  then have "snd p \<in> set items" by (metis set_zip_rightD prod.collapse)
  then have "size (snd p) \<le> size_list size items" by (rule size_list_estimation') simp
  then show ?thesis by simp
qed

lemma size_zip_item' [termination_simp]:
  "(i, v) \<in> set (zip ns items) \<Longrightarrow> size v < Suc (size_list size items)"
  using size_zip_item [of "(i, v)"] by simp

text \<open>
  \<open>strip_at\<close> returns the rewritten schema and the removed keys, which the source pushes onto a
  vector. Removing one of the two keys does not change whether the other is too big.
\<close>

fun strip_at :: "json \<Rightarrow> string \<Rightarrow> json \<times> string list" where
  "strip_at (JObj kvs) path =
     (let removed = filter (too_big kvs) bound_keys;
          kept = map (\<lambda>p. (fst p, strip_at (snd p) (child_path path (fst p))))
                   (filter (\<lambda>p. fst p \<notin> set removed) kvs)
      in (JObj (map (\<lambda>(k, r). (k, fst r)) kept),
          map (child_path path) removed @ concat (map (\<lambda>(k, r). snd r) kept)))"
| "strip_at (JArr items) path =
     (let rs = map (\<lambda>p. strip_at (snd p) (item_path path (fst p))) (zip [0..<length items] items)
      in (JArr (map fst rs), concat (map snd rs)))"
| "strip_at v path = (v, [])"

definition sanitize_schemas :: "manifest \<Rightarrow> manifest" where
  "sanitize_schemas m =
     m\<lparr>m_tools := map (\<lambda>t. let r = strip_at (td_input_schema t) []
        in t\<lparr>td_input_schema := fst r, td_stripped := td_stripped t @ snd r\<rparr>) (m_tools m)\<rparr>"

definition stripped_bounds :: "manifest \<Rightarrow> (string \<times> string list) list" where
  "stripped_bounds m =
     map (\<lambda>t. (td_name t, td_stripped t)) (filter (\<lambda>t. td_stripped t \<noteq> []) (m_tools m))"

section \<open>The tier floor\<close>

definition floor_tool :: "tool_decl \<Rightarrow> tool_decl" where
  "floor_tool t =
     (case implied_floor (td_name t) of
        None \<Rightarrow> t
      | Some floor \<Rightarrow>
          if td_tier t < floor then t\<lparr>td_raised_from := Some (td_tier t), td_tier := floor\<rparr> else t)"

definition apply_tier_floor :: "manifest \<Rightarrow> manifest" where
  "apply_tier_floor m = m\<lparr>m_tools := map floor_tool (m_tools m)\<rparr>"

definition raised_tiers :: "manifest \<Rightarrow> (string \<times> tier \<times> tier) list" where
  "raised_tiers m =
     List.map_filter (\<lambda>t. map_option (\<lambda>from. (td_name t, from, td_tier t)) (td_raised_from t)) (m_tools m)"

section \<open>Validation\<close>

definition is_name_char :: "char \<Rightarrow> bool" where
  "is_name_char c \<longleftrightarrow> is_ascii_alnum c \<or> c = CHR ''-'' \<or> c = CHR ''_''"

definition is_reverse_dns :: "string \<Rightarrow> bool" where
  "is_reverse_dns s =
     (let segments = split_on (\<lambda>c. c = CHR ''.'') s
      in 2 \<le> length segments \<and>
         (\<forall>w \<in> set segments. w \<noteq> [] \<and> is_ascii_alnum (hd w) \<and> (\<forall>c \<in> set w. is_name_char c)))"

definition is_tool_name :: "string \<Rightarrow> bool" where
  "is_tool_name name =
     (case name of
        [] \<Rightarrow> False
      | c # cs \<Rightarrow> is_ascii_lower c \<and>
          (\<forall>d \<in> set cs. is_ascii_lower d \<or> is_ascii_digit d \<or> d = CHR ''_'' \<or> d = CHR ''-''))"

definition is_undo_ref :: "string \<Rightarrow> bool" where
  "is_undo_ref v =
     (case (case strip_prefix v ''$result'' of Some r \<Rightarrow> Some r | None \<Rightarrow> strip_prefix v ''$input'') of
        None \<Rightarrow> False
      | Some rest \<Rightarrow>
          rest = [] \<or>
          (starts_with rest ''.'' \<and>
           (\<forall>seg \<in> set (split_on (\<lambda>c. c = CHR ''.'') (tl rest)).
              seg \<noteq> [] \<and> (\<forall>c \<in> set seg. is_ascii_alnum c \<or> c = CHR ''_''))))"

definition validate_undo :: "string set \<Rightarrow> tool_decl \<Rightarrow> undo_decl \<Rightarrow> manifest_error option" where
  "validate_undo names t u =
     (if td_tier t = Read then Some (MeUndoOnRead (td_name t))
      else if ud_tool u \<notin> names then Some (MeUndoUnknownTool (td_name t) (ud_tool u))
      else map_option (MeUndoMapRef (td_name t))
             (List.find (\<lambda>v. starts_with v ''$'' \<and> \<not> is_undo_ref v) (map snd (ud_map u))))"

text \<open>The loop over the tools; \<open>seen\<close> is the hash set of the names so far.\<close>

fun validate_tools :: "string set \<Rightarrow> string list \<Rightarrow> tool_decl list \<Rightarrow> manifest_error option" where
  "validate_tools names seen [] = None"
| "validate_tools names seen (t # ts) =
     (if \<not> is_tool_name (td_name t) then Some (MeToolName (td_name t))
      else if td_name t \<in> set seen then Some (MeDuplicateTool (td_name t))
      else if Option.bind (json_get (td_input_schema t) ''type'') as_str \<noteq> Some ''object''
      then Some (MeInputSchema (td_name t))
      else (case Option.bind (td_undo t) (validate_undo names t) of
              Some e \<Rightarrow> Some e
            | None \<Rightarrow> validate_tools names (td_name t # seen) ts))"

definition validate :: "manifest \<Rightarrow> manifest_error + unit" where
  "validate m =
     (if m_version m \<noteq> MANIFEST_VERSION then Inl (MeVersion (m_version m))
      else if \<not> is_reverse_dns (m_app_id m) then Inl (MeAppId (m_app_id m))
      else if mcp_transport (m_mcp m) \<noteq> ''unix'' then Inl (MeTransport (mcp_transport (m_mcp m)))
      else (case validate_tools (set (map td_name (m_tools m))) [] (m_tools m) of
              Some e \<Rightarrow> Inl e
            | None \<Rightarrow>
                (case List.find (\<lambda>r. trim (rd_uri r) = []) (m_resources m) of
                   None \<Rightarrow> Inr ()
                 | Some r \<Rightarrow> Inl (MeResourceUri (rd_uri r)))))"

text \<open>\<open>decode\<close> is \<open>serde_json::from_str::<Manifest>\<close>: an error text or the structure.\<close>

definition manifest_from_json :: "(string \<Rightarrow> string + manifest) \<Rightarrow> string \<Rightarrow> manifest_error + manifest" where
  "manifest_from_json decode text =
     (case decode text of
        Inl e \<Rightarrow> Inl (MeJson e)
      | Inr m0 \<Rightarrow>
          (let m = sanitize_schemas (apply_tier_floor m0)
           in case validate m of Inl e \<Rightarrow> Inl e | Inr _ \<Rightarrow> Inr m))"

definition manifest_tool :: "manifest \<Rightarrow> string \<Rightarrow> tool_decl option" where
  "manifest_tool m name = List.find (\<lambda>t. td_name t = name) (m_tools m)"

section \<open>Arguments against a schema\<close>

datatype arg_error =
    ExpectedType string string
  | MissingField string string
  | UnexpectedField string string

definition type_ok :: "string \<Rightarrow> json \<Rightarrow> bool" where
  "type_ok ty v =
     (if ty = ''object'' then as_object v \<noteq> None
      else if ty = ''array'' then as_array v \<noteq> None
      else if ty = ''string'' then as_str v \<noteq> None
      else if ty = ''number'' then is_number v
      else if ty = ''integer'' then as_i64 v \<noteq> None \<or> as_u64 v \<noteq> None
      else if ty = ''boolean'' then is_bool v
      else if ty = ''null'' then v = JNull
      else True)"

fun first_error :: "('e + unit) list \<Rightarrow> 'e + unit" where
  "first_error [] = Inr ()"
| "first_error (Inl e # rs) = Inl e"
| "first_error (Inr _ # rs) = first_error rs"

definition required_names :: "json \<Rightarrow> string list" where
  "required_names schema =
     (case Option.bind (json_get schema ''required'') as_array of
        None \<Rightarrow> []
      | Some vs \<Rightarrow> List.map_filter as_str vs)"

definition property_schema :: "json \<Rightarrow> string \<Rightarrow> json option" where
  "property_schema schema k = Option.bind (Option.bind (json_get schema ''properties'') as_object) (\<lambda>p. map_of p k)"

definition closed_schema :: "json \<Rightarrow> bool" where
  "closed_schema schema \<longleftrightarrow> json_get schema ''additionalProperties'' = Some (JBool False)"

definition schema_type :: "json \<Rightarrow> string option" where
  "schema_type schema = Option.bind (json_get schema ''type'') as_str"

definition check_required :: "json \<Rightarrow> (string \<times> json) list \<Rightarrow> string \<Rightarrow> arg_error + unit" where
  "check_required schema kvs path =
     (case List.find (\<lambda>n. n \<notin> fst ` set kvs) (required_names schema) of
        None \<Rightarrow> Inr ()
      | Some n \<Rightarrow> Inl (MissingField path n))"

text \<open>
  \<open>check_value\<close> by recursion on the value. The first failing check of the source, in its order,
  is the first error of the list.
\<close>

fun check_value :: "json \<Rightarrow> json \<Rightarrow> string \<Rightarrow> arg_error + unit" where
  "check_value schema (JObj kvs) path =
     (case schema_type schema of
        None \<Rightarrow> Inr ()
      | Some ty \<Rightarrow>
          if \<not> type_ok ty (JObj kvs) then Inl (ExpectedType path ty)
          else if ty = ''object''
          then first_error
                 (check_required schema kvs path #
                  map (\<lambda>p. case property_schema schema (fst p) of
                             Some sub \<Rightarrow> check_value sub (snd p) (path @ ''.'' @ fst p)
                           | None \<Rightarrow> if closed_schema schema then Inl (UnexpectedField path (fst p)) else Inr ())
                    kvs)
          else Inr ())"
| "check_value schema (JArr items) path =
     (case schema_type schema of
        None \<Rightarrow> Inr ()
      | Some ty \<Rightarrow>
          if \<not> type_ok ty (JArr items) then Inl (ExpectedType path ty)
          else if ty = ''array''
          then (case json_get schema ''items'' of
                  None \<Rightarrow> Inr ()
                | Some sub \<Rightarrow>
                    first_error (map (\<lambda>p. check_value sub (snd p) (item_path path (fst p)))
                      (zip [0..<length items] items)))
          else Inr ())"
| "check_value schema v path =
     (case schema_type schema of
        None \<Rightarrow> Inr ()
      | Some ty \<Rightarrow> if \<not> type_ok ty v then Inl (ExpectedType path ty) else Inr ())"

definition validate_args :: "json \<Rightarrow> json \<Rightarrow> arg_error + unit" where
  "validate_args schema args = check_value schema args ''$''"

section \<open>The tier floor only raises\<close>

lemma floor_tool_sel [simp]:
  "td_name (floor_tool t) = td_name t"
  "td_input_schema (floor_tool t) = td_input_schema t"
  "td_undo (floor_tool t) = td_undo t"
  "td_stripped (floor_tool t) = td_stripped t"
  by (simp_all add: floor_tool_def split: option.split)

lemma floor_tool_tier:
  "td_tier (floor_tool t) =
     (case implied_floor (td_name t) of None \<Rightarrow> td_tier t | Some f \<Rightarrow> max (td_tier t) f)"
  by (auto simp: floor_tool_def max_def split: option.split)

definition floor_ok :: "tool_decl \<Rightarrow> bool" where
  "floor_ok t \<longleftrightarrow> (case implied_floor (td_name t) of None \<Rightarrow> True | Some f \<Rightarrow> f \<le> td_tier t)"

lemma floor_tool_ok [simp]: "floor_ok (floor_tool t)"
  by (simp add: floor_ok_def floor_tool_tier split: option.split)

section \<open>No large bound survives\<close>

fun no_large_bounds :: "json \<Rightarrow> bool" where
  "no_large_bounds (JObj kvs) \<longleftrightarrow>
     (\<forall>k \<in> set bound_keys. \<not> too_big kvs k) \<and> (\<forall>p \<in> set kvs. no_large_bounds (snd p))"
| "no_large_bounds (JArr items) \<longleftrightarrow> (\<forall>v \<in> set items. no_large_bounds v)"
| "no_large_bounds v \<longleftrightarrow> True"

lemma as_u64_strip [simp]: "as_u64 (fst (strip_at v path)) = as_u64 v"
  by (cases v) (simp_all add: as_u64_def Let_def)

lemma map_of_kept:
  "map_of (map (\<lambda>p. (fst p, f (snd p) (fst p))) (filter (\<lambda>p. fst p \<notin> R) kvs)) k =
     (if k \<in> R then None else map_option (\<lambda>v. f v k) (map_of kvs k))"
  by (induction kvs) auto

lemma strip_at_no_large_bounds: "no_large_bounds (fst (strip_at v path))"
proof (induction v path rule: strip_at.induct)
  case (1 kvs path)
  let ?R = "filter (too_big kvs) bound_keys"
  let ?kept = "map (\<lambda>p. (fst p, fst (strip_at (snd p) (child_path path (fst p)))))
      (filter (\<lambda>p. fst p \<notin> set ?R) kvs)"
  have eq: "fst (strip_at (JObj kvs) path) = JObj ?kept"
    by (simp add: Let_def comp_def)
  have "\<not> too_big ?kept k" if "k \<in> set bound_keys" for k
  proof (cases "k \<in> set ?R")
    case True
    then have "map_of ?kept k = None"
      by (simp only: map_of_kept [where f = "\<lambda>v k. fst (strip_at v (child_path path k))"] if_True)
    then show ?thesis by (simp add: too_big_def)
  next
    case False
    then have "map_of ?kept k = map_option (\<lambda>v. fst (strip_at v (child_path path k))) (map_of kvs k)"
      by (simp only: map_of_kept [where f = "\<lambda>v k. fst (strip_at v (child_path path k))"] if_False)
    moreover have "\<not> too_big kvs k" using False that by simp
    ultimately show ?thesis
      by (cases "map_of kvs k") (simp_all add: too_big_def)
  qed
  moreover have "\<forall>p \<in> set ?kept. no_large_bounds (snd p)"
    using 1 by auto
  ultimately show ?case unfolding eq by simp
next
  case (2 items path)
  then show ?case by (auto simp: Let_def dest: set_zip_rightD)
qed simp_all

section \<open>What a loaded manifest satisfies\<close>

definition undo_ok :: "manifest \<Rightarrow> tool_decl \<Rightarrow> bool" where
  "undo_ok m t \<longleftrightarrow>
     (case td_undo t of
        None \<Rightarrow> True
      | Some u \<Rightarrow>
          td_tier t \<noteq> Read \<and> ud_tool u \<in> td_name ` set (m_tools m) \<and>
          (\<forall>v \<in> set (map snd (ud_map u)). starts_with v ''$'' \<longrightarrow> is_undo_ref v))"

definition tool_ok :: "manifest \<Rightarrow> tool_decl \<Rightarrow> bool" where
  "tool_ok m t \<longleftrightarrow>
     is_tool_name (td_name t) \<and> schema_type (td_input_schema t) = Some ''object'' \<and> undo_ok m t"

definition manifest_ok :: "manifest \<Rightarrow> bool" where
  "manifest_ok m \<longleftrightarrow>
     m_version m = MANIFEST_VERSION \<and> is_reverse_dns (m_app_id m) \<and> mcp_transport (m_mcp m) = ''unix'' \<and>
     distinct (map td_name (m_tools m)) \<and> (\<forall>t \<in> set (m_tools m). tool_ok m t) \<and>
     (\<forall>r \<in> set (m_resources m). trim (rd_uri r) \<noteq> [])"

lemma validate_undo_None:
  "validate_undo names t u = None \<longleftrightarrow>
     td_tier t \<noteq> Read \<and> ud_tool u \<in> names \<and>
     (\<forall>v \<in> set (map snd (ud_map u)). starts_with v ''$'' \<longrightarrow> is_undo_ref v)"
  by (auto simp: validate_undo_def find_None_iff)

lemma validate_tools_None:
  "validate_tools (td_name ` set (m_tools m)) seen ts = None \<longleftrightarrow>
     distinct (map td_name ts) \<and> set (map td_name ts) \<inter> set seen = {} \<and> (\<forall>t \<in> set ts. tool_ok m t)"
proof (induction ts arbitrary: seen)
  case Nil
  then show ?case by simp
next
  case (Cons t ts)
  have u: "(Option.bind (td_undo t) (validate_undo (td_name ` set (m_tools m)) t) = None) = undo_ok m t"
    by (cases "td_undo t") (simp_all add: undo_ok_def validate_undo_None)
  show ?case
    using u Cons.IH [of "td_name t # seen"]
    by (auto simp: tool_ok_def schema_type_def split: option.splits)
qed

lemma validate_ok: "validate m = Inr u \<longleftrightarrow> manifest_ok m"
  using validate_tools_None [of m "[]" "m_tools m"]
  by (auto simp: validate_def manifest_ok_def find_None_iff find_Some_iff split: option.splits)

lemma manifest_from_json_ok:
  assumes "manifest_from_json decode text = Inr m"
  shows "manifest_ok m \<and> (\<forall>t \<in> set (m_tools m). floor_ok t \<and> no_large_bounds (td_input_schema t))"
proof -
  obtain m0 where m: "m = sanitize_schemas (apply_tier_floor m0)" and v: "validate m = Inr ()"
    using assms by (auto simp: manifest_from_json_def Let_def split: sum.splits)
  have "floor_ok t \<and> no_large_bounds (td_input_schema t)" if mem: "t \<in> set (m_tools m)" for t
  proof -
    obtain t0 where "t = (floor_tool t0)\<lparr>td_input_schema := fst (strip_at (td_input_schema t0) []),
        td_stripped := td_stripped t0 @ snd (strip_at (td_input_schema t0) [])\<rparr>"
      using mem by (auto simp: m sanitize_schemas_def apply_tier_floor_def Let_def image_iff)
    then show ?thesis
      using floor_tool_ok [of t0] strip_at_no_large_bounds
      by (auto simp: floor_ok_def split: option.splits)
  qed
  with v show ?thesis by (simp add: validate_ok)
qed

text \<open>
  What a manifest that was loaded satisfies: version, app id, transport and resources are
  valid; tool names are valid and distinct; every schema describes an object and holds no length
  bound the grammar cannot take, at any depth; an undo is declared only on a tool that is not
  read-tier, names a tool of the same manifest, and its references are well formed; and no tool's
  tier is below what its own name implies.
\<close>

theorem loaded_manifest_ok:
  assumes "manifest_from_json decode text = Inr m"
  shows "manifest_ok m \<and> (\<forall>t \<in> set (m_tools m). floor_ok t \<and> no_large_bounds (td_input_schema t))"
  by (rule manifest_from_json_ok [OF assms])

text \<open>A calendar app that declares \<open>delete_event\<close> as a read and a bound of 4000.\<close>

definition sample_manifest :: manifest where
  "sample_manifest =
     \<lparr>m_version = 1, m_app_id = ''org.lisa.Calendar'',
      m_mcp = \<lparr>mcp_transport = ''unix'', mcp_activatable = True\<rparr>,
      m_tools =
        [\<lparr>td_name = ''add_event'', td_tier = Write, td_description = ''Add an event'',
          td_input_schema = JObj
            [(''properties'', JObj [(''title'', JObj [(''maxLength'', json_int 4000), (''type'', JStr ''string'')])]),
             (''required'', JArr [JStr ''title'']), (''type'', JStr ''object'')],
          td_undo = Some \<lparr>ud_tool = ''delete_event'', ud_map = [(''event_id'', ''$result.event_id'')]\<rparr>,
          td_raised_from = None, td_stripped = []\<rparr>,
         \<lparr>td_name = ''delete_event'', td_tier = Read, td_description = ''Delete an event'',
          td_input_schema = JObj [(''type'', JStr ''object'')],
          td_undo = None, td_raised_from = None, td_stripped = []\<rparr>,
         \<lparr>td_name = ''list_events'', td_tier = Read, td_description = ''List events'',
          td_input_schema = JObj [(''type'', JStr ''object'')],
          td_undo = None, td_raised_from = None, td_stripped = []\<rparr>],
      m_resources = []\<rparr>"

theorem loaded_manifest_ok_witness:
  "manifest_ok (sanitize_schemas (apply_tier_floor sample_manifest)) \<and>
   map td_tier (m_tools (sanitize_schemas (apply_tier_floor sample_manifest))) = [Write, Destructive, Read]"
proof -
  have "manifest_from_json (\<lambda>_. Inr sample_manifest) [] =
      Inr (sanitize_schemas (apply_tier_floor sample_manifest))" by code_simp
  then have "manifest_ok (sanitize_schemas (apply_tier_floor sample_manifest))"
    using loaded_manifest_ok by blast
  moreover have "map td_tier (m_tools (sanitize_schemas (apply_tier_floor sample_manifest))) =
      [Write, Destructive, Read]" by code_simp
  ultimately show ?thesis by blast
qed

section \<open>Conformance of arguments\<close>

inductive conforms :: "json \<Rightarrow> json \<Rightarrow> bool" where
  untyped: "schema_type s = None \<Longrightarrow> conforms s v"
| leaf: "schema_type s = Some ty \<Longrightarrow> type_ok ty v \<Longrightarrow> ty \<noteq> ''object'' \<Longrightarrow> ty \<noteq> ''array'' \<Longrightarrow> conforms s v"
| object: "schema_type s = Some ''object'' \<Longrightarrow>
    (\<forall>n \<in> set (required_names s). n \<in> fst ` set kvs) \<Longrightarrow>
    (\<forall>p \<in> set kvs. property_schema s (fst p) = None \<longrightarrow> \<not> closed_schema s) \<Longrightarrow>
    (\<forall>p \<in> set kvs. \<forall>sub. property_schema s (fst p) = Some sub \<longrightarrow> conforms sub (snd p)) \<Longrightarrow>
    conforms s (JObj kvs)"
| array: "schema_type s = Some ''array'' \<Longrightarrow>
    (\<forall>sub. json_get s ''items'' = Some sub \<longrightarrow> (\<forall>v \<in> set items. conforms sub v)) \<Longrightarrow>
    conforms s (JArr items)"

inductive_simps conforms_obj: "conforms s (JObj kvs)"
inductive_simps conforms_arr: "conforms s (JArr items)"

lemma first_error_ok: "first_error rs = Inr () \<longleftrightarrow> (\<forall>r \<in> set rs. r = Inr ())"
  by (induction rs rule: first_error.induct) auto

lemma check_required_ok:
  "check_required s kvs path = Inr () \<longleftrightarrow> (\<forall>n \<in> set (required_names s). n \<in> fst ` set kvs)"
  by (auto simp: check_required_def find_None_iff find_Some_iff split: option.split)

lemma type_ok_obj [simp]: "type_ok ''object'' (JObj kvs)" "\<not> type_ok ''array'' (JObj kvs)"
  by (simp_all add: type_ok_def as_object_def as_array_def)

lemma type_ok_arr [simp]: "type_ok ''array'' (JArr xs)" "\<not> type_ok ''object'' (JArr xs)"
  by (simp_all add: type_ok_def as_object_def as_array_def)

definition scalar :: "json \<Rightarrow> bool" where
  "scalar v \<longleftrightarrow> as_object v = None \<and> as_array v = None"

lemma conforms_scalar:
  assumes "scalar v"
  shows "conforms s v \<longleftrightarrow> (case schema_type s of None \<Rightarrow> True | Some ty \<Rightarrow> type_ok ty v)"
proof -
  have t: "\<not> type_ok ''object'' v" "\<not> type_ok ''array'' v"
    using assms by (simp_all add: type_ok_def scalar_def)
  have ne: "v \<noteq> JObj kvs" "v \<noteq> JArr xs" for kvs xs
    using assms by (auto simp: scalar_def as_object_def as_array_def)
  show ?thesis
    using t ne conforms.leaf conforms.untyped
    by (cases "schema_type s") (auto simp: conforms.simps [of s v])
qed

lemma scalar_simps [simp]: "scalar JNull" "scalar (JBool b)" "scalar (JNum n)" "scalar (JStr t)"
  by (simp_all add: scalar_def as_object_def as_array_def)

lemma check_value_ok: "check_value s v path = Inr () \<longleftrightarrow> conforms s v"
proof (induction s v path rule: check_value.induct)
  case (1 schema kvs path)
  show ?case
  proof (cases "schema_type schema = Some ''object''")
    case True
    then show ?thesis
      using 1 by (fastforce simp: conforms_obj first_error_ok check_required_ok split: option.splits)
  next
    case False
    then show ?thesis
      by (auto simp: conforms_obj split: option.splits)
  qed
next
  case (2 schema items path)
  show ?case
  proof (cases "schema_type schema = Some ''array''")
    case True
    have "snd ` set (zip [0..<length items] items) = set items"
      by (simp flip: set_map)
    then have "(\<forall>p \<in> set (zip [0..<length items] items). Q (snd p)) \<longleftrightarrow> (\<forall>v \<in> set items. Q v)" for Q
      by (metis (mono_tags, lifting) image_iff)
    then show ?thesis
      using True 2 by (auto simp: conforms_arr first_error_ok split: option.splits)
  next
    case False
    then show ?thesis by (auto simp: conforms_arr split: option.splits)
  qed
qed (simp_all add: conforms_scalar split: option.split)

text \<open>
  \<open>validate_args\<close> accepts exactly the arguments that conform to the schema: at every depth a
  typed node has a value of its type, an object has its required fields and, when the schema is
  closed, no other field than the declared ones, and the items of an array conform to the item
  schema.
\<close>

theorem validate_args_conforms:
  "validate_args schema args = Inr () \<longleftrightarrow> conforms schema args"
  by (simp add: validate_args_def check_value_ok)

end
