(* ===== verification/Agent_Registry.thy ===== *)
theory Agent_Registry
  imports Agent_Manifest "HOL-Library.Char_ord" "HOL-Library.List_Lexorder" "HOL-Library.Product_Lexorder"
    "HOL-Library.Multiset"
begin

text \<open>
  The registry of installed apps and tool discovery: \<open>daemons/agentd/src/registry.rs\<close>. A directory
  is the list of its entries, each with what reading the file gave (an error text or its
  contents). The locale \<open>keyed_store\<close> states what the loader needs of the map it fills and
  proves once that the first definition of a key wins.
\<close>

section \<open>Stores\<close>

locale keyed_store =
  fixes lookup :: "'m \<Rightarrow> 'k \<Rightarrow> 'v option"
    and put :: "'k \<Rightarrow> 'v \<Rightarrow> 'm \<Rightarrow> 'm"
  assumes lookup_put: "lookup (put k v m) = (lookup m)(k \<mapsto> v)"
begin

definition put_new :: "'k \<Rightarrow> 'v \<Rightarrow> 'm \<Rightarrow> 'm" where
  "put_new k v m = (if lookup m k = None then put k v m else m)"

lemma lookup_put_new: "lookup (put_new k v m) = (\<lambda>j. if j = k \<and> lookup m k = None then Some v else lookup m j)"
  by (auto simp: put_new_def lookup_put)

lemma lookup_fold_put_new:
  "lookup (foldl (\<lambda>m p. put_new (fst p) (snd p) m) m ps) k =
     (case lookup m k of Some v \<Rightarrow> Some v | None \<Rightarrow> map_of ps k)"
proof (induction ps arbitrary: m)
  case Nil
  then show ?case by (simp split: option.split)
next
  case (Cons p ps)
  then show ?case by (cases p) (auto simp: lookup_put_new split: option.split)
qed

end

text \<open>A \<open>BTreeMap\<close> is the list of its pairs in key order.\<close>

fun btm_put :: "'k::linorder \<Rightarrow> 'v \<Rightarrow> ('k \<times> 'v) list \<Rightarrow> ('k \<times> 'v) list" where
  "btm_put k v [] = [(k, v)]"
| "btm_put k v ((k', v') # xs) =
     (if k < k' then (k, v) # (k', v') # xs
      else if k = k' then (k, v) # xs
      else (k', v') # btm_put k v xs)"

lemma map_of_btm_put [simp]: "map_of (btm_put k v xs) = (map_of xs)(k \<mapsto> v)"
  by (induction k v xs rule: btm_put.induct) (auto simp: fun_eq_iff)

lemma keys_btm_put [simp]: "fst ` set (btm_put k v xs) = insert k (fst ` set xs)"
  by (induction k v xs rule: btm_put.induct) auto

lemma set_btm_keys: "set (map fst (btm_put k v xs)) = insert k (set (map fst xs))"
  by simp

lemma btm_put_sorted:
  "sorted_wrt (<) (map fst xs) \<Longrightarrow> sorted_wrt (<) (map fst (btm_put k v xs))"
proof (induction k v xs rule: btm_put.induct)
  case (2 k v k' v' xs)
  then show ?case by (auto simp: set_btm_keys)
qed simp

interpretation btm: keyed_store map_of btm_put
  by unfold_locales simp

interpretation alm: keyed_store map_of al_put
  by unfold_locales simp

section \<open>The registry\<close>

record tool_ref =
  tr_app_id :: string
  tr_name :: string
  tr_tier :: tier
  tr_description :: string
  tr_undoable :: bool
  tr_input_schema :: json

datatype skip_reason = SkUnreadable string | SkInvalid manifest_error | SkShadowed string

datatype adjustment = AdTier string tier tier | AdBounds string "string list"

record load_report =
  lr_loaded :: "string list"
  lr_skipped :: "(string \<times> skip_reason) list"
  lr_adjusted :: "(string \<times> adjustment) list"

type_synonym registry = "(string \<times> manifest) list"

definition registry_insert :: "manifest \<Rightarrow> registry \<Rightarrow> registry \<times> (manifest_error + unit)" where
  "registry_insert m reg =
     (case validate m of
        Inl e \<Rightarrow> (reg, Inl e)
      | Inr _ \<Rightarrow> (btm_put (m_app_id m) m reg, Inr ()))"

definition registry_contains :: "registry \<Rightarrow> string \<Rightarrow> bool" where
  "registry_contains reg app \<longleftrightarrow> map_of reg app \<noteq> None"

definition empty_report :: load_report where
  "empty_report = \<lparr>lr_loaded = [], lr_skipped = [], lr_adjusted = []\<rparr>"

definition adjustments :: "manifest \<Rightarrow> (string \<times> adjustment) list" where
  "adjustments m =
     map (\<lambda>(t, from, to). (m_app_id m, AdTier t from to)) (raised_tiers m) @
     map (\<lambda>(t, keys). (m_app_id m, AdBounds t keys)) (stripped_bounds m)"

text \<open>One iteration of the loop of \<open>load_dir\<close>.\<close>

definition load_file ::
    "(string \<Rightarrow> string + manifest) \<Rightarrow> registry \<times> load_report \<Rightarrow> string \<times> (string + string) \<Rightarrow> registry \<times> load_report" where
  "load_file decode st fl =
     (case (st, fl) of ((reg, rep), (path, contents)) \<Rightarrow>
        (case contents of
           Inl e \<Rightarrow> (reg, rep\<lparr>lr_skipped := lr_skipped rep @ [(path, SkUnreadable e)]\<rparr>)
         | Inr text \<Rightarrow>
             (case manifest_from_json decode text of
                Inl e \<Rightarrow> (reg, rep\<lparr>lr_skipped := lr_skipped rep @ [(path, SkInvalid e)]\<rparr>)
              | Inr m \<Rightarrow>
                  if registry_contains reg (m_app_id m)
                  then (reg, rep\<lparr>lr_skipped := lr_skipped rep @ [(path, SkShadowed (m_app_id m))]\<rparr>)
                  else (btm_put (m_app_id m) m reg,
                        rep\<lparr>lr_loaded := lr_loaded rep @ [m_app_id m],
                            lr_adjusted := lr_adjusted rep @ adjustments m\<rparr>))))"

definition has_json_extension :: "string \<Rightarrow> bool" where
  "has_json_extension name \<longleftrightarrow> ends_with name ''.json'' \<and> 5 < length name"

definition load_dir ::
    "(string \<Rightarrow> string + manifest) \<Rightarrow> (string \<times> (string + string)) list option \<Rightarrow> registry \<Rightarrow> registry \<times> load_report" where
  "load_dir decode dir reg =
     (case dir of
        None \<Rightarrow> (reg, empty_report)
      | Some entries \<Rightarrow>
          foldl (load_file decode) (reg, empty_report)
            (sort_key fst (filter (\<lambda>e. has_json_extension (fst e)) entries)))"

definition registry_tool :: "registry \<Rightarrow> string \<Rightarrow> string \<Rightarrow> tool_decl option" where
  "registry_tool reg app name = Option.bind (map_of reg app) (\<lambda>m. manifest_tool m name)"

definition tool_ref_of :: "manifest \<Rightarrow> tool_decl \<Rightarrow> tool_ref" where
  "tool_ref_of m t =
     \<lparr>tr_app_id = m_app_id m, tr_name = td_name t, tr_tier = td_tier t,
      tr_description = td_description t, tr_undoable = (td_undo t \<noteq> None),
      tr_input_schema = td_input_schema t\<rparr>"

definition registry_list :: "registry \<Rightarrow> tool_ref list" where
  "registry_list reg = concat (map (\<lambda>(k, m). map (tool_ref_of m) (m_tools m)) reg)"

section \<open>Discovery\<close>

definition tokens :: "string \<Rightarrow> string list" where
  "tokens text = filter (\<lambda>t. t \<noteq> []) (split_on (\<lambda>c. \<not> is_ascii_alnum c) (map lower_char text))"

definition token_score :: "tool_ref \<Rightarrow> string \<Rightarrow> int" where
  "token_score t q =
     (if q \<in> set (tokens (tr_name t)) then 3
      else if q \<in> set (tokens (tr_description t)) \<or> q \<in> set (tokens (tr_app_id t)) then 1
      else 0)"

definition tool_score :: "string list \<Rightarrow> tool_ref \<Rightarrow> int" where
  "tool_score qs t = sum_list (map (token_score t) qs)"

definition rank_key :: "int \<times> tool_ref \<Rightarrow> int \<times> string \<times> string" where
  "rank_key p = (- fst p, tr_app_id (snd p), tr_name (snd p))"

definition discover :: "registry \<Rightarrow> string \<Rightarrow> tool_ref list" where
  "discover reg query =
     (let qs = tokens query
      in if qs = [] then []
         else map snd (sort_key rank_key
                (filter (\<lambda>p. 0 < fst p) (map (\<lambda>t. (tool_score qs t, t)) (registry_list reg)))))"

section \<open>First definition wins\<close>

definition parsed :: "(string \<Rightarrow> string + manifest) \<Rightarrow> string \<times> (string + string) \<Rightarrow> (string \<times> manifest) list" where
  "parsed decode fl =
     (case snd fl of
        Inl e \<Rightarrow> []
      | Inr text \<Rightarrow> (case manifest_from_json decode text of Inl e \<Rightarrow> [] | Inr m \<Rightarrow> [(m_app_id m, m)]))"

lemma load_file_reg:
  "fst (load_file decode (reg, rep) fl) = foldl (\<lambda>r p. btm.put_new (fst p) (snd p) r) reg (parsed decode fl)"
  by (auto simp: load_file_def parsed_def btm.put_new_def registry_contains_def split: sum.split prod.split)

lemma load_files_reg:
  "fst (foldl (load_file decode) st files) =
     foldl (\<lambda>r p. btm.put_new (fst p) (snd p) r) (fst st) (concat (map (parsed decode) files))"
proof (induction files arbitrary: st)
  case (Cons fl files)
  show ?case
    using load_file_reg [of decode "fst st" "snd st" fl] Cons.IH by simp
qed simp

definition json_files :: "(string \<times> (string + string)) list \<Rightarrow> (string \<times> (string + string)) list" where
  "json_files entries = sort_key fst (filter (\<lambda>e. has_json_extension (fst e)) entries)"

lemma load_dir_lookup:
  "map_of (fst (load_dir decode dir reg)) k =
     (case map_of reg k of
        Some m \<Rightarrow> Some m
      | None \<Rightarrow> (case dir of None \<Rightarrow> None | Some es \<Rightarrow> map_of (concat (map (parsed decode) (json_files es))) k))"
  by (auto simp: load_dir_def load_files_reg btm.lookup_fold_put_new json_files_def split: option.split)

text \<open>Loading several directories in order, the system's first.\<close>

definition load_dirs ::
    "(string \<Rightarrow> string + manifest) \<Rightarrow> (string \<times> (string + string)) list option list \<Rightarrow> registry \<Rightarrow> registry" where
  "load_dirs decode dirs reg = foldl (\<lambda>r d. fst (load_dir decode d r)) reg dirs"

definition all_parsed ::
    "(string \<Rightarrow> string + manifest) \<Rightarrow> (string \<times> (string + string)) list option list \<Rightarrow> (string \<times> manifest) list" where
  "all_parsed decode dirs =
     concat (map (\<lambda>d. case d of None \<Rightarrow> [] | Some es \<Rightarrow> concat (map (parsed decode) (json_files es))) dirs)"

lemma load_dirs_lookup:
  "map_of (load_dirs decode dirs reg) k =
     (case map_of reg k of Some m \<Rightarrow> Some m | None \<Rightarrow> map_of (all_parsed decode dirs) k)"
proof (induction dirs arbitrary: reg)
  case Nil
  then show ?case by (simp add: load_dirs_def all_parsed_def split: option.split)
next
  case (Cons d dirs)
  have "load_dirs decode (d # dirs) reg = load_dirs decode dirs (fst (load_dir decode d reg))"
    by (simp add: load_dirs_def)
  then show ?case
    by (cases d) (auto simp: Cons.IH load_dir_lookup all_parsed_def map_add_def split: option.split)
qed

text \<open>
  First definition wins. Whatever directories are loaded, an app that is already in the
  registry keeps its manifest, and any other app gets the manifest of the first valid file that
  defines it, taking the directories in order and the files of each by name; so a file in the
  user's directory can add an app and never redefine one of the system's.
\<close>

theorem first_definition_wins:
  "map_of (load_dirs decode dirs reg) k =
     (case map_of reg k of Some m \<Rightarrow> Some m | None \<Rightarrow> map_of (all_parsed decode dirs) k)"
  by (rule load_dirs_lookup)

section \<open>What a tool of the registry satisfies\<close>

definition entry_valid :: "string \<times> manifest \<Rightarrow> bool" where
  "entry_valid p \<longleftrightarrow>
     fst p = m_app_id (snd p) \<and> manifest_ok (snd p) \<and>
     (\<forall>t \<in> set (m_tools (snd p)). floor_ok t \<and> no_large_bounds (td_input_schema t))"

lemma all_parsed_valid: "p \<in> set (all_parsed decode dirs) \<Longrightarrow> entry_valid p"
proof -
  assume "p \<in> set (all_parsed decode dirs)"
  then obtain fl where "p \<in> set (parsed decode fl)"
    by (auto simp: all_parsed_def split: option.splits)
  then obtain content where "manifest_from_json decode content = Inr (snd p)" "fst p = m_app_id (snd p)"
    by (auto simp: parsed_def split: sum.splits)
  with manifest_from_json_ok [OF this(1)] show "entry_valid p" by (simp add: entry_valid_def)
qed

lemma loaded_tool:
  assumes "registry_tool (load_dirs decode dirs []) app name = Some t"
  shows "\<exists>m. map_of (all_parsed decode dirs) app = Some m \<and> m_app_id m = app \<and> manifest_ok m \<and>
    t \<in> set (m_tools m) \<and> td_name t = name \<and> floor_ok t \<and> no_large_bounds (td_input_schema t)"
proof -
  obtain m where m: "map_of (all_parsed decode dirs) app = Some m" and t: "manifest_tool m name = Some t"
    using assms by (auto simp: registry_tool_def load_dirs_lookup bind_eq_Some_conv)
  from m have "entry_valid (app, m)" by (intro all_parsed_valid) (rule map_of_SomeD)
  moreover from t have "t \<in> set (m_tools m)" "td_name t = name"
    by (auto simp: manifest_tool_def find_Some_iff)
  ultimately show ?thesis using m by (auto simp: entry_valid_def)
qed

text \<open>
  Every tool that can be called through a registry filled from manifest files declares at
  least the tier its own name implies, carries the name it was looked up under, validates
  arguments of object type, holds no bound that breaks the grammar, and has an undo only with a
  privileged tier.
\<close>

theorem registry_tool_ok:
  assumes "registry_tool (load_dirs decode dirs []) app name = Some t"
  shows "td_name t = name \<and> floor_ok t \<and> no_large_bounds (td_input_schema t) \<and>
    schema_type (td_input_schema t) = Some ''object'' \<and> (td_undo t = None \<or> is_privileged (td_tier t))"
  using loaded_tool [OF assms]
  by (auto simp: manifest_ok_def tool_ok_def undo_ok_def is_privileged_def split: option.splits)

text \<open>A system directory with the calendar app and a user directory that tries to redefine it.\<close>

definition sample_decode :: "string \<Rightarrow> string + manifest" where
  "sample_decode text =
     (if text = ''calendar'' then Inr sample_manifest
      else if text = ''hostile'' then Inr (sample_manifest\<lparr>m_tools := []\<rparr>)
      else Inl ''expected value'')"

definition sample_dirs :: "(string \<times> (string + string)) list option list" where
  "sample_dirs =
     [Some [(''calendar.json'', Inr ''calendar''), (''notes.txt'', Inr ''hostile''), (''bad.json'', Inr ''x'')],
      None, Some [(''a.json'', Inr ''hostile'')]]"

theorem registry_tool_ok_witness:
  "\<exists>t. registry_tool (load_dirs sample_decode sample_dirs []) ''org.lisa.Calendar'' ''delete_event'' = Some t \<and>
     floor_ok t \<and> td_tier t = Destructive"
proof -
  have "map_option td_tier (registry_tool (load_dirs sample_decode sample_dirs []) ''org.lisa.Calendar'' ''delete_event'') =
      Some Destructive" by code_simp
  then obtain t where "registry_tool (load_dirs sample_decode sample_dirs []) ''org.lisa.Calendar'' ''delete_event'' = Some t"
    "td_tier t = Destructive" by auto
  with registry_tool_ok [OF this(1)] show ?thesis by blast
qed

text \<open>
  Discovery is a ranking: the answer holds exactly the listed tools whose token score is
  positive, each as often as it is listed, ordered by falling score and, among equals, by app id
  and name.
\<close>

theorem discover_ranks:
  fixes reg :: registry and query :: string
  defines "score \<equiv> tool_score (tokens query)"
  shows "mset (discover reg query) = filter_mset (\<lambda>t. 0 < score t) (mset (registry_list reg)) \<and>
    sorted (map (\<lambda>t. rank_key (score t, t)) (discover reg query))"
proof (cases "tokens query = []")
  case True
  then have "score = (\<lambda>t. 0)" by (simp add: score_def tool_score_def fun_eq_iff)
  with True show ?thesis by (simp add: discover_def)
next
  case False
  let ?ps = "map (\<lambda>t. (score t, t)) (filter (\<lambda>t. 0 < score t) (registry_list reg))"
  have d: "discover reg query = map snd (sort_key rank_key ?ps)"
    using False by (simp add: discover_def Let_def score_def filter_map comp_def)
  have "map (\<lambda>t. rank_key (score t, t)) (discover reg query) = map rank_key (sort_key rank_key ?ps)"
    unfolding d by auto
  moreover have "mset (discover reg query) = mset (map snd ?ps)"
    unfolding d mset_map by simp
  ultimately show ?thesis by (simp add: comp_def mset_filter)
qed

end
