(* ===== verification/Agent_Journal.thy ===== *)
theory Agent_Journal
  imports Agent_Manifest
begin

text \<open>
  The undo journal: \<open>daemons/agentd/src/journal.rs\<close>. The SQLite table is the list of its rows in
  id order; \<open>ok n\<close> says whether the n-th statement succeeds and \<open>wall n\<close> what the clock reads
  then. \<open>text_of\<close> is \<open>serde_json\<close>'s printing of a value.
\<close>

section \<open>Rows\<close>

record journal_entry =
  je_id :: int
  je_ts :: int
  je_ledger_ref :: int
  je_actor :: string
  je_owner :: "string option"
  je_app_id :: string
  je_tool :: string
  je_args_json :: string
  je_result_json :: string
  je_undo_tool :: "string option"
  je_undo_args_json :: "string option"
  je_state :: string

record new_record =
  nr_ledger_ref :: int
  nr_actor :: string
  nr_owner :: string
  nr_app_id :: string
  nr_tool :: string
  nr_args :: json
  nr_result :: json
  nr_undo :: "(string \<times> json) option"

record journal =
  j_rows :: "journal_entry list"
  j_tries :: nat

datatype journal_error = JournalDb

definition empty_journal :: journal where
  "empty_journal = \<lparr>j_rows = [], j_tries = 0\<rparr>"

definition next_journal_id :: "journal_entry list \<Rightarrow> int" where
  "next_journal_id rows = (if rows = [] then 1 else je_id (last rows) + 1)"

definition tried :: "journal \<Rightarrow> journal" where
  "tried j = j\<lparr>j_tries := Suc (j_tries j)\<rparr>"

definition new_row :: "(json \<Rightarrow> string) \<Rightarrow> int \<Rightarrow> int \<Rightarrow> new_record \<Rightarrow> journal_entry" where
  "new_row text_of i ts r =
     \<lparr>je_id = i, je_ts = ts, je_ledger_ref = nr_ledger_ref r, je_actor = nr_actor r,
      je_owner = Some (nr_owner r), je_app_id = nr_app_id r, je_tool = nr_tool r,
      je_args_json = text_of (nr_args r), je_result_json = text_of (nr_result r),
      je_undo_tool = map_option fst (nr_undo r),
      je_undo_args_json = map_option (\<lambda>u. text_of (snd u)) (nr_undo r),
      je_state = ''active''\<rparr>"

definition journal_record ::
    "(json \<Rightarrow> string) \<Rightarrow> (nat \<Rightarrow> bool) \<Rightarrow> (nat \<Rightarrow> int) \<Rightarrow> journal \<Rightarrow> new_record \<Rightarrow> journal \<times> (journal_error + int)" where
  "journal_record text_of ok wall j r =
     (let i = next_journal_id (j_rows j)
      in if ok (j_tries j)
         then ((tried j)\<lparr>j_rows := j_rows j @ [new_row text_of i (wall (j_tries j)) r]\<rparr>, Inr i)
         else (tried j, Inl JournalDb))"

definition is_active_of :: "string \<Rightarrow> journal_entry \<Rightarrow> bool" where
  "is_active_of owner e \<longleftrightarrow> je_state e = ''active'' \<and> je_owner e = Some owner"

text \<open>The rows are in id order, so the newest is the first from the end.\<close>

definition last_active :: "(nat \<Rightarrow> bool) \<Rightarrow> journal \<Rightarrow> string \<Rightarrow> journal \<times> (journal_error + journal_entry option)" where
  "last_active ok j owner =
     (tried j,
      if ok (j_tries j) then Inr (List.find (is_active_of owner) (rev (j_rows j))) else Inl JournalDb)"

definition set_state :: "(nat \<Rightarrow> bool) \<Rightarrow> journal \<Rightarrow> int \<Rightarrow> string \<Rightarrow> journal \<times> (journal_error + unit)" where
  "set_state ok j i st =
     (if ok (j_tries j)
      then ((tried j)\<lparr>j_rows := map (\<lambda>e. if je_id e = i then e\<lparr>je_state := st\<rparr> else e) (j_rows j)\<rparr>, Inr ())
      else (tried j, Inl JournalDb))"

section \<open>Compensations\<close>

fun json_walk :: "json \<Rightarrow> string list \<Rightarrow> json option" where
  "json_walk v [] = Some v"
| "json_walk v (seg # segs) =
     (case json_get v seg of None \<Rightarrow> None | Some w \<Rightarrow> json_walk w segs)"

definition walk :: "json \<Rightarrow> string \<Rightarrow> json option" where
  "walk root dotted = json_walk root (filter (\<lambda>s. s \<noteq> []) (split_on (\<lambda>c. c = CHR ''.'') dotted))"

definition undo_value :: "string \<Rightarrow> json \<Rightarrow> json \<Rightarrow> string + json" where
  "undo_value spec input result =
     (case strip_prefix spec ''$result'' of
        Some path \<Rightarrow>
          (case walk result path of Some v \<Rightarrow> Inr v | None \<Rightarrow> Inl (spec @ '': not present in result''))
      | None \<Rightarrow>
          (case strip_prefix spec ''$input'' of
             Some path \<Rightarrow>
               (case walk input path of Some v \<Rightarrow> Inr v | None \<Rightarrow> Inl (spec @ '': not present in input''))
           | None \<Rightarrow> Inr (JStr spec)))"

fun resolve_pairs :: "(string \<times> string) list \<Rightarrow> json \<Rightarrow> json \<Rightarrow> string + (string \<times> json) list" where
  "resolve_pairs [] input result = Inr []"
| "resolve_pairs ((key, spec) # ps) input result =
     (case undo_value spec input result of
        Inl e \<Rightarrow> Inl e
      | Inr v \<Rightarrow>
          (case resolve_pairs ps input result of Inl e \<Rightarrow> Inl e | Inr kvs \<Rightarrow> Inr ((key, v) # kvs)))"

definition resolve_undo :: "undo_decl \<Rightarrow> json \<Rightarrow> json \<Rightarrow> string + json" where
  "resolve_undo decl input result =
     (case resolve_pairs (ud_map decl) input result of Inl e \<Rightarrow> Inl e | Inr kvs \<Rightarrow> Inr (JObj kvs))"

section \<open>Facts\<close>

definition journal_ok :: "journal \<Rightarrow> bool" where
  "journal_ok j \<longleftrightarrow> sorted_wrt (<) (map je_id (j_rows j))"

lemma tried_sel [simp]: "j_rows (tried j) = j_rows j" "j_tries (tried j) = Suc (j_tries j)"
  by (simp_all add: tried_def)

lemma journal_ok_tried [simp]: "journal_ok (tried j) = journal_ok j"
  by (simp add: journal_ok_def)

lemma last_active_Some:
  assumes "snd (last_active ok j owner) = Inr (Some e)"
  shows "\<exists>xs ys. j_rows j = xs @ e # ys \<and> is_active_of owner e \<and> (\<forall>y \<in> set ys. \<not> is_active_of owner y)"
proof -
  obtain i where i: "i < length (j_rows j)" "is_active_of owner e" "e = rev (j_rows j) ! i"
    "\<forall>k < i. \<not> is_active_of owner (rev (j_rows j) ! k)"
    using assms by (auto simp: last_active_def find_Some_iff split: if_splits)
  let ?n = "length (j_rows j) - Suc i"
  have "rev (j_rows j) = take i (rev (j_rows j)) @ e # drop (Suc i) (rev (j_rows j))"
    using i by (simp add: id_take_nth_drop)
  then have "j_rows j = rev (drop (Suc i) (rev (j_rows j))) @ e # rev (take i (rev (j_rows j)))"
    by (metis append.assoc append_Cons append_Nil rev.simps(2) rev_append rev_rev_ident)
  moreover have "\<forall>y \<in> set (rev (take i (rev (j_rows j)))). \<not> is_active_of owner y"
    using i(4) by (fastforce simp: in_set_conv_nth)
  ultimately show ?thesis using i(2) by blast
qed

lemma journal_ok_record: "journal_ok j \<Longrightarrow> journal_ok (fst (journal_record text_of ok wall j r))"
  by (cases "j_rows j" rule: rev_cases)
    (auto simp: journal_ok_def journal_record_def next_journal_id_def new_row_def Let_def sorted_wrt_append)

lemma journal_ok_set_state: "journal_ok j \<Longrightarrow> journal_ok (fst (set_state ok j i st))"
  by (auto simp: journal_ok_def set_state_def comp_def if_distrib cong: if_cong)

lemma resolve_pairs_ok:
  "resolve_pairs ps input result = Inr kvs \<Longrightarrow>
   list_all2 (\<lambda>p q. fst q = fst p \<and> undo_value (snd p) input result = Inr (snd q)) ps kvs"
  by (induction ps arbitrary: kvs) (auto split: sum.splits)

lemma resolve_pairs_err:
  "resolve_pairs ps input result = Inl e \<Longrightarrow> \<exists>p \<in> set ps. undo_value (snd p) input result = Inl e"
  by (induction ps) (auto split: sum.splits)

text \<open>
  Compensations. When an undo declaration resolves, the compensation's arguments are an object
  with exactly the declared keys in order, each carrying what its specification denotes: the part
  of the call's result or input the reference names, or the literal text. When it does not
  resolve, some reference is missing from the value it points into.
\<close>

theorem resolve_undo_faithful:
  "(case resolve_undo decl input result of
      Inr args \<Rightarrow>
        \<exists>kvs. args = JObj kvs \<and> map fst kvs = map fst (ud_map decl) \<and>
          list_all2 (\<lambda>p q. undo_value (snd p) input result = Inr (snd q)) (ud_map decl) kvs
    | Inl e \<Rightarrow> \<exists>p \<in> set (ud_map decl). undo_value (snd p) input result = Inl e)"
proof (cases "resolve_pairs (ud_map decl) input result")
  case (Inl e)
  then show ?thesis using resolve_pairs_err by (auto simp: resolve_undo_def)
next
  case (Inr kvs)
  then have l: "list_all2 (\<lambda>p q. fst q = fst p \<and> undo_value (snd p) input result = Inr (snd q)) (ud_map decl) kvs"
    by (rule resolve_pairs_ok)
  then have "map fst kvs = map fst (ud_map decl)"
    by (induction rule: list_all2_induct) auto
  moreover from l have "list_all2 (\<lambda>p q. undo_value (snd p) input result = Inr (snd q)) (ud_map decl) kvs"
    by (rule list_all2_mono) simp
  ultimately show ?thesis using Inr by (simp add: resolve_undo_def)
qed

end
