(* ===== verification/Agent_Bus.thy ===== *)
theory Agent_Bus
  imports Agent_Registry Agent_Journal Ledger Peer Guard_Consent Guard_Judge
begin

text \<open>
  The Agent Bus: \<open>daemons/agentd/src/bus.rs\<close>. \<open>agent_bus\<close> is the state of \<open>AgentBus\<close>; each handler
  takes the environment, the current instant, its arguments and the state, and returns the new
  state with the \<open>Result\<close> of the source. A handler is one step: the locks the source takes inside
  a handler are not interleaved with other handlers in the model.
\<close>

section \<open>The environment\<close>

text \<open>
  What the handlers call outside the repository. \<open>env_text\<close> and \<open>env_parse\<close> are \<open>serde_json\<close>'s
  printing and parsing of a value, \<open>env_hash\<close> the hexadecimal \<open>blake3\<close> hash, \<open>env_dispatch\<close> the
  answer of an app's server given the calls dispatched before, \<open>env_ledger_ok\<close> and
  \<open>env_journal_ok\<close> whether the n-th statement on each database succeeds, \<open>env_fs\<close> the file system
  while the call of that id is judged. \<open>env_iter\<close> and \<open>env_owners\<close> are the orders in which the
  hash maps are iterated.
\<close>

record dispatch_failure =
  df_error :: string
  df_provenance :: "string option"

record call_request =
  cr_actor :: string
  cr_app_id :: string
  cr_tool :: string
  cr_args :: json
  cr_chain :: "provenance list"
  cr_caller :: peer_id
  cr_hosts_a_model :: bool
  cr_process :: "process option"

record pending =
  p_owner :: owner
  p_req :: call_request
  p_decl :: tool_decl
  p_resolution :: resolution
  p_start_ref :: int
  p_created :: int
  p_refusal_ledgered :: bool

type_synonym pending_map = "(64 word \<times> pending) list"

record env =
  env_text :: "json \<Rightarrow> string"
  env_parse :: "string \<Rightarrow> json option"
  env_hash :: "string \<Rightarrow> string"
  env_dispatch :: "(string \<times> string \<times> json) list \<Rightarrow> string \<Rightarrow> string \<Rightarrow> json \<Rightarrow> dispatch_failure + json"
  env_ledger_ok :: "nat \<Rightarrow> bool"
  env_journal_ok :: "nat \<Rightarrow> bool"
  env_wall :: "nat \<Rightarrow> int"
  env_journal_wall :: "nat \<Rightarrow> int"
  env_db_error :: string
  env_fs :: "64 word \<Rightarrow> fs"
  env_iter :: "pending_map \<Rightarrow> pending_map"
  env_owners :: "(owner \<times> nat) list \<Rightarrow> (owner \<times> nat) list"

section \<open>Errors and answers\<close>

datatype bus_error =
    BeLedger ledger_error
  | BeJournal journal_error
  | BeUnknownCall "64 word"
  | BeNotYours "64 word"
  | BeNeedsConsentSurface "64 word" string string

fun is_consent_refusal :: "bus_error \<Rightarrow> bool" where
  "is_consent_refusal (BeNeedsConsentSurface i rule reason) = True"
| "is_consent_refusal e = False"

fun bus_error_rule :: "bus_error \<Rightarrow> string option" where
  "bus_error_rule (BeNeedsConsentSurface i rule reason) = Some rule"
| "bus_error_rule e = None"

text \<open>The text a caller sees; the two database errors carry the engine's message.\<close>

fun bus_error_text :: "string \<Rightarrow> bus_error \<Rightarrow> string" where
  "bus_error_text db (BeLedger e) = ''ledger unavailable -- refusing to act: '' @ db"
| "bus_error_text db (BeJournal e) = ''undo journal unavailable: '' @ db"
| "bus_error_text db (BeUnknownCall i) =
     ''no pending call '' @ nat_str (unat i) @ '' (already answered, or expired and collected)''"
| "bus_error_text db (BeNotYours i) =
     ''no pending call '' @ nat_str (unat i) @ '' (already answered, or expired and collected)''"
| "bus_error_text db (BeNeedsConsentSurface i rule reason) =
     ''call '' @ nat_str (unat i) @ '' may not be approved by the peer that asked for it ('' @ rule @ ''): '' @ reason"

datatype consent_role = RoleSurface | RoleOther | RoleMissing | RoleNoBroker

definition consent_role_of :: "bool \<Rightarrow> (string \<times> string) option \<Rightarrow> consent_role" where
  "consent_role_of brokered own =
     (if \<not> brokered then RoleNoBroker
      else (case own of
              Some (caller, o') \<Rightarrow> if caller = o' then RoleSurface else RoleOther
            | None \<Rightarrow> RoleMissing))"

fun role_why_not :: "consent_role \<Rightarrow> string" where
  "role_why_not RoleSurface = ''it owns the consent name itself, so nobody independent has looked at this''"
| "role_why_not RoleOther = ''a consent surface is running and this is not it''"
| "role_why_not RoleMissing = ''no consent surface is running on this session''"
| "role_why_not RoleNoBroker = ''there is no message bus to ask''"

record answerer =
  an_peer :: peer_id
  an_consent :: consent_role
  an_is_consent_program :: bool
  an_process :: "process option"

definition answerer_alone :: "peer_id \<Rightarrow> answerer" where
  "answerer_alone p =
     \<lparr>an_peer = p, an_consent = consent_role_of (case p of Bus _ \<Rightarrow> True | Direct \<Rightarrow> False) None,
      an_is_consent_program = False, an_process = None\<rparr>"

definition answerer_surface :: "peer_id \<Rightarrow> answerer" where
  "answerer_surface p =
     \<lparr>an_peer = p, an_consent = RoleSurface, an_is_consent_program = True, an_process = None\<rparr>"

definition answerer_ordinary :: "peer_id \<Rightarrow> answerer" where
  "answerer_ordinary p =
     \<lparr>an_peer = p, an_consent = RoleOther, an_is_consent_program = False, an_process = None\<rparr>"

definition from_process :: "process option \<Rightarrow> answerer \<Rightarrow> answerer" where
  "from_process pr a = a\<lparr>an_process := pr\<rparr>"

definition name_squatter :: "peer_id \<Rightarrow> answerer" where
  "name_squatter p =
     \<lparr>an_peer = p, an_consent = RoleSurface, an_is_consent_program = False, an_process = None\<rparr>"

definition why_not_the_surface :: "answerer \<Rightarrow> string" where
  "why_not_the_surface a =
     (if an_consent a = RoleSurface \<and> \<not> an_is_consent_program a
      then ''it holds the consent name while running a program that is not a consent surface''
      else role_why_not (an_consent a))"

datatype outcome =
    OExecuted "64 word" int json
  | OFailed "64 word" int string "string option"
  | OAwaiting "64 word" confirmation bool json
  | ODenied "64 word" string
  | ORefused "64 word" string string json

datatype undo_report =
    UrNothing
  | UrNotUndoable string string
  | UrUndone string string string json
  | UrFailed string string string

definition CONFIRMATION_TTL :: int where
  "CONFIRMATION_TTL = 120 * 1000000000"

definition MAX_PENDING :: nat where "MAX_PENDING = 128"

definition MAX_PENDING_PER_OWNER :: nat where "MAX_PENDING_PER_OWNER = 16"

definition MAX_REFUSAL_KEYS :: nat where "MAX_REFUSAL_KEYS = 1024"

section \<open>State\<close>

record agent_bus =
  ab_registry :: registry
  ab_ledger :: ledger
  ab_journal :: journal
  ab_dispatched :: "(string \<times> string \<times> json) list"
  ab_pending :: pending_map
  ab_next_id :: "64 word"
  ab_ttl :: int
  ab_grant :: grant
  ab_refusals :: "((string \<times> string) \<times> 64 word) list"

definition bus_new :: "registry \<Rightarrow> ledger \<Rightarrow> journal \<Rightarrow> grant \<Rightarrow> agent_bus" where
  "bus_new reg led jrn g =
     \<lparr>ab_registry = reg, ab_ledger = led, ab_journal = jrn, ab_dispatched = [], ab_pending = [],
      ab_next_id = 1, ab_ttl = CONFIRMATION_TTL, ab_grant = g, ab_refusals = []\<rparr>"

definition ledger_put :: "env \<Rightarrow> event \<Rightarrow> agent_bus \<Rightarrow> agent_bus \<times> (bus_error + int)" where
  "ledger_put en e s =
     (let r = ledger_append (env_ledger_ok en) (env_wall en) (ab_ledger s) e
      in (s\<lparr>ab_ledger := fst r\<rparr>, map_sum BeLedger id (snd r)))"

definition dispatch :: "env \<Rightarrow> string \<Rightarrow> string \<Rightarrow> json \<Rightarrow> agent_bus \<Rightarrow> agent_bus \<times> (dispatch_failure + json)" where
  "dispatch en app tool args s =
     (s\<lparr>ab_dispatched := ab_dispatched s @ [(app, tool, args)]\<rparr>,
      env_dispatch en (ab_dispatched s) app tool args)"

section \<open>Texts\<close>

text \<open>\<open>format!("{:?}")\<close> of a string on the characters of the model.\<close>

definition hex_digit :: "nat \<Rightarrow> char" where
  "hex_digit n = (if n < 10 then char_of (48 + n) else char_of (87 + n))"

definition unicode_escape :: "nat \<Rightarrow> string" where
  "unicode_escape n =
     [CHR 92] @ ''u{'' @ (if n < 16 then [hex_digit n] else [hex_digit (n div 16), hex_digit (n mod 16)]) @ ''}''"

definition debug_char :: "char \<Rightarrow> string" where
  "debug_char c =
     (let n = ccode c
      in if n = 0 then [CHR 92, CHR ''0'']
         else if n = 9 then [CHR 92, CHR ''t'']
         else if n = 10 then [CHR 92, CHR ''n'']
         else if n = 13 then [CHR 92, CHR ''r'']
         else if n = 34 then [CHR 92, CHR 34]
         else if n = 92 then [CHR 92, CHR 92]
         else if n < 32 \<or> (127 \<le> n \<and> n \<le> 160) \<or> n = 173 then unicode_escape n
         else [c])"

definition debug_str :: "string \<Rightarrow> string" where
  "debug_str s = [CHR 34] @ concat (map debug_char s) @ [CHR 34]"

fun arg_error_text :: "arg_error \<Rightarrow> string" where
  "arg_error_text (ExpectedType path ty) = path @ '': expected '' @ ty"
| "arg_error_text (MissingField path name) = path @ '': missing required field '' @ debug_str name"
| "arg_error_text (UnexpectedField path key) = path @ '': unexpected field '' @ debug_str key"

definition chain_json :: "provenance list \<Rightarrow> json" where
  "chain_json chain = json_strs (map provenance_str chain)"

definition detail_json :: "call_request \<Rightarrow> resolution \<Rightarrow> json" where
  "detail_json req res =
     JObj [(''chain'', chain_json (cr_chain req)),
           (''confirmation'', JStr (confirmation_as_str (res_confirmation res))),
           (''effective_tier'', JStr (tier_as_str (res_effective res))),
           (''escalated'', JBool (res_escalated res)),
           (''target'', JStr (cr_app_id req)),
           (''tier'', JStr (tier_as_str (res_declared res))),
           (''tool'', JStr (cr_tool req))]"

fun class_of :: "tier \<Rightarrow> action_class" where
  "class_of Read = ClRead"
| "class_of Write = ClWrite"
| "class_of Destructive = ClDelete"

fun effect_of :: "action_verdict \<Rightarrow> string option" where
  "effect_of (AAsk effect r) = Some effect"
| "effect_of v = None"

fun may_remember_of :: "action_verdict \<Rightarrow> bool" where
  "may_remember_of (AAsk effect r) = r"
| "may_remember_of v = False"

fun needs_of :: "action_verdict \<Rightarrow> string option" where
  "needs_of (ANo rule reason needs) = Some needs"
| "needs_of v = None"

definition hash_args :: "env \<Rightarrow> json \<Rightarrow> string" where
  "hash_args en args = env_hash en (env_text en args)"

definition grant_for :: "grant \<Rightarrow> provenance list \<Rightarrow> grant" where
  "grant_for g chain =
     (let trusted = (chain \<noteq> [] \<and> (\<forall>p \<in> set chain. is_trusted p))
      in with_trusted_chain trusted (with_trigger (if trusted then Prompt else Unattended) g))"

section \<open>Ledger notes\<close>

definition deny_event :: "env \<Rightarrow> call_request \<Rightarrow> int option \<Rightarrow> string \<Rightarrow> string \<Rightarrow> event" where
  "deny_event en req ref_id status reason =
     default_event\<lparr>ev_kind := ''tool.deny'', ev_app_id := cr_actor req,
       ev_input_hash := hash_args en (cr_args req),
       ev_preview := preview_of (cr_app_id req @ ''/'' @ cr_tool req @ '': '' @ reason),
       ev_status := status, ev_detail := reason, ev_ref_id := ref_id\<rparr>"

definition ledger_deny ::
    "env \<Rightarrow> call_request \<Rightarrow> int option \<Rightarrow> string \<Rightarrow> string \<Rightarrow> agent_bus \<Rightarrow> agent_bus \<times> (bus_error + int)" where
  "ledger_deny en req ref_id status reason s = ledger_put en (deny_event en req ref_id status reason) s"

definition ledger_provenance_downgrade ::
    "env \<Rightarrow> claimant \<Rightarrow> string \<Rightarrow> string \<Rightarrow> agent_bus \<Rightarrow> agent_bus" where
  "ledger_provenance_downgrade en c target_app tool s =
     (let who = claimant_str c
      in fst (ledger_put en
           (default_event\<lparr>ev_kind := ''agent.provenance_downgrade'', ev_app_id := who,
              ev_preview := preview_of (who @ '' claimed user provenance without being a Lisa program, calling '' @
                target_app @ ''/'' @ tool),
              ev_status := ''downgraded'',
              ev_detail := ''asserted=user verified=app:'' @ who @ '' target='' @ target_app @ ''/'' @ tool\<rparr>) s))"

section \<open>Refusals\<close>

definition count_refusal :: "string \<Rightarrow> string \<Rightarrow> agent_bus \<Rightarrow> agent_bus \<times> 64 word" where
  "count_refusal caller rule s =
     (let counts = ab_refusals s; seen = map_of counts (caller, rule)
      in if MAX_REFUSAL_KEYS \<le> length counts \<and> seen = None then (s, 0)
         else (let n = (case seen of None \<Rightarrow> 0 | Some m \<Rightarrow> m) + 1
               in (s\<lparr>ab_refusals := al_put (caller, rule) n counts\<rparr>, n)))"

definition refusal_event ::
    "env \<Rightarrow> call_request \<Rightarrow> string \<Rightarrow> string \<Rightarrow> bool \<Rightarrow> 64 word \<Rightarrow> bool \<Rightarrow> event" where
  "refusal_event en req rule reason hard occurrence esc =
     default_event\<lparr>ev_kind := ''tool.refuse'', ev_app_id := cr_actor req,
       ev_input_hash := hash_args en (cr_args req),
       ev_preview := preview_of (cr_app_id req @ ''/'' @ cr_tool req @ '': '' @ reason),
       ev_status := (if hard then ''hard-no'' else ''out-of-scope''),
       ev_detail := env_text en (JObj
         [(''caller'', JStr (peer_as_str (cr_caller req))),
          (''chain'', chain_json (cr_chain req)),
          (''escalated'', JBool esc),
          (''occurrence'', json_u64 occurrence),
          (''reason'', JStr reason),
          (''rule'', JStr rule),
          (''target'', JStr (cr_app_id req)),
          (''tool'', JStr (cr_tool req))])\<rparr>"

definition refusal_report ::
    "64 word \<Rightarrow> call_request \<Rightarrow> tool_decl \<Rightarrow> action_verdict \<Rightarrow> string \<Rightarrow> string \<Rightarrow> bool \<Rightarrow> 64 word \<Rightarrow> bool \<Rightarrow> json" where
  "refusal_report call_id req decl verdict rule reason hard occurrence esc =
     JObj [(''actor'', JStr (cr_actor req)),
           (''app_id'', JStr (cr_app_id req)),
           (''call_id'', json_u64 call_id),
           (''description'', JStr (td_description decl)),
           (''escalated'', JBool esc),
           (''kind'', JStr (if hard then ''hard-no'' else ''out-of-scope'')),
           (''needs'', json_opt JStr (needs_of verdict)),
           (''occurrence'', json_u64 occurrence),
           (''reason'', JStr reason),
           (''rule'', JStr rule),
           (''tool'', JStr (td_name decl))]"

definition or_default :: "'a \<Rightarrow> 'a option \<Rightarrow> 'a" where
  "or_default d x = (case x of None \<Rightarrow> d | Some y \<Rightarrow> y)"

definition refuse ::
    "env \<Rightarrow> 64 word \<Rightarrow> call_request \<Rightarrow> tool_decl \<Rightarrow> action_verdict \<Rightarrow> agent_bus \<Rightarrow> agent_bus \<times> (bus_error + outcome)" where
  "refuse en call_id req decl verdict s =
     (let rule = or_default ''refused'' (av_rule verdict);
          reason = or_default [] (av_reason verdict);
          hard = is_hard_no verdict;
          counted = count_refusal (peer_as_str (cr_caller req)) rule s;
          esc = (cr_chain req = [] \<or> (\<exists>p \<in> set (cr_chain req). \<not> is_trusted p))
      in attempt (ledger_put en (refusal_event en req rule reason hard (snd counted) esc) (fst counted))
           (\<lambda>_ s'. (s', Inr (ORefused call_id rule reason
              (refusal_report call_id req decl verdict rule reason hard (snd counted) esc)))))"

section \<open>Parked calls\<close>

definition elapsed :: "int \<Rightarrow> pending \<Rightarrow> int" where
  "elapsed now p = max 0 (now - p_created p)"

fun remove_ids :: "64 word list \<Rightarrow> pending_map \<Rightarrow> pending list \<times> pending_map" where
  "remove_ids [] m = ([], m)"
| "remove_ids (i # is) m =
     (case map_of m i of
        None \<Rightarrow> remove_ids is m
      | Some p \<Rightarrow> (let r = remove_ids is (al_del i m) in (p # fst r, snd r)))"

definition collect_expired :: "env \<Rightarrow> int \<Rightarrow> agent_bus \<Rightarrow> pending list \<times> agent_bus" where
  "collect_expired en now s =
     (let expired = map fst (filter (\<lambda>ip. ab_ttl s < elapsed now (snd ip)) (env_iter en (ab_pending s)));
          r = remove_ids expired (ab_pending s)
      in (fst r, s\<lparr>ab_pending := snd r\<rparr>))"

text \<open>\<open>max_by_key\<close> keeps the last of several maxima, \<open>min_by_key\<close> the first of several minima.\<close>

fun max_last :: "('a \<Rightarrow> 'b::linorder) \<Rightarrow> 'a list \<Rightarrow> 'a option" where
  "max_last key [] = None"
| "max_last key (x # xs) =
     (case max_last key xs of None \<Rightarrow> Some x | Some y \<Rightarrow> if key x \<le> key y then Some y else Some x)"

fun min_first :: "('a \<Rightarrow> 'b::linorder) \<Rightarrow> 'a list \<Rightarrow> 'a option" where
  "min_first key [] = None"
| "min_first key (x # xs) =
     (case min_first key xs of None \<Rightarrow> Some x | Some y \<Rightarrow> if key x \<le> key y then Some x else Some y)"

fun count_owners :: "pending list \<Rightarrow> (owner \<times> nat) list \<Rightarrow> (owner \<times> nat) list" where
  "count_owners [] m = m"
| "count_owners (p # ps) m =
     count_owners ps (al_put (p_owner p) (Suc (or_default 0 (map_of m (p_owner p)))) m)"

definition evict_greediest :: "env \<Rightarrow> agent_bus \<Rightarrow> pending option \<times> agent_bus" where
  "evict_greediest en s =
     (let parked = env_iter en (ab_pending s);
          per_owner = env_owners en (count_owners (map snd parked) [])
      in case max_last snd per_owner of
           None \<Rightarrow> (None, s)
         | Some (greediest, _) \<Rightarrow>
             (case min_first (\<lambda>ip. p_created (snd ip)) (filter (\<lambda>ip. p_owner (snd ip) = greediest) parked) of
                None \<Rightarrow> (None, s)
              | Some (victim, _) \<Rightarrow>
                  (map_of (ab_pending s) victim, s\<lparr>ab_pending := al_del victim (ab_pending s)\<rparr>)))"

fun deny_all :: "env \<Rightarrow> string \<Rightarrow> string \<Rightarrow> pending list \<Rightarrow> agent_bus \<Rightarrow> agent_bus \<times> (bus_error + unit)" where
  "deny_all en status reason [] s = (s, Inr ())"
| "deny_all en status reason (p # ps) s =
     attempt (ledger_deny en (p_req p) (Some (p_start_ref p)) status reason s)
       (\<lambda>_ s'. deny_all en status reason ps s')"

section \<open>Execution\<close>

definition new_record_of ::
    "call_request \<Rightarrow> int \<Rightarrow> json \<Rightarrow> (string \<times> json) option \<Rightarrow> new_record" where
  "new_record_of req start_ref result u =
     \<lparr>nr_ledger_ref = start_ref, nr_actor = cr_actor req, nr_owner = peer_as_str (cr_caller req),
      nr_app_id = cr_app_id req, nr_tool = cr_tool req, nr_args = cr_args req, nr_result = result,
      nr_undo = u\<rparr>"

text \<open>The compensation of an executed call and the notes its resolution leaves.\<close>

definition resolved_compensation :: "tool_decl \<Rightarrow> json \<Rightarrow> json \<Rightarrow> (string \<times> json) option \<times> string list" where
  "resolved_compensation decl args result =
     (case td_undo decl of
        None \<Rightarrow> (None, [''tool declares no undo''])
      | Some u \<Rightarrow>
          (case resolve_undo u args result of
             Inr a \<Rightarrow> (Some (ud_tool u, a), [])
           | Inl e \<Rightarrow> (None, [''undo not resolvable: '' @ e])))"

definition journal_call ::
    "env \<Rightarrow> call_request \<Rightarrow> tool_decl \<Rightarrow> resolution \<Rightarrow> int \<Rightarrow> json \<Rightarrow> agent_bus \<Rightarrow> agent_bus \<times> string list" where
  "journal_call en req decl res start_ref result s =
     (if is_privileged (res_effective res) \<or> res_confirmation res \<noteq> Silent
      then (let c = resolved_compensation decl (cr_args req) result;
                n = (if res_escalated res
                     then [''journaled at the effective tier '' @ tier_as_str (res_effective res) @
                           '' (declared '' @ tier_as_str (res_declared res) @ '')'']
                     else []);
                r = journal_record (env_text en) (env_journal_ok en) (env_journal_wall en) (ab_journal s)
                      (new_record_of req start_ref result (fst c));
                w = (case snd r of
                       Inl e \<Rightarrow> [''journal write failed: undo journal unavailable: '' @ env_db_error en]
                     | Inr i \<Rightarrow> [])
            in (s\<lparr>ab_journal := fst r\<rparr>, snd c @ n @ w))
      else (s, []))"

definition complete_event :: "string \<Rightarrow> string \<Rightarrow> string \<Rightarrow> string \<Rightarrow> int \<Rightarrow> event" where
  "complete_event actor preview status detail ref_id =
     default_event\<lparr>ev_kind := ''tool.complete'', ev_app_id := actor, ev_preview := preview_of preview,
       ev_status := status, ev_detail := detail, ev_ref_id := Some ref_id\<rparr>"

definition execute ::
    "env \<Rightarrow> 64 word \<Rightarrow> call_request \<Rightarrow> tool_decl \<Rightarrow> resolution \<Rightarrow> int \<Rightarrow> agent_bus \<Rightarrow> agent_bus \<times> outcome" where
  "execute en call_id req decl res start_ref s =
     (case dispatch en (cr_app_id req) (cr_tool req) (cr_args req) s of
        (s1, Inr result) \<Rightarrow>
          (let j = journal_call en req decl res start_ref result s1;
               s2 = fst (ledger_put en (complete_event (cr_actor req) (env_text en result) ''ok''
                      (env_text en (JObj [(''notes'', json_strs (snd j))])) start_ref) (fst j))
           in (s2, OExecuted call_id start_ref result))
      | (s1, Inl failure) \<Rightarrow>
          (fst (ledger_put en (complete_event (cr_actor req) (df_error failure) ''error''
                  (df_error failure) start_ref) s1),
           OFailed call_id start_ref (df_error failure) (df_provenance failure)))"

section \<open>Requests\<close>

definition call_event :: "env \<Rightarrow> call_request \<Rightarrow> resolution \<Rightarrow> event" where
  "call_event en req res =
     default_event\<lparr>ev_kind := ''tool.call'', ev_app_id := cr_actor req,
       ev_input_hash := hash_args en (cr_args req),
       ev_preview := preview_of (cr_app_id req @ ''/'' @ cr_tool req @ '' '' @ env_text en (cr_args req)),
       ev_status := ''started'', ev_detail := env_text en (detail_json req res)\<rparr>"

definition spec_json :: "64 word \<Rightarrow> call_request \<Rightarrow> tool_decl \<Rightarrow> action_verdict \<Rightarrow> resolution \<Rightarrow> json" where
  "spec_json call_id req decl verdict res =
     JObj [(''actor'', JStr (cr_actor req)),
           (''app_id'', JStr (cr_app_id req)),
           (''args'', cr_args req),
           (''call_id'', json_u64 call_id),
           (''chain'', chain_json (cr_chain req)),
           (''confirmation'', JStr (confirmation_as_str (res_confirmation res))),
           (''description'', JStr (td_description decl)),
           (''effect'', json_opt JStr (effect_of verdict)),
           (''effective_tier'', JStr (tier_as_str (res_effective res))),
           (''escalated'', JBool (res_escalated res)),
           (''may_remember'', JBool (may_remember_of verdict)),
           (''tier'', JStr (tier_as_str (res_declared res))),
           (''tool'', JStr (td_name decl)),
           (''undoable'', JBool (td_undo decl \<noteq> None))]"

definition owner_count :: "owner \<Rightarrow> pending_map \<Rightarrow> nat" where
  "owner_count ow m = length (filter (\<lambda>ip. p_owner (snd ip) = ow) m)"

text \<open>The part of \<open>request\<close> after the \<open>tool.call\<close> entry, for a call that has to be confirmed.\<close>

definition over_capacity_reason :: string where
  "over_capacity_reason =
     nat_str MAX_PENDING_PER_OWNER @
     '' confirmations from this caller are already waiting -- answer or withdraw one first''"

definition park ::
    "env \<Rightarrow> int \<Rightarrow> 64 word \<Rightarrow> call_request \<Rightarrow> tool_decl \<Rightarrow> action_verdict \<Rightarrow> resolution \<Rightarrow> int \<Rightarrow> agent_bus \<Rightarrow>
     agent_bus \<times> (bus_error + outcome)" where
  "park en now call_id req decl verdict res start_ref s =
     (let own = Owner (cr_caller req);
          total = length (ab_pending s);
          mine = owner_count own (ab_pending s);
          insert_it = (\<lambda>s'. (s'\<lparr>ab_pending := al_put call_id
               \<lparr>p_owner = own, p_req = req, p_decl = decl, p_resolution = res, p_start_ref = start_ref,
                p_created = now, p_refusal_ledgered = False\<rparr> (ab_pending s')\<rparr>,
             Inr (OAwaiting call_id (res_confirmation res) (res_escalated res)
                    (spec_json call_id req decl verdict res))))
      in if MAX_PENDING_PER_OWNER \<le> mine
         then attempt (ledger_deny en req (Some start_ref) ''over-capacity'' over_capacity_reason s)
                (\<lambda>_ s'. (s', Inr (ODenied call_id over_capacity_reason)))
         else if MAX_PENDING \<le> total
         then (case evict_greediest en s of
                 (None, s1) \<Rightarrow> insert_it s1
               | (Some evicted, s1) \<Rightarrow>
                   attempt (ledger_deny en (p_req evicted) (Some (p_start_ref evicted)) ''evicted''
                              ''evicted: too many confirmations waiting'' s1)
                     (\<lambda>_ s2. insert_it s2))
         else insert_it s)"

definition judge_call :: "env \<Rightarrow> 64 word \<Rightarrow> call_request \<Rightarrow> tool_decl \<Rightarrow> grant \<Rightarrow> action_verdict" where
  "judge_call en call_id req decl g =
     judge (env_fs en call_id)
       \<lparr>a_app = cr_app_id req, a_tool = cr_tool req, a_class = class_of (td_tier decl), a_args = cr_args req\<rparr>
       (grant_for g (cr_chain req))"

text \<open>The part of \<open>request\<close> for a known tool with valid arguments.\<close>

definition admit ::
    "env \<Rightarrow> int \<Rightarrow> 64 word \<Rightarrow> call_request \<Rightarrow> tool_decl \<Rightarrow> agent_bus \<Rightarrow> agent_bus \<times> (bus_error + outcome)" where
  "admit en now call_id req decl s =
     (let verdict = judge_call en call_id req decl (ab_grant s);
          res = resolve (td_tier decl) (cr_chain req)
      in if is_refused verdict then refuse en call_id req decl verdict s
         else attempt (ledger_put en (call_event en req res) s)
                (\<lambda>start_ref s'.
                   if res_confirmation res = Silent
                   then (let r = execute en call_id req decl res start_ref s' in (fst r, Inr (snd r)))
                   else park en now call_id req decl verdict res start_ref s'))"

definition request ::
    "env \<Rightarrow> int \<Rightarrow> call_request \<Rightarrow> agent_bus \<Rightarrow> agent_bus \<times> (bus_error + outcome)" where
  "request en now req s =
     (let call_id = ab_next_id s;
          collected = collect_expired en now (s\<lparr>ab_next_id := call_id + 1\<rparr>)
      in attempt (deny_all en ''expired'' ''confirmation expired'' (fst collected) (snd collected))
           (\<lambda>_ s1.
              case registry_tool (ab_registry s1) (cr_app_id req) (cr_tool req) of
                None \<Rightarrow>
                  (let reason = ''unknown tool '' @ cr_app_id req @ ''/'' @ cr_tool req
                   in attempt (ledger_deny en req None ''unknown-tool'' reason s1)
                        (\<lambda>_ s2. (s2, Inr (ODenied call_id reason))))
              | Some decl \<Rightarrow>
                  (case validate_args (td_input_schema decl) (cr_args req) of
                     Inl e \<Rightarrow>
                       (let reason = ''args rejected by input_schema: '' @ arg_error_text e
                        in attempt (ledger_deny en req None ''invalid-args'' reason s1)
                             (\<lambda>_ s2. (s2, Inr (ODenied call_id reason))))
                   | Inr _ \<Rightarrow> admit en now call_id req decl s1)))"

section \<open>Answers\<close>

definition approval_of :: "pending \<Rightarrow> bool \<Rightarrow> answerer \<Rightarrow> approval" where
  "approval_of p approve a =
     \<lparr>ap_approve = approve,
      ap_is_requester = owner_allows (p_owner p) (an_peer a),
      ap_owns_consent_name = (an_consent a = RoleSurface),
      ap_is_consent_program = an_is_consent_program a,
      ap_is_requesters_process = same_process (an_process a) (cr_process (p_req p)),
      ap_requester_hosts_a_model = cr_hosts_a_model (p_req p),
      ap_class = (if res_confirmation (p_resolution p) = Modal then CModal else CChip),
      ap_brokered = (an_consent a \<noteq> RoleNoBroker)\<rparr>"

definition may_answer :: "64 word \<Rightarrow> pending \<Rightarrow> bool \<Rightarrow> answerer \<Rightarrow> bus_error + unit" where
  "may_answer call_id p approve a =
     (case judge_approval (approval_of p approve a) of
        ApAllow \<Rightarrow> Inr ()
      | ApNotYours \<Rightarrow> Inl (BeNotYours call_id)
      | ApRefused rule reason \<Rightarrow> Inl (BeNeedsConsentSurface call_id rule reason))"

definition approved_by :: "answerer \<Rightarrow> string" where
  "approved_by a =
     (if an_consent a = RoleSurface \<and> an_is_consent_program a then ''the consent surface''
      else peer_as_str (an_peer a) @ '' (no consent surface)'')"

definition confirm_event :: "env \<Rightarrow> pending \<Rightarrow> answerer \<Rightarrow> event" where
  "confirm_event en p a =
     default_event\<lparr>ev_kind := ''tool.confirm'', ev_app_id := cr_actor (p_req p),
       ev_preview := preview_of
         (confirmation_as_str (res_confirmation (p_resolution p)) @ '' approved '' @ cr_app_id (p_req p) @ ''/'' @
          cr_tool (p_req p) @ '' by '' @ approved_by a),
       ev_status := ''ok'', ev_detail := env_text en (detail_json (p_req p) (p_resolution p)),
       ev_ref_id := Some (p_start_ref p)\<rparr>"

definition refuse_answer ::
    "env \<Rightarrow> 64 word \<Rightarrow> pending \<Rightarrow> answerer \<Rightarrow> bus_error \<Rightarrow> agent_bus \<Rightarrow> agent_bus \<times> (bus_error + outcome)" where
  "refuse_answer en call_id p a err s =
     (if is_consent_refusal err \<and> \<not> p_refusal_ledgered p
      then attempt
             (ledger_deny en (p_req p) (Some (p_start_ref p)) ''refused''
                (or_default ''refused'' (bus_error_rule err) @ '': '' @ peer_as_str (an_peer a) @
                 '' may not approve its own call: '' @ why_not_the_surface a)
                (s\<lparr>ab_pending := al_put call_id (p\<lparr>p_refusal_ledgered := True\<rparr>) (ab_pending s)\<rparr>))
             (\<lambda>_ s'. (s', Inl err))
      else (s, Inl err))"

definition confirm ::
    "env \<Rightarrow> int \<Rightarrow> 64 word \<Rightarrow> bool \<Rightarrow> answerer \<Rightarrow> agent_bus \<Rightarrow> agent_bus \<times> (bus_error + outcome)" where
  "confirm en now call_id approve a s =
     (case map_of (ab_pending s) call_id of
        None \<Rightarrow> (s, Inl (BeUnknownCall call_id))
      | Some p \<Rightarrow>
          (case may_answer call_id p approve a of
             Inl err \<Rightarrow> refuse_answer en call_id p a err s
           | Inr _ \<Rightarrow>
               (let s1 = s\<lparr>ab_pending := al_del call_id (ab_pending s)\<rparr>
                in if ab_ttl s < elapsed now p
                   then attempt (ledger_deny en (p_req p) (Some (p_start_ref p)) ''expired'' ''confirmation expired'' s1)
                          (\<lambda>_ s2. (s2, Inr (ODenied call_id ''confirmation expired'')))
                   else if \<not> approve
                   then attempt (ledger_deny en (p_req p) (Some (p_start_ref p)) ''denied'' ''denied by user'' s1)
                          (\<lambda>_ s2. (s2, Inr (ODenied call_id ''denied by user'')))
                   else attempt (ledger_put en (confirm_event en p a) s1)
                          (\<lambda>_ s2. (let r = execute en call_id (p_req p) (p_decl p) (p_resolution p) (p_start_ref p) s2
                                  in (fst r, Inr (snd r)))))))"

section \<open>Undo\<close>

definition on_journal :: "(journal \<Rightarrow> journal \<times> (journal_error + 'a)) \<Rightarrow> agent_bus \<Rightarrow> agent_bus \<times> (bus_error + 'a)" where
  "on_journal f s = (let r = f (ab_journal s) in (s\<lparr>ab_journal := fst r\<rparr>, map_sum BeJournal id (snd r)))"

definition undo_event :: "env \<Rightarrow> string \<Rightarrow> journal_entry \<Rightarrow> string \<Rightarrow> string \<Rightarrow> string \<Rightarrow> string \<Rightarrow> event" where
  "undo_event en actor e hash preview status detail =
     default_event\<lparr>ev_kind := ''tool.undo'', ev_app_id := actor, ev_input_hash := hash,
       ev_preview := preview_of preview, ev_status := status, ev_detail := detail,
       ev_ref_id := Some (je_ledger_ref e)\<rparr>"

definition skip_entry ::
    "env \<Rightarrow> string \<Rightarrow> journal_entry \<Rightarrow> agent_bus \<Rightarrow> agent_bus \<times> (bus_error + undo_report)" where
  "skip_entry en actor e s =
     attempt (ledger_put en
         (undo_event en actor e [] (je_app_id e @ ''/'' @ je_tool e @ '' is not undoable -- skipped'') ''skipped''
            (env_text en (JObj [(''journal_id'', json_int (je_id e)), (''ledger_ref'', json_int (je_ledger_ref e))]))) s)
       (\<lambda>_ s1. attempt (on_journal (\<lambda>j. set_state (env_journal_ok en) j (je_id e) ''skipped'') s1)
          (\<lambda>_ s2. (s2, Inr (UrNotUndoable (je_app_id e) (je_tool e)))))"

definition revert_entry ::
    "env \<Rightarrow> string \<Rightarrow> journal_entry \<Rightarrow> string \<Rightarrow> string \<Rightarrow> agent_bus \<Rightarrow> agent_bus \<times> (bus_error + undo_report)" where
  "revert_entry en actor e undo_tool undo_text s =
     (let undo_args = or_default JNull (env_parse en undo_text)
      in attempt (ledger_put en
           (undo_event en actor e (env_hash en undo_text)
              (''undo '' @ je_app_id e @ ''/'' @ je_tool e @ '' via '' @ undo_tool) ''started''
              (env_text en (JObj [(''journal_id'', json_int (je_id e)), (''reverts'', json_int (je_ledger_ref e))]))) s)
         (\<lambda>start_ref s1.
            case dispatch en (je_app_id e) undo_tool undo_args s1 of
              (s2, Inr result) \<Rightarrow>
                attempt (ledger_put en (complete_event actor (env_text en result) ''ok'' [] start_ref) s2)
                  (\<lambda>_ s3. attempt (on_journal (\<lambda>j. set_state (env_journal_ok en) j (je_id e) ''undone'') s3)
                     (\<lambda>_ s4. (s4, Inr (UrUndone (je_app_id e) (je_tool e) undo_tool result))))
            | (s2, Inl failure) \<Rightarrow>
                attempt (ledger_put en (complete_event actor (df_error failure) ''error'' (df_error failure) start_ref) s2)
                  (\<lambda>_ s3. (s3, Inr (UrFailed (je_app_id e) undo_tool (df_error failure))))))"

definition undo :: "env \<Rightarrow> string \<Rightarrow> peer_id \<Rightarrow> agent_bus \<Rightarrow> agent_bus \<times> (bus_error + undo_report)" where
  "undo en actor caller s =
     attempt (on_journal (\<lambda>j. last_active (env_journal_ok en) j (peer_as_str caller)) s)
       (\<lambda>found s1.
          case found of
            None \<Rightarrow> (s1, Inr UrNothing)
          | Some e \<Rightarrow>
              (case (je_undo_tool e, je_undo_args_json e) of
                 (Some undo_tool, Some undo_text) \<Rightarrow> revert_entry en actor e undo_tool undo_text s1
               | _ \<Rightarrow> skip_entry en actor e s1))"

section \<open>Listing\<close>

definition tool_ref_json :: "tool_ref \<Rightarrow> json" where
  "tool_ref_json t =
     JObj [(''app_id'', JStr (tr_app_id t)), (''description'', JStr (tr_description t)),
           (''input_schema'', tr_input_schema t), (''name'', JStr (tr_name t)),
           (''tier'', JStr (tier_as_str (tr_tier t))), (''undoable'', JBool (tr_undoable t))]"

definition list_tools :: "agent_bus \<Rightarrow> json" where
  "list_tools s = JArr (map tool_ref_json (registry_list (ab_registry s)))"

definition bus_discover :: "string \<Rightarrow> agent_bus \<Rightarrow> json" where
  "bus_discover query s = JArr (map tool_ref_json (discover (ab_registry s) query))"

definition pending_count :: "agent_bus \<Rightarrow> nat" where
  "pending_count s = length (ab_pending s)"

end
