(* ===== verification/Agent_Bus_Inv.thy ===== *)
theory Agent_Bus_Inv
  imports Agent_Bus
begin

text \<open>
  Invariants of the Agent Bus. The locale \<open>bus_invariant\<close> lists what an invariant has to survive:
  the primitive changes the handlers are made of. \<open>I k s\<close> is the invariant with \<open>k\<close> tickets in
  hand: a started ledger row or a call taken out of the parked ones gives a ticket, dispatching or
  parking a call spends one. The locale proves once that every handler keeps such an invariant;
  each invariant of the bus is then an interpretation.
\<close>

section \<open>Rules for sequencing\<close>

lemma attemptI:
  assumes "\<And>e. snd r = Inl e \<Longrightarrow> P (fst r)" and "\<And>x. snd r = Inr x \<Longrightarrow> P (fst (k x (fst r)))"
  shows "P (fst (attempt r k))"
  using assms by (auto simp: attempt_def split: sum.split)

lemma attempt_Inr: "snd (attempt r k) = Inr y \<longleftrightarrow> (\<exists>x. snd r = Inr x \<and> snd (k x (fst r)) = Inr y)"
  by (auto simp: attempt_def split: sum.split)

lemma attempt_simps [simp]:
  "snd r = Inl e \<Longrightarrow> attempt r k = (fst r, Inl e)"
  "snd r = Inr x \<Longrightarrow> attempt r k = k x (fst r)"
  by (simp_all add: attempt_def)

lemma ledger_put_sel [simp]:
  "ab_registry (fst (ledger_put en e s)) = ab_registry s"
  "ab_journal (fst (ledger_put en e s)) = ab_journal s"
  "ab_dispatched (fst (ledger_put en e s)) = ab_dispatched s"
  "ab_pending (fst (ledger_put en e s)) = ab_pending s"
  "ab_next_id (fst (ledger_put en e s)) = ab_next_id s"
  "ab_ttl (fst (ledger_put en e s)) = ab_ttl s"
  "ab_grant (fst (ledger_put en e s)) = ab_grant s"
  "ab_refusals (fst (ledger_put en e s)) = ab_refusals s"
  by (simp_all add: ledger_put_def Let_def)

lemma ledger_put_Inr:
  assumes "snd (ledger_put en e s) = Inr i"
  shows "\<exists>r. l_entries (ab_ledger (fst (ledger_put en e s))) = l_entries (ab_ledger s) @ [r] \<and>
    en_id r = i \<and> en_event r = e"
proof -
  obtain l' r where eq: "ledger_append (env_ledger_ok en) (env_wall en) (ab_ledger s) e = (l', r)"
    by (rule prod.exhaust)
  show ?thesis
  proof (cases r)
    case (Inl x')
    with eq assms show ?thesis by (simp add: ledger_put_def)
  next
    case (Inr i')
    with eq assms show ?thesis using ledger_append_Inr [OF eq [unfolded Inr]] by (simp add: ledger_put_def)
  qed
qed

lemma ledger_put_Inl:
  assumes "snd (ledger_put en e s) = Inl x"
  shows "l_entries (ab_ledger (fst (ledger_put en e s))) = l_entries (ab_ledger s)"
proof -
  obtain l' r where eq: "ledger_append (env_ledger_ok en) (env_wall en) (ab_ledger s) e = (l', r)"
    by (rule prod.exhaust)
  show ?thesis
  proof (cases r)
    case (Inl x')
    with eq assms show ?thesis using ledger_append_Inl [OF eq [unfolded Inl]] by (simp add: ledger_put_def)
  next
    case (Inr i')
    with eq assms show ?thesis by (simp add: ledger_put_def)
  qed
qed

section \<open>Hash map iteration\<close>

text \<open>Iterating a hash map yields each of its pairs once, in some order.\<close>

definition env_ok :: "env \<Rightarrow> bool" where
  "env_ok en \<longleftrightarrow> (\<forall>m. mset (env_iter en m) = mset m) \<and> (\<forall>m. mset (env_owners en m) = mset m)"

lemma set_env_iter: "env_ok en \<Longrightarrow> set (env_iter en m) = set m"
  by (metis env_ok_def set_mset_mset)

lemma set_env_owners: "env_ok en \<Longrightarrow> set (env_owners en m) = set m"
  by (metis env_ok_def set_mset_mset)

lemma max_last_Some:
  "max_last key xs = Some y \<Longrightarrow> y \<in> set xs \<and> (\<forall>x \<in> set xs. key x \<le> key y)"
proof (induction xs arbitrary: y)
  case (Cons a xs)
  show ?case
  proof (cases "max_last key xs")
    case None
    then show ?thesis using Cons.prems by (cases xs) (auto split: option.splits if_splits)
  next
    case (Some z)
    with Cons.IH [OF Some] Cons.prems show ?thesis by (auto split: if_splits)
  qed
qed simp

lemma max_last_None [simp]: "max_last key xs = None \<longleftrightarrow> xs = []"
  by (cases xs) (auto split: option.split)

lemma min_first_Some:
  "min_first key xs = Some y \<Longrightarrow> y \<in> set xs \<and> (\<forall>x \<in> set xs. key y \<le> key x)"
proof (induction xs arbitrary: y)
  case (Cons a xs)
  show ?case
  proof (cases "min_first key xs")
    case None
    then show ?thesis using Cons.prems by (cases xs) (auto split: option.splits if_splits)
  next
    case (Some z)
    with Cons.IH [OF Some] Cons.prems show ?thesis by (auto split: if_splits)
  qed
qed simp

lemma min_first_None [simp]: "min_first key xs = None \<longleftrightarrow> xs = []"
  by (cases xs) (auto split: option.split)

lemma count_owners_map:
  "map_of (count_owners ps m) ow =
     (let n = or_default 0 (map_of m ow) + length (filter (\<lambda>p. p_owner p = ow) ps)
      in if n = 0 \<and> map_of m ow = None then None else Some n)"
proof (induction ps m rule: count_owners.induct)
  case (1 m)
  then show ?case by (auto simp: or_default_def Let_def split: option.split)
next
  case (2 p ps m)
  then show ?case by (auto simp: or_default_def Let_def split: option.split)
qed

lemma count_owners_distinct: "distinct (map fst m) \<Longrightarrow> distinct (map fst (count_owners ps m))"
  by (induction ps m rule: count_owners.induct) simp_all

lemma count_owners_mem:
  "(ow, n) \<in> set (count_owners ps []) \<longleftrightarrow> n = length (filter (\<lambda>p. p_owner p = ow) ps) \<and> 0 < n"
proof -
  have "(ow, n) \<in> set (count_owners ps []) \<longleftrightarrow> map_of (count_owners ps []) ow = Some n"
    by (simp add: count_owners_distinct)
  then show ?thesis by (auto simp: count_owners_map or_default_def Let_def)
qed

lemma owner_count_iter:
  assumes "env_ok en"
  shows "length (filter (\<lambda>p. p_owner p = ow) (map snd (env_iter en m))) = owner_count ow m"
proof -
  have "mset (filter (\<lambda>ip. p_owner (snd ip) = ow) (env_iter en m)) = mset (filter (\<lambda>ip. p_owner (snd ip) = ow) m)"
    using assms by (simp add: env_ok_def)
  then have "length (filter (\<lambda>ip. p_owner (snd ip) = ow) (env_iter en m)) =
      length (filter (\<lambda>ip. p_owner (snd ip) = ow) m)"
    by (rule mset_eq_length)
  then show ?thesis by (simp add: owner_count_def filter_map comp_def)
qed

text \<open>The victim belongs to a peer that holds the most parked calls, and is the oldest of them.\<close>

lemma evict_Some:
  assumes "env_ok en" and "distinct (map fst (ab_pending s))"
    and "ab_pending s \<noteq> []"
  shows "\<exists>i p. evict_greediest en s = (Some p, s\<lparr>ab_pending := al_del i (ab_pending s)\<rparr>) \<and>
    map_of (ab_pending s) i = Some p \<and>
    (\<forall>ow. owner_count ow (ab_pending s) \<le> owner_count (p_owner p) (ab_pending s)) \<and>
    (\<forall>(j, q) \<in> set (ab_pending s). p_owner q = p_owner p \<longrightarrow> p_created p \<le> p_created q)"
proof -
  let ?m = "ab_pending s" and ?parked = "env_iter en (ab_pending s)"
  let ?per = "env_owners en (count_owners (map snd ?parked) [])"
  have sp: "set ?parked = set ?m" by (rule set_env_iter [OF assms(1)])
  have mem: "(ow, n) \<in> set ?per \<longleftrightarrow> n = owner_count ow ?m \<and> 0 < n" for ow n
    using set_env_owners [OF assms(1)] count_owners_mem owner_count_iter [OF assms(1)] by metis
  have pos: "0 < owner_count (p_owner q) ?m" if "(j, q) \<in> set ?m" for j q
    using that by (force simp: owner_count_def filter_empty_conv)
  obtain j q where jq: "(j, q) \<in> set ?m" using assms(3) by (cases ?m) auto
  with mem pos have "?per \<noteq> []" by fastforce
  then obtain g n where g: "max_last snd ?per = Some (g, n)"
    by (cases "max_last snd ?per") auto
  from max_last_Some [OF g] mem have n: "n = owner_count g ?m" "0 < n"
    and top: "\<forall>x \<in> set ?per. snd x \<le> n" by auto
  let ?fs = "filter (\<lambda>ip. p_owner (snd ip) = g) ?parked"
  have "?fs \<noteq> []"
    using n sp by (auto simp: owner_count_def filter_empty_conv)
  then obtain i p where v: "min_first (\<lambda>ip. p_created (snd ip)) ?fs = Some (i, p)"
    by (cases "min_first (\<lambda>ip. p_created (snd ip)) ?fs") auto
  from min_first_Some [OF v] have ip: "(i, p) \<in> set ?m" "p_owner p = g"
    and old: "\<forall>x \<in> set ?fs. p_created p \<le> p_created (snd x)" using sp by auto
  have mp: "map_of ?m i = Some p" using ip(1) assms(2) by simp
  have "owner_count ow ?m \<le> owner_count g ?m" for ow
    using top mem n by (cases "owner_count ow ?m = 0") fastforce+
  moreover have "\<forall>(j, q) \<in> set ?m. p_owner q = p_owner p \<longrightarrow> p_created p \<le> p_created q"
    using old sp ip(2) by fastforce
  ultimately show ?thesis
    using g v mp ip(2) by (auto simp: evict_greediest_def Let_def)
qed

lemma length_al_del:
  "distinct (map fst m) \<Longrightarrow> map_of m i = Some p \<Longrightarrow> Suc (length (al_del i m)) = length m"
proof (induction m)
  case (Cons a m)
  show ?case
  proof (cases "fst a = i")
    case True
    with Cons.prems(1) have "\<forall>x \<in> set m. fst x \<noteq> i" by (auto simp: image_iff)
    then have "al_del i m = m" by (simp add: al_del_def filter_id_conv)
    with True show ?thesis by (simp add: al_del_def)
  next
    case False
    with Cons show ?thesis by (cases a) (auto simp: al_del_def)
  qed
qed simp

lemma owner_count_al_del: "owner_count ow (al_del i m) \<le> owner_count ow m"
  by (induction m) (auto simp: owner_count_def al_del_def)

lemma owner_count_al_put:
  "owner_count ow (al_put i p m) \<le> owner_count ow m + (if p_owner p = ow then 1 else 0)"
  by (induction i p m rule: al_put.induct) (auto simp: owner_count_def)

section \<open>What an invariant has to survive\<close>

definition starts :: "event \<Rightarrow> bool" where
  "starts e \<longleftrightarrow> ev_kind e \<in> {''tool.call'', ''tool.undo''} \<and> ev_status e = ''started''"

inductive journal_op :: "env \<Rightarrow> journal \<Rightarrow> journal \<Rightarrow> bool" for en where
  op_tried: "journal_op en j (tried j)"
| op_record: "journal_op en j (fst (journal_record (env_text en) (env_journal_ok en) (env_journal_wall en) j r))"
| op_state: "journal_op en j (fst (set_state (env_journal_ok en) j i st))"

text \<open>
  What is known of a call when it is parked under id \<open>i\<close>: it belongs to the peer that asked, its
  tool is registered, its arguments conform, the guard did not refuse it under the grant, and
  its tier and chain resolved to something that has to be confirmed.
\<close>

definition vetted_call :: "env \<Rightarrow> registry \<Rightarrow> grant \<Rightarrow> 64 word \<Rightarrow> call_request \<Rightarrow> tool_decl \<Rightarrow> bool" where
  "vetted_call en reg g i req decl \<longleftrightarrow>
     registry_tool reg (cr_app_id req) (cr_tool req) = Some decl \<and>
     validate_args (td_input_schema decl) (cr_args req) = Inr () \<and>
     \<not> is_refused (judge_call en i req decl g)"

definition park_ok :: "env \<Rightarrow> registry \<Rightarrow> grant \<Rightarrow> 64 word \<Rightarrow> pending \<Rightarrow> bool" where
  "park_ok en reg g i p \<longleftrightarrow>
     p_owner p = Owner (cr_caller (p_req p)) \<and>
     p_resolution p = resolve (td_tier (p_decl p)) (cr_chain (p_req p)) \<and>
     res_confirmation (p_resolution p) \<noteq> Silent \<and>
     vetted_call en reg g i (p_req p) (p_decl p)"

text \<open>One step of the bus: a handler run to its end, at any instant and with any arguments.\<close>

inductive bus_step :: "env \<Rightarrow> agent_bus \<Rightarrow> agent_bus \<Rightarrow> bool" for en where
  on_request: "bus_step en s (fst (request en now req s))"
| on_confirm: "bus_step en s (fst (confirm en now i approve a s))"
| on_undo: "bus_step en s (fst (undo en actor caller s))"
| on_downgrade: "bus_step en s (ledger_provenance_downgrade en c target_app tool s)"

inductive bus_reach :: "env \<Rightarrow> agent_bus \<Rightarrow> agent_bus \<Rightarrow> bool" for en s0 where
  start: "bus_reach en s0 s0"
| step: "bus_reach en s0 s \<Longrightarrow> bus_step en s s' \<Longrightarrow> bus_reach en s0 s'"

locale bus_invariant =
  fixes en :: env and I :: "nat \<Rightarrow> agent_bus \<Rightarrow> bool"
  assumes less: "I (Suc k) s \<Longrightarrow> I k s"
    and keys: "I k s \<Longrightarrow> distinct (map fst (ab_pending s))"
    and cap: "I k s \<Longrightarrow> length (ab_pending s) \<le> MAX_PENDING"
    and noted: "I k s \<Longrightarrow> I k (fst (ledger_put en e s))"
    and started: "I k s \<Longrightarrow> starts e \<Longrightarrow> snd (ledger_put en e s) = Inr ref \<Longrightarrow> I (Suc k) (fst (ledger_put en e s))"
    and dispatched: "I (Suc k) s \<Longrightarrow> I k (fst (dispatch en app tool args s))"
    and taken: "I k s \<Longrightarrow> map_of (ab_pending s) i = Some p \<Longrightarrow>
      I (Suc k) (s\<lparr>ab_pending := al_del i (ab_pending s)\<rparr>)"
    and flagged: "I k s \<Longrightarrow> map_of (ab_pending s) i = Some p \<Longrightarrow>
      I k (s\<lparr>ab_pending := al_put i (p\<lparr>p_refusal_ledgered := True\<rparr>) (ab_pending s)\<rparr>)"
    and parked: "I (Suc k) s \<Longrightarrow> park_ok en (ab_registry s) (ab_grant s) i p \<Longrightarrow> owner_count (p_owner p) (ab_pending s) < MAX_PENDING_PER_OWNER \<Longrightarrow>
      length (ab_pending s) < MAX_PENDING \<Longrightarrow> I k (s\<lparr>ab_pending := al_put i p (ab_pending s)\<rparr>)"
    and journaled: "I k s \<Longrightarrow> journal_op en (ab_journal s) j \<Longrightarrow> I k (s\<lparr>ab_journal := j\<rparr>)"
    and numbered: "I k s \<Longrightarrow> I k (s\<lparr>ab_next_id := n\<rparr>)"
    and counted: "I k s \<Longrightarrow> I k (fst (count_refusal c r s))"
begin

lemma denied: "I k s \<Longrightarrow> I k (fst (ledger_deny en req ref_id status reason s))"
  unfolding ledger_deny_def by (rule noted)

lemma removed: "I k s \<Longrightarrow> I k (s\<lparr>ab_pending := snd (remove_ids is (ab_pending s))\<rparr>)"
proof (induction "is" arbitrary: s)
  case (Cons i "is")
  show ?case
  proof (cases "map_of (ab_pending s) i")
    case None
    then show ?thesis using Cons by simp
  next
    case (Some p)
    let ?s = "s\<lparr>ab_pending := al_del i (ab_pending s)\<rparr>"
    have "I k ?s" using taken [OF Cons.prems Some] by (rule less)
    from Cons.IH [OF this] Some show ?thesis by (simp add: Let_def)
  qed
qed simp

lemma collected: "I k s \<Longrightarrow> I k (snd (collect_expired en now s))"
  unfolding collect_expired_def Let_def by (simp add: removed)

lemma denied_all: "I k s \<Longrightarrow> I k (fst (deny_all en status reason ps s))"
proof (induction ps arbitrary: s)
  case (Cons p ps)
  show ?case
    unfolding deny_all.simps
    by (rule attemptI [where P = "I k"]; (rule denied Cons.IH)+; rule Cons.prems)
qed simp

lemma refused: "I k s \<Longrightarrow> I k (fst (refuse en call_id req decl verdict s))"
  unfolding refuse_def Let_def
  by (rule attemptI [where P = "I k"]) (simp_all add: noted counted)

lemma journal_called: "I k s \<Longrightarrow> I k (fst (journal_call en req decl res start_ref result s))"
  by (simp add: journal_call_def Let_def journaled journal_op.op_record)

lemma executed:
  assumes "I (Suc k) s"
  shows "I k (fst (execute en call_id req decl res start_ref s))"
proof -
  let ?d = "dispatch en (cr_app_id req) (cr_tool req) (cr_args req) s"
  obtain s1 x where eq: "?d = (s1, x)" by (rule prod.exhaust)
  have d: "I k s1" using dispatched [OF assms, of "cr_app_id req" "cr_tool req" "cr_args req"] by (simp add: eq)
  show ?thesis
  proof (cases x)
    case (Inl failure)
    with eq show ?thesis by (simp add: execute_def noted d)
  next
    case (Inr result)
    with eq show ?thesis by (simp add: execute_def Let_def noted journal_called d)
  qed
qed

lemma parks:
  fixes res :: resolution
  assumes "env_ok en" and "I (Suc k) s" and "res = resolve (td_tier decl) (cr_chain req)"
    and "res_confirmation res \<noteq> Silent" and "vetted_call en (ab_registry s) (ab_grant s) call_id req decl"
  shows "I k (fst (park en now call_id req decl verdict res start_ref s))"
proof -
  let ?own = "Owner (cr_caller req)"
  let ?p = "\<lparr>p_owner = ?own, p_req = req, p_decl = decl, p_resolution = res, p_start_ref = start_ref,
    p_created = now, p_refusal_ledgered = False\<rparr>"
  have ok: "park_ok en (ab_registry s) (ab_grant s) call_id ?p"
    using assms(3-5) by (simp add: park_ok_def)
  consider (many) "MAX_PENDING_PER_OWNER \<le> owner_count ?own (ab_pending s)"
    | (full) "owner_count ?own (ab_pending s) < MAX_PENDING_PER_OWNER" "MAX_PENDING \<le> length (ab_pending s)"
    | (room) "owner_count ?own (ab_pending s) < MAX_PENDING_PER_OWNER" "length (ab_pending s) < MAX_PENDING"
    by linarith
  then show ?thesis
  proof cases
    case many
    have "I k (fst (attempt (ledger_deny en req (Some start_ref) ''over-capacity'' over_capacity_reason s)
        (\<lambda>_ s'. (s', Inr (ODenied call_id over_capacity_reason)))))"
      by (rule attemptI [where P = "I k"]) (simp_all add: denied less [OF assms(2)])
    with many show ?thesis by (simp add: park_def Let_def)
  next
    case full
    then have ne: "ab_pending s \<noteq> []" by (auto simp: MAX_PENDING_def)
    obtain i p where e: "evict_greediest en s = (Some p, s\<lparr>ab_pending := al_del i (ab_pending s)\<rparr>)"
      and m: "map_of (ab_pending s) i = Some p"
      using evict_Some [OF assms(1) keys [OF assms(2)] ne] by blast
    let ?s1 = "s\<lparr>ab_pending := al_del i (ab_pending s)\<rparr>"
    let ?r = "ledger_deny en (p_req p) (Some (p_start_ref p)) ''evicted''
      ''evicted: too many confirmations waiting'' ?s1"
    have I1: "I (Suc k) (fst ?r)" by (rule denied) (rule less [OF taken [OF assms(2) m]])
    have pend: "ab_pending (fst ?r) = al_del i (ab_pending s)" by (simp add: ledger_deny_def)
    have "length (ab_pending (fst ?r)) < MAX_PENDING"
      using length_al_del [OF keys [OF assms(2)] m] cap [OF assms(2)] by (simp add: pend)
    moreover have "owner_count ?own (ab_pending (fst ?r)) < MAX_PENDING_PER_OWNER"
      using owner_count_al_del [of ?own i "ab_pending s"] full(1) by (simp add: pend)
    ultimately have "I k ((fst ?r)\<lparr>ab_pending := al_put call_id ?p (ab_pending (fst ?r))\<rparr>)"
      using ok by (intro parked [OF I1]) (simp_all add: ledger_deny_def)
    then show ?thesis
      using full e less [OF I1]
      by (cases "snd ?r") (simp_all add: park_def Let_def)
  next
    case room
    then show ?thesis
      using parked [OF assms(2) ok] by (simp add: park_def Let_def)
  qed
qed

lemma admitted:
  assumes "env_ok en" and "I k s"
    and "registry_tool (ab_registry s) (cr_app_id req) (cr_tool req) = Some decl"
    and "validate_args (td_input_schema decl) (cr_args req) = Inr ()"
  shows "I k (fst (admit en now call_id req decl s))"
proof -
  have st: "starts (call_event en req res)" for res
    by (simp add: starts_def call_event_def)
  let ?v = "judge_call en call_id req decl (ab_grant s)" and ?res = "resolve (td_tier decl) (cr_chain req)"
  show ?thesis
  proof (cases "is_refused ?v")
    case True
    then show ?thesis by (simp add: admit_def refused assms(2))
  next
    case False
    let ?r = "ledger_put en (call_event en req ?res) s"
    show ?thesis
    proof (cases "snd ?r")
      case (Inl e)
      with False show ?thesis by (simp add: admit_def Let_def noted assms(2))
    next
      case (Inr start_ref)
      have I1: "I (Suc k) (fst ?r)" by (rule started [OF assms(2) st Inr])
      have "vetted_call en (ab_registry (fst ?r)) (ab_grant (fst ?r)) call_id req decl"
        using False assms(3,4) by (simp add: vetted_call_def)
      with False Inr show ?thesis
        using executed [OF I1] parks [OF assms(1) I1 refl] by (simp add: admit_def Let_def del: resolve_sel)
    qed
  qed
qed

lemma requested:
  assumes "env_ok en" and "I k s"
  shows "I k (fst (request en now req s))"
proof -
  let ?c = "collect_expired en now (s\<lparr>ab_next_id := ab_next_id s + 1\<rparr>)"
  let ?d = "deny_all en ''expired'' ''confirmation expired'' (fst ?c) (snd ?c)"
  have I1: "I k (fst ?d)"
    by (rule denied_all) (rule collected [OF numbered [OF assms(2)]])
  have deny: "I k (fst (attempt (ledger_deny en req None status reason s1) (\<lambda>_ s2. (s2, Inr x))))"
    if "I k s1" for status reason s1 and x :: outcome
    by (rule attemptI [where P = "I k"]) (simp_all add: denied that)
  show ?thesis
    unfolding request_def Let_def
  proof (rule attemptI [where P = "I k"])
    show "I k (fst ?d)" by (rule I1)
  next
    fix x
    show "I k (fst (case registry_tool (ab_registry (fst ?d)) (cr_app_id req) (cr_tool req) of
          None \<Rightarrow> attempt (ledger_deny en req None ''unknown-tool''
              (''unknown tool '' @ cr_app_id req @ ''/'' @ cr_tool req) (fst ?d))
            (\<lambda>_ s2. (s2, Inr (ODenied (ab_next_id s) (''unknown tool '' @ cr_app_id req @ ''/'' @ cr_tool req))))
        | Some decl \<Rightarrow>
            (case validate_args (td_input_schema decl) (cr_args req) of
               Inl e \<Rightarrow> attempt (ledger_deny en req None ''invalid-args''
                   (''args rejected by input_schema: '' @ arg_error_text e) (fst ?d))
                 (\<lambda>_ s2. (s2, Inr (ODenied (ab_next_id s) (''args rejected by input_schema: '' @ arg_error_text e))))
             | Inr _ \<Rightarrow> admit en now (ab_next_id s) req decl (fst ?d))))"
      using deny [OF I1] admitted [OF assms(1) I1] by (auto split: option.split sum.split)
  qed
qed

lemma refuse_answered:
  assumes "I k s" and "map_of (ab_pending s) i = Some p"
  shows "I k (fst (refuse_answer en i p a err s))"
proof (cases "is_consent_refusal err \<and> \<not> p_refusal_ledgered p")
  case True
  have "I k (fst (attempt (ledger_deny en (p_req p) r st m
      (s\<lparr>ab_pending := al_put i (p\<lparr>p_refusal_ledgered := True\<rparr>) (ab_pending s)\<rparr>)) (\<lambda>_ s'. (s', Inl err))))"
    for r st m
    by (rule attemptI [where P = "I k"]) (simp_all add: denied flagged assms)
  with True show ?thesis by (simp add: refuse_answer_def)
next
  case False
  then show ?thesis by (auto simp: refuse_answer_def assms(1))
qed

lemma confirmed:
  assumes "I k s"
  shows "I k (fst (confirm en now i approve a s))"
proof (cases "map_of (ab_pending s) i")
  case None
  then show ?thesis by (simp add: confirm_def assms)
next
  case (Some p)
  show ?thesis
  proof (cases "may_answer i p approve a")
    case (Inl err)
    with Some show ?thesis by (simp add: confirm_def refuse_answered [OF assms Some])
  next
    case (Inr u)
    let ?s1 = "s\<lparr>ab_pending := al_del i (ab_pending s)\<rparr>"
    have I1: "I (Suc k) ?s1" by (rule taken [OF assms Some])
    have deny: "I k (fst (attempt (ledger_deny en (p_req p) r st m ?s1) (\<lambda>_ s2. (s2, Inr x))))"
      for r st m and x :: outcome
      by (rule attemptI [where P = "I k"]) (simp_all add: denied less [OF I1])
    have "I k (fst (attempt (ledger_put en (confirm_event en p a) ?s1)
        (\<lambda>_ s2. let r = execute en i (p_req p) (p_decl p) (p_resolution p) (p_start_ref p) s2
               in (fst r, Inr (snd r) :: bus_error + outcome))))"
      by (rule attemptI [where P = "I k"]) (simp_all add: Let_def noted less executed I1)
    with deny Some Inr show ?thesis by (simp add: confirm_def Let_def)
  qed
qed

lemma on_journal_kept:
  "I k s \<Longrightarrow> journal_op en (ab_journal s) (fst (f (ab_journal s))) \<Longrightarrow> I k (fst (on_journal f s))"
  by (simp add: on_journal_def Let_def journaled)

lemma set_state_kept: "I k s \<Longrightarrow> I k (fst (on_journal (\<lambda>j. set_state (env_journal_ok en) j n st) s))"
  by (rule on_journal_kept) (simp_all add: journal_op.op_state)

lemma skipped: "I k s \<Longrightarrow> I k (fst (skip_entry en actor e s))"
  unfolding skip_entry_def
  by (rule attemptI [where P = "I k"], (simp add: noted), rule attemptI [where P = "I k"])
    (simp_all add: noted set_state_kept)

lemma reverted:
  assumes "I k s"
  shows "I k (fst (revert_entry en actor e undo_tool undo_text s))"
  unfolding revert_entry_def Let_def
proof (rule attemptI [where P = "I k"], goal_cases)
  case (1 x)
  show ?case by (rule noted [OF assms])
next
  case (2 start_ref)
  let ?r = "ledger_put en (undo_event en actor e (env_hash en undo_text)
      (''undo '' @ je_app_id e @ ''/'' @ je_tool e @ '' via '' @ undo_tool) ''started''
      (env_text en (JObj [(''journal_id'', json_int (je_id e)), (''reverts'', json_int (je_ledger_ref e))]))) s"
  have "I (Suc k) (fst ?r)"
    by (rule started [OF assms _ 2]) (simp add: starts_def undo_event_def)
  then have d: "I k (fst (dispatch en (je_app_id e) undo_tool (or_default JNull (env_parse en undo_text)) (fst ?r)))"
    by (rule dispatched)
  obtain s2 x where eq: "dispatch en (je_app_id e) undo_tool (or_default JNull (env_parse en undo_text)) (fst ?r) = (s2, x)"
    by (rule prod.exhaust)
  with d have I2: "I k s2" by simp
  show ?case
  proof (cases x)
    case (Inl failure)
    have "I k (fst (attempt (ledger_put en ev s2) (\<lambda>_ s3. (s3, Inr r))))" for ev and r :: undo_report
      by (rule attemptI [where P = "I k"]) (simp_all add: noted I2)
    with eq Inl show ?thesis by simp
  next
    case (Inr result)
    have "I k (fst (attempt (ledger_put en ev s2)
        (\<lambda>_ s3. attempt (on_journal (\<lambda>j. set_state (env_journal_ok en) j n st) s3) (\<lambda>_ s4. (s4, Inr r)))))"
      for ev n st and r :: undo_report
      by (rule attemptI [where P = "I k"], (simp add: noted I2), rule attemptI [where P = "I k"])
        (simp_all add: noted I2 set_state_kept)
    with eq Inr show ?thesis by simp
  qed
qed

lemma undone:
  assumes "I k s"
  shows "I k (fst (undo en actor caller s))"
  unfolding undo_def
proof (rule attemptI [where P = "I k"], goal_cases)
  case (1 e)
  show ?case by (rule on_journal_kept [OF assms]) (simp add: last_active_def journal_op.op_tried)
next
  case (2 found)
  have "I k (fst (on_journal (\<lambda>j. last_active (env_journal_ok en) j (peer_as_str caller)) s))"
    by (rule on_journal_kept [OF assms]) (simp add: last_active_def journal_op.op_tried)
  then show ?case by (simp add: skipped reverted split: option.split)
qed

lemma stepped:
  assumes "env_ok en" and "bus_step en s s'" and "I k s"
  shows "I k s'"
  using assms(2)
proof cases
  case (on_request now req)
  then show ?thesis using requested [OF assms(1,3)] by simp
next
  case (on_confirm now i approve a)
  then show ?thesis using confirmed [OF assms(3)] by simp
next
  case (on_undo actor caller)
  then show ?thesis using undone [OF assms(3)] by simp
next
  case (on_downgrade c target_app tool)
  then show ?thesis using noted [OF assms(3)] by (simp add: ledger_provenance_downgrade_def Let_def)
qed

lemma reached:
  assumes "env_ok en" and "bus_reach en s0 s" and "I k s0"
  shows "I k s"
  using assms(2) by (induction rule: bus_reach.induct) (auto intro: assms(3) stepped [OF assms(1)])

end

section \<open>The parked calls are bounded\<close>

definition base_ok :: "agent_bus \<Rightarrow> bool" where
  "base_ok s \<longleftrightarrow>
     distinct (map fst (ab_pending s)) \<and> length (ab_pending s) \<le> MAX_PENDING \<and>
     (\<forall>ow. owner_count ow (ab_pending s) \<le> MAX_PENDING_PER_OWNER)"

lemma base_ok_ledger_put [simp]: "base_ok (fst (ledger_put en e s)) = base_ok s"
  by (simp add: base_ok_def)

lemma base_ok_cong [simp]:
  "base_ok (s\<lparr>ab_journal := j\<rparr>) = base_ok s"
  "base_ok (s\<lparr>ab_next_id := n\<rparr>) = base_ok s"
  "base_ok (s\<lparr>ab_dispatched := d\<rparr>) = base_ok s"
  "base_ok (s\<lparr>ab_refusals := r\<rparr>) = base_ok s"
  by (simp_all add: base_ok_def)

lemma base_ok_taken: "base_ok s \<Longrightarrow> base_ok (s\<lparr>ab_pending := al_del i (ab_pending s)\<rparr>)"
  using owner_count_al_del le_trans length_al_del_le
  by (fastforce simp: base_ok_def intro: order_trans [OF owner_count_al_del] order_trans [OF length_al_del_le])

lemma owner_count_flag:
  "map_of m i = Some p \<Longrightarrow> p_owner q = p_owner p \<Longrightarrow> owner_count ow (al_put i q m) = owner_count ow m"
  by (induction i q m rule: al_put.induct) (auto simp: owner_count_def split: if_splits)

lemma length_al_put_present: "map_of m i = Some p \<Longrightarrow> length (al_put i q m) = length m"
  by (induction i q m rule: al_put.induct) (auto split: if_splits)

lemma base_ok_flagged:
  "base_ok s \<Longrightarrow> map_of (ab_pending s) i = Some p \<Longrightarrow>
   base_ok (s\<lparr>ab_pending := al_put i (p\<lparr>p_refusal_ledgered := True\<rparr>) (ab_pending s)\<rparr>)"
  by (simp add: base_ok_def length_al_put_present owner_count_flag)

lemma base_ok_parked:
  assumes "base_ok s" and "owner_count (p_owner p) (ab_pending s) < MAX_PENDING_PER_OWNER"
    and "length (ab_pending s) < MAX_PENDING"
  shows "base_ok (s\<lparr>ab_pending := al_put i p (ab_pending s)\<rparr>)"
proof -
  have "owner_count ow (al_put i p (ab_pending s)) \<le> MAX_PENDING_PER_OWNER" for ow
    using owner_count_al_put [of ow i p "ab_pending s"] assms(1,2)
    by (cases "p_owner p = ow") (auto simp: base_ok_def intro: order_trans)
  then show ?thesis using assms by (simp add: base_ok_def length_al_put)
qed

lemma count_refusal_sel [simp]:
  "base_ok (fst (count_refusal c r s)) = base_ok s"
  "ab_pending (fst (count_refusal c r s)) = ab_pending s"
  "ab_dispatched (fst (count_refusal c r s)) = ab_dispatched s"
  "ab_ledger (fst (count_refusal c r s)) = ab_ledger s"
  "ab_journal (fst (count_refusal c r s)) = ab_journal s"
  "ab_registry (fst (count_refusal c r s)) = ab_registry s"
  "ab_grant (fst (count_refusal c r s)) = ab_grant s"
  "ab_ttl (fst (count_refusal c r s)) = ab_ttl s"
  by (simp_all add: count_refusal_def Let_def)

lemma dispatch_sel [simp]:
  "base_ok (fst (dispatch en app tool args s)) = base_ok s"
  "ab_pending (fst (dispatch en app tool args s)) = ab_pending s"
  "ab_dispatched (fst (dispatch en app tool args s)) = ab_dispatched s @ [(app, tool, args)]"
  "ab_ledger (fst (dispatch en app tool args s)) = ab_ledger s"
  "ab_journal (fst (dispatch en app tool args s)) = ab_journal s"
  "ab_registry (fst (dispatch en app tool args s)) = ab_registry s"
  "ab_grant (fst (dispatch en app tool args s)) = ab_grant s"
  "ab_ttl (fst (dispatch en app tool args s)) = ab_ttl s"
  "ab_refusals (fst (dispatch en app tool args s)) = ab_refusals s"
  by (simp_all add: dispatch_def)

section \<open>Every dispatch has its ledger row\<close>

definition started_rows :: "ledger \<Rightarrow> nat" where
  "started_rows l = length (filter (\<lambda>r. starts (en_event r)) (l_entries l))"

definition ticket_inv :: "nat \<Rightarrow> nat \<Rightarrow> agent_bus \<Rightarrow> bool" where
  "ticket_inv b k s \<longleftrightarrow>
     base_ok s \<and> b + length (ab_dispatched s) + length (ab_pending s) + k \<le> started_rows (ab_ledger s)"

lemma started_rows_put:
  "started_rows (ab_ledger s) \<le> started_rows (ab_ledger (fst (ledger_put en e s)))"
  "starts e \<Longrightarrow> snd (ledger_put en e s) = Inr i \<Longrightarrow>
     started_rows (ab_ledger (fst (ledger_put en e s))) = Suc (started_rows (ab_ledger s))"
proof -
  show "started_rows (ab_ledger s) \<le> started_rows (ab_ledger (fst (ledger_put en e s)))"
    using ledger_put_Inr [of en e s] ledger_put_Inl [of en e s]
    by (cases "snd (ledger_put en e s)") (auto simp: started_rows_def)
  show "starts e \<Longrightarrow> snd (ledger_put en e s) = Inr i \<Longrightarrow>
     started_rows (ab_ledger (fst (ledger_put en e s))) = Suc (started_rows (ab_ledger s))"
    using ledger_put_Inr [of en e s i] by (auto simp: started_rows_def)
qed

interpretation tickets: bus_invariant en "ticket_inv b" for en b
proof
  fix k s e i and ref :: int
  show "ticket_inv b (Suc k) s \<Longrightarrow> ticket_inv b k s" by (simp add: ticket_inv_def)
  show "ticket_inv b k s \<Longrightarrow> distinct (map fst (ab_pending s))" by (simp add: ticket_inv_def base_ok_def)
  show "ticket_inv b k s \<Longrightarrow> length (ab_pending s) \<le> MAX_PENDING" by (simp add: ticket_inv_def base_ok_def)
  show "ticket_inv b k s \<Longrightarrow> ticket_inv b k (fst (ledger_put en e s))"
    using started_rows_put(1) [of s en e] by (simp add: ticket_inv_def)
  show "ticket_inv b k s \<Longrightarrow> starts e \<Longrightarrow> snd (ledger_put en e s) = Inr ref \<Longrightarrow>
      ticket_inv b (Suc k) (fst (ledger_put en e s))"
    using started_rows_put(2) [of e en s ref] by (simp add: ticket_inv_def)
  show "ticket_inv b (Suc k) s \<Longrightarrow> ticket_inv b k (fst (dispatch en app tool args s))" for app tool args
    by (simp add: ticket_inv_def)
  show "ticket_inv b k s \<Longrightarrow> map_of (ab_pending s) i = Some p \<Longrightarrow>
      ticket_inv b (Suc k) (s\<lparr>ab_pending := al_del i (ab_pending s)\<rparr>)" for p
    using base_ok_taken [of s i] length_al_del [of "ab_pending s" i p]
    by (simp add: ticket_inv_def base_ok_def)
  show "ticket_inv b k s \<Longrightarrow> map_of (ab_pending s) i = Some p \<Longrightarrow>
      ticket_inv b k (s\<lparr>ab_pending := al_put i (p\<lparr>p_refusal_ledgered := True\<rparr>) (ab_pending s)\<rparr>)" for p
    by (simp add: ticket_inv_def length_al_put_present base_ok_flagged)
  show "ticket_inv b (Suc k) s \<Longrightarrow> park_ok en (ab_registry s) (ab_grant s) i p \<Longrightarrow> owner_count (p_owner p) (ab_pending s) < MAX_PENDING_PER_OWNER \<Longrightarrow>
      length (ab_pending s) < MAX_PENDING \<Longrightarrow> ticket_inv b k (s\<lparr>ab_pending := al_put i p (ab_pending s)\<rparr>)" for p
    using base_ok_parked [of s p i] by (simp add: ticket_inv_def length_al_put)
qed (simp_all add: ticket_inv_def)

end
