(* ===== verification/Agent_Bus_Sample.thy ===== *)
theory Agent_Bus_Sample
  imports Agent_Bus_Inv
begin

text \<open>
  A concrete bus on which the witnesses evaluate the handlers: a calendar app with three tools, an app that answers every call with an event id, databases that work.
\<close>

definition sample_env :: env where
  "sample_env =
     \<lparr>env_text = (\<lambda>v. ''json''), env_parse = (\<lambda>t. Some (JObj [(''event_id'', JStr ''e1'')])),
      env_hash = (\<lambda>t. ''hash''),
      env_dispatch = (\<lambda>before app tool args. Inr (JObj [(''event_id'', JStr ''e1'')])),
      env_ledger_ok = (\<lambda>n. True), env_journal_ok = (\<lambda>n. True), env_wall = int, env_journal_wall = int,
      env_db_error = ''locked'', env_fs = (\<lambda>i. sample_fs), env_iter = (\<lambda>m. m), env_owners = (\<lambda>m. m)\<rparr>"

definition sample_tool :: "string \<Rightarrow> tier \<Rightarrow> undo_decl option \<Rightarrow> tool_decl" where
  "sample_tool name t u =
     \<lparr>td_name = name, td_tier = t, td_description = ''a calendar tool'',
      td_input_schema = JObj [(''type'', JStr ''object'')], td_undo = u,
      td_raised_from = None, td_stripped = []\<rparr>"

definition sample_undo :: undo_decl where
  "sample_undo = \<lparr>ud_tool = ''delete_event'', ud_map = [(''event_id'', ''$result.event_id'')]\<rparr>"

definition sample_calendar :: manifest where
  "sample_calendar =
     sample_manifest\<lparr>m_tools := [sample_tool ''list_events'' Read None, sample_tool ''add_event'' Write (Some sample_undo),
       sample_tool ''delete_event'' Destructive None]\<rparr>"

definition sample_bus :: agent_bus where
  "sample_bus = bus_new [(''org.lisa.Calendar'', sample_calendar)] empty_ledger empty_journal sample_grant"

definition sample_read :: call_request where
  "sample_read =
     \<lparr>cr_actor = ''user'', cr_app_id = ''org.lisa.Calendar'', cr_tool = ''list_events'', cr_args = JObj [],
      cr_chain = [PUser], cr_caller = Bus '':1.7'', cr_hosts_a_model = False, cr_process = None\<rparr>"

definition sample_write :: call_request where
  "sample_write =
     sample_read\<lparr>cr_tool := ''add_event'', cr_args := JObj [(''title'', JStr ''lunch'')]\<rparr>"

text \<open>The same write from a harness, and a delete of a protected file's neighbour.\<close>

definition sample_model_write :: call_request where
  "sample_model_write = sample_write\<lparr>cr_caller := Bus '':1.9'', cr_hosts_a_model := True\<rparr>"

definition sample_refused :: call_request where
  "sample_refused = sample_read\<lparr>cr_tool := ''delete_event'', cr_args := JObj [(''where'', JStr ''/etc/passwd'')]\<rparr>"

definition sample_parked :: agent_bus where
  "sample_parked = fst (request sample_env 5 sample_write sample_bus)"

definition sample_model_parked :: agent_bus where
  "sample_model_parked = fst (request sample_env 5 sample_model_write sample_bus)"

lemma sample_env_ok: "env_ok sample_env"
  by (simp add: env_ok_def sample_env_def)

lemma sample_bus_ok: "base_ok sample_bus"
  by (simp add: base_ok_def sample_bus_def bus_new_def owner_count_def)

lemma sample_parked_reached: "bus_reach sample_env sample_bus sample_parked"
  unfolding sample_parked_def by (rule bus_reach.step [OF bus_reach.start bus_step.on_request])

lemma sample_parked_ok: "base_ok sample_parked"
proof -
  have "ticket_inv 0 0 sample_bus"
    by (simp add: ticket_inv_def base_ok_def sample_bus_def bus_new_def owner_count_def started_rows_def)
  from tickets.reached [OF sample_env_ok sample_parked_reached this] show ?thesis by (simp add: ticket_inv_def)
qed


text \<open>What the handlers make of the sample requests.\<close>

definition sample_pending :: "call_request \<Rightarrow> pending" where
  "sample_pending req =
     \<lparr>p_owner = Owner (cr_caller req), p_req = req,
      p_decl = sample_tool ''add_event'' Write (Some sample_undo), p_resolution = resolve Write [PUser],
      p_start_ref = 1, p_created = 5, p_refusal_ledgered = False\<rparr>"

lemma sample_parked_pending: "ab_pending sample_parked = [(1, sample_pending sample_write)]"
  by code_simp

lemma sample_model_parked_pending: "ab_pending sample_model_parked = [(1, sample_pending sample_model_write)]"
  by code_simp

lemma sample_confirmed_dispatch:
  "ab_dispatched (fst (confirm sample_env 6 1 True (answerer_alone (Bus '':1.7'')) sample_parked)) =
     [(''org.lisa.Calendar'', ''add_event'', JObj [(''title'', JStr ''lunch'')])]"
  by code_simp

lemma sample_released_dispatch:
  "ab_dispatched (fst (confirm sample_env 6 1 True (answerer_surface (Bus '':1.8'')) sample_model_parked)) =
     [(''org.lisa.Calendar'', ''add_event'', JObj [(''title'', JStr ''lunch'')])]"
  by code_simp

lemma sample_parked_sel:
  "ab_dispatched sample_parked = []" "ab_dispatched sample_model_parked = []" "ab_dispatched sample_bus = []"
  by code_simp+

end
