(* ===== verification/Agent_Bus_Safety.thy ===== *)
theory Agent_Bus_Safety
  imports Agent_Bus_Sample
begin

text \<open>
  What the Agent Bus guarantees: over whole runs (the bounds on parked calls, no action without a
  ledger row, the immutable history) by further interpretations of \<open>bus_invariant\<close>, and per
  handler (what a request, an answer and an undo can cause).
\<close>

section \<open>History is immutable\<close>

definition forget_state :: "journal_entry \<Rightarrow> journal_entry" where
  "forget_state e = e\<lparr>je_state := []\<rparr>"

definition history_inv :: "agent_bus \<Rightarrow> nat \<Rightarrow> agent_bus \<Rightarrow> bool" where
  "history_inv s0 k s \<longleftrightarrow>
     base_ok s \<and> ab_registry s = ab_registry s0 \<and> ab_grant s = ab_grant s0 \<and> ab_ttl s = ab_ttl s0 \<and>
     prefix (l_entries (ab_ledger s0)) (l_entries (ab_ledger s)) \<and>
     prefix (ab_dispatched s0) (ab_dispatched s) \<and>
     prefix (map forget_state (j_rows (ab_journal s0))) (map forget_state (j_rows (ab_journal s))) \<and>
     (ledger_ok (ab_ledger s0) \<longrightarrow> ledger_ok (ab_ledger s)) \<and>
     (journal_ok (ab_journal s0) \<longrightarrow> journal_ok (ab_journal s))"

lemma ledger_put_history:
  "prefix (l_entries (ab_ledger s)) (l_entries (ab_ledger (fst (ledger_put en e s))))"
  "ledger_ok (ab_ledger s) \<Longrightarrow> ledger_ok (ab_ledger (fst (ledger_put en e s)))"
  by (simp_all add: ledger_put_def Let_def ledger_append_prefix ledger_append_ok)

lemma journal_op_history:
  "journal_op en j j' \<Longrightarrow> prefix (map forget_state (j_rows j)) (map forget_state (j_rows j'))"
  "journal_op en j j' \<Longrightarrow> journal_ok j \<Longrightarrow> journal_ok j'"
proof -
  assume op: "journal_op en j j'"
  from op show "prefix (map forget_state (j_rows j)) (map forget_state (j_rows j'))"
  proof cases
    case (op_state i st)
    have "map forget_state (j_rows j') = map forget_state (j_rows j)"
      by (simp add: op_state set_state_def forget_state_def)
    then show ?thesis by simp
  qed (simp_all add: journal_record_def Let_def)
  from op show "journal_ok j \<Longrightarrow> journal_ok j'"
    by cases (simp_all add: journal_ok_record journal_ok_set_state)
qed

interpretation history: bus_invariant en "history_inv s0" for en s0
proof
  fix k s e i and ref :: int
  show "history_inv s0 (Suc k) s \<Longrightarrow> history_inv s0 k s" by (simp add: history_inv_def)
  show "history_inv s0 k s \<Longrightarrow> distinct (map fst (ab_pending s))" by (simp add: history_inv_def base_ok_def)
  show "history_inv s0 k s \<Longrightarrow> length (ab_pending s) \<le> MAX_PENDING" by (simp add: history_inv_def base_ok_def)
  have put: "history_inv s0 k s \<Longrightarrow> history_inv s0 m (fst (ledger_put en e s))" for m
    using ledger_put_history [of s en e] by (auto simp: history_inv_def intro: prefix_order.trans)
  show "history_inv s0 k s \<Longrightarrow> history_inv s0 k (fst (ledger_put en e s))" by (rule put)
  show "history_inv s0 k s \<Longrightarrow> history_inv s0 (Suc k) (fst (ledger_put en e s))" by (rule put)
  show "history_inv s0 (Suc k) s \<Longrightarrow> history_inv s0 k (fst (dispatch en app tool args s))" for app tool args
    by (auto simp: history_inv_def)
  show "history_inv s0 k s \<Longrightarrow> history_inv s0 (Suc k) (s\<lparr>ab_pending := al_del i (ab_pending s)\<rparr>)"
    using base_ok_taken [of s i] by (simp add: history_inv_def)
  show "history_inv s0 k s \<Longrightarrow> map_of (ab_pending s) i = Some p \<Longrightarrow>
      history_inv s0 k (s\<lparr>ab_pending := al_put i (p\<lparr>p_refusal_ledgered := True\<rparr>) (ab_pending s)\<rparr>)" for p
    using base_ok_flagged [of s i p] by (simp add: history_inv_def)
  show "history_inv s0 (Suc k) s \<Longrightarrow> park_ok en (ab_registry s) (ab_grant s) i p \<Longrightarrow> owner_count (p_owner p) (ab_pending s) < MAX_PENDING_PER_OWNER \<Longrightarrow>
      length (ab_pending s) < MAX_PENDING \<Longrightarrow> history_inv s0 k (s\<lparr>ab_pending := al_put i p (ab_pending s)\<rparr>)" for p
    using base_ok_parked [of s p i] by (simp add: history_inv_def)
  show "history_inv s0 k s \<Longrightarrow> journal_op en (ab_journal s) j \<Longrightarrow> history_inv s0 k (s\<lparr>ab_journal := j\<rparr>)" for j
    using journal_op_history [of en "ab_journal s" j] by (auto simp: history_inv_def intro: prefix_order.trans)
qed (simp_all add: history_inv_def)

section \<open>The refusal counter is bounded\<close>

definition refusal_inv :: "nat \<Rightarrow> agent_bus \<Rightarrow> bool" where
  "refusal_inv k s \<longleftrightarrow>
     base_ok s \<and> distinct (map fst (ab_refusals s)) \<and> length (ab_refusals s) \<le> MAX_REFUSAL_KEYS"

lemma count_refusal_inv:
  assumes "distinct (map fst (ab_refusals s))" and "length (ab_refusals s) \<le> MAX_REFUSAL_KEYS"
  shows "distinct (map fst (ab_refusals (fst (count_refusal c r s)))) \<and>
    length (ab_refusals (fst (count_refusal c r s))) \<le> MAX_REFUSAL_KEYS"
proof (cases "map_of (ab_refusals s) (c, r)")
  case None
  then have "(c, r) \<notin> fst ` set (ab_refusals s)" by (simp add: map_of_eq_None_iff)
  with None assms show ?thesis by (auto simp: count_refusal_def Let_def length_al_put)
next
  case (Some n)
  then have "(c, r) \<in> fst ` set (ab_refusals s)" by (metis domI dom_map_of_conv_image_fst)
  with Some assms show ?thesis by (auto simp: count_refusal_def Let_def length_al_put)
qed

interpretation refusals: bus_invariant en refusal_inv for en
proof
  fix k s i c r
  show "refusal_inv k s \<Longrightarrow> distinct (map fst (ab_pending s))" by (simp add: refusal_inv_def base_ok_def)
  show "refusal_inv k s \<Longrightarrow> length (ab_pending s) \<le> MAX_PENDING" by (simp add: refusal_inv_def base_ok_def)
  show "refusal_inv k s \<Longrightarrow> refusal_inv (Suc k) (s\<lparr>ab_pending := al_del i (ab_pending s)\<rparr>)"
    using base_ok_taken [of s i] by (simp add: refusal_inv_def)
  show "refusal_inv k s \<Longrightarrow> map_of (ab_pending s) i = Some p \<Longrightarrow>
      refusal_inv k (s\<lparr>ab_pending := al_put i (p\<lparr>p_refusal_ledgered := True\<rparr>) (ab_pending s)\<rparr>)" for p
    using base_ok_flagged [of s i p] by (simp add: refusal_inv_def)
  show "refusal_inv (Suc k) s \<Longrightarrow> park_ok en (ab_registry s) (ab_grant s) i p \<Longrightarrow> owner_count (p_owner p) (ab_pending s) < MAX_PENDING_PER_OWNER \<Longrightarrow>
      length (ab_pending s) < MAX_PENDING \<Longrightarrow> refusal_inv k (s\<lparr>ab_pending := al_put i p (ab_pending s)\<rparr>)" for p
    using base_ok_parked [of s p i] by (simp add: refusal_inv_def)
  show "refusal_inv k s \<Longrightarrow> refusal_inv k (fst (count_refusal c r s))"
    using count_refusal_inv [of s c r] by (simp add: refusal_inv_def)
qed (simp_all add: refusal_inv_def)

section \<open>Whatever is parked was vetted\<close>

definition parked_inv :: "env \<Rightarrow> registry \<Rightarrow> grant \<Rightarrow> nat \<Rightarrow> agent_bus \<Rightarrow> bool" where
  "parked_inv en reg g k s \<longleftrightarrow>
     base_ok s \<and> ab_registry s = reg \<and> ab_grant s = g \<and>
     (\<forall>ip \<in> set (ab_pending s). park_ok en reg g (fst ip) (snd ip))"

lemma parked_inv_at: "parked_inv en reg g k s \<Longrightarrow> map_of (ab_pending s) i = Some p \<Longrightarrow> park_ok en reg g i p"
  using map_of_SomeD [of "ab_pending s" i p] by (force simp: parked_inv_def)

interpretation parked: bus_invariant en "parked_inv en reg g" for en reg g
proof
  fix k s i
  show "parked_inv en reg g k s \<Longrightarrow> distinct (map fst (ab_pending s))" by (simp add: parked_inv_def base_ok_def)
  show "parked_inv en reg g k s \<Longrightarrow> length (ab_pending s) \<le> MAX_PENDING" by (simp add: parked_inv_def base_ok_def)
  show "parked_inv en reg g k s \<Longrightarrow> parked_inv en reg g (Suc k) (s\<lparr>ab_pending := al_del i (ab_pending s)\<rparr>)"
    using base_ok_taken [of s i] by (simp add: parked_inv_def set_al_del)
  show "parked_inv en reg g k s \<Longrightarrow> map_of (ab_pending s) i = Some p \<Longrightarrow>
      parked_inv en reg g k (s\<lparr>ab_pending := al_put i (p\<lparr>p_refusal_ledgered := True\<rparr>) (ab_pending s)\<rparr>)" for p
    using base_ok_flagged [of s i p] parked_inv_at [of en reg g k s i p]
    by (auto simp: parked_inv_def base_ok_def set_al_put park_ok_def)
  show "parked_inv en reg g (Suc k) s \<Longrightarrow> park_ok en (ab_registry s) (ab_grant s) i p \<Longrightarrow>
      owner_count (p_owner p) (ab_pending s) < MAX_PENDING_PER_OWNER \<Longrightarrow>
      length (ab_pending s) < MAX_PENDING \<Longrightarrow> parked_inv en reg g k (s\<lparr>ab_pending := al_put i p (ab_pending s)\<rparr>)" for p
    using base_ok_parked [of s p i] by (auto simp: parked_inv_def base_ok_def set_al_put)
qed (simp_all add: parked_inv_def)

section \<open>Runs\<close>

text \<open>
  C1. No ledger entry, no action, over every run. However requests, answers and undos of any
  peers are interleaved, and whatever database statements fail, the calls handed to apps plus
  the calls parked are never more than the \<open>tool.call\<close> and \<open>tool.undo\<close> rows that were written
  with status \<open>started\<close> since the bus began.
\<close>

theorem no_ledger_entry_no_action:
  assumes "env_ok en" and "bus_reach en (bus_new reg led jrn g) s"
  shows "started_rows led + length (ab_dispatched s) + length (ab_pending s) \<le> started_rows (ab_ledger s)"
proof -
  have "ticket_inv (started_rows led) 0 (bus_new reg led jrn g)"
    by (simp add: ticket_inv_def base_ok_def bus_new_def owner_count_def)
  from tickets.reached [OF assms this] show ?thesis by (simp add: ticket_inv_def)
qed

theorem no_ledger_entry_no_action_witness:
  "length (ab_pending sample_parked) = 1 \<and> 1 \<le> started_rows (ab_ledger sample_parked)"
  using no_ledger_entry_no_action [OF sample_env_ok sample_parked_reached [unfolded sample_bus_def]]
  by (simp add: sample_parked_pending)

text \<open>
  C35. The confirmation queue is bounded on every run: call ids are distinct, at most 128 calls
  are parked, at most 16 of any one peer, and the refusal counter never tracks more than 1024
  pairs.
\<close>

theorem queues_are_bounded:
  assumes "env_ok en" and "bus_reach en (bus_new reg led jrn g) s"
  shows "distinct (map fst (ab_pending s)) \<and> length (ab_pending s) \<le> 128 \<and>
    owner_count ow (ab_pending s) \<le> 16 \<and> length (ab_refusals s) \<le> 1024"
proof -
  have "refusal_inv 0 (bus_new reg led jrn g)"
    by (simp add: refusal_inv_def base_ok_def bus_new_def owner_count_def)
  from refusals.reached [OF assms this] show ?thesis
    by (simp add: refusal_inv_def base_ok_def MAX_PENDING_def MAX_PENDING_PER_OWNER_def MAX_REFUSAL_KEYS_def)
qed

theorem queues_are_bounded_witness:
  "owner_count (Owner (Bus '':1.7'')) (ab_pending sample_parked) \<le> 16 \<and> length (ab_pending sample_parked) = 1"
  using queues_are_bounded [OF sample_env_ok sample_parked_reached [unfolded sample_bus_def], of "Owner (Bus '':1.7'')"]
  by (simp add: sample_parked_pending)

text \<open>
  History is immutable on every run: the ledger and the list of dispatched calls only grow,
  ledger rows keep counting up, journal rows are never removed and change in nothing but their
  state, and no message changes the registry, the grant or the confirmation lifetime.
\<close>

theorem history_is_immutable:
  assumes "env_ok en" and "bus_reach en s0 s" and "base_ok s0"
  shows "prefix (l_entries (ab_ledger s0)) (l_entries (ab_ledger s)) \<and>
    prefix (ab_dispatched s0) (ab_dispatched s) \<and>
    prefix (map forget_state (j_rows (ab_journal s0))) (map forget_state (j_rows (ab_journal s))) \<and>
    (ledger_ok (ab_ledger s0) \<longrightarrow> ledger_ok (ab_ledger s)) \<and>
    (journal_ok (ab_journal s0) \<longrightarrow> journal_ok (ab_journal s)) \<and>
    ab_registry s = ab_registry s0 \<and> ab_grant s = ab_grant s0 \<and> ab_ttl s = ab_ttl s0"
proof -
  have "history_inv s0 0 s0" using assms(3) by (simp add: history_inv_def)
  from history.reached [OF assms(1,2) this] show ?thesis by (simp add: history_inv_def)
qed

theorem history_is_immutable_witness:
  "prefix (l_entries (ab_ledger sample_bus)) (l_entries (ab_ledger sample_parked)) \<and> ledger_ok (ab_ledger sample_parked)"
proof -
  have "ledger_ok (ab_ledger sample_bus)" by (simp add: sample_bus_def bus_new_def ledger_ok_def empty_ledger_def)
  with history_is_immutable [OF sample_env_ok sample_parked_reached sample_bus_ok] show ?thesis by blast
qed

section \<open>What the pieces of a handler leave alone\<close>

lemma ledger_deny_sel [simp]:
  "ab_dispatched (fst (ledger_deny en req r st m s)) = ab_dispatched s"
  "ab_pending (fst (ledger_deny en req r st m s)) = ab_pending s"
  "ab_registry (fst (ledger_deny en req r st m s)) = ab_registry s"
  "ab_grant (fst (ledger_deny en req r st m s)) = ab_grant s"
  "ab_journal (fst (ledger_deny en req r st m s)) = ab_journal s"
  by (simp_all add: ledger_deny_def)

lemma deny_all_sel [simp]:
  "ab_dispatched (fst (deny_all en st m ps s)) = ab_dispatched s"
  "ab_pending (fst (deny_all en st m ps s)) = ab_pending s"
  "ab_registry (fst (deny_all en st m ps s)) = ab_registry s"
  "ab_grant (fst (deny_all en st m ps s)) = ab_grant s"
  by (induction ps arbitrary: s; (simp add: attempt_def split: sum.split)?)+

lemma collect_expired_sel [simp]:
  "ab_dispatched (snd (collect_expired en now s)) = ab_dispatched s"
  "ab_registry (snd (collect_expired en now s)) = ab_registry s"
  "ab_grant (snd (collect_expired en now s)) = ab_grant s"
  by (simp_all add: collect_expired_def Let_def)

lemma evict_sel [simp]:
  "ab_dispatched (snd (evict_greediest en s)) = ab_dispatched s"
  by (simp add: evict_greediest_def Let_def split: option.split prod.split)

lemma park_dispatched [simp]:
  "ab_dispatched (fst (park en now i req decl v res ref s)) = ab_dispatched s"
  using evict_sel [of en s]
  by (cases "evict_greediest en s")
    (simp add: park_def Let_def attempt_def del: evict_sel split: option.split sum.split)

lemma refuse_sel [simp]:
  "ab_dispatched (fst (refuse en i req decl v s)) = ab_dispatched s"
  "ab_pending (fst (refuse en i req decl v s)) = ab_pending s"
  by (simp_all add: refuse_def Let_def attempt_def split: sum.split)

lemma journal_call_sel [simp]:
  "ab_dispatched (fst (journal_call en req decl res ref result s)) = ab_dispatched s"
  "ab_pending (fst (journal_call en req decl res ref result s)) = ab_pending s"
  by (simp_all add: journal_call_def Let_def)

definition call_of :: "call_request \<Rightarrow> string \<times> string \<times> json" where
  "call_of req = (cr_app_id req, cr_tool req, cr_args req)"

lemma execute_sel [simp]:
  "ab_dispatched (fst (execute en i req decl res ref s)) = ab_dispatched s @ [call_of req]"
  "ab_pending (fst (execute en i req decl res ref s)) = ab_pending s"
  using dispatch_sel [of en "cr_app_id req" "cr_tool req" "cr_args req" s]
  by (auto simp: execute_def Let_def call_of_def simp del: dispatch_sel split: prod.split sum.split)

section \<open>Requests\<close>

definition vetted :: "env \<Rightarrow> call_request \<Rightarrow> tool_decl \<Rightarrow> agent_bus \<Rightarrow> bool" where
  "vetted en req decl s \<longleftrightarrow> vetted_call en (ab_registry s) (ab_grant s) (ab_next_id s) req decl"

lemma admit_dispatched:
  "ab_dispatched (fst (admit en now i req decl s)) = ab_dispatched s \<or>
   (\<not> is_refused (judge_call en i req decl (ab_grant s)) \<and> td_tier decl = Read \<and> trusted_chain (cr_chain req) \<and>
    ab_dispatched (fst (admit en now i req decl s)) = ab_dispatched s @ [call_of req])"
proof -
  have "res_confirmation (resolve (td_tier decl) (cr_chain req)) = Silent \<Longrightarrow>
      td_tier decl = Read \<and> trusted_chain (cr_chain req)"
    by (cases "td_tier decl") (auto split: if_splits)
  then show ?thesis
    by (auto simp: admit_def Let_def attempt_def simp del: resolve_sel split: sum.split)
qed

lemma request_dispatched:
  "ab_dispatched (fst (request en now req s)) = ab_dispatched s \<or>
   (\<exists>decl. vetted en req decl s \<and> td_tier decl = Read \<and> trusted_chain (cr_chain req) \<and>
      ab_dispatched (fst (request en now req s)) = ab_dispatched s @ [call_of req])"
proof -
  let ?s0 = "s\<lparr>ab_next_id := ab_next_id s + 1\<rparr>"
  let ?c = "collect_expired en now ?s0"
  let ?d = "deny_all en ''expired'' ''confirmation expired'' (fst ?c) (snd ?c)"
  have d: "ab_dispatched (fst ?d) = ab_dispatched s" "ab_registry (fst ?d) = ab_registry s"
    "ab_grant (fst ?d) = ab_grant s" by simp_all
  show ?thesis
    using admit_dispatched [of en now "ab_next_id s" req _ "fst ?d"]
    by (auto simp: request_def Let_def attempt_def d vetted_def vetted_call_def split: sum.split option.split)
qed

lemma trusted_chain_set: "trusted_chain ch \<longleftrightarrow> set ch = {PUser}"
  by (cases ch) (auto simp: trusted_chain_def is_trusted_def)

text \<open>
  A request runs silently only when nothing about it needs a person: if a request hands any
  call to an app, it is exactly its own call, once, the tool is registered with read tier, the
  arguments conform to its schema, the action guard did not refuse it, and the trigger chain
  holds user turns only.
\<close>

theorem silent_requests:
  assumes "ab_dispatched (fst (request en now req s)) \<noteq> ab_dispatched s"
  shows "ab_dispatched (fst (request en now req s)) = ab_dispatched s @ [call_of req] \<and>
    (\<exists>decl. registry_tool (ab_registry s) (cr_app_id req) (cr_tool req) = Some decl \<and>
       td_tier decl = Read \<and> set (cr_chain req) = {PUser} \<and>
       validate_args (td_input_schema decl) (cr_args req) = Inr () \<and>
       \<not> is_refused (judge_call en (ab_next_id s) req decl (ab_grant s)))"
  using request_dispatched [of en now req s] assms
  by (auto simp: vetted_def vetted_call_def trusted_chain_set)

theorem silent_requests_witness:
  "ab_dispatched (fst (request sample_env 5 sample_read sample_bus)) = [(''org.lisa.Calendar'', ''list_events'', JObj [])]"
proof -
  have "length (ab_dispatched (fst (request sample_env 5 sample_read sample_bus))) = 1" by code_simp
  then have "ab_dispatched (fst (request sample_env 5 sample_read sample_bus)) \<noteq> ab_dispatched sample_bus"
    by (auto simp: sample_parked_sel)
  from silent_requests [OF this] show ?thesis by (simp add: sample_parked_sel call_of_def sample_read_def)
qed

lemma remove_ids_subset: "set (snd (remove_ids is m)) \<subseteq> set m"
proof (induction "is" arbitrary: m)
  case (Cons i "is")
  then show ?case
    using Cons.IH [of "al_del i m"] Cons.IH [of m]
    by (auto simp: Let_def set_al_del split: option.split)
qed simp

lemma collect_expired_subset: "set (ab_pending (snd (collect_expired en now s))) \<subseteq> set (ab_pending s)"
  using remove_ids_subset by (simp add: collect_expired_def Let_def)

text \<open>
  A refused call is never parked and never run: when the action guard refuses a request for a
  known tool with valid arguments, nothing is handed to an app, nothing is added to the parked
  calls, and the answer is a report that names the guard's rule (or the ledger's failure), so
  there is no id a dialog could approve.
\<close>

theorem refused_calls_are_never_parked:
  assumes "registry_tool (ab_registry s) (cr_app_id req) (cr_tool req) = Some decl"
    and "validate_args (td_input_schema decl) (cr_args req) = Inr ()"
    and "is_refused (judge_call en (ab_next_id s) req decl (ab_grant s))"
  shows "ab_dispatched (fst (request en now req s)) = ab_dispatched s \<and>
    set (ab_pending (fst (request en now req s))) \<subseteq> set (ab_pending s) \<and>
    (case snd (request en now req s) of
       Inl e \<Rightarrow> \<exists>x. e = BeLedger x
     | Inr r \<Rightarrow> \<exists>rule reason report. r = ORefused (ab_next_id s) rule reason report \<and>
         av_rule (judge_call en (ab_next_id s) req decl (ab_grant s)) = Some rule)"
proof -
  let ?v = "judge_call en (ab_next_id s) req decl (ab_grant s)"
  let ?c = "collect_expired en now (s\<lparr>ab_next_id := ab_next_id s + 1\<rparr>)"
  let ?d = "deny_all en ''expired'' ''confirmation expired'' (fst ?c) (snd ?c)"
  have led: "snd (ledger_put en e t) = Inl x \<Longrightarrow> \<exists>y. x = BeLedger y" for e t x
    by (cases "snd (ledger_append (env_ledger_ok en) (env_wall en) (ab_ledger t) e)")
      (auto simp: ledger_put_def Let_def)
  have dall: "snd (deny_all en st m ps t) = Inl x \<Longrightarrow> \<exists>y. x = BeLedger y" for st m ps t x
    by (induction ps arbitrary: t) (auto simp: attempt_def ledger_deny_def dest: led split: sum.splits)
  obtain rule where rule: "av_rule ?v = Some rule" using assms(3) by (cases ?v) auto
  have sub: "set (ab_pending (fst ?d)) \<subseteq> set (ab_pending s)"
    using collect_expired_subset [of en now "s\<lparr>ab_next_id := ab_next_id s + 1\<rparr>"] by simp
  show ?thesis
  proof (cases "snd ?d")
    case (Inl e)
    with sub dall [OF Inl] show ?thesis by (simp add: request_def Let_def)
  next
    case (Inr u)
    have eq: "request en now req s = refuse en (ab_next_id s) req decl ?v (fst ?d)"
      using Inr assms by (simp add: request_def Let_def admit_def)
    let ?t = "fst (count_refusal (peer_as_str (cr_caller req)) rule (fst ?d))"
    have "(case snd (refuse en (ab_next_id s) req decl ?v (fst ?d)) of
       Inl e \<Rightarrow> \<exists>x. e = BeLedger x
     | Inr r \<Rightarrow> \<exists>rule reason report. r = ORefused (ab_next_id s) rule reason report \<and> av_rule ?v = Some rule)"
      using led rule by (auto simp: refuse_def Let_def attempt_def or_default_def split: sum.split)
    then show ?thesis using sub by (simp add: eq)
  qed
qed

theorem refused_calls_are_never_parked_witness:
  "ab_pending (fst (request sample_env 5 sample_refused sample_bus)) = [] \<and>
   is_refused (judge_call sample_env 1 sample_refused (sample_tool ''delete_event'' Destructive None) sample_grant)"
proof -
  let ?decl = "sample_tool ''delete_event'' Destructive None"
  have "registry_tool (ab_registry sample_bus) (cr_app_id sample_refused) (cr_tool sample_refused) = Some ?decl"
    by code_simp
  moreover have "validate_args (td_input_schema ?decl) (cr_args sample_refused) = Inr ()" by code_simp
  moreover have r: "is_refused (judge_call sample_env 1 sample_refused ?decl sample_grant)" by code_simp
  then have "is_refused (judge_call sample_env (ab_next_id sample_bus) sample_refused ?decl (ab_grant sample_bus))"
    by (simp add: sample_bus_def bus_new_def)
  ultimately show ?thesis
    using refused_calls_are_never_parked [of sample_bus sample_refused ?decl sample_env 5] r
    by (simp add: sample_bus_def bus_new_def)
qed

section \<open>Answers\<close>

lemma confirm_cases:
  assumes "ab_dispatched (fst (confirm en now i approve a s)) \<noteq> ab_dispatched s"
  shows "\<exists>p ref. map_of (ab_pending s) i = Some p \<and> approve \<and> judge_approval (approval_of p True a) = ApAllow \<and>
    elapsed now p \<le> ab_ttl s \<and>
    snd (ledger_put en (confirm_event en p a) (s\<lparr>ab_pending := al_del i (ab_pending s)\<rparr>)) = Inr ref \<and>
    confirm en now i approve a s =
      (let r = execute en i (p_req p) (p_decl p) (p_resolution p) (p_start_ref p)
                 (fst (ledger_put en (confirm_event en p a) (s\<lparr>ab_pending := al_del i (ab_pending s)\<rparr>)))
       in (fst r, Inr (snd r)))"
proof (cases "map_of (ab_pending s) i")
  case None
  then show ?thesis using assms by (simp add: confirm_def)
next
  case (Some p)
  let ?s1 = "s\<lparr>ab_pending := al_del i (ab_pending s)\<rparr>"
  show ?thesis
  proof (cases "may_answer i p approve a")
    case (Inl err)
    with Some assms show ?thesis
      by (auto simp: confirm_def refuse_answer_def attempt_def split: if_splits sum.splits)
  next
    case (Inr u)
    have deny: "ab_dispatched (fst (attempt (ledger_deny en (p_req p) r st m ?s1) (\<lambda>_ s2. (s2, Inr x)))) = ab_dispatched s"
      for r st m and x :: outcome by (simp add: attempt_def split: sum.split)
    have c: "elapsed now p \<le> ab_ttl s" "approve"
      using Some Inr assms deny by (auto simp: confirm_def Let_def not_less [symmetric] split: if_splits)
    have j: "judge_approval (approval_of p True a) = ApAllow"
      using Inr c(2) by (auto simp: may_answer_def split: approval_verdict.splits)
    obtain ref where ref: "snd (ledger_put en (confirm_event en p a) ?s1) = Inr ref"
      using Some Inr c assms by (cases "snd (ledger_put en (confirm_event en p a) ?s1)") (auto simp: confirm_def Let_def)
    with Some Inr c j show ?thesis by (simp add: confirm_def Let_def)
  qed
qed

lemma approval_of_sel [simp]:
  "ap_approve (approval_of p b a) = b"
  "ap_is_requester (approval_of p b a) = owner_allows (p_owner p) (an_peer a)"
  "ap_owns_consent_name (approval_of p b a) = (an_consent a = RoleSurface)"
  "ap_is_consent_program (approval_of p b a) = an_is_consent_program a"
  "ap_is_requesters_process (approval_of p b a) = same_process (an_process a) (cr_process (p_req p))"
  "ap_requester_hosts_a_model (approval_of p b a) = cr_hosts_a_model (p_req p)"
  "ap_brokered (approval_of p b a) = (an_consent a \<noteq> RoleNoBroker)"
  "ap_class (approval_of p b a) = CModal \<longleftrightarrow> res_confirmation (p_resolution p) = Modal"
  "ap_class (approval_of p b a) = CChip \<longleftrightarrow> res_confirmation (p_resolution p) \<noteq> Modal"
  by (simp_all add: approval_of_def)

lemma execute_ledger: "prefix (l_entries (ab_ledger s)) (l_entries (ab_ledger (fst (execute en i req decl res ref s))))"
proof -
  obtain s1 x where eq: "dispatch en (cr_app_id req) (cr_tool req) (cr_args req) s = (s1, x)" by (rule prod.exhaust)
  then have l: "ab_ledger s1 = ab_ledger s" using dispatch_sel(4) by (metis fst_conv)
  have j: "ab_ledger (fst (journal_call en req decl res ref result s1)) = ab_ledger s" for result
    by (simp add: journal_call_def Let_def l)
  show ?thesis
  proof (cases x)
    case (Inl f)
    with eq l ledger_put_history(1) [of s1 en] show ?thesis by (simp add: execute_def)
  next
    case (Inr result)
    let ?s2 = "fst (journal_call en req decl res ref result s1)"
    show ?thesis
      using eq Inr j [of result] ledger_put_history(1) [of ?s2 en] by (simp add: execute_def Let_def)
  qed
qed

text \<open>
  C2. An answer causes an action only with authority: if answering call \<open>i\<close> hands anything to an
  app, then call \<open>i\<close> was parked, the answer approves it before it expired, it comes from an
  independent consent surface or is the requester's own chip from a peer that hosts no model,
  exactly the parked call runs, the \<open>tool.confirm\<close> row was written first, and the id is no longer
  parked, so it cannot run twice.
\<close>

theorem confirm_authority:
  assumes "base_ok s" and "ab_dispatched (fst (confirm en now i approve a s)) \<noteq> ab_dispatched s"
  shows "\<exists>p row. map_of (ab_pending s) i = Some p \<and> approve \<and> elapsed now p \<le> ab_ttl s \<and>
    (independent_surface (approval_of p True a) \<or> own_chip (approval_of p True a)) \<and>
    ab_dispatched (fst (confirm en now i approve a s)) = ab_dispatched s @ [call_of (p_req p)] \<and>
    en_event row = confirm_event en p a \<and>
    prefix (l_entries (ab_ledger s) @ [row]) (l_entries (ab_ledger (fst (confirm en now i approve a s)))) \<and>
    map_of (ab_pending (fst (confirm en now i approve a s))) i = None"
proof -
  let ?s1 = "s\<lparr>ab_pending := al_del i (ab_pending s)\<rparr>"
  obtain p ref where p: "map_of (ab_pending s) i = Some p" "approve"
      "judge_approval (approval_of p True a) = ApAllow" "elapsed now p \<le> ab_ttl s"
    and put: "snd (ledger_put en (confirm_event en p a) ?s1) = Inr ref"
    and eq: "confirm en now i approve a s =
      (let r = execute en i (p_req p) (p_decl p) (p_resolution p) (p_start_ref p)
                 (fst (ledger_put en (confirm_event en p a) ?s1)) in (fst r, Inr (snd r)))"
    using confirm_cases [OF assms(2)] by blast
  obtain row where row: "l_entries (ab_ledger (fst (ledger_put en (confirm_event en p a) ?s1))) =
      l_entries (ab_ledger s) @ [row]" "en_event row = confirm_event en p a"
    using ledger_put_Inr [OF put] by auto
  have "independent_surface (approval_of p True a) \<or> own_chip (approval_of p True a)"
    using approval_cases [of "approval_of p True a"] p(3) by simp
  moreover have "prefix (l_entries (ab_ledger s) @ [row]) (l_entries (ab_ledger (fst (confirm en now i approve a s))))"
    using execute_ledger [of "fst (ledger_put en (confirm_event en p a) ?s1)"] row(1)
    by (simp add: eq Let_def)
  moreover have "ab_dispatched (fst (confirm en now i approve a s)) = ab_dispatched s @ [call_of (p_req p)]"
    "map_of (ab_pending (fst (confirm en now i approve a s))) i = None"
    unfolding eq Let_def by simp_all
  ultimately show ?thesis using p row(2) by blast
qed

theorem confirm_authority_witness:
  "own_chip (approval_of (sample_pending sample_write) True (answerer_alone (Bus '':1.7''))) \<and>
   map_of (ab_pending (fst (confirm sample_env 6 1 True (answerer_alone (Bus '':1.7'')) sample_parked))) 1 = None"
proof -
  have "ab_dispatched (fst (confirm sample_env 6 1 True (answerer_alone (Bus '':1.7'')) sample_parked)) \<noteq>
      ab_dispatched sample_parked" by (simp add: sample_confirmed_dispatch sample_parked_sel)
  moreover have "\<not> independent_surface (approval_of (sample_pending sample_write) True (answerer_alone (Bus '':1.7'')))"
    by code_simp
  ultimately show ?thesis
    using confirm_authority [OF sample_parked_ok, of sample_env 6 1 True "answerer_alone (Bus '':1.7'')"]
    by (auto simp: sample_parked_pending)
qed

text \<open>
  A call that a model host made, and on a message bus every modal call, is released only by
  the desktop's own dialog: the answering peer owns the consent name, runs a consent program, and
  is neither the connection nor the process that asked.
\<close>

theorem only_the_dialog_releases:
  assumes "map_of (ab_pending s) i = Some p"
    and "cr_hosts_a_model (p_req p) \<or> (res_confirmation (p_resolution p) = Modal \<and> an_consent a \<noteq> RoleNoBroker)"
    and "ab_dispatched (fst (confirm en now i approve a s)) \<noteq> ab_dispatched s"
  shows "an_consent a = RoleSurface \<and> an_is_consent_program a \<and> Owner (an_peer a) \<noteq> p_owner p \<and>
    \<not> same_process (an_process a) (cr_process (p_req p))"
proof -
  have "judge_approval (approval_of p True a) = ApAllow"
    using confirm_cases [OF assms(3)] assms(1) by auto
  then have "independent_surface (approval_of p True a) \<or> own_chip (approval_of p True a)"
    using approval_cases [of "approval_of p True a"] by simp
  then show ?thesis
    using assms(2) by (cases "p_owner p") (auto simp: independent_surface_def own_chip_def verified_surface_def)
qed

theorem only_the_dialog_releases_witness:
  "an_consent (answerer_surface (Bus '':1.8'')) = RoleSurface \<and> cr_hosts_a_model sample_model_write \<and>
   Owner (an_peer (answerer_surface (Bus '':1.8''))) \<noteq> p_owner (sample_pending sample_model_write)"
  using only_the_dialog_releases
    [of sample_model_parked 1 "sample_pending sample_model_write" "answerer_surface (Bus '':1.8'')" sample_env 6 True]
  by (simp add: sample_model_parked_pending sample_released_dispatch sample_parked_sel)
    (simp add: sample_pending_def sample_model_write_def)

text \<open>
  A stranger learns and changes nothing: an answer from a peer that is not party to the call
  leaves the whole state as it was and gets, word for word, the error an unknown id gets.
\<close>

theorem strangers_change_nothing:
  assumes "map_of (ab_pending s) i = Some p" and "\<not> party (approval_of p approve a)"
  shows "fst (confirm en now i approve a s) = s \<and>
    (\<exists>e. snd (confirm en now i approve a s) = Inl e \<and>
       bus_error_text db e = bus_error_text db (BeUnknownCall i) \<and>
       snd (confirm en now i approve a (s\<lparr>ab_pending := al_del i (ab_pending s)\<rparr>)) = Inl (BeUnknownCall i))"
  using approval_cases [of "approval_of p approve a"] assms
  by (simp add: confirm_def may_answer_def refuse_answer_def)

theorem strangers_change_nothing_witness:
  "fst (confirm sample_env 6 1 True (answerer_ordinary (Bus '':1.6'')) sample_parked) = sample_parked"
proof -
  have "\<not> party (approval_of (sample_pending sample_write) True (answerer_ordinary (Bus '':1.6'')))" by code_simp
  then show ?thesis
    using strangers_change_nothing [of sample_parked 1 "sample_pending sample_write" True
        "answerer_ordinary (Bus '':1.6'')"] by (simp add: sample_parked_pending)
qed

text \<open>
  A consent refusal is recorded once per parked call: after one refused answer to a call, any
  further refused answers to it, from whoever and however often, leave the whole state alone, so
  a confirmation loop cannot flood the ledger.
\<close>

theorem refusals_are_ledgered_once:
  assumes "map_of (ab_pending s) i = Some p"
    and "may_answer i p approve a = Inl (BeNeedsConsentSurface i rule reason)"
    and "may_answer i p approve' a' = Inl e'"
  shows "fst (confirm en now' i approve' a' (fst (confirm en now i approve a s))) = fst (confirm en now i approve a s) \<and>
    length (l_entries (ab_ledger (fst (confirm en now i approve a s)))) \<le> Suc (length (l_entries (ab_ledger s)))"
proof -
  let ?flag = "p\<lparr>p_refusal_ledgered := True\<rparr>"
  let ?s1 = "fst (confirm en now i approve a s)"
  have flag: "may_answer i ?flag b c = may_answer i p b c" for b c
    by (simp add: may_answer_def approval_of_def)
  have first: "confirm en now i approve a s = refuse_answer en i p a (BeNeedsConsentSurface i rule reason) s"
    using assms(1,2) by (simp add: confirm_def)
  have "\<exists>q. map_of (ab_pending ?s1) i = Some q \<and> p_refusal_ledgered q \<and> may_answer i q approve' a' = Inl e'"
    using assms(1,3) flag by (auto simp: first refuse_answer_def attempt_def split: sum.split)
  then have again: "fst (confirm en now' i approve' a' ?s1) = ?s1"
    by (auto simp: confirm_def refuse_answer_def)
  have "length (l_entries (ab_ledger (fst (ledger_deny en req r st m t)))) \<le> Suc n"
    if "length (l_entries (ab_ledger t)) = n" for req r st m t n
    using ledger_put_Inl [of en "deny_event en req r st m" t] ledger_put_Inr [of en "deny_event en req r st m" t] that
    by (cases "snd (ledger_put en (deny_event en req r st m) t)") (auto simp: ledger_deny_def)
  then have "length (l_entries (ab_ledger ?s1)) \<le> Suc (length (l_entries (ab_ledger s)))"
    unfolding first refuse_answer_def
    by (auto intro: attemptI [where P = "\<lambda>s'. length (l_entries (ab_ledger s')) \<le> Suc (length (l_entries (ab_ledger s)))"])
  with again show ?thesis by simp
qed

theorem refusals_are_ledgered_once_witness:
  "let a = answerer_alone (Bus '':1.9''); s = fst (confirm sample_env 6 1 True a sample_model_parked)
   in fst (confirm sample_env 7 1 True a s) = s"
proof -
  let ?a = "answerer_alone (Bus '':1.9'')"
  obtain rule reason where "may_answer 1 (sample_pending sample_model_write) True ?a =
      Inl (BeNeedsConsentSurface 1 rule reason)"
  proof -
    have "\<not> own_chip (approval_of (sample_pending sample_model_write) True ?a)"
      "\<not> independent_surface (approval_of (sample_pending sample_model_write) True ?a)"
      "party (approval_of (sample_pending sample_model_write) True ?a)" by code_simp+
    then show thesis
      using approval_cases [of "approval_of (sample_pending sample_model_write) True ?a"] that
      by (cases "judge_approval (approval_of (sample_pending sample_model_write) True ?a)") (auto simp: may_answer_def)
  qed
  then show ?thesis
    using refusals_are_ledgered_once [of sample_model_parked 1 "sample_pending sample_model_write" True ?a]
    by (simp add: sample_model_parked_pending)
qed

end
