(* ===== verification/Agent_Bus_Undo.thy ===== *)
theory Agent_Bus_Undo
  imports Agent_Bus_Safety
begin

text \<open>
  The undo path of the Agent Bus and the upkeep of the parked calls: what an undo dispatches and
  which journal row it touches, that a confirmed call can be undone by the peer that made it, and
  which parked calls expiry and eviction remove.
\<close>

section \<open>Undo\<close>

lemma on_journal_sel [simp]:
  "ab_dispatched (fst (on_journal f s)) = ab_dispatched s"
  "ab_pending (fst (on_journal f s)) = ab_pending s"
  "ab_ledger (fst (on_journal f s)) = ab_ledger s"
  "ab_journal (fst (on_journal f s)) = fst (f (ab_journal s))"
  by (simp_all add: on_journal_def Let_def)

lemma on_journal_Inr: "snd (on_journal f s) = Inr x \<longleftrightarrow> snd (f (ab_journal s)) = Inr x"
  by (cases "snd (f (ab_journal s))") (simp_all add: on_journal_def Let_def)

lemma last_active_rows [simp]: "j_rows (fst (last_active ok j owner)) = j_rows j"
  by (simp add: last_active_def)

definition with_state :: "int \<Rightarrow> string \<Rightarrow> journal_entry list \<Rightarrow> journal_entry list" where
  "with_state i st rows = map (\<lambda>e. if je_id e = i then e\<lparr>je_state := st\<rparr> else e) rows"

lemma set_state_rows:
  "j_rows (fst (set_state ok j i st)) = j_rows j \<or> j_rows (fst (set_state ok j i st)) = with_state i st (j_rows j)"
  by (simp add: set_state_def with_state_def)

lemma with_state_unique:
  assumes "journal_ok j" and "j_rows j = xs @ e # ys"
  shows "with_state (je_id e) st (j_rows j) = xs @ e\<lparr>je_state := st\<rparr> # ys"
proof -
  have "\<forall>x \<in> set xs \<union> set ys. je_id x \<noteq> je_id e"
    using assms by (auto simp: journal_ok_def sorted_wrt_append)
  then show ?thesis by (simp add: assms(2) with_state_def map_idI)
qed

lemma skip_entry_cases:
  fixes s :: agent_bus
  shows "ab_dispatched (fst (skip_entry en actor e s)) = ab_dispatched s \<and>
    j_rows (ab_journal (fst (skip_entry en actor e s)))
      \<in> {j_rows (ab_journal s), with_state (je_id e) ''skipped'' (j_rows (ab_journal s))}"
proof -
  let ?P = "\<lambda>t. ab_dispatched t = ab_dispatched s \<and>
    j_rows (ab_journal t) \<in> {j_rows (ab_journal s), with_state (je_id e) ''skipped'' (j_rows (ab_journal s))}"
  show ?thesis
    unfolding skip_entry_def
    by (rule attemptI [where P = ?P], simp, rule attemptI [where P = ?P])
      (use set_state_rows in auto)
qed

lemma revert_entry_cases:
  fixes s :: agent_bus and en :: env and undo_text :: string
  defines "a \<equiv> or_default JNull (env_parse en undo_text)"
  shows "ab_dispatched (fst (revert_entry en actor e undo_tool undo_text s))
      \<in> {ab_dispatched s, ab_dispatched s @ [(je_app_id e, undo_tool, a)]} \<and>
    j_rows (ab_journal (fst (revert_entry en actor e undo_tool undo_text s)))
      \<in> {j_rows (ab_journal s), with_state (je_id e) ''undone'' (j_rows (ab_journal s))}"
proof -
  let ?P = "\<lambda>t. ab_dispatched t \<in> {ab_dispatched s, ab_dispatched s @ [(je_app_id e, undo_tool, a)]} \<and>
    j_rows (ab_journal t) \<in> {j_rows (ab_journal s), with_state (je_id e) ''undone'' (j_rows (ab_journal s))}"
  have dis: "ab_dispatched (fst (dispatch en (je_app_id e) undo_tool a t)) = ab_dispatched s @ [(je_app_id e, undo_tool, a)]"
    "ab_journal (fst (dispatch en (je_app_id e) undo_tool a t)) = ab_journal s"
    if "ab_dispatched t = ab_dispatched s" "ab_journal t = ab_journal s" for t
    using that by simp_all
  show ?thesis
    unfolding revert_entry_def Let_def a_def [symmetric]
  proof (rule attemptI [where P = ?P], simp, goal_cases)
    case (1 start_ref)
    let ?t = "fst (ledger_put en (undo_event en actor e (env_hash en undo_text)
      (''undo '' @ je_app_id e @ ''/'' @ je_tool e @ '' via '' @ undo_tool) ''started''
      (env_text en (JObj [(''journal_id'', json_int (je_id e)), (''reverts'', json_int (je_ledger_ref e))]))) s)"
    obtain s2 x where eq: "dispatch en (je_app_id e) undo_tool a ?t = (s2, x)" by (rule prod.exhaust)
    have s2: "ab_dispatched s2 = ab_dispatched s @ [(je_app_id e, undo_tool, a)]" "ab_journal s2 = ab_journal s"
      using dis [of ?t] eq by (simp_all del: dispatch_sel)
    show ?case
    proof (cases x)
      case (Inl failure)
      have "?P (fst (attempt (ledger_put en ev s2) (\<lambda>_ s3. (s3, Inr r))))" for ev and r :: undo_report
        by (rule attemptI [where P = ?P]) (simp_all add: s2)
      with eq Inl show ?thesis by simp
    next
      case (Inr result)
      have "?P (fst (attempt (ledger_put en ev s2)
          (\<lambda>_ s3. attempt (on_journal (\<lambda>j. set_state (env_journal_ok en) j (je_id e) ''undone'') s3)
             (\<lambda>_ s4. (s4, Inr r)))))" for ev and r :: undo_report
        by (rule attemptI [where P = ?P], (simp add: s2), rule attemptI [where P = ?P])
          (use s2 set_state_rows in auto)
      with eq Inr show ?thesis by simp
    qed
  qed
qed

text \<open>
  An undo reverts the caller's own newest action and nothing else: every undo leaves the
  journal rows and the dispatched calls as they were, or there is a newest active row of the
  calling peer (rows after it are not active or belong to others), only that row's state changes,
  and what is dispatched is at most that row's recorded compensation to that row's app; a row
  without a compensation is skipped and nothing is dispatched.
\<close>

theorem undo_own_newest:
  assumes "journal_ok (ab_journal s)"
  shows "let s' = fst (undo en actor caller s) in
    (j_rows (ab_journal s') = j_rows (ab_journal s) \<and> ab_dispatched s' = ab_dispatched s) \<or>
    (\<exists>xs e ys. j_rows (ab_journal s) = xs @ e # ys \<and> is_active_of (peer_as_str caller) e \<and>
       (\<forall>y \<in> set ys. \<not> is_active_of (peer_as_str caller) y) \<and>
       (case (je_undo_tool e, je_undo_args_json e) of
          (Some t, Some a) \<Rightarrow>
            ab_dispatched s' \<in> {ab_dispatched s, ab_dispatched s @ [(je_app_id e, t, or_default JNull (env_parse en a))]} \<and>
            j_rows (ab_journal s') \<in> {j_rows (ab_journal s), xs @ e\<lparr>je_state := ''undone''\<rparr> # ys}
        | _ \<Rightarrow> ab_dispatched s' = ab_dispatched s \<and>
            j_rows (ab_journal s') \<in> {j_rows (ab_journal s), xs @ e\<lparr>je_state := ''skipped''\<rparr> # ys}))"
proof -
  let ?r = "on_journal (\<lambda>j. last_active (env_journal_ok en) j (peer_as_str caller)) s"
  have same: "j_rows (ab_journal (fst ?r)) = j_rows (ab_journal s)" "ab_dispatched (fst ?r) = ab_dispatched s" by simp_all
  show ?thesis
  proof (cases "snd ?r")
    case (Inl err)
    then show ?thesis by (simp add: Let_def undo_def same)
  next
    case (Inr found)
    show ?thesis
    proof (cases found)
      case None
      with Inr show ?thesis by (simp add: Let_def undo_def same)
    next
      case (Some e)
      with Inr have "snd (last_active (env_journal_ok en) (ab_journal s) (peer_as_str caller)) = Inr (Some e)"
        by (simp add: on_journal_Inr)
      then obtain xs ys where e: "j_rows (ab_journal s) = xs @ e # ys" "is_active_of (peer_as_str caller) e"
        "\<forall>y \<in> set ys. \<not> is_active_of (peer_as_str caller) y" using last_active_Some by blast
      have st: "with_state (je_id e) st (j_rows (ab_journal s)) = xs @ e\<lparr>je_state := st\<rparr> # ys" for st
        by (rule with_state_unique [OF assms(1) e(1)])
      have skip: "ab_dispatched (fst (skip_entry en actor e (fst ?r))) = ab_dispatched s \<and>
          j_rows (ab_journal (fst (skip_entry en actor e (fst ?r)))) \<in>
            {j_rows (ab_journal s), xs @ e\<lparr>je_state := ''skipped''\<rparr> # ys}"
        using skip_entry_cases [of en actor e "fst ?r"] by (simp only: same st)
      have revert: "ab_dispatched (fst (revert_entry en actor e t a (fst ?r))) \<in>
            {ab_dispatched s, ab_dispatched s @ [(je_app_id e, t, or_default JNull (env_parse en a))]} \<and>
          j_rows (ab_journal (fst (revert_entry en actor e t a (fst ?r)))) \<in>
            {j_rows (ab_journal s), xs @ e\<lparr>je_state := ''undone''\<rparr> # ys}" for t a
        using revert_entry_cases [of en actor e t a "fst ?r"] by (simp only: same st)
      have undo_eq: "fst (undo en actor caller s) = fst (case (je_undo_tool e, je_undo_args_json e) of
                 (Some undo_tool, Some undo_text) \<Rightarrow> revert_entry en actor e undo_tool undo_text (fst ?r)
               | _ \<Rightarrow> skip_entry en actor e (fst ?r))"
        using Inr Some by (simp add: undo_def)
      show ?thesis
        unfolding Let_def undo_eq
        using e skip revert by (intro disjI2 exI [of _ xs] exI [of _ e] exI [of _ ys]) (simp split: option.split)
    qed
  qed
qed

definition sample_confirmed :: agent_bus where
  "sample_confirmed = fst (confirm sample_env 6 1 True (answerer_alone (Bus '':1.7'')) sample_parked)"

lemma sample_executed:
  "snd (confirm sample_env 6 1 True (answerer_alone (Bus '':1.7'')) sample_parked) =
     Inr (OExecuted 1 1 (JObj [(''event_id'', JStr ''e1'')]))"
  by code_simp

lemma sample_env_sel:
  "env_parse sample_env t = Some (JObj [(''event_id'', JStr ''e1'')])" "env_ledger_ok sample_env n"
  "env_journal_ok sample_env n"
  by (simp_all add: sample_env_def)

lemma sample_confirmed_ok: "journal_ok (ab_journal sample_confirmed)"
  by code_simp

theorem undo_own_newest_witness:
  "length (ab_dispatched (fst (undo sample_env ''user'' (Bus '':1.7'') sample_confirmed))) \<le>
     Suc (length (ab_dispatched sample_confirmed))"
  using undo_own_newest [OF sample_confirmed_ok, of sample_env "''user''" "Bus '':1.7''"]
  unfolding Let_def
proof (elim disjE exE conjE, goal_cases)
  case (2 xs e ys)
  then show ?case by (cases "je_undo_tool e"; cases "je_undo_args_json e") auto
qed simp

section \<open>What was confirmed can be undone\<close>

lemma dispatch_eq:
  assumes "dispatch en app tool args s = (s', x)"
  shows "ab_dispatched s' = ab_dispatched s @ [(app, tool, args)]" "ab_journal s' = ab_journal s"
  using dispatch_sel(3,5) [of en app tool args s] by (simp_all add: assms)

lemma ledger_put_up: "(\<And>n. env_ledger_ok en n) \<Longrightarrow> \<exists>i. snd (ledger_put en e s) = Inr i"
  by (simp add: ledger_put_def ledger_append_def Let_def)

lemma confirm_executed:
  assumes "snd (confirm en now i approve a s) = Inr (OExecuted i ref result)"
  shows "\<exists>p t. map_of (ab_pending s) i = Some p \<and> ref = p_start_ref p \<and>
    fst (confirm en now i approve a s) = fst (execute en i (p_req p) (p_decl p) (p_resolution p) ref t) \<and>
    snd (execute en i (p_req p) (p_decl p) (p_resolution p) ref t) = OExecuted i ref result \<and>
    ab_journal t = ab_journal s"
proof (cases "map_of (ab_pending s) i")
  case None
  then show ?thesis using assms by (simp add: confirm_def)
next
  case (Some p)
  let ?t = "fst (ledger_put en (confirm_event en p a) (s\<lparr>ab_pending := al_del i (ab_pending s)\<rparr>))"
  have ref: "snd (execute en i (p_req p) (p_decl p) (p_resolution p) (p_start_ref p) t) = OExecuted i ref result \<Longrightarrow>
      ref = p_start_ref p" for t
    by (auto simp: execute_def Let_def split: prod.splits sum.splits)
  show ?thesis
  proof (cases "may_answer i p approve a")
    case (Inl err)
    have "snd (refuse_answer en i p a err s) \<noteq> Inr (OExecuted i ref result)"
      by (simp add: refuse_answer_def attempt_def split: sum.split)
    with Some Inl assms show ?thesis by (simp add: confirm_def)
  next
    case (Inr u)
    let ?s1 = "s\<lparr>ab_pending := al_del i (ab_pending s)\<rparr>"
    have deny: "snd (attempt (ledger_deny en (p_req p) r st m ?s1) (\<lambda>_ s2. (s2, Inr (ODenied i d)))) \<noteq>
        Inr (OExecuted i ref result)" for r st m d
      by (simp add: attempt_def split: sum.split)
    have c: "\<not> ab_ttl s < elapsed now p" "approve"
      using Some Inr assms deny by (auto simp: confirm_def Let_def split: if_splits)
    obtain k where "snd (ledger_put en (confirm_event en p a) ?s1) = Inr k"
      using Some Inr c assms by (cases "snd (ledger_put en (confirm_event en p a) ?s1)") (simp_all add: confirm_def Let_def)
    with Some Inr c assms ref [of ?t] show ?thesis
      by (intro exI [of _ p] exI [of _ ?t]) (simp add: confirm_def Let_def)
  qed
qed

text \<open>The journal row of an executed call.\<close>

lemma executed_row:
  assumes "snd (execute en i req decl res ref s) = OExecuted i ref result"
    and "res_confirmation res \<noteq> Silent" and "env_journal_ok en (j_tries (ab_journal s))"
  shows "\<exists>j. j_rows (ab_journal (fst (execute en i req decl res ref s))) = j_rows (ab_journal s) @
    [new_row (env_text en) j (env_journal_wall en (j_tries (ab_journal s)))
       (new_record_of req ref result (fst (resolved_compensation decl (cr_args req) result)))]"
proof -
  obtain s1 x where eq: "dispatch en (cr_app_id req) (cr_tool req) (cr_args req) s = (s1, x)" by (rule prod.exhaust)
  then have j: "ab_journal s1 = ab_journal s" by (rule dispatch_eq(2))
  from eq assms(1) have x: "x = Inr result" by (cases x) (simp_all add: execute_def Let_def)
  show ?thesis
    using assms(2,3)
    by (intro exI [of _ "next_journal_id (j_rows (ab_journal s))"])
      (simp add: execute_def eq x Let_def journal_call_def j journal_record_def)
qed

lemma last_active_newest:
  assumes "j_rows j = rows @ [e]" and "is_active_of owner e" and "ok (j_tries j)"
  shows "snd (last_active ok j owner) = Inr (Some e)"
  using assms by (simp add: last_active_def)

text \<open>
  C34. What a person confirmed, the peer that asked can take back: when an approved call was
  executed, its tool declares an undo and the undo resolves against the result, then the very next
  undo of the requesting peer hands the app exactly the declared compensation with the resolved
  arguments, given that both databases answer and that the stored text parses back.
\<close>

theorem confirmed_calls_can_be_undone:
  assumes "map_of (ab_pending s) i = Some p" and "res_confirmation (p_resolution p) \<noteq> Silent"
    and "snd (confirm en now i approve ans s) = Inr (OExecuted i ref result)"
    and "td_undo (p_decl p) = Some u" and "resolve_undo u (cr_args (p_req p)) result = Inr a"
    and "env_parse en (env_text en a) = Some a"
    and "\<And>n. env_ledger_ok en n" and "\<And>n. env_journal_ok en n"
  shows "let s1 = fst (confirm en now i approve ans s)
    in ab_dispatched (fst (undo en actor (cr_caller (p_req p)) s1)) =
       ab_dispatched s1 @ [(cr_app_id (p_req p), ud_tool u, a)]"
proof -
  let ?s1 = "fst (confirm en now i approve ans s)" and ?owner = "peer_as_str (cr_caller (p_req p))"
  obtain t where t: "?s1 = fst (execute en i (p_req p) (p_decl p) (p_resolution p) ref t)"
      "snd (execute en i (p_req p) (p_decl p) (p_resolution p) ref t) = OExecuted i ref result"
    using confirm_executed [OF assms(3)] assms(1) by auto
  have comp: "fst (resolved_compensation (p_decl p) (cr_args (p_req p)) result) = Some (ud_tool u, a)"
    using assms(4,5) by (simp add: resolved_compensation_def)
  obtain e where rows: "j_rows (ab_journal ?s1) = j_rows (ab_journal t) @ [e]"
    and e: "is_active_of ?owner e" "je_undo_tool e = Some (ud_tool u)" "je_undo_args_json e = Some (env_text en a)"
      "je_app_id e = cr_app_id (p_req p)"
    using executed_row [OF t(2) assms(2) assms(8)]
    by (auto simp: t(1) comp new_row_def new_record_of_def is_active_of_def)
  let ?r = "on_journal (\<lambda>j. last_active (env_journal_ok en) j ?owner) ?s1"
  have found: "snd ?r = Inr (Some e)"
    using last_active_newest [OF rows e(1) assms(8)] by (simp add: on_journal_Inr)
  have "ab_dispatched (fst (revert_entry en actor e (ud_tool u) (env_text en a) (fst ?r))) =
      ab_dispatched ?s1 @ [(cr_app_id (p_req p), ud_tool u, a)]"
  proof -
    let ?ev = "undo_event en actor e (env_hash en (env_text en a))
      (''undo '' @ je_app_id e @ ''/'' @ je_tool e @ '' via '' @ ud_tool u) ''started''
      (env_text en (JObj [(''journal_id'', json_int (je_id e)), (''reverts'', json_int (je_ledger_ref e))]))"
    obtain k where k: "snd (ledger_put en ?ev (fst ?r)) = Inr k" using ledger_put_up [OF assms(7)] by blast
    obtain s2 x where eq: "dispatch en (je_app_id e) (ud_tool u) a (fst (ledger_put en ?ev (fst ?r))) = (s2, x)"
      by (rule prod.exhaust)
    have s2: "ab_dispatched s2 = ab_dispatched ?s1 @ [(cr_app_id (p_req p), ud_tool u, a)]"
      using dispatch_eq [OF eq] by (simp add: e(4))
    show ?thesis
      using k eq by (cases x) (simp_all add: revert_entry_def assms(6) or_default_def Let_def s2 attempt_def split: sum.split)
  qed
  then show ?thesis using found e by (simp add: Let_def undo_def)
qed

theorem confirmed_calls_can_be_undone_witness:
  "ab_dispatched (fst (undo sample_env ''user'' (Bus '':1.7'') sample_confirmed)) =
     [(''org.lisa.Calendar'', ''add_event'', JObj [(''title'', JStr ''lunch'')]),
      (''org.lisa.Calendar'', ''delete_event'', JObj [(''event_id'', JStr ''e1'')])]"
proof -
  let ?p = "sample_pending sample_write"
  have "res_confirmation (p_resolution ?p) \<noteq> Silent" by code_simp
  moreover have "resolve_undo sample_undo (cr_args (p_req ?p)) (JObj [(''event_id'', JStr ''e1'')]) =
      Inr (JObj [(''event_id'', JStr ''e1'')])" by code_simp
  moreover have "td_undo (p_decl ?p) = Some sample_undo" by (simp add: sample_pending_def sample_tool_def)
  ultimately show ?thesis
    using confirmed_calls_can_be_undone [of sample_parked 1 ?p sample_env 6 True "answerer_alone (Bus '':1.7'')" 1
        "JObj [(''event_id'', JStr ''e1'')]" sample_undo "JObj [(''event_id'', JStr ''e1'')]" "''user''"]
      sample_confirmed_dispatch sample_executed
    by (simp add: sample_parked_pending sample_env_sel sample_confirmed_def)
      (simp add: sample_pending_def sample_write_def sample_read_def sample_undo_def)
qed

section \<open>Upkeep of the parked calls\<close>

lemma remove_ids_split:
  assumes "distinct (map fst m)" and "distinct is" and "set is \<subseteq> fst ` set m"
  shows "set (snd (remove_ids is m)) = {ip \<in> set m. fst ip \<notin> set is} \<and>
    fst (remove_ids is m) = map (\<lambda>i. the (map_of m i)) is"
  using assms
proof (induction "is" arbitrary: m)
  case (Cons i "is")
  then obtain p where p: "map_of m i = Some p" by (auto simp: image_iff)
  let ?m = "al_del i m"
  have d: "distinct (map fst ?m)" "set is \<subseteq> fst ` set ?m"
    using Cons.prems by (simp, fastforce simp: set_al_del)
  from Cons.IH [OF d(1) _ d(2)] Cons.prems(2)
  have IH: "set (snd (remove_ids is ?m)) = {ip \<in> set ?m. fst ip \<notin> set is}"
    "fst (remove_ids is ?m) = map (\<lambda>i. the (map_of ?m i)) is" by simp_all
  have "map (\<lambda>i. the (map_of ?m i)) is = map (\<lambda>i. the (map_of m i)) is"
    using Cons.prems(2) by (auto simp: map_of_al_del)
  with IH p show ?case by (auto simp: Let_def set_al_del)
qed simp

text \<open>
  Expiry collects exactly what has expired: of the parked calls the ones older than the
  confirmation lifetime are handed back, each once, and the others stay parked unchanged.
\<close>

theorem expiry_is_exact:
  assumes "env_ok en" and "distinct (map fst (ab_pending s))"
  shows "set (ab_pending (snd (collect_expired en now s))) = {ip \<in> set (ab_pending s). elapsed now (snd ip) \<le> ab_ttl s} \<and>
    mset (fst (collect_expired en now s)) =
      image_mset snd (filter_mset (\<lambda>ip. ab_ttl s < elapsed now (snd ip)) (mset (ab_pending s)))"
proof -
  let ?m = "ab_pending s" and ?old = "\<lambda>ip. ab_ttl s < elapsed now (snd ip)"
  let ?e = "filter ?old (env_iter en ?m)"
  have ms: "mset (env_iter en ?m) = mset ?m" using assms(1) by (simp add: env_ok_def)
  then have st: "set (env_iter en ?m) = set ?m" by (rule mset_eq_setD)
  have "mset (map fst (env_iter en ?m)) = mset (map fst ?m)" by (simp add: ms)
  then have dist: "distinct (map fst (env_iter en ?m))" using assms(2) by (metis mset_eq_imp_distinct_iff)
  have "distinct (map fst ?e)" by (rule distinct_map_filter [OF dist])
  moreover have "set (map fst ?e) \<subseteq> fst ` set ?m" using st by auto
  ultimately have r: "set (snd (remove_ids (map fst ?e) ?m)) = {ip \<in> set ?m. fst ip \<notin> set (map fst ?e)}"
    "fst (remove_ids (map fst ?e) ?m) = map (\<lambda>i. the (map_of ?m i)) (map fst ?e)"
    using remove_ids_split [OF assms(2)] by blast+
  have uniq: "ip = iq" if "ip \<in> set ?m" "iq \<in> set ?m" "fst ip = fst iq" for ip iq
    using that assms(2) by (metis eq_key_imp_eq_value prod.collapse)
  have "set (snd (remove_ids (map fst ?e) ?m)) = {ip \<in> set ?m. elapsed now (snd ip) \<le> ab_ttl s}"
  proof -
    have "fst ip \<in> set (map fst ?e) \<longleftrightarrow> ?old ip" if "ip \<in> set ?m" for ip
    proof
      assume "fst ip \<in> set (map fst ?e)"
      then obtain iq where iq: "iq \<in> set ?e" "fst ip = fst iq" unfolding set_map by (elim imageE)
      then have "iq \<in> set ?m" "?old iq" using st by auto
      with uniq [OF that _ iq(2)] show "?old ip" by blast
    next
      assume "?old ip"
      then have "ip \<in> set ?e" using that st by simp
      then show "fst ip \<in> set (map fst ?e)" by simp
    qed
    then have "fst ip \<notin> set (map fst ?e) \<longleftrightarrow> elapsed now (snd ip) \<le> ab_ttl s" if "ip \<in> set ?m" for ip
      using that by (simp only: not_less [symmetric] not_not)
    then show ?thesis unfolding r by blast
  qed
  moreover have "map (\<lambda>i. the (map_of ?m i)) (map fst ?e) = map snd ?e"
    using st assms(2) by auto
  then have "mset (fst (remove_ids (map fst ?e) ?m)) = mset (map snd ?e)"
    by (simp only: r)
  then have "mset (fst (remove_ids (map fst ?e) ?m)) = image_mset snd (filter_mset ?old (mset ?m))"
    by (simp add: ms)
  ultimately show ?thesis by (simp add: collect_expired_def Let_def)
qed

theorem expiry_is_exact_witness:
  "fst (collect_expired sample_env (200 * 1000000000) sample_parked) = [sample_pending sample_write]"
proof -
  have "ab_ttl sample_parked < elapsed (200 * 1000000000) (sample_pending sample_write)" by code_simp
  with expiry_is_exact [OF sample_env_ok, of sample_parked "200 * 1000000000"] show ?thesis
    by (simp add: sample_parked_pending)
qed

text \<open>
  When the queue is full the flooder pays: a newly parked call replaces one call, that call
  belongs to a peer with the most parked calls and is the oldest of them, every other parked call
  stays, and the evicted call's \<open>tool.deny\<close> row was written.
\<close>

theorem eviction_hits_the_greediest:
  assumes "env_ok en" and "distinct (map fst (ab_pending s))" and "length (ab_pending s) = MAX_PENDING"
    and "snd (park en now i req decl v res ref s) = Inr (OAwaiting i c esc spec)"
  shows "\<exists>j q p row. map_of (ab_pending s) j = Some q \<and>
    (\<forall>ow. owner_count ow (ab_pending s) \<le> owner_count (p_owner q) (ab_pending s)) \<and>
    (\<forall>(k, q') \<in> set (ab_pending s). p_owner q' = p_owner q \<longrightarrow> p_created q \<le> p_created q') \<and>
    ab_pending (fst (park en now i req decl v res ref s)) = al_put i p (al_del j (ab_pending s)) \<and> p_req p = req \<and>
    l_entries (ab_ledger (fst (park en now i req decl v res ref s))) = l_entries (ab_ledger s) @ [row] \<and>
    ev_status (en_event row) = ''evicted''"
proof -
  have "ab_pending s \<noteq> []" using assms(3) by (auto simp: MAX_PENDING_def)
  then obtain j q where j: "evict_greediest en s = (Some q, s\<lparr>ab_pending := al_del j (ab_pending s)\<rparr>)"
      "map_of (ab_pending s) j = Some q"
      "\<forall>ow. owner_count ow (ab_pending s) \<le> owner_count (p_owner q) (ab_pending s)"
      "\<forall>(k, q') \<in> set (ab_pending s). p_owner q' = p_owner q \<longrightarrow> p_created q \<le> p_created q'"
    using evict_Some [OF assms(1,2)] by blast
  let ?s1 = "s\<lparr>ab_pending := al_del j (ab_pending s)\<rparr>"
  let ?d = "ledger_deny en (p_req q) (Some (p_start_ref q)) ''evicted'' ''evicted: too many confirmations waiting'' ?s1"
  have mine: "\<not> MAX_PENDING_PER_OWNER \<le> owner_count (Owner (cr_caller req)) (ab_pending s)"
    using assms(4) by (auto simp: park_def Let_def attempt_Inr)
  then have "\<exists>k. snd ?d = Inr k"
    using assms(3,4) by (cases "snd ?d") (simp_all add: park_def Let_def j(1))
  then obtain k where k: "snd ?d = Inr k" by blast
  obtain row where "l_entries (ab_ledger (fst ?d)) = l_entries (ab_ledger s) @ [row]" "ev_status (en_event row) = ''evicted''"
    using ledger_put_Inr [OF k [unfolded ledger_deny_def]] by (auto simp: ledger_deny_def deny_event_def)
  with j(2-4) mine k show ?thesis
    by (intro exI [of _ j] exI [of _ q] exI exI [of _ row]) (auto simp: park_def Let_def j(1) assms(3))
qed

definition sample_full :: agent_bus where
  "sample_full =
     sample_bus\<lparr>ab_pending := map (\<lambda>n. (word_of_nat (n + 10), sample_pending sample_model_write)) [0..<128]\<rparr>"

theorem eviction_hits_the_greediest_witness:
  "\<exists>j q p. map_of (ab_pending sample_full) j = Some q \<and> p_req p = sample_write \<and>
     ab_pending (fst (park sample_env 7 1 sample_write (sample_tool ''add_event'' Write None) AAllow
       (resolve Write [PUser]) 3 sample_full)) = al_put 1 p (al_del j (ab_pending sample_full))"
proof -
  have d: "distinct (map fst (ab_pending sample_full))"
    by (auto simp: sample_full_def distinct_map inj_on_def o_def word_of_nat_eq_iff take_bit_nat_eq_self)
  have l: "length (ab_pending sample_full) = MAX_PENDING" by (simp add: sample_full_def MAX_PENDING_def)
  have o: "owner_count (Owner (cr_caller sample_write)) (ab_pending sample_full) = 0"
    by (simp add: sample_full_def owner_count_def sample_pending_def sample_model_write_def sample_write_def
        sample_read_def filter_empty_conv)
  have ne: "ab_pending sample_full \<noteq> []" using l by (auto simp: MAX_PENDING_def)
  obtain i' p' where e: "evict_greediest sample_env sample_full =
      (Some p', sample_full\<lparr>ab_pending := al_del i' (ab_pending sample_full)\<rparr>)"
    using evict_Some [OF sample_env_ok d ne] by blast
  obtain k where "snd (ledger_deny sample_env (p_req p') (Some (p_start_ref p')) ''evicted''
      ''evicted: too many confirmations waiting'' (sample_full\<lparr>ab_pending := al_del i' (ab_pending sample_full)\<rparr>)) = Inr k"
    unfolding ledger_deny_def using ledger_put_up [of sample_env, OF sample_env_sel(2)] by blast
  then have "\<exists>c esc spec. snd (park sample_env 7 1 sample_write (sample_tool ''add_event'' Write None) AAllow
      (resolve Write [PUser]) 3 sample_full) = Inr (OAwaiting 1 c esc spec)"
    by (simp add: park_def Let_def o l e MAX_PENDING_PER_OWNER_def)
  then show ?thesis using eviction_hits_the_greediest [OF sample_env_ok d l] by blast
qed

section \<open>Whatever is parked was vetted\<close>

text \<open>
  On every run each parked call is one that may be shown to a person: it belongs to the peer
  that asked, its tool is registered, its arguments conform to the schema, the action guard did
  not refuse it under its own id, and its recorded tier and confirmation are what its declared
  tier and trigger chain resolve to, never silent.
\<close>

theorem parked_calls_are_vetted:
  assumes "env_ok en" and "bus_reach en (bus_new reg led jrn g) s" and "map_of (ab_pending s) i = Some p"
  shows "p_owner p = Owner (cr_caller (p_req p)) \<and>
    registry_tool reg (cr_app_id (p_req p)) (cr_tool (p_req p)) = Some (p_decl p) \<and>
    validate_args (td_input_schema (p_decl p)) (cr_args (p_req p)) = Inr () \<and>
    \<not> is_refused (judge_call en i (p_req p) (p_decl p) g) \<and>
    p_resolution p = resolve (td_tier (p_decl p)) (cr_chain (p_req p)) \<and>
    res_confirmation (p_resolution p) \<noteq> Silent"
proof -
  have "parked_inv en reg g 0 (bus_new reg led jrn g)"
    by (simp add: parked_inv_def base_ok_def bus_new_def owner_count_def)
  from parked.reached [OF assms(1,2) this] have "parked_inv en reg g 0 s" .
  from parked_inv_at [OF this assms(3)] show ?thesis unfolding park_ok_def vetted_call_def by blast
qed

theorem parked_calls_are_vetted_witness:
  "\<not> is_refused (judge_call sample_env 1 sample_write (sample_tool ''add_event'' Write (Some sample_undo)) sample_grant)"
  using parked_calls_are_vetted [OF sample_env_ok sample_parked_reached [unfolded sample_bus_def], of 1]
  by (simp add: sample_parked_pending) (simp add: sample_pending_def)

section \<open>An undo can run twice\<close>

text \<open>
  The compensation is dispatched before the journal row is marked, and a ledger that fails on the
  \<open>tool.complete\<close> row in between ends the handler: the row stays active and the next undo hands
  the app the same compensation again.
\<close>

theorem undo_can_run_twice:
  "let en = sample_env\<lparr>env_ledger_ok := (\<lambda>n. n \<noteq> 4)\<rparr>; me = Bus '':1.7'';
       s1 = fst (undo en ''user'' me sample_confirmed); s2 = fst (undo en ''user'' me s1)
   in map (\<lambda>d. fst (snd d)) (ab_dispatched s2) = [''add_event'', ''delete_event'', ''delete_event'']"
  by code_simp

end
