(* ===== verification/Peer_App.thy ===== *)
theory Peer_App
  imports Peer Guard_Path
begin

text \<open>
  Which app is calling and who may manage: \<open>libs/lisa-peer/src/app.rs\<close> and \<open>manager.rs\<close>. The file
  system is three arguments: \<open>canon\<close> is \<open>Path::canonicalize\<close> on a path as written (\<open>None\<close> when it
  fails), \<open>marker\<close> reads \<open>root/.flatpak-info\<close> of a pid under \<open>/proc\<close>, \<open>read_apps\<close> lists a directory of
  desktop files with their contents. An executable is the text the kernel reports for it.
\<close>

section \<open>Identities\<close>

datatype identity_kind = Flatpak | Host | Unattributed | BusName

fun identity_kind_str :: "identity_kind \<Rightarrow> string" where
  "identity_kind_str Flatpak = ''flatpak''"
| "identity_kind_str Host = ''host''"
| "identity_kind_str Unattributed = ''unattributed''"
| "identity_kind_str BusName = ''bus-name''"

record app_identity =
  ai_app_id :: string
  ai_kind :: identity_kind

definition identity_flatpak :: "string \<Rightarrow> app_identity" where
  "identity_flatpak app = \<lparr>ai_app_id = app, ai_kind = Flatpak\<rparr>"

definition identity_host :: "string \<Rightarrow> app_identity" where
  "identity_host app = \<lparr>ai_app_id = app, ai_kind = Host\<rparr>"

definition identity_bus_name :: "string \<Rightarrow> app_identity" where
  "identity_bus_name app = \<lparr>ai_app_id = app, ai_kind = BusName\<rparr>"

definition identity_unattributed :: "string \<Rightarrow> app_identity" where
  "identity_unattributed exe = \<lparr>ai_app_id = ''host:'' @ exe, ai_kind = Unattributed\<rparr>"

definition identity_unknown :: app_identity where
  "identity_unknown = \<lparr>ai_app_id = ''host:unknown'', ai_kind = Unattributed\<rparr>"

definition looks_flatpak_spawned :: "string \<Rightarrow> bool" where
  "looks_flatpak_spawned exe \<longleftrightarrow>
     starts_with exe ''/app/'' \<or> contains_str exe ''/flatpak/app/'' \<or> contains_str exe ''/flatpak/runtime/'' \<or>
     ends_with exe '' (deleted)''"

section \<open>Desktop files\<close>

text \<open>The loops over the lines of an INI file: whether the wanted section is open, the lines to go.\<close>

fun flatpak_name :: "bool \<Rightarrow> string list \<Rightarrow> string option" where
  "flatpak_name inside [] = None"
| "flatpak_name inside (l # ls) =
     (let line = trim l
      in if starts_with line ''['' then flatpak_name (line = ''[Application]'') ls
         else (case (if inside then strip_prefix line ''name='' else None) of
                 Some value \<Rightarrow> if trim value \<noteq> [] then Some (trim value) else flatpak_name inside ls
               | None \<Rightarrow> flatpak_name inside ls))"

definition parse_flatpak_info :: "string \<Rightarrow> string option" where
  "parse_flatpak_info contents = flatpak_name False (str_lines contents)"

record desktop_entry =
  de_id :: string
  de_exec_path :: path

definition first_word :: "string \<Rightarrow> string option" where
  "first_word s = (case split_whitespace s of [] \<Rightarrow> None | w # _ \<Rightarrow> Some w)"

fun exec_program :: "bool \<Rightarrow> string list \<Rightarrow> string option" where
  "exec_program inside [] = None"
| "exec_program inside (l # ls) =
     (let line = trim l
      in if starts_with line ''['' then exec_program (line = ''[Desktop Entry]'') ls
         else (case (if inside then strip_prefix line ''Exec='' else None) of
                 Some exec \<Rightarrow> first_word exec
               | None \<Rightarrow> exec_program inside ls))"

definition parse_exec_program :: "string \<Rightarrow> string option" where
  "parse_exec_program contents = exec_program False (str_lines contents)"

definition SYSTEM_BIN_DIRS :: "string list" where
  "SYSTEM_BIN_DIRS = [''/usr/local/bin'', ''/usr/bin'', ''/bin'', ''/usr/local/sbin'', ''/usr/sbin'', ''/sbin'']"

definition resolve_exec_program :: "(path \<Rightarrow> path option) \<Rightarrow> string \<Rightarrow> string list \<Rightarrow> path option" where
  "resolve_exec_program canon program bin_dirs =
     (let p = path_components program
      in if is_absolute p then canon p
         else (case file_name p of
                 None \<Rightarrow> None
               | Some name \<Rightarrow>
                   if \<not> path_eq (path_components name) p then None
                   else find_map (\<lambda>dir. canon (path_join (path_components dir) name)) bin_dirs))"

definition INTERPRETERS :: "string list" where
  "INTERPRETERS =
     [''gjs'', ''gjs-console'', ''lisa-app'', ''python'', ''python2'', ''python3'', ''node'', ''nodejs'', ''perl'',
      ''ruby'', ''sh'', ''bash'', ''dash'', ''zsh'', ''env'', ''flatpak'', ''wine'']"

definition lends_identity :: "path \<Rightarrow> bool" where
  "lends_identity exec_path \<longleftrightarrow>
     (case file_name exec_path of Some name \<Rightarrow> name \<notin> set INTERPRETERS | None \<Rightarrow> True)"

text \<open>\<open>str::trim_end_matches\<close> with a string pattern.\<close>

definition trim_end_matches :: "string \<Rightarrow> string \<Rightarrow> string" where
  "trim_end_matches s p = rev (trim_start_matches (rev s) (rev p))"

definition desktop_entry_of :: "(path \<Rightarrow> path option) \<Rightarrow> string \<Rightarrow> string \<Rightarrow> string list \<Rightarrow> desktop_entry option" where
  "desktop_entry_of canon i contents bin_dirs =
     (case parse_exec_program contents of
        None \<Rightarrow> None
      | Some program \<Rightarrow>
          (case resolve_exec_program canon program bin_dirs of
             None \<Rightarrow> None
           | Some exec_path \<Rightarrow>
               if \<not> lends_identity exec_path then None
               else Some \<lparr>de_id = trim_end_matches i ''.desktop'', de_exec_path = exec_path\<rparr>))"

section \<open>Who is calling\<close>

definition host_identity :: "string \<Rightarrow> desktop_entry list \<Rightarrow> app_identity" where
  "host_identity exe entries =
     (case List.find (\<lambda>e. path_eq (de_exec_path e) (path_components exe)) entries of
        Some e \<Rightarrow> identity_host (de_id e)
      | None \<Rightarrow> identity_unattributed exe)"

definition LISA_NAME_PREFIXES :: "string list" where
  "LISA_NAME_PREFIXES = [''app.lisaos.'', ''dev.lisaos.'']"

definition name_element :: "string \<Rightarrow> bool" where
  "name_element seg \<longleftrightarrow> seg \<noteq> [] \<and> list_all (\<lambda>c. is_ascii_alnum c \<or> c = CHR ''_'') seg"

definition is_lisa_app_name :: "string \<Rightarrow> bool" where
  "is_lisa_app_name name \<longleftrightarrow>
     (case find_map (strip_prefix name) LISA_NAME_PREFIXES of
        None \<Rightarrow> False
      | Some tail \<Rightarrow> tail \<noteq> [] \<and> list_all name_element (split_on (\<lambda>c. c = CHR ''.'') tail))"

definition owned_name_identity :: "string \<Rightarrow> string \<Rightarrow> string option \<Rightarrow> app_identity option" where
  "owned_name_identity caller name owner =
     (if \<not> is_lisa_app_name name then None
      else if starts_with name '':'' \<or> caller = [] then None
      else (case owner of
              None \<Rightarrow> None
            | Some o' \<Rightarrow> if o' = caller then Some (identity_bus_name name) else None))"

definition identity_of ::
    "(32 word \<Rightarrow> string option) \<Rightarrow> desktop_entry list \<Rightarrow> 32 word \<Rightarrow> string option \<Rightarrow> app_identity" where
  "identity_of marker entries pid exe =
     (case Option.bind (marker pid) parse_flatpak_info of
        Some app \<Rightarrow>
          if (case exe of None \<Rightarrow> True | Some e \<Rightarrow> looks_flatpak_spawned e) then identity_flatpak app
          else (case exe of Some e \<Rightarrow> host_identity e entries | None \<Rightarrow> identity_unknown)
      | None \<Rightarrow> (case exe of Some e \<Rightarrow> host_identity e entries | None \<Rightarrow> identity_unknown))"

text \<open>\<open>Result::ok\<close>.\<close>

fun result_ok :: "'e + 'a \<Rightarrow> 'a option" where
  "result_ok (Inl e) = None"
| "result_ok (Inr x) = Some x"

definition identify ::
    "bool \<Rightarrow> (nat \<Rightarrow> string option) \<Rightarrow> (32 word \<Rightarrow> string option) \<Rightarrow> (32 word \<Rightarrow> string option) \<Rightarrow>
     desktop_entry list \<Rightarrow> peer \<Rightarrow> app_identity" where
  "identify linux fdinfo exe_link marker entries p =
     (case pid_of_peer linux fdinfo p of
        Inl e \<Rightarrow> identity_unknown
      | Inr pid \<Rightarrow> identity_of marker entries pid (result_ok (exe_of_peer linux fdinfo exe_link p)))"

text \<open>The data directories and the desktop files in them, in the order they are read.\<close>

definition data_dirs :: "string option \<Rightarrow> string option \<Rightarrow> string option \<Rightarrow> path list" where
  "data_dirs xdg_home home xdg_dirs =
     (case xdg_home of
        Some h \<Rightarrow> [path_components h]
      | None \<Rightarrow> (case home of Some h \<Rightarrow> [path_join (path_components h) ''.local/share''] | None \<Rightarrow> [])) @
     map path_components
       (case xdg_dirs of Some ps \<Rightarrow> split_on (\<lambda>c. c = CHR '':'') ps | None \<Rightarrow> [''/usr/local/share'', ''/usr/share''])"

definition file_entry :: "(path \<Rightarrow> path option) \<Rightarrow> string list \<Rightarrow> string \<times> string option \<Rightarrow> desktop_entry list" where
  "file_entry canon bin_dirs nc =
     (case nc of
        (name, Some contents) \<Rightarrow>
          if ends_with name ''.desktop''
          then (case desktop_entry_of canon name contents bin_dirs of None \<Rightarrow> [] | Some e \<Rightarrow> [e])
          else []
      | (name, None) \<Rightarrow> [])"

definition scan_desktop_entries ::
    "(path \<Rightarrow> path option) \<Rightarrow> (path \<Rightarrow> (string \<times> string option) list option) \<Rightarrow> path list \<Rightarrow> string list \<Rightarrow>
     desktop_entry list" where
  "scan_desktop_entries canon read_apps dirs bin_dirs =
     concat (map (\<lambda>dir. case read_apps (path_join dir ''applications'') of
                          None \<Rightarrow> []
                        | Some files \<Rightarrow> concat (map (file_entry canon bin_dirs) files)) dirs)"

section \<open>Who may manage (manager.rs)\<close>

definition DEFAULT_MANAGERS :: "string list" where
  "DEFAULT_MANAGERS =
     [''/usr/lib/lisa/bin/lisa'', ''/var/lib/lisa-apps/payloads/runtime/current/bin/lisa'',
      ''/var/lib/lisa/apps/payloads/runtime/current/bin/lisa'', ''/usr/bin/gnome-control-center'']"

datatype manager_refusal = NotOurUser | UnidentifiedCaller | NotAManager

definition may_manage :: "bool \<Rightarrow> path option \<Rightarrow> path list \<Rightarrow> manager_refusal + unit" where
  "may_manage same_user exe managers =
     (if \<not> same_user then Inl NotOurUser
      else (case exe of
              None \<Rightarrow> Inl UnidentifiedCaller
            | Some e \<Rightarrow> if \<exists>m \<in> set managers. path_eq m e then Inr () else Inl NotAManager))"

definition resolve_managers :: "(path \<Rightarrow> path option) \<Rightarrow> path list \<Rightarrow> path list" where
  "resolve_managers canon configured = List.map_filter canon configured"

definition default_managers :: "path list" where
  "default_managers = map path_components DEFAULT_MANAGERS"

section \<open>Facts\<close>

lemma desktop_entry_lends: "desktop_entry_of canon i contents dirs = Some e \<Longrightarrow> lends_identity (de_exec_path e)"
  by (auto simp: desktop_entry_of_def split: option.splits if_splits)

lemma file_entry_lends:
  assumes "e \<in> set (file_entry canon bins (name, c))"
  shows "lends_identity (de_exec_path e)"
proof (cases c)
  case (Some contents)
  with assms have "e \<in> set (case desktop_entry_of canon name contents bins of None \<Rightarrow> [] | Some e \<Rightarrow> [e])"
    by (cases "ends_with name ''.desktop''") (simp_all add: file_entry_def)
  then show ?thesis using desktop_entry_lends by (cases "desktop_entry_of canon name contents bins") auto
qed (use assms in \<open>simp add: file_entry_def\<close>)

lemma scanned_entries_lend:
  assumes "e \<in> set (scan_desktop_entries canon read_apps dirs bins)"
  shows "lends_identity (de_exec_path e)"
proof -
  from assms obtain files where "e \<in> set (concat (map (file_entry canon bins) files))"
    by (auto simp: scan_desktop_entries_def split: option.splits)
  then obtain nc where "e \<in> set (file_entry canon bins nc)" by auto
  then show ?thesis using file_entry_lends by (cases nc) blast
qed

lemma host_identity_cases:
  "host_identity exe entries = identity_unattributed exe \<or>
   (\<exists>e \<in> set entries. path_eq (de_exec_path e) (path_components exe) \<and> host_identity exe entries = identity_host (de_id e))"
proof (cases "List.find (\<lambda>e. path_eq (de_exec_path e) (path_components exe)) entries")
  case None
  then show ?thesis by (simp add: host_identity_def)
next
  case (Some e)
  then have "e \<in> set entries" "path_eq (de_exec_path e) (path_components exe)"
    by (auto simp: find_Some_iff)
  with Some show ?thesis by (auto simp: host_identity_def)
qed

text \<open>What stands behind an identity of each kind.\<close>

definition attested ::
    "bool \<Rightarrow> (nat \<Rightarrow> string option) \<Rightarrow> (32 word \<Rightarrow> string option) \<Rightarrow> (32 word \<Rightarrow> string option) \<Rightarrow>
     desktop_entry list \<Rightarrow> peer \<Rightarrow> app_identity \<Rightarrow> bool" where
  "attested linux fdinfo exe_link marker entries p i =
     (case ai_kind i of
        Host \<Rightarrow>
          (\<exists>e \<in> set entries. \<exists>exe. de_id e = ai_app_id i \<and> lends_identity (de_exec_path e) \<and>
             exe_of_peer linux fdinfo exe_link p = Inr exe \<and> path_eq (de_exec_path e) (path_components exe))
      | Flatpak \<Rightarrow>
          (\<exists>pid info. pid_of_peer linux fdinfo p = Inr pid \<and> marker pid = Some info \<and>
             parse_flatpak_info info = Some (ai_app_id i)) \<and>
          (\<forall>exe. exe_of_peer linux fdinfo exe_link p = Inr exe \<longrightarrow> looks_flatpak_spawned exe)
      | Unattributed \<Rightarrow> starts_with (ai_app_id i) ''host:''
      | BusName \<Rightarrow> False)"


definition sample_desktop_file :: string where
  "sample_desktop_file = ''[Desktop Entry]'' @ [CHR 10] @ ''Exec=evince %U'' @ [CHR 10]"

definition sample_canon :: "path \<Rightarrow> path option" where
  "sample_canon p = (if p = path_components ''/usr/bin/evince'' \<or> p = path_components ''/home/m/evil'' then Some p else None)"

definition sample_apps :: "path \<Rightarrow> (string \<times> string option) list option" where
  "sample_apps d =
     (if d = path_components ''/usr/share/applications''
      then Some [(''org.gnome.Evince.desktop'', Some sample_desktop_file)] else None)"

definition sample_entries :: "desktop_entry list" where
  "sample_entries = scan_desktop_entries sample_canon sample_apps (data_dirs None (Some ''/home/m'') None) SYSTEM_BIN_DIRS"

definition sample_peer :: peer where
  "sample_peer = \<lparr>peer_conn = Bus '':1.7'', peer_uid = Some 1000, peer_pid = Some 7, peer_fd = Some 3\<rparr>"

definition sample_fdinfo :: "nat \<Rightarrow> string option" where
  "sample_fdinfo fd = Some (''Pid: 7'' @ [CHR 10])"

lemma sample_pid: "pid_of_peer True sample_fdinfo sample_peer = Inr 7"
proof -
  have "find_map (\<lambda>l. strip_prefix l ''Pid:'') (str_lines (''Pid: 7'' @ [CHR 10])) = Some '' 7''" "trim '' 7'' = ''7''"
    by code_simp+
  then show ?thesis
    by (simp add: pid_of_peer_def sample_peer_def sample_fdinfo_def pid_of_pidfd_def parse_u32_def is_ascii_digit_def)
qed

lemma sample_identify:
  "identify True sample_fdinfo exe_link marker entries sample_peer = identity_of marker entries 7 (result_ok (exe_of_pid True exe_link 7))"
  by (simp add: identify_def exe_of_peer_def sample_pid)


text \<open>
  The comment of \<open>resolve_exec_program\<close> excludes a desktop file that points at a user-writable
  location; the absolute branch resolves any path, so it lends the name of the file it lies in.
\<close>

definition dropped_desktop_file :: string where
  "dropped_desktop_file = ''[Desktop Entry]'' @ [CHR 10] @ ''Exec=/home/m/evil'' @ [CHR 10]"

theorem dropped_desktop_file_lends_its_name:
  "desktop_entry_of sample_canon ''org.gnome.TextEditor.desktop'' dropped_desktop_file SYSTEM_BIN_DIRS =
     Some \<lparr>de_id = ''org.gnome.TextEditor'', de_exec_path = path_components ''/home/m/evil''\<rparr>"
  by code_simp

text \<open>
  A process whose executable was unlinked has no readable executable, so nothing corroborates its
  marker and it is believed.
\<close>

definition forged_marker :: string where
  "forged_marker = ''[Application]'' @ [CHR 10] @ ''name=org.gnome.Calculator'' @ [CHR 10]"

theorem unlinked_executable_forges_a_sandbox:
  "identify True sample_fdinfo (\<lambda>_. Some ''/tmp/x (deleted)'') (\<lambda>_. Some forged_marker) [] sample_peer =
     identity_flatpak ''org.gnome.Calculator''"
  unfolding sample_identify by code_simp

end
