(* ===== verification/Portal_Grants.thy ===== *)
theory Portal_Grants
  imports Lisa_Prelude Json "HOL-Library.Char_ord" "HOL-Library.List_Lexorder" "HOL-Library.Product_Lexorder"
begin

text \<open>
  The stores and policies behind the portal: \<open>grants.rs\<close>, \<open>quota.rs\<close> and \<open>consent.rs\<close> of
  \<open>portals/xdg-desktop-portal-lisa\<close>. The SQLite file is the list of logged actions in id order and the
  usage table; \<open>ok n\<close> says whether the n-th statement on it succeeds. An \<open>i64\<close> is an \<open>int\<close> with
  \<open>saturating_add\<close> written out, a \<open>u64\<close> of seconds a \<open>nat\<close>, whose subtraction saturates at zero.
\<close>

section \<open>The grant log (grants.rs)\<close>

datatype grant_action = GaAllow | GaAllowOnce | GaDeny | GaDenyOnce | GaRevoke

fun grant_action_str :: "grant_action \<Rightarrow> string" where
  "grant_action_str GaAllow = ''allow''"
| "grant_action_str GaAllowOnce = ''allow_once''"
| "grant_action_str GaDeny = ''deny''"
| "grant_action_str GaDenyOnce = ''deny_once''"
| "grant_action_str GaRevoke = ''revoke''"

definition is_persistent :: "grant_action \<Rightarrow> bool" where
  "is_persistent a \<longleftrightarrow> \<not> (a = GaAllowOnce \<or> a = GaDenyOnce)"

datatype effective = Allowed | Denied | Unset

fun effective_str :: "effective \<Rightarrow> string" where
  "effective_str Allowed = ''allowed''"
| "effective_str Denied = ''denied''"
| "effective_str Unset = ''unset''"

record grant_row =
  gr_app_id :: string
  gr_scope :: string
  gr_state :: effective

record logged_action =
  la_id :: int
  la_ts :: int
  la_app_id :: string
  la_scope :: string
  la_action :: string

record grant_store =
  gs_actions :: "logged_action list"
  gs_usage :: "((string \<times> string) \<times> int) list"
  gs_tries :: nat

datatype grant_error = GrantDb

definition empty_store :: grant_store where
  "empty_store = \<lparr>gs_actions = [], gs_usage = [], gs_tries = 0\<rparr>"

definition store_tried :: "grant_store \<Rightarrow> grant_store" where
  "store_tried g = g\<lparr>gs_tries := Suc (gs_tries g)\<rparr>"

definition next_action_id :: "logged_action list \<Rightarrow> int" where
  "next_action_id rows = (if rows = [] then 1 else la_id (last rows) + 1)"

definition record_at ::
    "(nat \<Rightarrow> bool) \<Rightarrow> string \<Rightarrow> string \<Rightarrow> grant_action \<Rightarrow> int \<Rightarrow> grant_store \<Rightarrow> grant_store \<times> (grant_error + int)" where
  "record_at ok app scope act ts g =
     (let i = next_action_id (gs_actions g)
      in if ok (gs_tries g)
         then ((store_tried g)\<lparr>gs_actions := gs_actions g @
                 [\<lparr>la_id = i, la_ts = ts, la_app_id = app, la_scope = scope, la_action = grant_action_str act\<rparr>]\<rparr>, Inr i)
         else (store_tried g, Inl GrantDb))"

definition is_about :: "string \<Rightarrow> string \<Rightarrow> logged_action \<Rightarrow> bool" where
  "is_about app scope a \<longleftrightarrow> la_app_id a = app \<and> la_scope a = scope"

text \<open>The rows the two queries for a persistent decision select.\<close>

definition decides :: "string \<Rightarrow> string \<Rightarrow> logged_action \<Rightarrow> bool" where
  "decides app scope a \<longleftrightarrow> is_about app scope a \<and> la_action a \<noteq> ''allow_once'' \<and> la_action a \<noteq> ''deny_once''"

definition state_of_text :: "string option \<Rightarrow> effective" where
  "state_of_text last_action =
     (if last_action = Some ''allow'' then Allowed else if last_action = Some ''deny'' then Denied else Unset)"

definition effective_in :: "logged_action list \<Rightarrow> string \<Rightarrow> string \<Rightarrow> effective" where
  "effective_in rows app scope = state_of_text (map_option la_action (List.find (decides app scope) (rev rows)))"

definition effective_of ::
    "(nat \<Rightarrow> bool) \<Rightarrow> string \<Rightarrow> string \<Rightarrow> grant_store \<Rightarrow> grant_store \<times> (grant_error + effective)" where
  "effective_of ok app scope g =
     (store_tried g, if ok (gs_tries g) then Inr (effective_in (gs_actions g) app scope) else Inl GrantDb)"

fun rows_of ::
    "(nat \<Rightarrow> bool) \<Rightarrow> (string \<times> string) list \<Rightarrow> grant_store \<Rightarrow> grant_store \<times> (grant_error + grant_row list)" where
  "rows_of ok [] g = (g, Inr [])"
| "rows_of ok ((app, scope) # ps) g =
     (case effective_of ok app scope g of
        (g1, Inl e) \<Rightarrow> (g1, Inl e)
      | (g1, Inr st) \<Rightarrow>
          (case rows_of ok ps g1 of
             (g2, Inl e) \<Rightarrow> (g2, Inl e)
           | (g2, Inr rows) \<Rightarrow> (g2, Inr (\<lparr>gr_app_id = app, gr_scope = scope, gr_state = st\<rparr> # rows))))"

definition list_grants :: "(nat \<Rightarrow> bool) \<Rightarrow> grant_store \<Rightarrow> grant_store \<times> (grant_error + grant_row list)" where
  "list_grants ok g =
     (if ok (gs_tries g)
      then rows_of ok (sort (remdups (map (\<lambda>a. (la_app_id a, la_scope a)) (gs_actions g)))) (store_tried g)
      else (store_tried g, Inl GrantDb))"

definition last_persistent :: "logged_action list \<Rightarrow> string \<Rightarrow> string \<Rightarrow> int" where
  "last_persistent rows app scope =
     (case List.find (decides app scope) (rev rows) of None \<Rightarrow> 0 | Some a \<Rightarrow> la_id a)"

definition counts_as_refusal :: "string \<Rightarrow> string \<Rightarrow> int \<Rightarrow> int \<Rightarrow> logged_action \<Rightarrow> bool" where
  "counts_as_refusal app scope since after a \<longleftrightarrow>
     is_about app scope a \<and> la_action a = ''deny_once'' \<and> since \<le> la_ts a \<and> after < la_id a"

text \<open>The first query's failure counts as no persistent decision.\<close>

definition refusals_since ::
    "(nat \<Rightarrow> bool) \<Rightarrow> string \<Rightarrow> string \<Rightarrow> int \<Rightarrow> grant_store \<Rightarrow> grant_store \<times> (grant_error + nat)" where
  "refusals_since ok app scope since g =
     (let after = (if ok (gs_tries g) then last_persistent (gs_actions g) app scope else 0);
          g1 = store_tried g
      in (store_tried g1,
          if ok (gs_tries g1)
          then Inr (length (filter (counts_as_refusal app scope since after) (gs_actions g)))
          else Inl GrantDb))"

section \<open>The daily budget\<close>

definition I64_MAX :: int where
  "I64_MAX = 2 ^ 63 - 1"

definition saturating_add :: "int \<Rightarrow> int \<Rightarrow> int" where
  "saturating_add a b = max (- (2 ^ 63)) (min I64_MAX (a + b))"

definition usage :: "grant_store \<Rightarrow> string \<Rightarrow> string \<Rightarrow> int" where
  "usage g app day = (case map_of (gs_usage g) (app, day) of None \<Rightarrow> 0 | Some n \<Rightarrow> n)"

definition tokens_used ::
    "(nat \<Rightarrow> bool) \<Rightarrow> string \<Rightarrow> string \<Rightarrow> grant_store \<Rightarrow> grant_store \<times> (grant_error + int)" where
  "tokens_used ok app day g = (store_tried g, if ok (gs_tries g) then Inr (usage g app day) else Inl GrantDb)"

text \<open>The read, the write and the commit are one transaction: it is written whole or not at all.\<close>

definition try_spend_tokens ::
    "(nat \<Rightarrow> bool) \<Rightarrow> string \<Rightarrow> string \<Rightarrow> int \<Rightarrow> int \<Rightarrow> grant_store \<Rightarrow> grant_store \<times> (grant_error + bool)" where
  "try_spend_tokens ok app day tokens cap g =
     (let used = usage g app day; g1 = store_tried g
      in if \<not> ok (gs_tries g) then (g1, Inl GrantDb)
         else if cap < saturating_add used tokens then (g1, Inr False)
         else if \<not> ok (gs_tries g1) then (store_tried g1, Inl GrantDb)
         else ((store_tried g1)\<lparr>gs_usage := al_put (app, day) (used + tokens) (gs_usage g)\<rparr>, Inr True))"

section \<open>Quotas (quota.rs)\<close>

record quota_config =
  qc_requests_per_min :: nat
  qc_tokens_per_day :: int
  qc_max_sessions_per_app :: nat
  qc_assumed_output_tokens :: int

definition default_quota :: quota_config where
  "default_quota =
     \<lparr>qc_requests_per_min = 120, qc_tokens_per_day = 500000, qc_max_sessions_per_app = 16,
      qc_assumed_output_tokens = 2048\<rparr>"

datatype quota_exceeded = QuotaRate | QuotaTokens | QuotaSessions

definition day_key :: "nat \<Rightarrow> string" where
  "day_key now = ''day-'' @ nat_str (now div 86400)"

type_synonym quota_book = "(string \<times> nat list) list"

definition recent :: "nat \<Rightarrow> nat list \<Rightarrow> nat list" where
  "recent now window = dropWhile (\<lambda>t. 60 \<le> now - t) window"

definition window_of :: "quota_book \<Rightarrow> string \<Rightarrow> nat list" where
  "window_of b app = (case map_of b app of None \<Rightarrow> [] | Some w \<Rightarrow> w)"

definition check_request ::
    "string \<Rightarrow> quota_config \<Rightarrow> nat \<Rightarrow> quota_book \<Rightarrow> quota_book \<times> (quota_exceeded + unit)" where
  "check_request app cfg now b =
     (let w = recent now (window_of b app)
      in if qc_requests_per_min cfg \<le> length w then (al_put app w b, Inl QuotaRate)
         else (al_put app (w @ [now]) b, Inr ()))"

definition estimate_tokens :: "string \<Rightarrow> int" where
  "estimate_tokens text = int (length (split_whitespace text))"

definition output_reservation :: "int option \<Rightarrow> quota_config \<Rightarrow> int" where
  "output_reservation max_tokens cfg =
     (case max_tokens of
        Some n \<Rightarrow> if 0 < n then min n (qc_tokens_per_day cfg) else 0
      | None \<Rightarrow> qc_assumed_output_tokens cfg)"

definition generation_cost :: "string \<Rightarrow> int option \<Rightarrow> quota_config \<Rightarrow> int" where
  "generation_cost prompt max_tokens cfg =
     saturating_add (estimate_tokens prompt) (output_reservation max_tokens cfg)"

section \<open>Consent (consent.rs)\<close>

record consent_reply =
  re_allow :: bool
  re_remember :: bool

datatype authorization = Granted "grant_action option" | Refused "grant_action option"

definition authorize :: "effective \<Rightarrow> consent_reply option \<Rightarrow> authorization" where
  "authorize st reply =
     (case st of
        Allowed \<Rightarrow> Granted None
      | Denied \<Rightarrow> Refused None
      | Unset \<Rightarrow>
          (case reply of
             None \<Rightarrow> Refused (Some GaDenyOnce)
           | Some r \<Rightarrow>
               if re_allow r then Granted (Some (if re_remember r then GaAllow else GaAllowOnce))
               else Refused (Some (if re_remember r then GaDeny else GaDenyOnce))))"

definition needs_prompt :: "effective \<Rightarrow> bool" where
  "needs_prompt st \<longleftrightarrow> st = Unset"

record prompt_policy =
  pp_max_refusals :: nat
  pp_window_ms :: int

definition default_prompt_policy :: prompt_policy where
  "default_prompt_policy = \<lparr>pp_max_refusals = 3, pp_window_ms = 15 * 60 * 1000\<rparr>"

definition window_start :: "prompt_policy \<Rightarrow> int \<Rightarrow> int" where
  "window_start p now = max (saturating_add now (- pp_window_ms p)) 0"

definition may_prompt :: "prompt_policy \<Rightarrow> nat \<Rightarrow> bool" where
  "may_prompt p refusals \<longleftrightarrow> refusals < pp_max_refusals p"

end
