(* ===== verification/Portal.thy ===== *)
theory Portal
  imports Portal_Grants Peer_App Ledger
begin

text \<open>
  The portal: \<open>portals/xdg-desktop-portal-lisa/src/portal.rs\<close>. \<open>OpenSession\<close> waits twice, for the person
  at the consent dialog and for the daemon, and other calls run in between; so it is three handlers
  here, and \<open>po_opening\<close> holds the requests that wait. Every other handler is one step. What the
  daemon, the dialog and the object server answer are arguments; \<open>po_upstream\<close> is what the daemon
  was asked.
\<close>

section \<open>State\<close>

definition SCOPE_INFERENCE :: string where
  "SCOPE_INFERENCE = ''inference''"

record live_session =
  ls_app_id :: string
  ls_scope :: string
  ls_path :: string
  ls_upstream :: nat

record portal_session =
  ps_id :: string
  ps_app_id :: string
  ps_owner :: owner
  ps_upstream :: nat

text \<open>A waiting \<open>OpenSession\<close>: at the dialog, or at the daemon.\<close>

datatype waiting = AtDialog | AtDaemon

record open_request =
  op_app :: app_identity
  op_peer :: peer_id
  op_waiting :: waiting

text \<open>What the daemon was asked; a generation or an embedding is noted with its app, day and charge.\<close>

datatype upstream_call =
    UpOpen string
  | UpGenerate nat string string int string
  | UpEmbed nat string string int "string list"
  | UpCancel nat
  | UpClose nat

record portal =
  po_quota_cfg :: quota_config
  po_prompt_policy :: prompt_policy
  po_managers :: "path list"
  po_grants :: grant_store
  po_ledger :: ledger
  po_quota :: quota_book
  po_sessions :: "(string \<times> live_session) list"
  po_objects :: "(string \<times> portal_session) list"
  po_next_session :: "64 word"
  po_opening :: "(nat \<times> open_request) list"
  po_tickets :: nat
  po_upstream :: "upstream_call list"

text \<open>
  The environment: who a peer is (\<open>IdentityResolver\<close>), its executable, the keyed \<open>blake3\<close> tokens, the
  hash, the file system of \<open>resolve_managers\<close>, the databases with their clock and error texts, and
  our own user id.
\<close>

record portal_env =
  pe_identify :: "peer \<Rightarrow> app_identity"
  pe_exe :: "peer \<Rightarrow> string option"
  pe_us :: "32 word"
  pe_token :: "64 word \<Rightarrow> string"
  pe_hash :: "string \<Rightarrow> string"
  pe_canon :: "path \<Rightarrow> path option"
  pe_grants_ok :: "nat \<Rightarrow> bool"
  pe_ledger_ok :: "nat \<Rightarrow> bool"
  pe_wall :: "nat \<Rightarrow> int"
  pe_grants_error :: string
  pe_ledger_error :: string

datatype fdo_error = AccessDenied string | FdoFailed string | LimitsExceeded string | UnknownObject string

definition portal_new ::
    "quota_config \<Rightarrow> prompt_policy \<Rightarrow> path list \<Rightarrow> grant_store \<Rightarrow> ledger \<Rightarrow> portal" where
  "portal_new cfg policy managers grants led =
     \<lparr>po_quota_cfg = cfg, po_prompt_policy = policy, po_managers = managers, po_grants = grants,
      po_ledger = led, po_quota = [], po_sessions = [], po_objects = [], po_next_session = 1,
      po_opening = [], po_tickets = 0, po_upstream = []\<rparr>"

section \<open>Stores and helpers\<close>

text \<open>A store operation with its error as the caller sees it (\<open>store_err\<close>, \<open>LedgerError\<close>).\<close>

definition with_grants ::
    "portal_env \<Rightarrow> (grant_store \<Rightarrow> grant_store \<times> (grant_error + 'a)) \<Rightarrow> portal \<Rightarrow> portal \<times> (fdo_error + 'a)" where
  "with_grants en f s =
     (let r = f (po_grants s)
      in (s\<lparr>po_grants := fst r\<rparr>, map_sum (\<lambda>e. FdoFailed (''grant store unavailable: '' @ pe_grants_error en)) id (snd r)))"

definition ledger_note :: "portal_env \<Rightarrow> event \<Rightarrow> portal \<Rightarrow> portal" where
  "ledger_note en e s = s\<lparr>po_ledger := fst (ledger_append (pe_ledger_ok en) (pe_wall en) (po_ledger s) e)\<rparr>"

definition ledger_gate :: "portal_env \<Rightarrow> event \<Rightarrow> portal \<Rightarrow> portal \<times> (fdo_error + int)" where
  "ledger_gate en e s =
     (let r = ledger_append (pe_ledger_ok en) (pe_wall en) (po_ledger s) e
      in (s\<lparr>po_ledger := fst r\<rparr>,
          map_sum (\<lambda>x. FdoFailed (''refusing to act without a ledger entry: ledger unavailable: '' @ pe_ledger_error en)) id (snd r)))"

definition check_rate :: "string \<Rightarrow> nat \<Rightarrow> portal \<Rightarrow> portal \<times> (fdo_error + unit)" where
  "check_rate app now s =
     (let r = check_request app (po_quota_cfg s) now (po_quota s)
      in (s\<lparr>po_quota := fst r\<rparr>,
          map_sum (\<lambda>x. LimitsExceeded ''per-app request rate exceeded (requests/min quota)'') id (snd r)))"

definition ask_upstream :: "upstream_call \<Rightarrow> portal \<Rightarrow> portal" where
  "ask_upstream c s = s\<lparr>po_upstream := po_upstream s @ [c]\<rparr>"

definition open_sessions_for :: "string \<Rightarrow> portal \<Rightarrow> nat" where
  "open_sessions_for app s = length (filter (\<lambda>(i, x). ls_app_id x = app) (po_sessions s))"

definition session_path :: "string \<Rightarrow> string" where
  "session_path token = ''/dev/lisaos/portal/session/'' @ token"

definition no_such_session :: "string \<Rightarrow> fdo_error" where
  "no_such_session path = UnknownObject (''Unknown object '' @ [CHR 39] @ path @ [CHR 39])"

definition grant_event :: "string \<Rightarrow> string \<Rightarrow> string \<Rightarrow> event" where
  "grant_event app status detail =
     default_event\<lparr>ev_kind := ''context.grant'', ev_app_id := app, ev_status := status, ev_detail := detail\<rparr>"

section \<open>Opening a session\<close>

text \<open>The last part of \<open>authorize_scope\<close>, from \<open>authorize\<close> on.\<close>

definition settle_consent ::
    "portal_env \<Rightarrow> int \<Rightarrow> app_identity \<Rightarrow> effective \<Rightarrow> consent_reply option \<Rightarrow> portal \<Rightarrow> portal \<times> (fdo_error + unit)" where
  "settle_consent en ms app st reply s =
     (let i = ai_app_id app; scope = SCOPE_INFERENCE; who = identity_kind_str (ai_kind app)
      in case authorize st reply of
           Granted None \<Rightarrow> (s, Inr ())
         | Granted (Some act) \<Rightarrow>
             attempt (with_grants en (record_at (pe_grants_ok en) i scope act ms) s)
               (\<lambda>_ s1. attempt (ledger_gate en (grant_event i ''allowed''
                    (''scope='' @ scope @ '' action='' @ grant_action_str act @ '' identity='' @ who)) s1)
                  (\<lambda>_ s2. (s2, Inr ())))
         | Refused recorded \<Rightarrow>
             attempt (case recorded of
                        None \<Rightarrow> (s, Inr 0)
                      | Some act \<Rightarrow> with_grants en (record_at (pe_grants_ok en) i scope act ms) s)
               (\<lambda>_ s1. (ledger_note en (grant_event i ''denied'' (''scope='' @ scope @ '' identity='' @ who)) s1,
                  Inl (AccessDenied (i @ '' has no `'' @ scope @ ''` grant'')))))"

text \<open>Past consent: the ledger row of the session, then the daemon is asked.\<close>

definition ask_daemon ::
    "portal_env \<Rightarrow> app_identity \<Rightarrow> peer_id \<Rightarrow> portal \<Rightarrow> portal \<times> (fdo_error + nat)" where
  "ask_daemon en app p s =
     attempt (ledger_gate en
         (default_event\<lparr>ev_kind := ''inference.session'', ev_app_id := ai_app_id app, ev_status := ''started'',
            ev_detail := ''portal scope='' @ SCOPE_INFERENCE @ '' identity='' @ identity_kind_str (ai_kind app)\<rparr>) s)
       (\<lambda>_ s1.
          (let s2 = ask_upstream (UpOpen (ai_app_id app)) s1; t = po_tickets s2
           in (s2\<lparr>po_opening := po_opening s2 @ [(t, \<lparr>op_app = app, op_peer = p, op_waiting = AtDaemon\<rparr>)],
                  po_tickets := Suc t\<rparr>, Inr t)))"

text \<open>
  The first part of \<open>open_session\<close>, up to the first wait. \<open>Inr\<close> is the ticket of the request that
  now waits.
\<close>

definition open_begin ::
    "portal_env \<Rightarrow> nat \<Rightarrow> int \<Rightarrow> peer option \<Rightarrow> portal \<Rightarrow> portal \<times> (fdo_error + nat)" where
  "open_begin en secs ms caller s =
     (case caller of
        None \<Rightarrow> (s, Inl (AccessDenied ''the caller could not be identified -- refusing''))
      | Some p \<Rightarrow>
          (let app = pe_identify en p; i = ai_app_id app; scope = SCOPE_INFERENCE
           in attempt (check_rate i secs s)
                (\<lambda>_ s1.
                   if qc_max_sessions_per_app (po_quota_cfg s1) \<le> open_sessions_for i s1
                   then (s1, Inl (LimitsExceeded ''too many open sessions for this app''))
                   else attempt (with_grants en (effective_of (pe_grants_ok en) i scope) s1)
                     (\<lambda>st s2.
                        if needs_prompt st
                        then attempt (with_grants en (refusals_since (pe_grants_ok en) i scope
                                        (window_start (po_prompt_policy s2) ms)) s2)
                          (\<lambda>refusals s3.
                             if \<not> may_prompt (po_prompt_policy s3) refusals
                             then (ledger_note en (grant_event i ''denied''
                                     (''scope='' @ scope @ '' reason=prompt-cooldown refusals='' @ nat_str refusals)) s3,
                                   Inl (AccessDenied (i @ '' was refused `'' @ scope @
                                     ''` several times just now -- it cannot ask again yet'')))
                             else (s3\<lparr>po_opening := po_opening s3 @
                                       [(po_tickets s3, \<lparr>op_app = app, op_peer = peer_conn p, op_waiting = AtDialog\<rparr>)],
                                     po_tickets := Suc (po_tickets s3)\<rparr>, Inr (po_tickets s3)))
                        else attempt (settle_consent en ms app st None s2)
                          (\<lambda>_ s3. ask_daemon en app (peer_conn p) s3)))))"

text \<open>The dialog answered (or never will: \<open>None\<close>).\<close>

definition open_answered ::
    "portal_env \<Rightarrow> int \<Rightarrow> nat \<Rightarrow> consent_reply option \<Rightarrow> portal \<Rightarrow> portal \<times> (fdo_error + nat)" where
  "open_answered en ms ticket reply s =
     (case map_of (po_opening s) ticket of
        Some r \<Rightarrow>
          if op_waiting r = AtDialog
          then attempt (settle_consent en ms (op_app r) Unset reply (s\<lparr>po_opening := al_del ticket (po_opening s)\<rparr>))
                 (\<lambda>_ s1. ask_daemon en (op_app r) (op_peer r) s1)
          else (s, Inl (FdoFailed ''not at the dialog''))
      | None \<Rightarrow> (s, Inl (FdoFailed ''no such request'')))"

text \<open>The daemon answered; \<open>registration\<close> is the error of the object server, if it refused the object.\<close>

definition open_finish ::
    "portal_env \<Rightarrow> nat \<Rightarrow> string + nat \<Rightarrow> string option \<Rightarrow> portal \<Rightarrow> portal \<times> (fdo_error + string)" where
  "open_finish en ticket upstream registration s =
     (case map_of (po_opening s) ticket of
        Some r \<Rightarrow>
          if op_waiting r = AtDaemon
          then (let s1 = s\<lparr>po_opening := al_del ticket (po_opening s)\<rparr>; i = ai_app_id (op_app r)
                in case upstream of
                     Inl e \<Rightarrow> (s1, Inl (FdoFailed e))
                   | Inr h \<Rightarrow>
                       (let token = pe_token en (po_next_session s1); path = session_path token;
                            s2 = s1\<lparr>po_next_session := po_next_session s1 + 1\<rparr>
                        in case registration of
                             Some e \<Rightarrow> (s2, Inl (FdoFailed (''registering session: '' @ e)))
                           | None \<Rightarrow>
                               (s2\<lparr>po_objects := al_put path
                                     \<lparr>ps_id = token, ps_app_id = i, ps_owner = Owner (op_peer r), ps_upstream = h\<rparr>
                                     (po_objects s2),
                                   po_sessions := al_put token
                                     \<lparr>ls_app_id = i, ls_scope = SCOPE_INFERENCE, ls_path = path, ls_upstream = h\<rparr>
                                     (po_sessions s2)\<rparr>, Inr path)))
          else (s, Inl (FdoFailed ''not at the daemon''))
      | None \<Rightarrow> (s, Inl (FdoFailed ''no such request'')))"

section \<open>Using a session\<close>

text \<open>
  \<open>require_owner\<close> on the object at the path; \<open>caller\<close> is \<open>PeerId::of\<close>. A path without an object is
  answered by the object server.
\<close>

definition own_session ::
    "string \<Rightarrow> peer_error + peer_id \<Rightarrow> portal \<Rightarrow> fdo_error + portal_session" where
  "own_session path caller s =
     (case map_of (po_objects s) path of
        None \<Rightarrow> Inl (no_such_session path)
      | Some x \<Rightarrow>
          (case caller of
             Inl e \<Rightarrow> Inl (no_such_session path)
           | Inr i \<Rightarrow>
               (case owner_require (ps_owner x) i of
                  Inl e \<Rightarrow> Inl (no_such_session path)
                | Inr u \<Rightarrow> Inr x)))"

definition quota_gate ::
    "portal_env \<Rightarrow> nat \<Rightarrow> string \<Rightarrow> int \<Rightarrow> portal \<Rightarrow> portal \<times> (fdo_error + unit)" where
  "quota_gate en now app tokens s =
     attempt (check_rate app now s)
       (\<lambda>_ s1. attempt (with_grants en
            (try_spend_tokens (pe_grants_ok en) app (day_key now) tokens (qc_tokens_per_day (po_quota_cfg s1))) s1)
          (\<lambda>admitted s2.
             if admitted then (s2, Inr ())
             else (s2, Inl (LimitsExceeded ''per-app daily token budget exceeded (tokens/day quota)''))))"

text \<open>The variants a D-Bus value of \<open>max_tokens\<close> can hold; \<open>u64 as i64\<close> wraps.\<close>

datatype token_variant = VI64 int | VU32 nat | VI32 int | VU64 nat | VU16 nat | VOther

fun max_tokens_of :: "token_variant option \<Rightarrow> int option" where
  "max_tokens_of None = None"
| "max_tokens_of (Some (VI64 n)) = Some n"
| "max_tokens_of (Some (VU32 n)) = Some (int n)"
| "max_tokens_of (Some (VI32 n)) = Some n"
| "max_tokens_of (Some (VU64 n)) = Some (if n < 2 ^ 63 then int n else int n - 2 ^ 64)"
| "max_tokens_of (Some (VU16 n)) = Some (int n)"
| "max_tokens_of (Some VOther) = None"

definition inference_event :: "portal_env \<Rightarrow> string \<Rightarrow> string \<Rightarrow> string \<Rightarrow> string \<Rightarrow> event" where
  "inference_event en kind app input shown =
     default_event\<lparr>ev_kind := kind, ev_app_id := app, ev_input_hash := pe_hash en input,
       ev_preview := preview_of shown, ev_status := ''started'', ev_detail := ''portal''\<rparr>"

definition generate ::
    "portal_env \<Rightarrow> nat \<Rightarrow> string \<Rightarrow> peer_error + peer_id \<Rightarrow> string \<Rightarrow> token_variant option \<Rightarrow> portal \<Rightarrow>
     portal \<times> (fdo_error + unit)" where
  "generate en now path caller prompt max_tokens s =
     (case own_session path caller s of
        Inl e \<Rightarrow> (s, Inl e)
      | Inr x \<Rightarrow>
          (let cost = generation_cost prompt (max_tokens_of max_tokens) (po_quota_cfg s); i = ps_app_id x
           in attempt (quota_gate en now i cost s)
                (\<lambda>_ s1. attempt (ledger_gate en (inference_event en ''inference.generate'' i prompt prompt) s1)
                   (\<lambda>_ s2. (ask_upstream (UpGenerate (ps_upstream x) i (day_key now) cost prompt) s2, Inr ())))))"

definition embed ::
    "portal_env \<Rightarrow> nat \<Rightarrow> string \<Rightarrow> peer_error + peer_id \<Rightarrow> string list \<Rightarrow> portal \<Rightarrow> portal \<times> (fdo_error + unit)" where
  "embed en now path caller texts s =
     (case own_session path caller s of
        Inl e \<Rightarrow> (s, Inl e)
      | Inr x \<Rightarrow>
          (let joined = join [CHR 10] texts; cost = estimate_tokens joined; i = ps_app_id x
           in attempt (quota_gate en now i cost s)
                (\<lambda>_ s1. attempt (ledger_gate en (inference_event en ''inference.embed'' i joined (join '' | '' texts)) s1)
                   (\<lambda>_ s2. (ask_upstream (UpEmbed (ps_upstream x) i (day_key now) cost texts) s2, Inr ())))))"

definition cancel :: "string \<Rightarrow> peer_error + peer_id \<Rightarrow> portal \<Rightarrow> portal \<times> (fdo_error + unit)" where
  "cancel path caller s =
     (case own_session path caller s of
        Inl e \<Rightarrow> (s, Inl e)
      | Inr x \<Rightarrow> (ask_upstream (UpCancel (ps_upstream x)) s, Inr ()))"

definition close :: "string \<Rightarrow> peer_error + peer_id \<Rightarrow> portal \<Rightarrow> portal \<times> (fdo_error + unit)" where
  "close path caller s =
     (case own_session path caller s of
        Inl e \<Rightarrow> (s, Inl e)
      | Inr x \<Rightarrow>
          ((ask_upstream (UpClose (ps_upstream x)) (s\<lparr>po_sessions := al_del (ps_id x) (po_sessions s)\<rparr>))
             \<lparr>po_objects := al_del path (po_objects s)\<rparr>, Inr ()))"

section \<open>Managing grants\<close>

fun manager_refusal_text :: "manager_refusal \<Rightarrow> string" where
  "manager_refusal_text NotOurUser = ''grant management is refused to callers from another user''"
| "manager_refusal_text UnidentifiedCaller = ''the caller could not be identified, so it cannot manage grants''"
| "manager_refusal_text NotAManager = ''only Settings and the lisa CLI can change this''"

definition caller_may_manage :: "portal_env \<Rightarrow> portal \<Rightarrow> peer \<Rightarrow> manager_refusal + unit" where
  "caller_may_manage en s p =
     may_manage (is_same_user_as_us (pe_us en) p) (map_option path_components (pe_exe en p))
       (resolve_managers (pe_canon en) (po_managers s))"

definition require_manager :: "portal_env \<Rightarrow> peer option \<Rightarrow> portal \<Rightarrow> portal \<times> (fdo_error + unit)" where
  "require_manager en caller s =
     (let refuse = (\<lambda>detail. (ledger_note en (grant_event ''portal'' ''denied'' detail) s,
                              Inl (AccessDenied ''only Settings and the lisa CLI can change grants'')))
      in case caller of
           None \<Rightarrow> refuse ''grant management: caller unidentified''
         | Some p \<Rightarrow>
             (case caller_may_manage en s p of
                Inr u \<Rightarrow> (s, Inr ())
              | Inl why \<Rightarrow>
                  refuse (''grant management refused: '' @ manager_refusal_text why @ '' exe='' @
                    (case pe_exe en p of Some e \<Rightarrow> e | None \<Rightarrow> ''?''))))"

definition record_action ::
    "portal_env \<Rightarrow> int \<Rightarrow> string \<Rightarrow> string \<Rightarrow> grant_action \<Rightarrow> string \<Rightarrow> portal \<Rightarrow> portal \<times> (fdo_error + unit)" where
  "record_action en ms app scope act status s =
     attempt (with_grants en (record_at (pe_grants_ok en) app scope act ms) s)
       (\<lambda>_ s1. attempt (ledger_gate en (grant_event app status
            (''scope='' @ scope @ '' action='' @ grant_action_str act @ '' via=settings'')) s1)
          (\<lambda>_ s2. (s2, Inr ())))"

definition grants_list ::
    "portal_env \<Rightarrow> peer option \<Rightarrow> portal \<Rightarrow> portal \<times> (fdo_error + (string \<times> string \<times> string) list)" where
  "grants_list en caller s =
     attempt (require_manager en caller s)
       (\<lambda>_ s1. attempt (with_grants en (list_grants (pe_grants_ok en)) s1)
          (\<lambda>rows s2. (s2, Inr (map (\<lambda>r. (gr_app_id r, gr_scope r, effective_str (gr_state r))) rows))))"

definition grants_grant :: "portal_env \<Rightarrow> int \<Rightarrow> peer option \<Rightarrow> string \<Rightarrow> string \<Rightarrow> portal \<Rightarrow> portal \<times> (fdo_error + unit)" where
  "grants_grant en ms caller app scope s =
     attempt (require_manager en caller s) (\<lambda>_. record_action en ms app scope GaAllow ''allowed'')"

definition grants_deny :: "portal_env \<Rightarrow> int \<Rightarrow> peer option \<Rightarrow> string \<Rightarrow> string \<Rightarrow> portal \<Rightarrow> portal \<times> (fdo_error + unit)" where
  "grants_deny en ms caller app scope s =
     attempt (require_manager en caller s) (\<lambda>_. record_action en ms app scope GaDeny ''denied'')"

definition is_session_of :: "string \<Rightarrow> string \<Rightarrow> live_session \<Rightarrow> bool" where
  "is_session_of app scope x \<longleftrightarrow> ls_app_id x = app \<and> ls_scope x = scope"

definition take_sessions :: "string \<Rightarrow> string \<Rightarrow> portal \<Rightarrow> live_session list \<times> portal" where
  "take_sessions app scope s =
     (map snd (filter (\<lambda>(i, x). is_session_of app scope x) (po_sessions s)),
      s\<lparr>po_sessions := filter (\<lambda>(i, x). \<not> is_session_of app scope x) (po_sessions s)\<rparr>)"

fun close_all :: "live_session list \<Rightarrow> portal \<Rightarrow> portal" where
  "close_all [] s = s"
| "close_all (x # xs) s =
     close_all xs ((ask_upstream (UpClose (ls_upstream x)) s)\<lparr>po_objects := al_del (ls_path x) (po_objects s)\<rparr>)"

definition revoke_sessions :: "string \<Rightarrow> string \<Rightarrow> portal \<Rightarrow> portal \<times> (fdo_error + nat)" where
  "revoke_sessions app scope s =
     (let r = take_sessions app scope s in (close_all (fst r) (snd r), Inr (length (fst r))))"

definition grants_revoke :: "portal_env \<Rightarrow> int \<Rightarrow> peer option \<Rightarrow> string \<Rightarrow> string \<Rightarrow> portal \<Rightarrow> portal \<times> (fdo_error + nat)" where
  "grants_revoke en ms caller app scope s =
     attempt (require_manager en caller s)
       (\<lambda>_ s1. attempt (record_action en ms app scope GaRevoke ''revoked'' s1)
          (\<lambda>_ s2. revoke_sessions app scope s2))"

section \<open>Runs\<close>

text \<open>What reaches the portal, and the state after it.\<close>

datatype portal_msg =
    MOpen nat int "peer option"
  | MDialog int nat "consent_reply option"
  | MDaemon nat "string + nat" "string option"
  | MGenerate nat string "peer_error + peer_id" string "token_variant option"
  | MEmbed nat string "peer_error + peer_id" "string list"
  | MCancel string "peer_error + peer_id"
  | MClose string "peer_error + peer_id"
  | MList "peer option"
  | MGrant int "peer option" string string
  | MDeny int "peer option" string string
  | MRevoke int "peer option" string string

fun handle :: "portal_env \<Rightarrow> portal_msg \<Rightarrow> portal \<Rightarrow> portal" where
  "handle en (MOpen secs ms caller) s = fst (open_begin en secs ms caller s)"
| "handle en (MDialog ms ticket reply) s = fst (open_answered en ms ticket reply s)"
| "handle en (MDaemon ticket upstream registration) s = fst (open_finish en ticket upstream registration s)"
| "handle en (MGenerate now path who prompt max_tokens) s = fst (generate en now path who prompt max_tokens s)"
| "handle en (MEmbed now path who texts) s = fst (embed en now path who texts s)"
| "handle en (MCancel path who) s = fst (cancel path who s)"
| "handle en (MClose path who) s = fst (close path who s)"
| "handle en (MList caller) s = fst (grants_list en caller s)"
| "handle en (MGrant ms caller app scope) s = fst (grants_grant en ms caller app scope s)"
| "handle en (MDeny ms caller app scope) s = fst (grants_deny en ms caller app scope s)"
| "handle en (MRevoke ms caller app scope) s = fst (grants_revoke en ms caller app scope s)"

definition portal_run :: "portal_env \<Rightarrow> portal_msg list \<Rightarrow> portal \<Rightarrow> portal" where
  "portal_run en msgs s = fold (handle en) msgs s"

end
