(* ===== verification/Portal_Inv.thy ===== *)
theory Portal_Inv
  imports Portal "HOL-Library.Sublist"
begin

text \<open>
  The portal's handlers as runs of small moves. \<open>micro\<close> lists every way a handler touches the state,
  with the guard the handler has established by then; each handler is a run of such moves, so an
  invariant is proved once per move. The locale \<open>portal_invariant\<close> carries it to every run of
  messages. Its instances here: each session goes back to consent, the daemon is never asked without
  a ledger row, the budget, and the logs that only grow.
\<close>

section \<open>Moves\<close>

definition allows_row :: "string \<Rightarrow> logged_action \<Rightarrow> bool" where
  "allows_row app a \<longleftrightarrow>
     is_about app SCOPE_INFERENCE a \<and> (la_action a = ''allow'' \<or> la_action a = ''allow_once'')"

definition has_allow :: "string \<Rightarrow> portal \<Rightarrow> bool" where
  "has_allow app s \<longleftrightarrow> (\<exists>a \<in> set (gs_actions (po_grants s)). allows_row app a)"

text \<open>The ledger row a call to the daemon needs, and the account it is charged to.\<close>

fun call_row :: "upstream_call \<Rightarrow> (string \<times> string) option" where
  "call_row (UpOpen app) = Some (''inference.session'', app)"
| "call_row (UpGenerate h app day cost prompt) = Some (''inference.generate'', app)"
| "call_row (UpEmbed h app day cost texts) = Some (''inference.embed'', app)"
| "call_row (UpCancel h) = None"
| "call_row (UpClose h) = None"

fun call_charge :: "upstream_call \<Rightarrow> ((string \<times> string) \<times> int) option" where
  "call_charge (UpGenerate h app day cost prompt) = Some ((app, day), cost)"
| "call_charge (UpEmbed h app day cost texts) = Some ((app, day), cost)"
| "call_charge c = None"

text \<open>What \<open>generate\<close> and \<open>embed\<close> share.\<close>

definition charge ::
    "portal_env \<Rightarrow> nat \<Rightarrow> string \<Rightarrow> int \<Rightarrow> event \<Rightarrow> upstream_call \<Rightarrow> portal \<Rightarrow> portal \<times> (fdo_error + unit)" where
  "charge en now app cost ev c s =
     attempt (quota_gate en now app cost s)
       (\<lambda>_ s1. attempt (ledger_gate en ev s1) (\<lambda>_ s2. (ask_upstream c s2, Inr ())))"

inductive micro :: "portal_env \<Rightarrow> portal \<Rightarrow> portal \<Rightarrow> bool" for en where
  rate: "micro en s (s\<lparr>po_quota := q\<rparr>)"
| noted: "micro en s (ledger_note en e s)"
| look: "micro en s (s\<lparr>po_grants := store_tried (po_grants s)\<rparr>)"
| decide: "micro en s (s\<lparr>po_grants := fst (record_at (pe_grants_ok en) app sc act ts (po_grants s))\<rparr>)"
| at_dialog: "op_waiting r = AtDialog \<Longrightarrow>
    micro en s (s\<lparr>po_opening := po_opening s @ [(po_tickets s, r)], po_tickets := Suc (po_tickets s)\<rparr>)"
| answered: "micro en s (s\<lparr>po_opening := al_del t (po_opening s)\<rparr>)"
| asked: "has_allow (ai_app_id app) s \<Longrightarrow> micro en s (fst (ask_daemon en app p s))"
| registered: "micro en s (fst (open_finish en t u reg s))"
| charged: "call_row c = Some (ev_kind ev, ev_app_id ev) \<Longrightarrow> call_charge c = Some ((app, day_key now), cost) \<Longrightarrow>
    (0 \<le> qc_tokens_per_day (po_quota_cfg s) \<Longrightarrow> 0 \<le> qc_assumed_output_tokens (po_quota_cfg s) \<Longrightarrow> 0 \<le> cost) \<Longrightarrow>
    micro en s (fst (charge en now app cost ev c s))"
| told: "call_row c = None \<Longrightarrow> call_charge c = None \<Longrightarrow> micro en s (ask_upstream c s)"
| dropped: "micro en s (s\<lparr>po_sessions := filter P (po_sessions s)\<rparr>)"
| unregistered: "micro en s (s\<lparr>po_objects := al_del path (po_objects s)\<rparr>)"

abbreviation micros :: "portal_env \<Rightarrow> portal \<Rightarrow> portal \<Rightarrow> bool" where
  "micros en \<equiv> (micro en)\<^sup>*\<^sup>*"

lemma attempt_run:
  assumes "R\<^sup>*\<^sup>* s (fst r)" and "\<And>x. snd r = Inr x \<Longrightarrow> R\<^sup>*\<^sup>* (fst r) (fst (k x (fst r)))"
  shows "R\<^sup>*\<^sup>* s (fst (attempt r k))"
  using assms by (cases "snd r") (auto simp: attempt_def intro: rtranclp_trans)

lemma attempt_result:
  "snd (attempt r k) = Inr y \<longleftrightarrow> (\<exists>x. snd r = Inr x \<and> snd (k x (fst r)) = Inr y)"
  by (cases "snd r") (auto simp: attempt_def)

lemma attempt_fst: "snd r = Inr x \<Longrightarrow> fst (attempt r k) = fst (k x (fst r))"
  by (simp add: attempt_def)

lemma map_sum_Inr [simp]: "map_sum f g x = Inr y \<longleftrightarrow> (\<exists>z. x = Inr z \<and> y = g z)"
  by (cases x) auto

lemma fst_with_grants [simp]: "fst (with_grants en f s) = s\<lparr>po_grants := fst (f (po_grants s))\<rparr>"
  by (simp add: with_grants_def Let_def)

lemma snd_with_grants [simp]: "snd (with_grants en f s) = Inr x \<longleftrightarrow> snd (f (po_grants s)) = Inr x"
  by (auto simp: with_grants_def Let_def)

lemma fst_ledger_gate [simp]: "fst (ledger_gate en e s) = ledger_note en e s"
  by (simp add: ledger_gate_def ledger_note_def Let_def)

lemma fst_check_rate [simp]: "fst (check_rate app now s) = s\<lparr>po_quota := fst (check_request app (po_quota_cfg s) now (po_quota s))\<rparr>"
  by (simp add: check_rate_def Let_def)

lemma fst_effective_of [simp]: "fst (effective_of ok app sc g) = store_tried g"
  by (simp add: effective_of_def)

lemma fst_refusals_since [simp]: "fst (refusals_since ok app sc t g) = store_tried (store_tried g)"
  by (simp add: refusals_since_def Let_def)

lemma actions_store_tried [simp]: "gs_actions (store_tried g) = gs_actions g" "gs_usage (store_tried g) = gs_usage g"
  by (simp_all add: store_tried_def)

lemma has_allow_cong: "gs_actions (po_grants s') = gs_actions (po_grants s) \<Longrightarrow> has_allow app s' = has_allow app s"
  by (simp add: has_allow_def)

lemma ledger_note_fields [simp]:
  "po_grants (ledger_note en e s) = po_grants s" "po_upstream (ledger_note en e s) = po_upstream s"
  "po_opening (ledger_note en e s) = po_opening s" "po_sessions (ledger_note en e s) = po_sessions s"
  "po_objects (ledger_note en e s) = po_objects s" "po_quota_cfg (ledger_note en e s) = po_quota_cfg s"
  by (simp_all add: ledger_note_def)

lemmas micro1 = r_into_rtranclp [of "micro en" for en]

section \<open>Every handler is a run of moves\<close>

lemma looks_run: "micros en s (s\<lparr>po_grants := (store_tried ^^ n) (po_grants s)\<rparr>)"
proof (induction n)
  case (Suc n)
  show ?case
    using micro.look [of en "s\<lparr>po_grants := (store_tried ^^ n) (po_grants s)\<rparr>"] Suc
    by (auto intro: rtranclp.rtrancl_into_rtrancl)
qed simp

lemma rows_of_looks: "\<exists>n. fst (rows_of ok ps g) = (store_tried ^^ n) g"
proof (induction ok ps g rule: rows_of.induct)
  case (2 ok app scope ps g)
  show ?case
  proof (cases "effective_of ok app scope g")
    case (Pair g1 r)
    have g1: "g1 = store_tried g" using Pair fst_effective_of [of ok app scope g] by simp
    show ?thesis
    proof (cases r)
      case (Inl e) then show ?thesis using Pair g1 by (auto intro: exI [of _ 1])
    next
      case (Inr st)
      then obtain n where "fst (rows_of ok ps g1) = (store_tried ^^ n) g1"
        using 2 [OF Pair [symmetric]] by blast
      then show ?thesis using Pair Inr g1
        by (auto simp: funpow_swap1 split: prod.splits sum.splits intro!: exI [of _ "Suc n"])
    qed
  qed
qed (auto intro: exI [of _ 0])

lemma list_grants_looks: "\<exists>n. fst (list_grants ok g) = (store_tried ^^ n) g"
proof (cases "ok (gs_tries g)")
  case True
  obtain n where "fst (rows_of ok (sort (remdups (map (\<lambda>a. (la_app_id a, la_scope a)) (gs_actions g)))) (store_tried g)) =
      (store_tried ^^ n) (store_tried g)"
    using rows_of_looks by blast
  then show ?thesis using True by (auto simp: list_grants_def funpow_swap1 intro!: exI [of _ "Suc n"])
qed (auto simp: list_grants_def intro: exI [of _ 1])

lemma settle_run: "micros en s (fst (settle_consent en ms app st reply s))"
proof -
  have rec: "micros en s (s\<lparr>po_grants := fst (record_at (pe_grants_ok en) (ai_app_id app) SCOPE_INFERENCE act ms (po_grants s))\<rparr>)" for act
    by (rule micro1) (rule micro.decide)
  show ?thesis
    by (auto simp: settle_consent_def Let_def rec micro1 [OF micro.noted]
        split: authorization.splits option.splits intro!: attempt_run)
qed

text \<open>Past consent, an allowing row is in the log.\<close>

lemma find_SomeD: "List.find P xs = Some x \<Longrightarrow> x \<in> set xs \<and> P x"
  by (induction xs) (auto split: if_splits)

lemma effective_allowed:
  assumes "effective_in rows app SCOPE_INFERENCE = Allowed"
  shows "\<exists>a \<in> set rows. allows_row app a"
proof (cases "List.find (decides app SCOPE_INFERENCE) (rev rows)")
  case None
  then show ?thesis using assms by (simp add: effective_in_def state_of_text_def)
next
  case (Some a)
  then have "la_action a = ''allow''"
    using assms by (simp add: effective_in_def state_of_text_def split: if_splits)
  then show ?thesis using find_SomeD [OF Some] by (auto simp: decides_def allows_row_def)
qed

lemma record_at_Inr:
  "snd (record_at ok app sc act ts g) = Inr i \<Longrightarrow>
     gs_actions (fst (record_at ok app sc act ts g)) =
       gs_actions g @ [\<lparr>la_id = i, la_ts = ts, la_app_id = app, la_scope = sc, la_action = grant_action_str act\<rparr>]"
  by (auto simp: record_at_def Let_def split: if_splits)

lemma settle_granted:
  assumes "snd (settle_consent en ms app st reply s) = Inr u"
    and "st = Allowed \<Longrightarrow> has_allow (ai_app_id app) s"
  shows "has_allow (ai_app_id app) (fst (settle_consent en ms app st reply s))"
proof (cases "authorize st reply")
  case (Granted recorded)
  show ?thesis
  proof (cases recorded)
    case None
    then have "st = Allowed" using Granted by (auto simp: authorize_def split: effective.splits option.splits if_splits)
    then show ?thesis using assms None Granted by (simp add: settle_consent_def Let_def)
  next
    case (Some act)
    then have act: "act = GaAllow \<or> act = GaAllowOnce"
      using Granted by (auto simp: authorize_def split: effective.splits option.splits if_splits)
    from assms(1) Some Granted obtain i j where
      "snd (record_at (pe_grants_ok en) (ai_app_id app) SCOPE_INFERENCE act ms (po_grants s)) = Inr i"
      "fst (settle_consent en ms app st reply s) = ledger_note en (grant_event (ai_app_id app) ''allowed''
         (''scope='' @ SCOPE_INFERENCE @ '' action='' @ grant_action_str act @ '' identity='' @ identity_kind_str (ai_kind app)))
         (s\<lparr>po_grants := fst (record_at (pe_grants_ok en) (ai_app_id app) SCOPE_INFERENCE act ms (po_grants s))\<rparr>)"
      by (auto simp: settle_consent_def Let_def attempt_result attempt_fst)
    then show ?thesis using act
      by (auto simp: has_allow_def allows_row_def is_about_def record_at_Inr)
  qed
next
  case (Refused recorded)
  then show ?thesis using assms(1) by (simp add: settle_consent_def Let_def attempt_result)
qed

lemma ask_run: "has_allow (ai_app_id app) s \<Longrightarrow> micros en s (fst (ask_daemon en app p s))"
  by (rule micro1) (rule micro.asked)

lemma looked_run: "micros en s (s\<lparr>po_grants := store_tried (po_grants s)\<rparr>)"
  by (rule micro1) (rule micro.look)

lemma effective_run:
  "micros en s (fst (with_grants en (effective_of ok app sc) s))"
  "micros en s (fst (with_grants en (refusals_since ok app sc t) s))"
  using looks_run [of en s 1] looks_run [of en s 2] by (simp_all add: numeral_2_eq_2)

lemma effective_state:
  "snd (with_grants en (effective_of ok app sc) s) = Inr st \<Longrightarrow> st = effective_in (gs_actions (po_grants s)) app sc"
  by (auto simp: effective_of_def split: if_splits)

lemma open_begin_run: "micros en s (fst (open_begin en secs ms caller s))"
proof (cases caller)
  case (Some p)
  let ?app = "pe_identify en p" and ?i = "ai_app_id (pe_identify en p)"
  have settled: "micros en s2 (fst (attempt (settle_consent en ms ?app st None s2) (\<lambda>_ s3. ask_daemon en ?app (peer_conn p) s3)))"
    if "st = Allowed \<Longrightarrow> has_allow ?i s2" for st s2
    using that by (auto intro!: attempt_run settle_run ask_run settle_granted)
  have asked: "micros en s2 (fst (attempt (with_grants en (refusals_since (pe_grants_ok en) ?i SCOPE_INFERENCE t) s2)
      (\<lambda>refusals s3. if \<not> may_prompt (po_prompt_policy s3) refusals
         then (ledger_note en (grant_event ?i ''denied'' (d refusals)) s3, Inl (e refusals))
         else (s3\<lparr>po_opening := po_opening s3 @ [(po_tickets s3, \<lparr>op_app = ?app, op_peer = peer_conn p, op_waiting = AtDialog\<rparr>)],
                  po_tickets := Suc (po_tickets s3)\<rparr>, Inr (po_tickets s3)))))" for s2 t d e
    by (intro attempt_run effective_run) (auto intro!: micro1 micro.noted micro.at_dialog simp del: fst_with_grants)
  have body: "micros en s1 (fst (attempt (with_grants en (effective_of (pe_grants_ok en) ?i SCOPE_INFERENCE) s1)
      (\<lambda>st s2. if needs_prompt st then P st s2
        else attempt (settle_consent en ms ?app st None s2) (\<lambda>_ s3. ask_daemon en ?app (peer_conn p) s3))))"
    if "\<And>st s2. micros en s2 (fst (P st s2))" for P s1
  proof (intro attempt_run effective_run)
    fix st assume "snd (with_grants en (effective_of (pe_grants_ok en) ?i SCOPE_INFERENCE) s1) = Inr st"
    then have "st = Allowed \<Longrightarrow> has_allow ?i (fst (with_grants en (effective_of (pe_grants_ok en) ?i SCOPE_INFERENCE) s1))"
      using effective_allowed effective_state by (fastforce simp: has_allow_def)
    then show "micros en (fst (with_grants en (effective_of (pe_grants_ok en) ?i SCOPE_INFERENCE) s1))
        (fst (if needs_prompt st then P st (fst (with_grants en (effective_of (pe_grants_ok en) ?i SCOPE_INFERENCE) s1))
          else attempt (settle_consent en ms ?app st None (fst (with_grants en (effective_of (pe_grants_ok en) ?i SCOPE_INFERENCE) s1)))
            (\<lambda>_ s3. ask_daemon en ?app (peer_conn p) s3)))"
      using that settled by presburger
  qed
  show ?thesis
    unfolding open_begin_def Some option.case Let_def
    by (rule attempt_run, simp add: micro1 micro.rate) (use body [OF asked] in auto)
qed (simp add: open_begin_def)

lemma open_answered_run: "micros en s (fst (open_answered en ms ticket reply s))"
proof (cases "map_of (po_opening s) ticket")
  case (Some r)
  let ?s = "s\<lparr>po_opening := al_del ticket (po_opening s)\<rparr>"
  have "micros en s ?s" by (rule micro1) (rule micro.answered)
  moreover have "micros en ?s (fst (attempt (settle_consent en ms (op_app r) Unset reply ?s)
      (\<lambda>_ s1. ask_daemon en (op_app r) (op_peer r) s1)))"
    by (intro attempt_run settle_run ask_run) (auto intro: settle_granted)
  ultimately have "micros en s (fst (attempt (settle_consent en ms (op_app r) Unset reply ?s)
      (\<lambda>_ s1. ask_daemon en (op_app r) (op_peer r) s1)))"
    by (rule rtranclp_trans)
  then show ?thesis using Some by (simp add: open_answered_def)
qed (simp add: open_answered_def)

lemma open_finish_run: "micros en s (fst (open_finish en ticket upstream reg s))"
  by (rule micro1) (rule micro.registered)

lemma estimate_nonneg: "0 \<le> estimate_tokens text"
  by (simp add: estimate_tokens_def)

lemma saturating_nonneg: "0 \<le> a \<Longrightarrow> 0 \<le> b \<Longrightarrow> 0 \<le> saturating_add a b"
  by (simp add: saturating_add_def I64_MAX_def)

lemma generation_cost_nonneg:
  "0 \<le> qc_tokens_per_day cfg \<Longrightarrow> 0 \<le> qc_assumed_output_tokens cfg \<Longrightarrow> 0 \<le> generation_cost prompt m cfg"
  by (auto simp: generation_cost_def output_reservation_def estimate_nonneg intro!: saturating_nonneg split: option.split)

lemma generate_is_charge:
  "own_session path who s = Inr x \<Longrightarrow>
     generate en now path who prompt m s =
       charge en now (ps_app_id x) (generation_cost prompt (max_tokens_of m) (po_quota_cfg s))
         (inference_event en ''inference.generate'' (ps_app_id x) prompt prompt)
         (UpGenerate (ps_upstream x) (ps_app_id x) (day_key now)
            (generation_cost prompt (max_tokens_of m) (po_quota_cfg s)) prompt) s"
  by (simp add: generate_def charge_def Let_def)

lemma embed_is_charge:
  "own_session path who s = Inr x \<Longrightarrow>
     embed en now path who texts s =
       charge en now (ps_app_id x) (estimate_tokens (join [CHR 10] texts))
         (inference_event en ''inference.embed'' (ps_app_id x) (join [CHR 10] texts) (join '' | '' texts))
         (UpEmbed (ps_upstream x) (ps_app_id x) (day_key now) (estimate_tokens (join [CHR 10] texts)) texts) s"
  by (simp add: embed_def charge_def Let_def)

lemma inference_event_fields [simp]:
  "ev_kind (inference_event en k app i p) = k" "ev_app_id (inference_event en k app i p) = app"
  by (simp_all add: inference_event_def)

lemma generate_run: "micros en s (fst (generate en now path who prompt m s))"
proof (cases "own_session path who s")
  case (Inr x)
  show ?thesis unfolding generate_is_charge [OF Inr]
    by (rule micro1, rule micro.charged) (simp_all add: generation_cost_nonneg)
qed (simp add: generate_def)

lemma embed_run: "micros en s (fst (embed en now path who texts s))"
proof (cases "own_session path who s")
  case (Inr x)
  show ?thesis unfolding embed_is_charge [OF Inr]
    by (rule micro1, rule micro.charged) (simp_all add: estimate_nonneg)
qed (simp add: embed_def)

lemma cancel_run: "micros en s (fst (cancel path who s))"
  by (cases "own_session path who s") (auto simp: cancel_def intro!: micro1 micro.told)

lemma close_run: "micros en s (fst (close path who s))"
proof (cases "own_session path who s")
  case (Inr x)
  let ?s1 = "s\<lparr>po_sessions := al_del (ps_id x) (po_sessions s)\<rparr>"
  have "micro en s ?s1" unfolding al_del_def by (rule micro.dropped)
  moreover have "micro en ?s1 (ask_upstream (UpClose (ps_upstream x)) ?s1)" by (rule micro.told) simp_all
  ultimately show ?thesis
    using micro.unregistered [of en "ask_upstream (UpClose (ps_upstream x)) ?s1" path] Inr
    by (simp add: close_def ask_upstream_def converse_rtranclp_into_rtranclp)
qed (simp add: close_def)

lemma require_manager_run: "micros en s (fst (require_manager en caller s))"
  by (auto simp: require_manager_def Let_def micro1 micro.noted split: option.splits sum.splits)

lemma record_action_run: "micros en s (fst (record_action en ms app sc act status s))"
  unfolding record_action_def
  by (rule attempt_run, simp add: micro1 micro.decide, rule attempt_run) (simp_all add: micro1 micro.noted)

lemma list_run: "micros en s (fst (with_grants en (list_grants ok) s))"
proof -
  obtain n where "fst (list_grants ok (po_grants s)) = (store_tried ^^ n) (po_grants s)"
    using list_grants_looks by blast
  then show ?thesis using looks_run [of en s n] by simp
qed

lemma close_all_run: "micros en s (close_all xs s)"
proof (induction xs arbitrary: s)
  case (Cons x xs)
  let ?s1 = "ask_upstream (UpClose (ls_upstream x)) s"
  have "micro en s ?s1" by (rule micro.told) simp_all
  moreover have "micro en ?s1 (?s1\<lparr>po_objects := al_del (ls_path x) (po_objects ?s1)\<rparr>)" by (rule micro.unregistered)
  ultimately show ?case using Cons by (simp add: ask_upstream_def converse_rtranclp_into_rtranclp)
qed simp

lemma revoke_sessions_run: "micros en s (fst (revoke_sessions app sc s))"
proof -
  have "micro en s (snd (take_sessions app sc s))" unfolding take_sessions_def snd_conv by (rule micro.dropped)
  then show ?thesis using close_all_run by (simp add: revoke_sessions_def Let_def converse_rtranclp_into_rtranclp)
qed

theorem handle_run: "micros en s (handle en m s)"
proof (cases m)
  case (MList caller)
  show ?thesis unfolding MList handle.simps grants_list_def
    by (intro attempt_run require_manager_run list_run) simp
next
  case (MRevoke ms caller app scope)
  show ?thesis unfolding MRevoke handle.simps grants_revoke_def
    by (intro attempt_run require_manager_run record_action_run revoke_sessions_run)
qed (auto simp: grants_grant_def grants_deny_def open_begin_run open_answered_run open_finish_run generate_run
  embed_run cancel_run close_run intro!: attempt_run require_manager_run record_action_run)

section \<open>Invariants\<close>

locale portal_invariant =
  fixes en :: portal_env and I :: "portal \<Rightarrow> bool"
  assumes move: "micro en s s' \<Longrightarrow> I s \<Longrightarrow> I s'"
begin

lemma moves: "micros en s s' \<Longrightarrow> I s \<Longrightarrow> I s'"
  by (induction rule: rtranclp_induct) (auto intro: move)

lemma handled: "I s \<Longrightarrow> I (handle en m s)"
  using handle_run moves by blast

lemma run: "I s \<Longrightarrow> I (portal_run en msgs s)"
  unfolding portal_run_def by (induction msgs arbitrary: s) (simp_all add: handled)

end


subsection \<open>What the compound moves leave alone\<close>

lemma ask_daemon_cases:
  obtains (refused) e where "fst (ask_daemon en app p s) = ledger_note en e s"
  | (asked) e i where "snd (ledger_append (pe_ledger_ok en) (pe_wall en) (po_ledger s) e) = Inr i"
      "ev_kind e = ''inference.session''" "ev_app_id e = ai_app_id app"
      "fst (ask_daemon en app p s) = (ledger_note en e s)\<lparr>po_upstream := po_upstream s @ [UpOpen (ai_app_id app)],
         po_opening := po_opening s @ [(po_tickets s, \<lparr>op_app = app, op_peer = p, op_waiting = AtDaemon\<rparr>)],
         po_tickets := Suc (po_tickets s)\<rparr>"
proof -
  let ?e = "default_event\<lparr>ev_kind := ''inference.session'', ev_app_id := ai_app_id app, ev_status := ''started'',
            ev_detail := ''portal scope='' @ SCOPE_INFERENCE @ '' identity='' @ identity_kind_str (ai_kind app)\<rparr>"
  show thesis
  proof (cases "snd (ledger_append (pe_ledger_ok en) (pe_wall en) (po_ledger s) ?e)")
    case (Inl x)
    then show thesis
      by (intro refused [of ?e]) (simp add: ask_daemon_def attempt_def ledger_gate_def ledger_note_def Let_def)
  next
    case (Inr i)
    then show thesis
      by (intro asked [of ?e i])
        (simp_all add: ask_daemon_def attempt_def ledger_gate_def ledger_note_def ask_upstream_def Let_def)
  qed
qed

lemma try_spend_actions [simp]: "gs_actions (fst (try_spend_tokens ok app day n cap g)) = gs_actions g"
  by (simp add: try_spend_tokens_def Let_def)

lemma quota_gate_cases:
  fixes en now app cost s
  defines "spent \<equiv> try_spend_tokens (pe_grants_ok en) app (day_key now) cost (qc_tokens_per_day (po_quota_cfg s)) (po_grants s)"
  obtains (rate) q e where "quota_gate en now app cost s = (s\<lparr>po_quota := q\<rparr>, Inl e)"
  | (refused) q e where "quota_gate en now app cost s = (s\<lparr>po_quota := q, po_grants := fst spent\<rparr>, Inl e)"
  | (paid) q where "quota_gate en now app cost s = (s\<lparr>po_quota := q, po_grants := fst spent\<rparr>, Inr ())"
      "snd spent = Inr True"
proof (cases "snd (check_request app (po_quota_cfg s) now (po_quota s))")
  case (Inl e)
  then show thesis by (intro rate) (simp add: quota_gate_def attempt_def check_rate_def Let_def)
next
  case (Inr u)
  show thesis
  proof (cases "snd spent")
    case (Inl e)
    then show thesis using Inr
      by (intro refused) (simp add: quota_gate_def attempt_def check_rate_def with_grants_def spent_def Let_def)
  next
    case (Inr b)
    with \<open>snd (check_request app (po_quota_cfg s) now (po_quota s)) = Inr u\<close> show thesis
      by (cases b; intro paid refused)
        (simp_all add: quota_gate_def attempt_def check_rate_def with_grants_def spent_def Let_def)
  qed
qed

lemma charge_cases:
  fixes en now app cost ev c s
  defines "spent \<equiv> try_spend_tokens (pe_grants_ok en) app (day_key now) cost (qc_tokens_per_day (po_quota_cfg s)) (po_grants s)"
  obtains (early) q where "fst (charge en now app cost ev c s) = s\<lparr>po_quota := q\<rparr>"
  | (refused) q where "fst (charge en now app cost ev c s) = s\<lparr>po_quota := q, po_grants := fst spent\<rparr>"
  | (unledgered) q where
      "fst (charge en now app cost ev c s) = ledger_note en ev (s\<lparr>po_quota := q, po_grants := fst spent\<rparr>)"
  | (went) q i where "snd spent = Inr True"
      "snd (ledger_append (pe_ledger_ok en) (pe_wall en) (po_ledger s) ev) = Inr i"
      "fst (charge en now app cost ev c s) =
         ask_upstream c (ledger_note en ev (s\<lparr>po_quota := q, po_grants := fst spent\<rparr>))"
proof (cases rule: quota_gate_cases [of en now app cost s])
  case (rate q e)
  then show thesis by (intro early) (simp add: charge_def attempt_def)
next
  case (refused q e)
  then show thesis by (intro that(2)) (simp add: charge_def attempt_def spent_def)
next
  case (paid q)
  show thesis
  proof (cases "snd (ledger_append (pe_ledger_ok en) (pe_wall en) (po_ledger s) ev)")
    case (Inl x)
    with paid show thesis
      by (intro unledgered) (simp add: charge_def attempt_def ledger_gate_def ledger_note_def Let_def spent_def)
  next
    case (Inr i)
    with paid show thesis
      by (intro went [OF _ Inr]) (simp_all add: charge_def attempt_def ledger_gate_def ledger_note_def Let_def spent_def)
  qed
qed

lemma ask_upstream_fields [simp]:
  "po_grants (ask_upstream c s) = po_grants s" "po_ledger (ask_upstream c s) = po_ledger s"
  "po_opening (ask_upstream c s) = po_opening s" "po_sessions (ask_upstream c s) = po_sessions s"
  "po_objects (ask_upstream c s) = po_objects s" "po_quota_cfg (ask_upstream c s) = po_quota_cfg s"
  "po_upstream (ask_upstream c s) = po_upstream s @ [c]"
  by (simp_all add: ask_upstream_def)

lemma charge_leaves:
  "gs_actions (po_grants (fst (charge en now app cost ev c s))) = gs_actions (po_grants s)"
  "po_opening (fst (charge en now app cost ev c s)) = po_opening s"
  "po_sessions (fst (charge en now app cost ev c s)) = po_sessions s"
  "po_objects (fst (charge en now app cost ev c s)) = po_objects s"
  by (cases rule: charge_cases [of en now app cost ev c s]; simp)+

end
