(* ===== verification/Portal_Sample.thy ===== *)
theory Portal_Sample
  imports Portal
begin

text \<open>A small portal to run the theorems on: one app, one manager, one session at a time.\<close>

definition demo_env :: portal_env where
  "demo_env =
     \<lparr>pe_identify = (\<lambda>p. identity_host (peer_as_str (peer_conn p))),
      pe_exe = (\<lambda>p. if peer_conn p = Bus ''m'' then Some ''/usr/bin/lisa'' else None),
      pe_us = 1000, pe_token = (\<lambda>n. if n = 1 then ''a'' else ''b''), pe_hash = (\<lambda>s. s), pe_canon = Some,
      pe_grants_ok = (\<lambda>_. True), pe_ledger_ok = (\<lambda>_. True), pe_wall = (\<lambda>_. 0), pe_grants_error = [], pe_ledger_error = []\<rparr>"

definition demo_peer :: "string \<Rightarrow> peer" where
  "demo_peer name = \<lparr>peer_conn = Bus name, peer_uid = Some 1000, peer_pid = None, peer_fd = None\<rparr>"

definition demo_quota :: quota_config where
  "demo_quota = \<lparr>qc_requests_per_min = 5, qc_tokens_per_day = 10, qc_max_sessions_per_app = 1, qc_assumed_output_tokens = 6\<rparr>"

definition demo_start :: portal where
  "demo_start = portal_new demo_quota default_prompt_policy [path_components ''/usr/bin/lisa''] empty_store empty_ledger"

definition demo_yes :: "bool \<Rightarrow> consent_reply option" where
  "demo_yes remember = Some \<lparr>re_allow = True, re_remember = remember\<rparr>"

text \<open>The app asks and the person allows it for good; the request is at the daemon.\<close>

definition demo_asked :: portal where
  "demo_asked = portal_run demo_env [MOpen 0 0 (Some (demo_peer ''n'')), MDialog 0 0 (demo_yes True)] demo_start"

text \<open>The daemon answers; the app generates.\<close>

definition demo_served :: portal where
  "demo_served = portal_run demo_env [MDaemon 1 (Inr 5) None] demo_asked"

definition demo_used :: portal where
  "demo_used = portal_run demo_env
     [MGenerate 0 (session_path ''a'') (Inr (Bus ''n'')) ''hi you'' (Some (VU32 3))] demo_served"

text \<open>The definitions a run of the sample unfolds; the simplifier evaluates it.\<close>

lemmas demo_defs =
  demo_asked_def demo_served_def demo_used_def portal_run_def demo_start_def portal_new_def demo_env_def demo_peer_def demo_yes_def
  demo_quota_def default_prompt_policy_def empty_store_def empty_ledger_def
  open_begin_def open_answered_def open_finish_def check_rate_def check_request_def recent_def window_of_def with_grants_def
  effective_of_def effective_in_def state_of_text_def store_tried_def needs_prompt_def refusals_since_def may_prompt_def
  last_persistent_def counts_as_refusal_def open_sessions_for_def settle_consent_def authorize_def record_at_def
  next_action_id_def ledger_gate_def ledger_note_def ledger_append_def next_row_id_def ask_daemon_def ask_upstream_def
  attempt_def identity_host_def session_path_def decides_def is_about_def Let_def al_del_def

lemmas demo_use_defs =
  generate_def own_session_def owner_require_def owner_allows_def quota_gate_def try_spend_tokens_def usage_def
  generation_cost_def estimate_tokens_def output_reservation_def saturating_add_def I64_MAX_def split_whitespace_def
  is_ws_code inference_event_def

lemmas demo_manage_defs =
  grants_revoke_def require_manager_def caller_may_manage_def may_manage_def is_same_user_as_us_def resolve_managers_def
  record_action_def revoke_sessions_def take_sessions_def is_session_of_def

lemma demo_asked_facts:
  "po_opening demo_asked = [(1, \<lparr>op_app = \<lparr>ai_app_id = ''n'', ai_kind = Host\<rparr>, op_peer = Bus ''n'', op_waiting = AtDaemon\<rparr>)]"
  "po_sessions demo_asked = []"
  by (simp_all add: demo_defs)

lemma demo_served_facts:
  "po_sessions demo_served = [(''a'', \<lparr>ls_app_id = ''n'', ls_scope = SCOPE_INFERENCE, ls_path = session_path ''a'', ls_upstream = 5\<rparr>)]"
  "map_of (po_objects demo_served) (session_path ''a'') =
     Some \<lparr>ps_id = ''a'', ps_app_id = ''n'', ps_owner = Owner (Bus ''n''), ps_upstream = 5\<rparr>"
  by (simp_all add: demo_defs)

lemma demo_used_facts:
  "usage (po_grants demo_used) ''n'' (day_key 0) = 5" "length (po_upstream demo_used) = 2"
  by (simp_all add: demo_defs demo_use_defs)

lemma demo_manager: "caller_may_manage demo_env demo_served (demo_peer ''m'') = Inr ()"
  by (simp add: demo_defs demo_manage_defs path_eq_def)

end
