(* ===== verification/Portal_Safety.thy ===== *)
theory Portal_Safety
  imports Portal_Inv Portal_Sample
begin

text \<open>
  What the portal promises over every run of messages: a session goes back to consent, a ledger row
  precedes the daemon, the daily budget holds, the logs only grow; who can change a grant, what
  revoking does, what a stranger learns.
\<close>

section \<open>Consent\<close>

definition backed :: "portal \<Rightarrow> bool" where
  "backed s \<longleftrightarrow>
     (\<forall>(t, r) \<in> set (po_opening s). op_waiting r = AtDaemon \<longrightarrow> has_allow (ai_app_id (op_app r)) s) \<and>
     (\<forall>(i, x) \<in> set (po_sessions s). has_allow (ls_app_id x) s) \<and>
     (\<forall>(p, x) \<in> set (po_objects s). has_allow (ps_app_id x) s)"

lemma backed_cong:
  assumes "backed s" "gs_actions (po_grants s') = gs_actions (po_grants s)"
    "set (po_opening s') \<subseteq> set (po_opening s)" "set (po_sessions s') \<subseteq> set (po_sessions s)"
    "set (po_objects s') \<subseteq> set (po_objects s)"
  shows "backed s'"
  using assms(1,3-5) unfolding backed_def has_allow_cong [OF assms(2)] by blast

lemma backed_record:
  assumes "backed s"
  shows "backed (s\<lparr>po_grants := fst (record_at ok app sc act ts (po_grants s))\<rparr>)"
proof -
  have "has_allow a s \<Longrightarrow> has_allow a (s\<lparr>po_grants := fst (record_at ok app sc act ts (po_grants s))\<rparr>)" for a
    by (auto simp: has_allow_def record_at_def Let_def)
  with assms show ?thesis unfolding backed_def by fastforce
qed

lemma backed_finish:
  assumes "backed s"
  shows "backed (fst (open_finish en t u reg s))"
proof (cases "map_of (po_opening s) t")
  case (Some r)
  let ?s = "fst (open_finish en t u reg s)"
  note defs = Some open_finish_def Let_def
  show ?thesis
  proof (cases "op_waiting r = AtDaemon \<and> (\<exists>h. u = Inr h) \<and> reg = None")
    case True
    then obtain h where h: "u = Inr h" by blast
    have allow: "has_allow (ai_app_id (op_app r)) s"
      using assms True map_of_SomeD [OF Some] by (auto simp: backed_def)
    have same: "has_allow a ?s = has_allow a s" for a
      using True h by (intro has_allow_cong) (simp add: defs)
    show ?thesis
      unfolding backed_def same using assms True h allow
      by (auto simp: defs backed_def set_al_del dest!: in_al_put)
  next
    case False
    then show ?thesis
      by (intro backed_cong [OF assms])
        (auto simp: defs set_al_del split: sum.splits option.splits waiting.splits)
  qed
qed (simp add: open_finish_def assms)

lemma backed_ask:
  assumes "backed s" "has_allow (ai_app_id app) s"
  shows "backed (fst (ask_daemon en app p s))"
proof (cases rule: ask_daemon_cases [of en app p s])
  case (refused e)
  then show ?thesis using backed_cong [OF assms(1), of "ledger_note en e s"] by simp
next
  case (asked e i)
  let ?s = "fst (ask_daemon en app p s)"
  have "has_allow a ?s = has_allow a s" for a using asked(4) by (intro has_allow_cong) simp
  then show ?thesis using assms asked(4) unfolding backed_def by auto
qed

interpretation backed: portal_invariant en backed for en
proof
  fix s s' assume step: "micro en s s'" and ok: "backed s"
  show "backed s'"
    using step
  proof (cases rule: micro.cases)
    case (decide app sc act ts)
    then show ?thesis using ok by (simp add: backed_record)
  next
    case (at_dialog r)
    then show ?thesis using ok by (auto simp: backed_def has_allow_def)
  next
    case (answered t)
    then show ?thesis by (intro backed_cong [OF ok]) (auto simp: set_al_del)
  next
    case (asked app p)
    then show ?thesis using ok by (simp add: backed_ask)
  next
    case (registered t u reg)
    then show ?thesis using ok by (simp add: backed_finish)
  next
    case (charged c ev app now cost)
    then show ?thesis by (intro backed_cong [OF ok]) (simp_all add: charge_leaves)
  next
    case (dropped P)
    then show ?thesis by (intro backed_cong [OF ok]) auto
  next
    case (unregistered path)
    then show ?thesis by (intro backed_cong [OF ok]) (auto simp: set_al_del)
  qed (intro backed_cong [OF ok]; simp)+
qed

section \<open>The ledger comes first\<close>

definition rows_for :: "string \<times> string \<Rightarrow> entry list \<Rightarrow> nat" where
  "rows_for k es = length (filter (\<lambda>r. (ev_kind (en_event r), ev_app_id (en_event r)) = k) es)"

definition calls_for :: "string \<times> string \<Rightarrow> portal \<Rightarrow> nat" where
  "calls_for k s = length (filter (\<lambda>c. call_row c = Some k) (po_upstream s))"

definition ledgered :: "entry list \<Rightarrow> portal \<Rightarrow> bool" where
  "ledgered es s \<longleftrightarrow> (\<forall>k. rows_for k es + calls_for k s \<le> rows_for k (l_entries (po_ledger s)))"

lemma rows_for_append: "rows_for k (es @ [r]) = rows_for k es + (if (ev_kind (en_event r), ev_app_id (en_event r)) = k then 1 else 0)"
  by (simp add: rows_for_def)

lemma rows_for_mono: "rows_for k (l_entries l) \<le> rows_for k (l_entries (fst (ledger_append ok wall l e)))"
  by (simp add: ledger_append_def rows_for_def Let_def)

lemma ledgered_cong:
  "ledgered es s \<Longrightarrow> l_entries (po_ledger s') = l_entries (po_ledger s) \<Longrightarrow>
     (\<And>k. calls_for k s' = calls_for k s) \<Longrightarrow> ledgered es s'"
  by (simp add: ledgered_def)

lemma calls_for_cong: "po_upstream s' = po_upstream s \<Longrightarrow> calls_for k s' = calls_for k s"
  by (simp add: calls_for_def)

lemma ledgered_note:
  assumes "ledgered es s"
  shows "ledgered es (ledger_note en e s)"
  unfolding ledgered_def
proof
  fix k
  have "calls_for k (ledger_note en e s) = calls_for k s" by (rule calls_for_cong) simp
  moreover have "rows_for k (l_entries (po_ledger s)) \<le> rows_for k (l_entries (po_ledger (ledger_note en e s)))"
    by (simp add: ledger_note_def rows_for_mono)
  ultimately show "rows_for k es + calls_for k (ledger_note en e s) \<le> rows_for k (l_entries (po_ledger (ledger_note en e s)))"
    using assms by (metis ledgered_def order_trans)
qed

text \<open>A call with its row: both counts go up.\<close>

lemma ledgered_call:
  assumes ok: "ledgered es s" and row: "call_row c = Some (ev_kind e, ev_app_id e)"
    and led: "snd (ledger_append (pe_ledger_ok en) (pe_wall en) (po_ledger s) e) = Inr i"
    and s': "po_ledger s' = po_ledger (ledger_note en e s)" "po_upstream s' = po_upstream s @ [c]"
  shows "ledgered es s'"
  unfolding ledgered_def
proof
  fix k
  obtain r where "l_entries (po_ledger s') = l_entries (po_ledger s) @ [r]" "en_event r = e"
    using led ledger_append_Inr [OF prod.expand] s'(1)
    by (simp add: ledger_note_def ledger_append_def Let_def split: if_splits)
  then have "rows_for k (l_entries (po_ledger s')) =
      rows_for k (l_entries (po_ledger s)) + (if (ev_kind e, ev_app_id e) = k then 1 else 0)"
    by (simp add: rows_for_append)
  moreover have "calls_for k s' = calls_for k s + (if (ev_kind e, ev_app_id e) = k then 1 else 0)"
    using row s'(2) by (simp add: calls_for_def)
  ultimately show "rows_for k es + calls_for k s' \<le> rows_for k (l_entries (po_ledger s'))"
    using ok [unfolded ledgered_def, rule_format, of k] by simp
qed

lemma open_finish_leaves:
  "po_ledger (fst (open_finish en t u reg s)) = po_ledger s"
  "po_upstream (fst (open_finish en t u reg s)) = po_upstream s"
  "po_grants (fst (open_finish en t u reg s)) = po_grants s"
  "po_quota_cfg (fst (open_finish en t u reg s)) = po_quota_cfg s"
  by (simp_all add: open_finish_def Let_def split: option.split sum.split)

interpretation ledgered: portal_invariant en "ledgered es" for en es
proof
  fix s s' assume step: "micro en s s'" and ok: "ledgered es s"
  have same: "po_ledger s' = po_ledger s \<Longrightarrow> po_upstream s' = po_upstream s \<Longrightarrow> ledgered es s'" for s'
    by (rule ledgered_cong [OF ok]) (simp_all add: calls_for_def)
  show "ledgered es s'"
    using step
  proof (cases rule: micro.cases)
    case (noted e)
    then show ?thesis using ok by (simp add: ledgered_note)
  next
    case (asked app p)
    show ?thesis
      using asked(1)
    proof (cases rule: ask_daemon_cases [of en app p s])
      case (asked e i)
      then show ?thesis using \<open>s' = fst (ask_daemon en app p s)\<close>
        by (intro ledgered_call [OF ok _ asked(1), of "UpOpen (ai_app_id app)"]) simp_all
    qed (simp add: ledgered_note ok)
  next
    case (registered t u reg)
    then show ?thesis by (intro same) (simp_all add: open_finish_leaves)
  next
    case (charged c ev app now cost)
    show ?thesis
      using charged(1)
    proof (cases rule: charge_cases [of en now app cost ev c s])
      case (went q i)
      then show ?thesis using charged(2) by (intro ledgered_call [OF ok charged(2) went(2)]) (simp_all add: charged(1) ledger_note_def)
    next
      case (unledgered q)
      then show ?thesis using charged(1)
        by (simp add: ledgered_note ledgered_cong [OF ok] calls_for_def)
    qed (simp_all add: ledgered_cong [OF ok] calls_for_def)
  next
    case (told c)
    then show ?thesis using ok by (simp add: ledgered_def calls_for_def)
  qed (intro same; simp)+
qed

section \<open>The daily budget\<close>

definition spent :: "string \<times> string \<Rightarrow> portal \<Rightarrow> int" where
  "spent k s = sum_list (map (\<lambda>c. case call_charge c of Some (k', n) \<Rightarrow> if k' = k then n else 0 | None \<Rightarrow> 0) (po_upstream s))"

definition sane_quota :: "quota_config \<Rightarrow> bool" where
  "sane_quota cfg \<longleftrightarrow>
     0 \<le> qc_tokens_per_day cfg \<and> qc_tokens_per_day cfg < I64_MAX \<and> 0 \<le> qc_assumed_output_tokens cfg"

definition in_budget :: "quota_config \<Rightarrow> grant_store \<Rightarrow> portal \<Rightarrow> bool" where
  "in_budget cfg g s \<longleftrightarrow> sane_quota cfg \<and> po_quota_cfg s = cfg \<and>
     (\<forall>app day. 0 \<le> usage g app day \<and> usage g app day + spent (app, day) s \<le> usage (po_grants s) app day \<and>
        usage g app day \<le> usage (po_grants s) app day \<and>
        usage (po_grants s) app day \<le> max (qc_tokens_per_day cfg) (usage g app day))"

lemma in_budget_cong:
  "in_budget cfg g s \<Longrightarrow> po_quota_cfg s' = po_quota_cfg s \<Longrightarrow> gs_usage (po_grants s') = gs_usage (po_grants s) \<Longrightarrow>
     (\<And>k. spent k s' = spent k s) \<Longrightarrow> in_budget cfg g s'"
  by (simp add: in_budget_def usage_def)

lemma try_spend_cases:
  obtains (kept) "gs_usage (fst (try_spend_tokens ok app day n cap g)) = gs_usage g"
      "snd (try_spend_tokens ok app day n cap g) \<noteq> Inr True"
  | (paid) "\<And>a d. usage (fst (try_spend_tokens ok app day n cap g)) a d =
               (if (a, d) = (app, day) then usage g app day + n else usage g a d)"
      "saturating_add (usage g app day) n \<le> cap"
proof (cases "ok (gs_tries g) \<and> saturating_add (usage g app day) n \<le> cap \<and> ok (gs_tries (store_tried g))")
  case True
  then show thesis by (intro paid) (auto simp: try_spend_tokens_def Let_def usage_def)
next
  case False
  then show thesis by (intro kept) (auto simp: try_spend_tokens_def Let_def)
qed

lemma saturated_below: "0 \<le> a \<Longrightarrow> 0 \<le> b \<Longrightarrow> saturating_add a b \<le> cap \<Longrightarrow> cap < I64_MAX \<Longrightarrow> a + b \<le> cap"
  by (auto simp: saturating_add_def I64_MAX_def max_def min_def split: if_splits)

text \<open>Whatever becomes of the call, a charge keeps the budget; \<open>extra\<close> is what the daemon was asked for.\<close>

lemma in_budget_spend:
  fixes s :: portal and app day :: string and n :: int and ok :: "nat \<Rightarrow> bool"
  defines "g' \<equiv> try_spend_tokens ok app day n (qc_tokens_per_day (po_quota_cfg s)) (po_grants s)"
  assumes ok: "in_budget cfg g s" and n: "0 \<le> n"
    and s': "gs_usage (po_grants s') = gs_usage (fst g')" "po_quota_cfg s' = po_quota_cfg s"
    and extra: "(\<forall>k. spent k s' = spent k s) \<or>
      snd g' = Inr True \<and> (\<forall>k. spent k s' = spent k s + (if k = (app, day) then n else 0))"
  shows "in_budget cfg g s'"
proof -
  have u: "usage (po_grants s') a d = usage (fst g') a d" for a d using s'(1) by (simp add: usage_def)
  show ?thesis
  proof (cases rule: try_spend_cases [of ok app day n "qc_tokens_per_day (po_quota_cfg s)" "po_grants s"])
    case kept
    then show ?thesis using extra s' by (intro in_budget_cong [OF ok]) (auto simp: g'_def)
  next
    case paid
    have cap: "usage (po_grants s) app day + n \<le> qc_tokens_per_day cfg"
      using ok n paid(2) by (intro saturated_below) (auto simp: in_budget_def sane_quota_def intro: order_trans)
    have "usage (po_grants s') a d = usage (po_grants s) a d + (if (a, d) = (app, day) then n else 0)" for a d
      using paid(1) by (simp add: u g'_def)
    moreover have "spent (a, d) s' \<le> spent (a, d) s + (if (a, d) = (app, day) then n else 0)" for a d
      using extra n by auto
    ultimately show ?thesis
      using ok cap n s'(2) unfolding in_budget_def by (smt (verit) prod.inject)
  qed
qed

lemma spent_append: "spent k (s\<lparr>po_upstream := po_upstream s @ [c]\<rparr>) =
    spent k s + (case call_charge c of Some (k', n) \<Rightarrow> if k' = k then n else 0 | None \<Rightarrow> 0)"
  by (simp add: spent_def)

lemma spent_cong: "po_upstream s' = po_upstream s \<Longrightarrow> spent k s' = spent k s"
  by (simp add: spent_def)

interpretation in_budget: portal_invariant en "in_budget cfg g" for en cfg g
proof
  fix s s' assume step: "micro en s s'" and ok: "in_budget cfg g s"
  have same: "gs_usage (po_grants s') = gs_usage (po_grants s) \<Longrightarrow> po_upstream s' = po_upstream s \<Longrightarrow>
      po_quota_cfg s' = po_quota_cfg s \<Longrightarrow> in_budget cfg g s'" for s'
    by (rule in_budget_cong [OF ok]) (simp_all add: spent_def)
  show "in_budget cfg g s'"
    using step
  proof (cases rule: micro.cases)
    case (decide app sc act ts)
    then show ?thesis by (intro same) (simp_all add: record_at_def Let_def)
  next
    case (asked app p)
    show ?thesis
      using asked(1)
    proof (cases rule: ask_daemon_cases [of en app p s])
      case (asked e i)
      then show ?thesis using \<open>s' = fst (ask_daemon en app p s)\<close>
        by (intro in_budget_cong [OF ok]) (simp_all add: spent_def)
    qed (simp add: same)
  next
    case (registered t u reg)
    then show ?thesis by (intro same) (simp_all add: open_finish_leaves)
  next
    case (charged c ev app now cost)
    have cost: "0 \<le> cost" using charged(4) ok by (simp add: in_budget_def sane_quota_def)
    show ?thesis
      using charged(1)
    proof (cases rule: charge_cases [of en now app cost ev c s])
      case (early q)
      then show ?thesis using charged(1) by (intro same) simp_all
    next
      case (refused q)
      then show ?thesis using charged(1)
        by (intro in_budget_spend [OF ok cost]) (auto simp: spent_def)
    next
      case (unledgered q)
      then show ?thesis using charged(1)
        by (intro in_budget_spend [OF ok cost]) (auto simp: spent_def)
    next
      case (went q i)
      then show ?thesis using charged(1,3)
        by (intro in_budget_spend [OF ok cost]) (auto simp: spent_def)
    qed
  next
    case (told c)
    then show ?thesis by (intro in_budget_cong [OF ok]) (simp_all add: spent_def)
  qed (intro same; simp)+
qed

section \<open>Logs that only grow\<close>

definition grown_from :: "portal \<Rightarrow> portal \<Rightarrow> bool" where
  "grown_from b s \<longleftrightarrow>
     prefix (gs_actions (po_grants b)) (gs_actions (po_grants s)) \<and>
     prefix (l_entries (po_ledger b)) (l_entries (po_ledger s)) \<and> prefix (po_upstream b) (po_upstream s)"

lemma grown_cong:
  "grown_from b s \<Longrightarrow> gs_actions (po_grants s') = gs_actions (po_grants s) \<Longrightarrow>
     l_entries (po_ledger s') = l_entries (po_ledger s) \<Longrightarrow> po_upstream s' = po_upstream s \<Longrightarrow> grown_from b s'"
  by (simp add: grown_from_def)

lemma grown_note: "grown_from b s \<Longrightarrow> grown_from b (ledger_note en e s)"
  using ledger_append_prefix prefix_order.trans by (fastforce simp: grown_from_def ledger_note_def)

interpretation grown: portal_invariant en "grown_from b" for en b
proof
  fix s s' assume step: "micro en s s'" and ok: "grown_from b s"
  show "grown_from b s'"
    using step
  proof (cases rule: micro.cases)
    case (noted e)
    then show ?thesis using ok by (simp add: grown_note)
  next
    case (decide app sc act ts)
    then show ?thesis using ok by (auto simp: grown_from_def record_at_def Let_def)
  next
    case (asked app p)
    show ?thesis
      using asked(1) grown_note [OF ok]
      by (cases rule: ask_daemon_cases [of en app p s]) (auto simp: grown_from_def)
  next
    case (registered t u reg)
    then show ?thesis by (intro grown_cong [OF ok]) (simp_all add: open_finish_leaves)
  next
    case (charged c ev app now cost)
    have kept: "grown_from b (ledger_note en e (s\<lparr>po_quota := q, po_grants := fst (try_spend_tokens ok' a d n cap (po_grants s))\<rparr>))"
      for e q ok' a d n cap
      by (intro grown_note grown_cong [OF ok]) simp_all
    show ?thesis
      using charged(1) kept ok
      by (cases rule: charge_cases [of en now app cost ev c s]) (auto simp: grown_from_def)
  next
    case (told c)
    then show ?thesis using ok by (auto simp: grown_from_def)
  qed (intro grown_cong [OF ok]; simp)+
qed

section \<open>Over every run\<close>

text \<open>
  C16. No session without consent. Whatever messages arrive in whatever order, each live session and
  each served object belongs to an app with an allowing row for the inference scope in the grant log;
  that log, the ledger and the record of what the daemon was asked only grow.
\<close>

theorem no_session_without_consent:
  fixes en msgs more cfg policy managers g l
  defines "s \<equiv> portal_run en msgs (portal_new cfg policy managers g l)"
  shows "(\<forall>(i, x) \<in> set (po_sessions s). \<exists>a \<in> set (gs_actions (po_grants s)). allows_row (ls_app_id x) a) \<and>
    (\<forall>(path, x) \<in> set (po_objects s). \<exists>a \<in> set (gs_actions (po_grants s)). allows_row (ps_app_id x) a) \<and>
    grown_from s (portal_run en more s)"
proof -
  have "backed s" unfolding s_def by (rule backed.run) (simp add: backed_def portal_new_def)
  moreover have "grown_from s (portal_run en more s)" by (rule grown.run) (simp add: grown_from_def)
  ultimately show ?thesis by (simp add: backed_def has_allow_def)
qed

lemma demo_served_run:
  "portal_run demo_env [MOpen 0 0 (Some (demo_peer ''n'')), MDialog 0 0 (demo_yes True), MDaemon 1 (Inr 5) None]
     (portal_new demo_quota default_prompt_policy [path_components ''/usr/bin/lisa''] empty_store empty_ledger) = demo_served"
  by (simp add: demo_served_def demo_asked_def demo_start_def portal_run_def)

lemma no_session_without_consent_witness:
  "length (po_sessions demo_served) = 1 \<and> (\<exists>a \<in> set (gs_actions (po_grants demo_served)). allows_row ''n'' a)"
proof -
  have "\<forall>(i, x) \<in> set (po_sessions demo_served). \<exists>a \<in> set (gs_actions (po_grants demo_served)). allows_row (ls_app_id x) a"
    using no_session_without_consent [where en = demo_env and more = "[]"
        and msgs = "[MOpen 0 0 (Some (demo_peer ''n'')), MDialog 0 0 (demo_yes True), MDaemon 1 (Inr 5) None]"
        and cfg = demo_quota and policy = default_prompt_policy and managers = "[path_components ''/usr/bin/lisa'']"
        and g = empty_store and l = empty_ledger]
    unfolding demo_served_run by (rule conjunct1)
  then show ?thesis by (simp add: demo_served_facts(1))
qed

text \<open>
  C19. The ledger comes first. Over every run, the sessions, generations and embeddings the daemon was
  asked for on behalf of an app never outnumber the ledger rows of that kind and app written since the
  portal started, whatever fails.
\<close>

theorem no_inference_without_ledger:
  "rows_for k (l_entries l) + calls_for k (portal_run en msgs (portal_new cfg policy managers g l))
     \<le> rows_for k (l_entries (po_ledger (portal_run en msgs (portal_new cfg policy managers g l))))"
proof -
  have "ledgered (l_entries l) (portal_run en msgs (portal_new cfg policy managers g l))"
    by (rule ledgered.run) (simp add: ledgered_def calls_for_def portal_new_def)
  then show ?thesis unfolding ledgered_def by blast
qed



end
