(* ===== verification/Portal_Steps.thy ===== *)
theory Portal_Steps
  imports Portal_Safety Portal_Sample
begin

text \<open>
  What one message can do: which handler asks the daemon for a session, changes the state of a grant,
  or touches the live sessions; and the pairing of sessions with the objects that are served.
\<close>

section \<open>What a handler leaves alone\<close>

lemma attempt_keeps:
  "f (fst r) = c \<Longrightarrow> (\<And>x s1. f s1 = c \<Longrightarrow> f (fst (k x s1)) = c) \<Longrightarrow> f (fst (attempt r k)) = c"
  by (cases "snd r") (auto simp: attempt_def)

definition opens :: "portal \<Rightarrow> upstream_call list" where
  "opens s = filter (\<lambda>c. case c of UpOpen a \<Rightarrow> True | _ \<Rightarrow> False) (po_upstream s)"

definition served :: "portal \<Rightarrow> (string \<times> live_session) list \<times> (string \<times> portal_session) list" where
  "served s = (po_sessions s, po_objects s)"

abbreviation acts :: "portal \<Rightarrow> logged_action list" where
  "acts s \<equiv> gs_actions (po_grants s)"

lemma opens_simps [simp]:
  "opens (ledger_note en e s) = opens s" "opens (s\<lparr>po_grants := g\<rparr>) = opens s" "opens (s\<lparr>po_quota := q\<rparr>) = opens s"
  "opens (s\<lparr>po_opening := r\<rparr>) = opens s" "opens (s\<lparr>po_opening := r, po_tickets := n\<rparr>) = opens s"
  "opens (s\<lparr>po_sessions := x\<rparr>) = opens s" "opens (s\<lparr>po_objects := y\<rparr>) = opens s"
  by (simp_all add: opens_def)

lemma served_simps [simp]:
  "served (ledger_note en e s) = served s" "served (s\<lparr>po_grants := g\<rparr>) = served s" "served (s\<lparr>po_quota := q\<rparr>) = served s"
  "served (s\<lparr>po_opening := r\<rparr>) = served s" "served (s\<lparr>po_opening := r, po_tickets := n\<rparr>) = served s"
  "served (ask_upstream c s) = served s"
  by (simp_all add: served_def)

lemma served_quota_gate: "served (fst (quota_gate en now app n s)) = served s"
  by (cases rule: quota_gate_cases [of en now app n s]) simp_all

lemma quota_gate_leaves:
  "acts (fst (quota_gate en now app n s)) = acts s" "opens (fst (quota_gate en now app n s)) = opens s"
  by (cases rule: quota_gate_cases [of en now app n s]; simp)+

lemma settle_keeps:
  "served (fst (settle_consent en ms app st reply s)) = served s"
  "opens (fst (settle_consent en ms app st reply s)) = opens s"
  by (auto simp: settle_consent_def Let_def intro!: attempt_keeps [where f = served] attempt_keeps [where f = opens]
      split: authorization.split option.split)

lemma settle_known: "st \<noteq> Unset \<Longrightarrow> acts (fst (settle_consent en ms app st reply s)) = acts s"
  by (cases st) (simp_all add: settle_consent_def authorize_def Let_def attempt_def)

lemma ask_keeps:
  "served (fst (ask_daemon en app p s)) = served s" "acts (fst (ask_daemon en app p s)) = acts s"
  by (cases rule: ask_daemon_cases [of en app p s]; simp add: served_def)+

text \<open>
  The ways the first part of \<open>OpenSession\<close> ends: refused or waiting for the person, with nothing
  changed but counters, the ledger and the queue; or settled by a decision on record.
\<close>

definition calm :: "portal \<Rightarrow> portal \<Rightarrow> bool" where
  "calm s s' \<longleftrightarrow> served s' = served s \<and> acts s' = acts s \<and> opens s' = opens s"

lemma calm_grants: "acts (s\<lparr>po_grants := g\<rparr>) = acts s \<Longrightarrow> calm b s \<Longrightarrow> calm b (s\<lparr>po_grants := g\<rparr>)"
  by (simp add: calm_def)

lemma attempt_go:
  "snd r = Inl e \<Longrightarrow> attempt r k = (fst r, Inl e)" "snd r = Inr x \<Longrightarrow> attempt r k = k x (fst r)"
  by (simp_all add: attempt_def)

lemma open_begin_cases:
  obtains (ended) "calm s (fst (open_begin en secs ms caller s))"
  | (settled) p st s2 where "caller = Some p" "calm s s2"
      "st = effective_in (acts s) (ai_app_id (pe_identify en p)) SCOPE_INFERENCE" "st \<noteq> Unset"
      "open_begin en secs ms caller s =
         attempt (settle_consent en ms (pe_identify en p) st None s2)
           (\<lambda>_ s3. ask_daemon en (pe_identify en p) (peer_conn p) s3)"
proof (cases caller)
  case None
  then show thesis by (intro ended) (simp add: open_begin_def calm_def)
next
  case (Some p)
  let ?i = "ai_app_id (pe_identify en p)"
  let ?s1 = "fst (check_rate ?i secs s)"
  let ?eff = "with_grants en (effective_of (pe_grants_ok en) ?i SCOPE_INFERENCE) ?s1"
  have s1: "calm s ?s1" and s2: "calm s (fst ?eff)" by (simp_all add: calm_def)
  show thesis
  proof (cases "snd (check_rate ?i secs s)")
    case (Inl e)
    then show thesis using s1 Some by (intro ended) (simp add: open_begin_def attempt_go Let_def del: fst_check_rate)
  next
    case (Inr u)
    show thesis
    proof (cases "qc_max_sessions_per_app (po_quota_cfg ?s1) \<le> open_sessions_for ?i ?s1 \<or> (\<exists>e. snd ?eff = Inl e)")
      case True
      then show thesis using s1 s2 Some Inr by (intro ended) (auto simp: open_begin_def attempt_go Let_def simp del: fst_with_grants snd_with_grants fst_check_rate)
    next
      case False
      then obtain st where st: "snd ?eff = Inr st" by (cases "snd ?eff") auto
      have seen: "st = effective_in (acts s) ?i SCOPE_INFERENCE" using effective_state [OF st] s1 by (simp add: calm_def)
      show thesis
      proof (cases "needs_prompt st")
        case True
        let ?r = "with_grants en (refusals_since (pe_grants_ok en) ?i SCOPE_INFERENCE (window_start (po_prompt_policy (fst ?eff)) ms)) (fst ?eff)"
        have s3: "calm s (fst ?r)" by (simp add: calm_def)
        show thesis
        proof (cases "snd ?r")
          case (Inl e)
          then show thesis using s3 Some \<open>snd (check_rate ?i secs s) = Inr u\<close> False st True
            by (intro ended) (simp add: open_begin_def attempt_go Let_def del: fst_with_grants snd_with_grants fst_check_rate)
        next
          case (Inr n)
          then show thesis using s3 Some \<open>snd (check_rate ?i secs s) = Inr u\<close> False st True
            by (intro ended) (simp add: open_begin_def attempt_go Let_def calm_def served_def opens_def ledger_note_def del: fst_with_grants snd_with_grants fst_check_rate)
        qed
      next
        case False
        then show thesis
          using Some Inr st seen s2 \<open>\<not> (qc_max_sessions_per_app _ \<le> _ \<or> _)\<close>
          by (intro settled [of p "fst ?eff" st])
            (simp_all add: open_begin_def attempt_go Let_def needs_prompt_def del: fst_with_grants snd_with_grants fst_check_rate)
      qed
    qed
  qed
qed

section \<open>Who makes the daemon open a session\<close>

lemma open_finish_acts: "acts (fst (open_finish en t u reg s)) = acts s" "opens (fst (open_finish en t u reg s)) = opens s"
  by (simp_all add: open_finish_leaves opens_def)

lemma opens_told: "call_row c = None \<Longrightarrow> opens (ask_upstream c s) = opens s"
  by (cases c) (simp_all add: opens_def)

lemma require_manager_keeps: "calm s (fst (require_manager en caller s))"
  by (auto simp: require_manager_def Let_def calm_def split: option.split sum.split)

lemma opens_ask: "opens (fst (ask_daemon en app p s)) = opens s \<or>
    opens (fst (ask_daemon en app p s)) = opens s @ [UpOpen (ai_app_id app)]"
  by (cases rule: ask_daemon_cases [of en app p s]) (simp_all add: opens_def)

lemma opens_charge: "call_row c = Some (''inference.generate'', a) \<or> call_row c = Some (''inference.embed'', a) \<Longrightarrow>
    opens (fst (charge en now app n e c s)) = opens s"
  by (cases c; cases rule: charge_cases [of en now app n e c s]) (simp_all add: opens_def)

lemma opens_generate: "opens (fst (generate en now path who prompt m s)) = opens s"
  by (cases "own_session path who s") (simp_all add: generate_is_charge opens_charge, simp add: generate_def)

lemma opens_embed: "opens (fst (embed en now path who texts s)) = opens s"
  by (cases "own_session path who s") (simp_all add: embed_is_charge opens_charge, simp add: embed_def)

lemma opens_cancel: "opens (fst (cancel path who s)) = opens s"
  by (cases "own_session path who s") (simp_all add: cancel_def opens_told)

lemma opens_close: "opens (fst (close path who s)) = opens s"
  by (cases "own_session path who s") (simp_all add: close_def opens_told)

lemma opens_record: "opens (fst (record_action en ms app sc act status s)) = opens s"
  unfolding record_action_def by (intro attempt_keeps [where f = opens]) simp_all

lemma opens_close_all: "opens (close_all xs s) = opens s"
  by (induction xs arbitrary: s) (simp_all add: opens_told)

lemma opens_revoke: "opens (fst (revoke_sessions app sc s)) = opens s"
  by (simp add: revoke_sessions_def take_sessions_def opens_close_all Let_def)

lemma opens_managed: "opens (fst (require_manager en caller s)) = opens s"
  using require_manager_keeps by (simp add: calm_def)

text \<open>
  Asked by consent. A message makes the daemon open a session for an app only when it is that
  app's own \<open>OpenSession\<close> while the grant on record allows the scope, or the dialog's yes to a request
  of that app that waits for it.
\<close>

theorem daemon_asked_by_consent:
  assumes "opens (handle en m s) \<noteq> opens s"
  shows "\<exists>app. opens (handle en m s) = opens s @ [UpOpen app] \<and>
    ((\<exists>secs ms p. m = MOpen secs ms (Some p) \<and> app = ai_app_id (pe_identify en p) \<and>
        effective_in (gs_actions (po_grants s)) app SCOPE_INFERENCE = Allowed) \<or>
     (\<exists>ms t reply r. m = MDialog ms t (Some reply) \<and> re_allow reply \<and> map_of (po_opening s) t = Some r \<and>
        op_waiting r = AtDialog \<and> app = ai_app_id (op_app r)))"
proof -
  have granted: "st = Allowed \<or> st = Unset \<and> (\<exists>r. reply = Some r \<and> re_allow r)"
    if "snd (settle_consent en ms app st reply s2) = Inr u" for ms app st reply s2 u
    using that by (cases st) (auto simp: settle_consent_def Let_def authorize_def attempt_result split: option.splits if_splits)
  have asked: "(st = Allowed \<or> st = Unset \<and> (\<exists>r. reply = Some r \<and> re_allow r)) \<and>
      opens (fst (attempt (settle_consent en ms app st reply s2) (\<lambda>_ s3. ask_daemon en app p s3))) = opens s2 @ [UpOpen (ai_app_id app)]"
    if "opens (fst (attempt (settle_consent en ms app st reply s2) (\<lambda>_ s3. ask_daemon en app p s3))) \<noteq> opens s2"
    for ms app st reply s2 p
  proof (cases "snd (settle_consent en ms app st reply s2)")
    case (Inl e)
    then show ?thesis using that by (simp add: attempt_go settle_keeps)
  next
    case (Inr u)
    then show ?thesis using that granted [OF Inr] opens_ask settle_keeps(2) by (simp add: attempt_go) metis
  qed
  show ?thesis
  proof (cases m)
    case (MOpen secs ms caller)
    show ?thesis
    proof (cases rule: open_begin_cases [of s en secs ms caller])
      case ended
      then show ?thesis using assms MOpen by (simp add: calm_def)
    next
      case (settled p st s2)
      then show ?thesis using assms MOpen asked [of ms _ st None s2] by (auto simp: calm_def)
    qed
  next
    case (MDialog ms t reply)
    then obtain r where r: "map_of (po_opening s) t = Some r" "op_waiting r = AtDialog"
      using assms by (auto simp: open_answered_def split: option.splits if_splits)
    then show ?thesis
      using assms MDialog asked [of ms "op_app r" Unset reply "s\<lparr>po_opening := al_del t (po_opening s)\<rparr>" "op_peer r"]
      by (auto simp: open_answered_def)
  qed (use assms in \<open>simp_all add: open_finish_acts opens_generate opens_embed opens_cancel opens_close grants_list_def
    grants_grant_def grants_deny_def grants_revoke_def attempt_keeps [where f = opens] opens_managed opens_record opens_revoke\<close>)
qed

lemma daemon_asked_by_consent_witness:
  "opens (handle demo_env (MDialog 0 0 (demo_yes True)) (portal_run demo_env [MOpen 0 0 (Some (demo_peer ''n''))] demo_start)) = [UpOpen ''n''] \<and>
   (\<exists>app. opens demo_asked = [UpOpen app])"
proof -
  let ?s = "portal_run demo_env [MOpen 0 0 (Some (demo_peer ''n''))] demo_start"
  have none: "opens ?s = []" and asked: "fst (open_answered demo_env 0 0 (demo_yes True) ?s) = demo_asked"
    by (simp add: demo_defs opens_def, simp add: demo_asked_def portal_run_def)
  have "opens demo_asked = [UpOpen ''n'']" by (simp add: demo_defs opens_def)
  then have "opens (handle demo_env (MDialog 0 0 (demo_yes True)) ?s) \<noteq> opens ?s" by (simp add: none asked)
  from daemon_asked_by_consent [OF this] show ?thesis
    using \<open>opens demo_asked = [UpOpen ''n'']\<close> by (auto simp: none asked)
qed

section \<open>Who changes a grant\<close>

lemma effective_recorded:
  assumes "effective_in (gs_actions (fst (record_at ok app' sc' act ts g))) app sc \<noteq> effective_in (gs_actions g) app sc"
  shows "app = app' \<and> sc = sc' \<and> is_persistent act"
  using assms
  by (cases act) (auto simp: record_at_def effective_in_def decides_def is_about_def is_persistent_def Let_def split: if_splits)

lemma acts_record: "acts (fst (record_action en ms app sc act status s)) =
    gs_actions (fst (record_at (pe_grants_ok en) app sc act ms (po_grants s)))"
  unfolding record_action_def
  by (cases "snd (record_at (pe_grants_ok en) app sc act ms (po_grants s))")
    (simp_all add: attempt_def with_grants_def ledger_gate_def Let_def split: sum.split)

lemma settle_acts:
  "acts (fst (settle_consent en ms app st reply s)) = acts s \<or>
   (\<exists>act. (authorize st reply = Granted (Some act) \<or> authorize st reply = Refused (Some act)) \<and>
     acts (fst (settle_consent en ms app st reply s)) =
       gs_actions (fst (record_at (pe_grants_ok en) (ai_app_id app) SCOPE_INFERENCE act ms (po_grants s))))"
proof -
  have one: "acts (fst (attempt (with_grants en f s) k)) = gs_actions (fst (f (po_grants s)))"
    if "\<And>x s1. acts (fst (k x s1)) = acts s1" for f :: "grant_store \<Rightarrow> grant_store \<times> (grant_error + int)"
      and k :: "int \<Rightarrow> portal \<Rightarrow> portal \<times> (fdo_error + unit)"
    by (rule attempt_keeps [where f = acts]) (simp_all add: that)
  have noted: "acts (fst (attempt (ledger_gate en e s1) (\<lambda>_ s2. (s2, Inr ())))) = acts s1" for e s1
    by (rule attempt_keeps [where f = acts]) simp_all
  show ?thesis
    by (cases "authorize st reply") (auto simp: settle_consent_def Let_def attempt_go one noted split: option.split)
qed

lemma acts_charge: "acts (fst (charge en now app n e c s)) = acts s"
  by (rule charge_leaves)

lemma acts_generate: "acts (fst (generate en now path who prompt m s)) = acts s"
  by (cases "own_session path who s") (simp_all add: generate_is_charge acts_charge, simp add: generate_def)

lemma acts_embed: "acts (fst (embed en now path who texts s)) = acts s"
  by (cases "own_session path who s") (simp_all add: embed_is_charge acts_charge, simp add: embed_def)

lemma acts_cancel: "acts (fst (cancel path who s)) = acts s"
  by (cases "own_session path who s") (simp_all add: cancel_def)

lemma acts_close: "acts (fst (close path who s)) = acts s"
  by (cases "own_session path who s") (simp_all add: close_def)

lemma acts_close_all: "acts (close_all xs s) = acts s"
  by (induction xs arbitrary: s) simp_all

lemma acts_revoke: "acts (fst (revoke_sessions app sc s)) = acts s"
  by (simp add: revoke_sessions_def take_sessions_def acts_close_all Let_def)

lemma acts_list: "acts (fst (grants_list en caller s)) = acts s"
proof -
  have looked: "acts (s\<lparr>po_grants := (store_tried ^^ n) (po_grants s)\<rparr>) = acts s" for n s
    by (induction n) simp_all
  have "acts (fst (with_grants en (list_grants (pe_grants_ok en)) s1)) = acts s1" for s1
    using list_grants_looks [of "pe_grants_ok en" "po_grants s1"] looked by fastforce
  then show ?thesis
    using require_manager_keeps [of s en caller] unfolding grants_list_def
    by (intro attempt_keeps [where f = acts]) (simp_all add: calm_def)
qed

lemma managed_record:
  assumes "effective_in (acts (fst (attempt (require_manager en caller s) (\<lambda>_. k)))) app sc \<noteq> effective_in (acts s) app sc"
    and "acts (fst (k s)) = gs_actions (fst (record_at ok a c act ts (po_grants s)))"
  shows "a = app \<and> c = sc \<and> (\<exists>p. caller = Some p \<and> caller_may_manage en s p = Inr ())"
proof (cases "\<exists>p. caller = Some p \<and> caller_may_manage en s p = Inr ()")
  case True
  then have "attempt (require_manager en caller s) (\<lambda>_. k) = k s"
    by (auto simp: require_manager_def attempt_def Let_def)
  then show ?thesis using True assms effective_recorded [of ok a c act ts "po_grants s" app sc] by simp
next
  case False
  then have "\<exists>e. snd (require_manager en caller s) = Inl e"
    by (auto simp: require_manager_def Let_def split: option.split sum.split)
  then show ?thesis using assms(1) require_manager_keeps [of s en caller] by (auto simp: attempt_go calm_def)
qed

text \<open>
  C17. Who changes a grant. The state an app's grant has for a scope changes only by a manager's
  \<open>Grant\<close>, \<open>Deny\<close> or \<open>Revoke\<close> of exactly that grant, or by a dialog answer to that app the person
  asked to remember.
\<close>

theorem grants_change_by_decision:
  assumes "effective_in (gs_actions (po_grants (handle en m s))) app sc \<noteq> effective_in (gs_actions (po_grants s)) app sc"
  shows "(\<exists>ms p. caller_may_manage en s p = Inr () \<and>
            m \<in> {MGrant ms (Some p) app sc, MDeny ms (Some p) app sc, MRevoke ms (Some p) app sc}) \<or>
         (\<exists>ms t reply r. m = MDialog ms t (Some reply) \<and> re_remember reply \<and> sc = SCOPE_INFERENCE \<and>
            map_of (po_opening s) t = Some r \<and> op_waiting r = AtDialog \<and> app = ai_app_id (op_app r))"
proof (cases m)
  case (MOpen secs ms caller)
  show ?thesis
  proof (cases rule: open_begin_cases [of s en secs ms caller])
    case ended
    then show ?thesis using assms MOpen by (simp add: calm_def)
  next
    case (settled p st s2)
    have "acts (fst (open_begin en secs ms caller s)) = acts s2" unfolding settled(5)
      by (rule attempt_keeps [where f = acts]) (simp_all add: settle_known settled(4) ask_keeps)
    then show ?thesis using assms MOpen settled(2) by (simp add: calm_def)
  qed
next
  case (MDialog ms t reply)
  then obtain r where r: "map_of (po_opening s) t = Some r" "op_waiting r = AtDialog"
    using assms by (auto simp: open_answered_def split: option.splits if_splits)
  let ?s = "s\<lparr>po_opening := al_del t (po_opening s)\<rparr>"
  have "acts (handle en m s) = acts (fst (settle_consent en ms (op_app r) Unset reply ?s))"
    using r MDialog by (simp add: open_answered_def) (rule attempt_keeps [where f = acts]; simp add: ask_keeps)
  with settle_acts [of en ms "op_app r" Unset reply ?s] assms obtain act where
    act: "authorize Unset reply = Granted (Some act) \<or> authorize Unset reply = Refused (Some act)"
    "acts (handle en m s) = gs_actions (fst (record_at (pe_grants_ok en) (ai_app_id (op_app r)) SCOPE_INFERENCE act ms (po_grants s)))"
    by auto
  then have "app = ai_app_id (op_app r) \<and> sc = SCOPE_INFERENCE \<and> is_persistent act"
    using assms by (intro effective_recorded) simp
  moreover then have "\<exists>x. reply = Some x \<and> re_remember x"
    using act(1) by (auto simp: authorize_def is_persistent_def split: option.splits if_splits)
  ultimately show ?thesis using r MDialog by blast
next
  case (MGrant ms caller a c)
  then show ?thesis
    using managed_record [OF assms [unfolded MGrant handle.simps grants_grant_def] acts_record] by auto
next
  case (MDeny ms caller a c)
  then show ?thesis
    using managed_record [OF assms [unfolded MDeny handle.simps grants_deny_def] acts_record] by auto
next
  case (MRevoke ms caller a c)
  have "acts (fst (attempt (record_action en ms a c GaRevoke ''revoked'' s) (\<lambda>_ s2. revoke_sessions a c s2))) =
      gs_actions (fst (record_at (pe_grants_ok en) a c GaRevoke ms (po_grants s)))"
    by (rule attempt_keeps [where f = acts]) (simp_all add: acts_record acts_revoke)
  from managed_record [OF assms [unfolded MRevoke handle.simps grants_revoke_def] this] show ?thesis
    using MRevoke by auto
qed (use assms in \<open>simp_all add: open_finish_acts acts_generate acts_embed acts_cancel acts_close acts_list\<close>)

lemma grants_change_by_decision_witness:
  "effective_in (gs_actions (po_grants demo_asked)) ''n'' SCOPE_INFERENCE = Allowed \<and>
   (\<exists>ms t reply. MDialog 0 0 (demo_yes True) = MDialog ms t (Some reply) \<and> re_remember reply)"
proof -
  let ?s = "portal_run demo_env [MOpen 0 0 (Some (demo_peer ''n''))] demo_start"
  have asked: "fst (open_answered demo_env 0 0 (demo_yes True) ?s) = demo_asked"
    by (simp add: demo_asked_def portal_run_def)
  have "effective_in (gs_actions (po_grants ?s)) ''n'' SCOPE_INFERENCE = Unset"
    "effective_in (gs_actions (po_grants demo_asked)) ''n'' SCOPE_INFERENCE = Allowed"
    by (simp_all add: demo_defs)
  then show ?thesis
    using grants_change_by_decision [of demo_env "MDialog 0 0 (demo_yes True)" ?s "''n''" SCOPE_INFERENCE]
    by (simp add: asked) blast
qed

end
