(* ===== verification/Portal_Sessions.thy ===== *)
theory Portal_Sessions
  imports Portal_Steps
begin

text \<open>
  The live sessions: each served object has its session in the registry, so revoking a grant ends
  every one of them; and a caller that does not own a session learns and changes nothing.
\<close>

section \<open>Sessions and objects are paired\<close>

definition pair_of :: "string \<Rightarrow> portal_session \<Rightarrow> live_session \<Rightarrow> bool" where
  "pair_of path x y \<longleftrightarrow>
     path = session_path (ps_id x) \<and> ls_path y = path \<and> ls_app_id y = ps_app_id x \<and>
     ls_scope y = SCOPE_INFERENCE \<and> ls_upstream y = ps_upstream x"

definition paired :: "portal \<Rightarrow> bool" where
  "paired s \<longleftrightarrow> distinct (map fst (po_sessions s)) \<and>
     (\<forall>path x. map_of (po_objects s) path = Some x \<longrightarrow>
        (\<exists>y. map_of (po_sessions s) (ps_id x) = Some y \<and> pair_of path x y)) \<and>
     (\<forall>i y. map_of (po_sessions s) i = Some y \<longrightarrow> ls_scope y = SCOPE_INFERENCE \<and> ls_path y = session_path i)"

lemma paired_served: "served s' = served s \<Longrightarrow> paired s \<Longrightarrow> paired s'"
  unfolding paired_def served_def by (metis prod.inject)

lemma pairedI:
  assumes "distinct (map fst (po_sessions s))"
    and "\<And>path x. map_of (po_objects s) path = Some x \<Longrightarrow> \<exists>y. map_of (po_sessions s) (ps_id x) = Some y \<and> pair_of path x y"
    and "\<And>i y. map_of (po_sessions s) i = Some y \<Longrightarrow> ls_scope y = SCOPE_INFERENCE \<and> ls_path y = session_path i"
  shows "paired s"
  using assms by (simp add: paired_def del: map_of_eq_Some_iff)

lemma pairedD:
  "paired s \<Longrightarrow> map_of (po_objects s) path = Some x \<Longrightarrow> \<exists>y. map_of (po_sessions s) (ps_id x) = Some y \<and> pair_of path x y"
  unfolding paired_def by blast

lemma pairedS:
  "paired s \<Longrightarrow> map_of (po_sessions s) i = Some y \<Longrightarrow> ls_scope y = SCOPE_INFERENCE \<and> ls_path y = session_path i"
  by (simp add: paired_def del: map_of_eq_Some_iff)

lemma pairedK: "paired s \<Longrightarrow> distinct (map fst (po_sessions s))"
  by (simp add: paired_def)

lemma session_path_inj [simp]: "session_path a = session_path b \<longleftrightarrow> a = b"
  by (simp add: session_path_def)

lemma paired_finish:
  assumes "paired s"
  shows "paired (fst (open_finish en t u reg s))"
proof (cases "\<exists>r h. map_of (po_opening s) t = Some r \<and> op_waiting r = AtDaemon \<and> u = Inr h \<and> reg = None")
  case True
  then obtain r h where r: "map_of (po_opening s) t = Some r" "op_waiting r = AtDaemon" "u = Inr h" "reg = None" by blast
  let ?token = "pe_token en (po_next_session s)"
  have put: "po_objects (fst (open_finish en t u reg s)) = al_put (session_path ?token)
        \<lparr>ps_id = ?token, ps_app_id = ai_app_id (op_app r), ps_owner = Owner (op_peer r), ps_upstream = h\<rparr> (po_objects s)"
    "po_sessions (fst (open_finish en t u reg s)) = al_put ?token
        \<lparr>ls_app_id = ai_app_id (op_app r), ls_scope = SCOPE_INFERENCE, ls_path = session_path ?token, ls_upstream = h\<rparr>
        (po_sessions s)"
    using r by (simp_all add: open_finish_def Let_def)
  have other: "ps_id x \<noteq> ?token"
    if "map_of (po_objects s) path = Some x" "path \<noteq> session_path ?token" for path x
    using pairedD [OF assms that(1)] that(2) by (auto simp: pair_of_def)
  show ?thesis
    by (rule pairedI; unfold put)
      (use pairedK [OF assms] other pairedD [OF assms] pairedS [OF assms] in
        \<open>auto simp: pair_of_def simp del: map_of_eq_Some_iff split: if_splits\<close>)
next
  case False
  then have "served (fst (open_finish en t u reg s)) = served s"
    by (auto simp: open_finish_def Let_def served_def split: option.split sum.split waiting.split)
  then show ?thesis using assms by (rule paired_served)
qed

lemma paired_close:
  assumes "paired s"
  shows "paired (fst (close path who s))"
proof (cases "own_session path who s")
  case (Inr x)
  then have x: "map_of (po_objects s) path = Some x"
    by (auto simp: own_session_def split: option.splits sum.splits)
  have del: "po_objects (fst (close path who s)) = al_del path (po_objects s)"
    "po_sessions (fst (close path who s)) = al_del (ps_id x) (po_sessions s)"
    using Inr by (simp_all add: close_def)
  have other: "ps_id x' \<noteq> ps_id x" if "map_of (po_objects s) path' = Some x'" "path' \<noteq> path" for path' x'
    using pairedD [OF assms that(1)] pairedD [OF assms x] that(2) by (auto simp: pair_of_def)
  show ?thesis
    by (rule pairedI; unfold del)
      (use pairedK [OF assms] other pairedD [OF assms] pairedS [OF assms] in
        \<open>auto simp: pair_of_def simp del: map_of_eq_Some_iff split: if_splits\<close>)
qed (simp add: close_def assms)

lemma map_of_filter_snd:
  "distinct (map fst xs) \<Longrightarrow>
     map_of (filter (\<lambda>(i, x). P x) xs) k = (case map_of xs k of Some x \<Rightarrow> if P x then Some x else None | None \<Rightarrow> None)"
  by (induction xs) (auto split: option.splits dest: map_of_SomeD, force)

lemma close_all_objects:
  "map_of (po_objects (close_all xs s)) path = (if path \<in> ls_path ` set xs then None else map_of (po_objects s) path)"
  by (induction xs arbitrary: s) auto

lemma close_all_sessions [simp]: "po_sessions (close_all xs s) = po_sessions s"
  by (induction xs arbitrary: s) simp_all

lemma revoked_sessions:
  fixes app :: string
  assumes ok: "paired s"
  defines "s' \<equiv> fst (revoke_sessions app SCOPE_INFERENCE s)"
  shows "map_of (po_sessions s') i =
      (case map_of (po_sessions s) i of Some y \<Rightarrow> if ls_app_id y = app then None else Some y | None \<Rightarrow> None)"
    and "map_of (po_objects s') path =
      (case map_of (po_objects s) path of Some x \<Rightarrow> if ps_app_id x = app then None else Some x | None \<Rightarrow> None)"
proof -
  note d = pairedK [OF ok]
  have sess: "po_sessions s' = filter (\<lambda>(i, x). \<not> is_session_of app SCOPE_INFERENCE x) (po_sessions s)"
    by (simp add: s'_def revoke_sessions_def take_sessions_def Let_def)
  show "map_of (po_sessions s') i =
      (case map_of (po_sessions s) i of Some y \<Rightarrow> if ls_app_id y = app then None else Some y | None \<Rightarrow> None)"
    unfolding sess map_of_filter_snd [OF d]
    using pairedS [OF ok] by (auto simp: is_session_of_def simp del: map_of_eq_Some_iff split: option.split)
  let ?taken = "map snd (filter (\<lambda>(i, x). is_session_of app SCOPE_INFERENCE x) (po_sessions s))"
  have obj: "map_of (po_objects s') path = (if path \<in> ls_path ` set ?taken then None else map_of (po_objects s) path)"
    by (simp add: s'_def revoke_sessions_def take_sessions_def Let_def close_all_objects)
  show "map_of (po_objects s') path =
      (case map_of (po_objects s) path of Some x \<Rightarrow> if ps_app_id x = app then None else Some x | None \<Rightarrow> None)"
  proof (cases "map_of (po_objects s) path")
    case (Some x)
    then obtain y where y: "map_of (po_sessions s) (ps_id x) = Some y" "pair_of path x y"
      using pairedD [OF ok] by blast
    have "path \<in> ls_path ` set ?taken \<longleftrightarrow> ps_app_id x = app"
    proof
      assume "path \<in> ls_path ` set ?taken"
      then obtain i z where z: "(i, z) \<in> set (po_sessions s)" "is_session_of app SCOPE_INFERENCE z" "ls_path z = path" by auto
      then have "map_of (po_sessions s) i = Some z" using d by simp
      then have "path = session_path i" using pairedS [OF ok] z(3) by metis
      then have "i = ps_id x" using y(2) by (simp add: pair_of_def)
      then have "z = y" using y(1) \<open>map_of (po_sessions s) i = Some z\<close> by simp
      then show "ps_app_id x = app" using y(2) z(2) by (simp add: pair_of_def is_session_of_def)
    next
      assume "ps_app_id x = app"
      then have "is_session_of app SCOPE_INFERENCE y" "ls_path y = path" using y(2) by (auto simp: pair_of_def is_session_of_def)
      then show "path \<in> ls_path ` set ?taken" using map_of_SomeD [OF y(1)] by force
    qed
    then show ?thesis using obj Some by simp
  qed (simp add: obj)
qed

lemma paired_revoked:
  assumes "paired s"
  shows "paired (fst (revoke_sessions app sc s))"
proof (cases "sc = SCOPE_INFERENCE")
  case True
  have "distinct (map fst (po_sessions (fst (revoke_sessions app SCOPE_INFERENCE s))))"
    using pairedK [OF assms] by (simp add: revoke_sessions_def take_sessions_def Let_def distinct_map_filter)
  then show ?thesis
    unfolding True
  proof (rule pairedI; unfold revoked_sessions [OF assms])
    fix path x
    assume "(case map_of (po_objects s) path of None \<Rightarrow> None | Some x \<Rightarrow> if ps_app_id x = app then None else Some x) = Some x"
    then have x: "map_of (po_objects s) path = Some x" "ps_app_id x \<noteq> app" by (auto split: option.splits if_splits)
    then obtain y where "map_of (po_sessions s) (ps_id x) = Some y" "pair_of path x y" using pairedD [OF assms] by blast
    then show "\<exists>y. (case map_of (po_sessions s) (ps_id x) of None \<Rightarrow> None | Some y \<Rightarrow> if ls_app_id y = app then None else Some y) = Some y \<and>
        pair_of path x y"
      using x(2) by (simp add: pair_of_def)
  qed (auto dest: pairedS [OF assms] simp del: map_of_eq_Some_iff split: option.splits if_splits)
next
  case False
  have "filter (\<lambda>(i, x). \<not> is_session_of app sc x) (po_sessions s) = po_sessions s"
    "filter (\<lambda>(i, x). is_session_of app sc x) (po_sessions s) = []"
    using assms False by (auto simp: paired_def is_session_of_def filter_id_conv filter_empty_conv)
  then have "served (fst (revoke_sessions app sc s)) = served s"
    by (simp add: revoke_sessions_def take_sessions_def served_def Let_def)
  then show ?thesis using assms by (rule paired_served)
qed

lemma served_charge: "served (fst (charge en now app n e c s)) = served s"
  by (simp add: served_def charge_leaves)

lemma served_generate: "served (fst (generate en now path who prompt m s)) = served s"
  by (cases "own_session path who s") (simp_all add: generate_is_charge served_charge, simp add: generate_def)

lemma served_embed: "served (fst (embed en now path who texts s)) = served s"
  by (cases "own_session path who s") (simp_all add: embed_is_charge served_charge, simp add: embed_def)

lemma served_cancel: "served (fst (cancel path who s)) = served s"
  by (cases "own_session path who s") (simp_all add: cancel_def)

lemma served_record: "served (fst (record_action en ms app sc act status s)) = served s"
  unfolding record_action_def by (intro attempt_keeps [where f = served]) simp_all

lemma served_managed: "served (fst (require_manager en caller s)) = served s"
  using require_manager_keeps by (simp add: calm_def)

lemma served_opening:
  "served (fst (open_begin en secs ms caller s)) = served s" "served (fst (open_answered en ms t reply s)) = served s"
proof -
  show "served (fst (open_begin en secs ms caller s)) = served s"
  proof (cases rule: open_begin_cases [of s en secs ms caller])
    case (settled p st s2)
    show ?thesis unfolding settled(5)
      by (rule attempt_keeps [where f = served]) (use settled(2) in \<open>simp_all add: settle_keeps ask_keeps calm_def\<close>)
  qed (simp add: calm_def)
  show "served (fst (open_answered en ms t reply s)) = served s"
    by (auto simp: open_answered_def settle_keeps ask_keeps split: option.split intro!: attempt_keeps [where f = served])
qed

lemma paired_handled:
  assumes "paired s"
  shows "paired (handle en m s)"
proof (cases m)
  case (MRevoke ms caller app sc)
  have keep: "paired (fst (attempt r k))" if "paired (fst r)" "\<And>x s1. paired s1 \<Longrightarrow> paired (fst (k x s1))"
    for r :: "portal \<times> (fdo_error + unit)" and k :: "unit \<Rightarrow> portal \<Rightarrow> portal \<times> (fdo_error + nat)"
    using that by (cases "snd r") (simp_all add: attempt_go)
  show ?thesis unfolding MRevoke handle.simps grants_revoke_def
    by (intro keep paired_revoked paired_served [OF served_record] paired_served [OF served_managed] assms)
next
  case (MDaemon t u reg) then show ?thesis using assms by (simp add: paired_finish)
next
  case (MClose path who) then show ?thesis using assms by (simp add: paired_close)
next
  case (MList caller)
  have "served (handle en m s) = served s"
    unfolding MList handle.simps grants_list_def
    by (intro attempt_keeps [where f = served]) (simp_all add: served_managed)
  then show ?thesis using assms by (rule paired_served)
qed (rule paired_served [OF _ assms]; simp add: served_opening served_generate served_embed served_cancel served_record
  served_managed grants_grant_def grants_deny_def attempt_keeps [where f = served])+

lemma paired_run: "paired s \<Longrightarrow> paired (portal_run en msgs s)"
  unfolding portal_run_def by (induction msgs arbitrary: s) (simp_all add: paired_handled)

lemma paired_new: "paired (portal_new cfg policy managers g l)"
  by (simp add: paired_def portal_new_def)

section \<open>Revoking\<close>

text \<open>
  C18. Revoking ends it. After a successful \<open>Revoke\<close> of the inference grant the grant is unset, so the
  next \<open>OpenSession\<close> asks the person again; the app has no live session and serves no object, the
  sessions closed are counted, and no other app's session or object is touched.
\<close>

theorem revoke_ends_sessions:
  fixes en msgs cfg policy managers g l
  defines "s \<equiv> portal_run en msgs (portal_new cfg policy managers g l)"
  assumes done_: "grants_revoke en ms caller app SCOPE_INFERENCE s = (s', Inr n)"
  shows "effective_in (gs_actions (po_grants s')) app SCOPE_INFERENCE = Unset \<and>
    n = open_sessions_for app s \<and> open_sessions_for app s' = 0 \<and>
    (\<forall>path. map_of (po_objects s') path =
       (case map_of (po_objects s) path of Some x \<Rightarrow> if ps_app_id x = app then None else Some x | None \<Rightarrow> None)) \<and>
    (\<forall>other. other \<noteq> app \<longrightarrow> open_sessions_for other s' = open_sessions_for other s)"
proof -
  have ok: "paired s" unfolding s_def by (intro paired_run paired_new)
  obtain s1 where s1: "fst (record_action en ms app SCOPE_INFERENCE GaRevoke ''revoked'' s) = s1" by simp
  have go: "snd (require_manager en caller s) = Inr ()" "fst (require_manager en caller s) = s"
    using done_ by (auto simp: grants_revoke_def require_manager_def attempt_def Let_def split: option.splits sum.splits)
  then have rec: "snd (record_action en ms app SCOPE_INFERENCE GaRevoke ''revoked'' s) = Inr ()"
    and s': "revoke_sessions app SCOPE_INFERENCE s1 = (s', Inr n)"
    using done_ s1 by (auto simp: grants_revoke_def attempt_def split: sum.splits)
  have same: "served s1 = served s" using served_record s1 by blast
  then have ok1: "paired s1" and sess: "po_sessions s1 = po_sessions s" and obj: "po_objects s1 = po_objects s"
    using paired_served [OF same ok] by (simp_all add: served_def)
  obtain i where "snd (record_at (pe_grants_ok en) app SCOPE_INFERENCE GaRevoke ms (po_grants s)) = Inr i"
    using rec by (auto simp: record_action_def attempt_result)
  then have "effective_in (acts s1) app SCOPE_INFERENCE = Unset"
    using s1 by (auto simp: acts_record record_at_Inr effective_in_def decides_def is_about_def state_of_text_def)
  moreover have "acts s' = acts s1" using acts_revoke [of app SCOPE_INFERENCE s1] s' by simp
  moreover have taken: "is_session_of app SCOPE_INFERENCE x \<longleftrightarrow> ls_app_id x = app" if "(i, x) \<in> set (po_sessions s)" for i x
    using pairedS [OF ok] pairedK [OF ok] that by (simp add: is_session_of_def)
  then have "n = open_sessions_for app s"
    using s' sess by (auto simp: revoke_sessions_def take_sessions_def open_sessions_for_def Let_def intro!: arg_cong [of _ _ length] filter_cong)
  moreover have left: "po_sessions s' = filter (\<lambda>(i, x). \<not> is_session_of app SCOPE_INFERENCE x) (po_sessions s)"
    using s' sess by (auto simp: revoke_sessions_def take_sessions_def Let_def)
  then have "open_sessions_for app s' = 0"
    using taken by (auto simp: open_sessions_for_def filter_empty_conv)
  moreover have "open_sessions_for other s' = open_sessions_for other s" if "other \<noteq> app" for other
    using that taken left by (auto simp: open_sessions_for_def intro!: arg_cong [of _ _ length] filter_cong)
  ultimately show ?thesis using revoked_sessions(2) [OF ok1, of app] s' obj by simp
qed

lemma revoke_ends_sessions_witness:
  "open_sessions_for ''n'' demo_served = 1 \<and>
   (\<exists>s'. grants_revoke demo_env 0 (Some (demo_peer ''m'')) ''n'' SCOPE_INFERENCE demo_served = (s', Inr 1) \<and>
      open_sessions_for ''n'' s' = 0)"
proof -
  obtain s' where s': "grants_revoke demo_env 0 (Some (demo_peer ''m'')) ''n'' SCOPE_INFERENCE demo_served = (s', Inr 1)"
  proof -
    have "snd (grants_revoke demo_env 0 (Some (demo_peer ''m'')) ''n'' SCOPE_INFERENCE demo_served) = Inr 1"
      by (simp add: demo_defs demo_manage_defs path_eq_def)
    then show thesis using that by (metis prod.collapse)
  qed
  from revoke_ends_sessions [OF s' [folded demo_served_run]] show ?thesis
    using s' unfolding demo_served_run by auto
qed

section \<open>Strangers\<close>

text \<open>
  Strangers. Every operation on a session by a peer that does not own it leaves the portal as it
  was and is answered as a path that does not exist; the owner's is carried out on that session.
\<close>

theorem strangers_see_no_session:
  assumes "\<And>x i. map_of (po_objects s) path = Some x \<Longrightarrow> who = Inr i \<Longrightarrow> \<not> owner_allows (ps_owner x) i"
  shows "generate en now path who prompt m s = (s, Inl (no_such_session path)) \<and>
    embed en now path who texts s = (s, Inl (no_such_session path)) \<and>
    cancel path who s = (s, Inl (no_such_session path)) \<and> close path who s = (s, Inl (no_such_session path))"
proof -
  have "own_session path who s = Inl (no_such_session path)"
    using assms by (auto simp: own_session_def owner_require_def split: option.split sum.split)
  then show ?thesis by (simp add: generate_def embed_def cancel_def close_def)
qed

lemma strangers_see_no_session_witness:
  "map_of (po_objects demo_served) (session_path ''a'') \<noteq> None \<and>
   close (session_path ''a'') (Inr (Bus ''x'')) demo_served = (demo_served, Inl (no_such_session (session_path ''a'')))"
proof
  show "map_of (po_objects demo_served) (session_path ''a'') \<noteq> None" by (simp add: demo_served_facts)
  show "close (session_path ''a'') (Inr (Bus ''x'')) demo_served = (demo_served, Inl (no_such_session (session_path ''a'')))"
    by (rule strangers_see_no_session [THEN conjunct2, THEN conjunct2, THEN conjunct2])
      (auto simp: demo_served_facts owner_allows_def)
qed

section \<open>What the three phases leave open\<close>

text \<open>
  Between the phases of \<open>OpenSession\<close> nothing is checked again: a request that is at the daemon when
  the grant is revoked still becomes a live session, and two that wait at once exceed a limit of one.
\<close>

theorem revoked_request_still_opens:
  "(case grants_revoke demo_env 0 (Some (demo_peer ''m'')) ''n'' SCOPE_INFERENCE demo_asked of
      (s, r) \<Rightarrow> r = Inr 0 \<and> (let s' = fst (open_finish demo_env 1 (Inr 5) None s)
        in open_sessions_for ''n'' s' = 1 \<and> effective_in (gs_actions (po_grants s')) ''n'' SCOPE_INFERENCE = Unset))"
  by (simp add: demo_defs demo_manage_defs path_eq_def)

theorem session_limit_is_exceeded:
  "qc_max_sessions_per_app (po_quota_cfg demo_start) = 1 \<and>
   open_sessions_for ''n'' (portal_run demo_env
     [MOpen 0 0 (Some (demo_peer ''n'')), MOpen 0 0 (Some (demo_peer ''n'')), MDialog 0 0 (demo_yes True), MDialog 0 1 (demo_yes True),
      MDaemon 2 (Inr 5) None, MDaemon 3 (Inr 6) None] demo_start) = 2"
  by (simp add: demo_defs)

end
