(* ===== verification/Portal_Quota.thy ===== *)
theory Portal_Quota
  imports Portal_Grants
begin

text \<open>The sliding window of requests: exactly when a request is refused, and the rate it enforces.\<close>

text \<open>The requests admitted so far, given the times at which an app asked.\<close>

fun admitted :: "quota_config \<Rightarrow> string \<Rightarrow> (string \<times> nat) list \<Rightarrow> quota_book \<Rightarrow> nat list" where
  "admitted cfg app [] b = []"
| "admitted cfg app ((who, t) # rs) b =
     (case check_request who cfg t b of
        (b1, Inl e) \<Rightarrow> admitted cfg app rs b1
      | (b1, Inr u) \<Rightarrow> (if who = app then t # admitted cfg app rs b1 else admitted cfg app rs b1))"

definition book_after :: "quota_config \<Rightarrow> (string \<times> nat) list \<Rightarrow> quota_book \<Rightarrow> quota_book" where
  "book_after cfg rs b = fold (\<lambda>(who, t) b. fst (check_request who cfg t b)) rs b"

lemma recent_sorted: "sorted w \<Longrightarrow> recent now w = filter (\<lambda>t. now - t < 60) w"
proof (induction w)
  case (Cons t w)
  then show ?case
    by (cases "60 \<le> now - t") (auto simp: recent_def intro!: filter_True [symmetric])
qed (simp add: recent_def)

lemma sorted_recent: "sorted w \<Longrightarrow> sorted (recent now w)"
  by (simp add: recent_sorted sorted_wrt_filter)

lemma recent_recent: "sorted w \<Longrightarrow> now \<le> later \<Longrightarrow> recent later (recent now w) = recent later w"
  by (auto simp: recent_sorted sorted_wrt_filter intro!: filter_cong)

lemma length_filter_le_imp: "(\<And>x. P x \<Longrightarrow> Q x) \<Longrightarrow> length (filter P xs) \<le> length (filter Q xs)"
  by (induction xs) auto

lemma window_of_put [simp]: "window_of (al_put who w b) app = (if who = app then w else window_of b app)"
  by (simp add: window_of_def)

text \<open>The book against the admitted times: at any later moment they read the same.\<close>

definition book_reads :: "quota_book \<Rightarrow> string \<Rightarrow> nat list \<Rightarrow> nat \<Rightarrow> bool" where
  "book_reads b app adm now \<longleftrightarrow>
     sorted adm \<and> (\<forall>t \<in> set adm. t \<le> now) \<and> sorted (window_of b app) \<and>
     (\<forall>later \<ge> now. recent later (window_of b app) = recent later adm)"

lemma admitted_snoc:
  "admitted cfg app (rs @ [(who, t)]) b =
     admitted cfg app rs b @ (if who = app \<and> snd (check_request who cfg t (book_after cfg rs b)) = Inr () then [t] else [])"
proof (induction rs arbitrary: b)
  case Nil
  show ?case by (auto simp: book_after_def split: prod.split sum.split)
next
  case (Cons r rs)
  obtain v u where r: "r = (v, u)" by force
  obtain b1 e where step: "check_request v cfg u b = (b1, e)" by force
  have "book_after cfg (r # rs) b = book_after cfg rs b1" by (simp add: book_after_def r step)
  moreover have "admitted cfg app (r # xs) b = (if e = Inr () \<and> v = app then u # admitted cfg app xs b1 else admitted cfg app xs b1)" for xs
    by (simp add: r step split: sum.split)
  ultimately show ?case using Cons [of b1] by simp
qed

lemma book_after_snoc: "book_after cfg (rs @ [(who, t)]) b = fst (check_request who cfg t (book_after cfg rs b))"
  by (simp add: book_after_def)

lemma check_request_step:
  assumes ok: "book_reads b app adm now" and t: "now \<le> t"
  shows "(snd (check_request who cfg t b) = Inr () \<longleftrightarrow> length (recent t (window_of b who)) < qc_requests_per_min cfg) \<and>
    book_reads (fst (check_request who cfg t b)) app
      (adm @ (if who = app \<and> snd (check_request who cfg t b) = Inr () then [t] else [])) t"
proof -
  let ?w = "recent t (window_of b who)"
  have reads: "recent later (window_of b app) = recent later adm" if "t \<le> later" for later
    using ok t that by (simp add: book_reads_def)
  have srt: "sorted adm" "sorted (window_of b app)" "\<forall>x \<in> set adm. x \<le> t" using ok t by (auto simp: book_reads_def)
  have w: "set (recent t (window_of b app)) \<subseteq> set adm"
    using reads [of t] srt(1) by (simp add: recent_sorted)
  have w1: "sorted (recent t (window_of b app) @ [t])" "sorted (adm @ [t])"
    using sorted_recent [OF srt(2), of t] srt(1,3) w by (auto simp: sorted_append)
  have later: "recent l (recent t (window_of b app)) = recent l adm" if "t \<le> l" for l
    using recent_recent [OF srt(2) that] reads [OF that] by simp
  have later1: "recent l (recent t (window_of b app) @ [t]) = recent l (adm @ [t])" if "t \<le> l" for l
    using later [OF that] recent_sorted [OF w1(1)] recent_sorted [OF w1(2)]
      recent_sorted [OF sorted_recent [OF srt(2), of t]] recent_sorted [OF srt(1)] by simp
  show ?thesis
    using srt w1 later later1 reads sorted_recent [OF srt(2), of t]
    by (auto simp: check_request_def Let_def book_reads_def sorted_append)
qed

lemma book_run:
  assumes "sorted (map snd rs)" "\<forall>r \<in> set rs. snd r \<le> now"
  shows "book_reads (book_after cfg rs []) app (admitted cfg app rs []) now"
  using assms
proof (induction rs arbitrary: now rule: rev_induct)
  case Nil
  show ?case by (simp add: book_reads_def book_after_def window_of_def recent_def)
next
  case (snoc r rs)
  obtain who t where r: "r = (who, t)" by force
  have "book_reads (book_after cfg rs []) app (admitted cfg app rs []) t"
    using snoc r by (intro snoc.IH) (auto simp: sorted_append)
  then have "book_reads (book_after cfg (rs @ [r]) []) app (admitted cfg app (rs @ [r]) []) t"
    using check_request_step [of _ app _ t t who cfg] unfolding r admitted_snoc book_after_snoc by blast
  then show ?case using snoc(3) r by (auto simp: book_reads_def intro: order_trans)
qed

text \<open>
  The request rate. Over requests of any apps in the order of time, an app is refused exactly when
  it already had the configured number of requests admitted in the last sixty seconds; so in no sixty
  seconds are more admitted.
\<close>

theorem request_rate_bound:
  assumes "sorted (map snd (rs @ [(app, t)]))"
  shows "(snd (check_request app cfg t (book_after cfg rs [])) = Inl QuotaRate \<longleftrightarrow>
      qc_requests_per_min cfg \<le> length (filter (\<lambda>x. t - x < 60) (admitted cfg app rs []))) \<and>
    length (filter (\<lambda>x. a \<le> x \<and> x < a + 60) (admitted cfg app rs [])) \<le> qc_requests_per_min cfg"
proof -
  have refused: "snd (check_request app cfg t (book_after cfg rs [])) = Inr () \<longleftrightarrow>
      length (filter (\<lambda>x. t - x < 60) (admitted cfg app rs [])) < qc_requests_per_min cfg"
    if "sorted (map snd (rs @ [(app, t)]))" for rs t
  proof -
    have b: "book_reads (book_after cfg rs []) app (admitted cfg app rs []) t"
      using that by (intro book_run) (auto simp: sorted_append)
    then have "recent t (window_of (book_after cfg rs []) app) = recent t (admitted cfg app rs [])"
      "sorted (admitted cfg app rs [])" unfolding book_reads_def by blast+
    then have "recent t (window_of (book_after cfg rs []) app) = filter (\<lambda>x. t - x < 60) (admitted cfg app rs [])"
      by (simp add: recent_sorted)
    then show ?thesis using check_request_step [OF b order_refl, of app cfg] by simp
  qed
  have bound: "length (filter (\<lambda>x. a \<le> x \<and> x < a + 60) (admitted cfg app rs [])) \<le> qc_requests_per_min cfg"
    if "sorted (map snd rs)" for rs
    using that
  proof (induction rs rule: rev_induct)
    case (snoc r rs)
    obtain who u where r: "r = (who, u)" by force
    let ?adm = "admitted cfg app rs []"
    show ?case
    proof (cases "who = app \<and> snd (check_request who cfg u (book_after cfg rs [])) = Inr () \<and> a \<le> u \<and> u < a + 60")
      case True
      have "length (filter (\<lambda>x. a \<le> x \<and> x < a + 60) ?adm) \<le> length (filter (\<lambda>x. u - x < 60) ?adm)"
        using True by (intro length_filter_le_imp) auto
      also have "\<dots> < qc_requests_per_min cfg"
        using True refused [of rs u] snoc(2) unfolding r by blast
      finally have "length (filter (\<lambda>x. a \<le> x \<and> x < a + 60) ?adm) < qc_requests_per_min cfg" .
      moreover have "admitted cfg app (rs @ [r]) [] = ?adm @ [u]" using True by (auto simp: r admitted_snoc)
      ultimately show ?thesis by simp
    next
      case False
      then have "filter (\<lambda>x. a \<le> x \<and> x < a + 60) (admitted cfg app (rs @ [r]) []) = filter (\<lambda>x. a \<le> x \<and> x < a + 60) ?adm"
        by (auto simp: r admitted_snoc)
      then show ?thesis using snoc by (simp add: sorted_append)
    qed
  qed simp
  have "snd (check_request app cfg t b) = Inl QuotaRate \<or> snd (check_request app cfg t b) = Inr ()" for b
    by (simp add: check_request_def Let_def)
  with refused [OF assms] bound [of rs] assms show ?thesis by (auto simp: sorted_append not_less)
qed

lemma request_rate_bound_witness:
  "(let cfg = default_quota\<lparr>qc_requests_per_min := 2\<rparr>; rs = [(''a'', 10), (''a'', 20), (''b'', 25), (''a'', 30)]
    in admitted cfg ''a'' rs [] = [10, 20] \<and>
      snd (check_request ''a'' cfg 69 (book_after cfg rs [])) = Inl QuotaRate \<and>
      length (filter (\<lambda>x. 5 \<le> x \<and> x < 5 + 60) (admitted cfg ''a'' rs [])) \<le> 2)"
proof -
  let ?cfg = "default_quota\<lparr>qc_requests_per_min := 2\<rparr>"
  let ?rs = "[(''a'', 10), (''a'', 20), (''b'', 25), (''a'', 30)]"
  have adm: "admitted ?cfg ''a'' ?rs [] = [10, 20]"
    by (simp add: check_request_def window_of_def recent_def default_quota_def Let_def)
  have "sorted (map snd (?rs @ [(''a'', 69 :: nat)]))" by simp
  from request_rate_bound [OF this, of ?cfg 5] show ?thesis
    unfolding Let_def adm by (simp add: default_quota_def)
qed

end
