(* ===== verification/Context_Store.thy ===== *)
theory Context_Store
  imports Complex_Main Lisa_Prelude "HOL-Library.Char_ord" "HOL-Library.List_Lexorder"
begin

text \<open>
  The context store of \<open>daemons/contextd\<close>: \<open>store.rs\<close>, \<open>acl.rs\<close> and \<open>index.rs\<close>. The SQLite file is its
  four tables as lists; \<open>ok n\<close> says whether the n-th statement on it succeeds, and a transaction that
  fails leaves the tables as they were. \<open>blake3\<close> is an argument, and so is FTS5: which chunks match a
  query, with their snippet and \<open>bm25\<close> score. An \<open>f64\<close> score is a \<open>real\<close>.
\<close>

section \<open>Provenance and scopes (acl.rs)\<close>

definition PROVENANCE :: "string list" where
  "PROVENANCE = [''file'', ''mail'', ''calendar'', ''screen'', ''web'', ''system'']"

definition is_known_provenance :: "string \<Rightarrow> bool" where
  "is_known_provenance p \<longleftrightarrow> p \<in> set PROVENANCE"

definition provenance_for_scope :: "string \<Rightarrow> string list" where
  "provenance_for_scope scope =
     (if scope \<in> {''documents.read'', ''files.read'', ''documents'', ''files''} then [''file'']
      else if scope \<in> {''mail.read'', ''mail''} then [''mail'']
      else if scope \<in> {''calendar.read'', ''calendar''} then [''calendar'']
      else if scope \<in> {''screen.read'', ''screen''} then [''screen'']
      else if scope \<in> {''web.read'', ''web''} then [''web'']
      else if scope \<in> {''system.read'', ''system''} then [''system'']
      else [])"

text \<open>Sorted and without duplicates; the order of the tags in the query does not matter to it.\<close>

definition allowed_provenance :: "string list \<Rightarrow> string list" where
  "allowed_provenance scopes = filter (\<lambda>p. p \<in> set (concat (map provenance_for_scope scopes)))
     [''calendar'', ''file'', ''mail'', ''screen'', ''system'', ''web'']"

section \<open>Chunks and queries (index.rs)\<close>

definition CHUNK_TARGET :: nat where
  "CHUNK_TARGET = 1024"

text \<open>\<open>str::split\<close> on the blank line.\<close>

fun split_blank :: "string \<Rightarrow> string list" where
  "split_blank [] = [[]]"
| "split_blank [c] = [[c]]"
| "split_blank (c # d # s) =
     (if c = CHR 10 \<and> d = CHR 10 then [] # split_blank s
      else (case split_blank (d # s) of [] \<Rightarrow> [[c]] | w # ws \<Rightarrow> (c # w) # ws))"

text \<open>The last character boundary at or below a byte offset: how many characters lie before it.\<close>

fun boundary :: "nat \<Rightarrow> string \<Rightarrow> nat" where
  "boundary n [] = 0"
| "boundary n (c # s) = (if utf8_len c \<le> n \<and> s \<noteq> [] then Suc (boundary (n - utf8_len c) s) else 0)"

text \<open>The \<open>while\<close> of an oversized paragraph: the chunks cut off, and what is left.\<close>

function cut_oversized :: "string \<Rightarrow> string list \<times> string" where
  "cut_oversized current =
     (if CHUNK_TARGET * 2 < byte_len current
      then (let k = boundary (CHUNK_TARGET * 2) current; r = cut_oversized (drop k current)
            in (take k current # fst r, snd r))
      else ([], current))"
  by pat_completeness auto

lemma boundary_pos: "2 \<le> n \<Longrightarrow> n < byte_len s \<Longrightarrow> 0 < boundary n s"
  by (cases s) (auto simp: byte_len_def utf8_len_def split: if_splits list.splits)

termination cut_oversized
proof (relation "measure length")
  fix current k r
  assume "CHUNK_TARGET * 2 < byte_len current" "k = boundary (CHUNK_TARGET * 2) current"
  then have "0 < k" "current \<noteq> []" using boundary_pos by (auto simp: CHUNK_TARGET_def byte_len_def)
  then show "(drop k current, current) \<in> measure length" by (cases current) auto
qed simp

declare cut_oversized.simps [simp del]

fun chunk_loop :: "string list \<Rightarrow> string \<Rightarrow> string list" where
  "chunk_loop [] current = (if trim current \<noteq> [] then [current] else [])"
| "chunk_loop (para # ps) current =
     (let full = current \<noteq> [] \<and> CHUNK_TARGET < byte_len current + byte_len para;
          rest = (if full then [] else current);
          joined = (if rest \<noteq> [] then rest @ [CHR 10, CHR 10] @ para else para);
          cut = cut_oversized joined
      in (if full then [current] else []) @ fst cut @ chunk_loop ps (snd cut))"

definition chunk_text :: "string \<Rightarrow> string list" where
  "chunk_text text = chunk_loop (split_blank text) []"

text \<open>\<open>char::is_alphanumeric\<close> below U+0100.\<close>

definition is_alphanumeric :: "char \<Rightarrow> bool" where
  "is_alphanumeric c \<longleftrightarrow>
     is_ascii_alnum c \<or> ccode c \<in> {170, 178, 179, 181, 185, 186, 188, 189, 190} \<or>
     (192 \<le> ccode c \<and> ccode c \<noteq> 215 \<and> ccode c \<noteq> 247)"

fun double_quotes :: "string \<Rightarrow> string" where
  "double_quotes [] = []"
| "double_quotes (c # s) = (if c = CHR 34 then [CHR 34, CHR 34] else [c]) @ double_quotes s"

definition query_terms :: "string \<Rightarrow> string list" where
  "query_terms raw =
     map (\<lambda>t. [CHR 34] @ double_quotes t @ [CHR 34])
       (filter (\<lambda>t. t \<noteq> []) (split_on (\<lambda>c. \<not> is_alphanumeric c \<and> c \<noteq> CHR ''_'') raw))"

definition fts5_query :: "string \<Rightarrow> string option" where
  "fts5_query raw = (if query_terms raw = [] then None else Some (join '' '' (query_terms raw)))"

section \<open>Tables (store.rs)\<close>

record document =
  dc_id :: int
  dc_source :: string
  dc_provenance :: string
  dc_mtime :: int
  dc_hash :: string

record chunk =
  ck_content :: string
  ck_doc :: int
  ck_seq :: int

record chunk_vector =
  cv_doc :: int
  cv_seq :: int
  cv_vec :: "real list"

record memory_row =
  mr_app :: string
  mr_key :: string
  mr_value :: string
  mr_updated :: int

text \<open>\<open>cs_last\<close> is the last id AUTOINCREMENT gave.\<close>

record ctx_store =
  cs_docs :: "document list"
  cs_chunks :: "chunk list"
  cs_vectors :: "chunk_vector list"
  cs_memory :: "memory_row list"
  cs_last :: int
  cs_tries :: nat

datatype store_error = StoreDb | StoreIo | UnknownProvenance string | ProvenanceConflict string string string

definition empty_ctx :: ctx_store where
  "empty_ctx = \<lparr>cs_docs = [], cs_chunks = [], cs_vectors = [], cs_memory = [], cs_last = 0, cs_tries = 0\<rparr>"

definition ctx_tried :: "ctx_store \<Rightarrow> ctx_store" where
  "ctx_tried s = s\<lparr>cs_tries := Suc (cs_tries s)\<rparr>"

text \<open>One statement that writes, one that reads, and a transaction around statements.\<close>

definition ctx_exec :: "(nat \<Rightarrow> bool) \<Rightarrow> (ctx_store \<Rightarrow> ctx_store) \<Rightarrow> ctx_store \<Rightarrow> ctx_store \<times> (store_error + unit)" where
  "ctx_exec ok f s = (if ok (cs_tries s) then (ctx_tried (f s), Inr ()) else (ctx_tried s, Inl StoreDb))"

definition ctx_query :: "(nat \<Rightarrow> bool) \<Rightarrow> (ctx_store \<Rightarrow> 'a) \<Rightarrow> ctx_store \<Rightarrow> ctx_store \<times> (store_error + 'a)" where
  "ctx_query ok f s = (ctx_tried s, if ok (cs_tries s) then Inr (f s) else Inl StoreDb)"

definition ctx_atomic :: "ctx_store \<Rightarrow> ctx_store \<times> (store_error + 'a) \<Rightarrow> ctx_store \<times> (store_error + 'a)" where
  "ctx_atomic s r = (case snd r of Inr x \<Rightarrow> r | Inl e \<Rightarrow> (s\<lparr>cs_tries := cs_tries (fst r)\<rparr>, Inl e))"

definition ctx_commit :: "(nat \<Rightarrow> bool) \<Rightarrow> 'a \<Rightarrow> ctx_store \<Rightarrow> ctx_store \<times> (store_error + 'a)" where
  "ctx_commit ok x s = attempt (ctx_exec ok (\<lambda>t. t) s) (\<lambda>_ s1. (s1, Inr x))"

definition ctx_transaction ::
    "(nat \<Rightarrow> bool) \<Rightarrow> (ctx_store \<Rightarrow> ctx_store \<times> (store_error + 'a)) \<Rightarrow> ctx_store \<Rightarrow> ctx_store \<times> (store_error + 'a)" where
  "ctx_transaction ok body s =
     attempt (ctx_exec ok (\<lambda>t. t) s) (\<lambda>_ s1. ctx_atomic s1 (attempt (body s1) (ctx_commit ok)))"

section \<open>Writing documents\<close>

definition doc_of :: "string \<Rightarrow> ctx_store \<Rightarrow> document option" where
  "doc_of source s = List.find (\<lambda>d. dc_source d = source) (cs_docs s)"

text \<open>The three DELETEs of a document.\<close>

definition delete_document :: "(nat \<Rightarrow> bool) \<Rightarrow> int \<Rightarrow> ctx_store \<Rightarrow> ctx_store \<times> (store_error + unit)" where
  "delete_document ok i s =
     attempt (ctx_exec ok (\<lambda>t. t\<lparr>cs_chunks := filter (\<lambda>c. ck_doc c \<noteq> i) (cs_chunks t)\<rparr>) s)
       (\<lambda>_ s1. attempt (ctx_exec ok (\<lambda>t. t\<lparr>cs_vectors := filter (\<lambda>v. cv_doc v \<noteq> i) (cs_vectors t)\<rparr>) s1)
          (\<lambda>_. ctx_exec ok (\<lambda>t. t\<lparr>cs_docs := filter (\<lambda>d. dc_id d \<noteq> i) (cs_docs t)\<rparr>)))"

text \<open>The INSERT of a document, with UNIQUE(source); the answer is \<open>last_insert_rowid\<close>.\<close>

definition insert_document ::
    "(nat \<Rightarrow> bool) \<Rightarrow> string \<Rightarrow> string \<Rightarrow> int \<Rightarrow> string \<Rightarrow> ctx_store \<Rightarrow> ctx_store \<times> (store_error + int)" where
  "insert_document ok source provenance mtime hash s =
     (if doc_of source s \<noteq> None then (ctx_tried s, Inl StoreDb)
      else (let i = cs_last s + 1
            in attempt (ctx_exec ok (\<lambda>t. t\<lparr>cs_docs := cs_docs t @
                   [\<lparr>dc_id = i, dc_source = source, dc_provenance = provenance, dc_mtime = mtime, dc_hash = hash\<rparr>],
                   cs_last := i\<rparr>) s)
                 (\<lambda>_ s1. (s1, Inr i))))"

fun insert_chunks ::
    "(nat \<Rightarrow> bool) \<Rightarrow> int \<Rightarrow> int \<Rightarrow> string list \<Rightarrow> ctx_store \<Rightarrow> ctx_store \<times> (store_error + unit)" where
  "insert_chunks ok i seq [] s = (s, Inr ())"
| "insert_chunks ok i seq (c # cs) s =
     attempt (ctx_exec ok (\<lambda>t. t\<lparr>cs_chunks := cs_chunks t @ [\<lparr>ck_content = c, ck_doc = i, ck_seq = seq\<rparr>]\<rparr>) s)
       (\<lambda>_. insert_chunks ok i (seq + 1) cs)"

definition write_document ::
    "(nat \<Rightarrow> bool) \<Rightarrow> string \<Rightarrow> string \<Rightarrow> string \<Rightarrow> string \<Rightarrow> ctx_store \<Rightarrow> ctx_store \<times> (store_error + unit)" where
  "write_document ok source provenance content hash s =
     (let q = ctx_query ok (doc_of source) s
      in attempt (case snd q of Inr (Some d) \<Rightarrow> delete_document ok (dc_id d) (fst q) | _ \<Rightarrow> (fst q, Inr ()))
           (\<lambda>_ s1. attempt (insert_document ok source provenance 0 hash s1)
              (\<lambda>i. insert_chunks ok i 0 (chunk_text content))))"

datatype add_outcome = Added | Unchanged | ForeignSkipped

text \<open>A failing read counts as no such document (\<open>.ok()\<close>).\<close>

definition add_document_if_changed ::
    "(nat \<Rightarrow> bool) \<Rightarrow> (string \<Rightarrow> string) \<Rightarrow> string \<Rightarrow> string \<Rightarrow> string \<Rightarrow> ctx_store \<Rightarrow> ctx_store \<times> (store_error + add_outcome)" where
  "add_document_if_changed ok hash_of source provenance content s =
     (if \<not> is_known_provenance provenance then (s, Inl (UnknownProvenance provenance))
      else attempt (ctx_exec ok (\<lambda>t. t) s)
        (\<lambda>_ s1.
           let q = ctx_query ok (doc_of source) s1;
               write = ctx_atomic s1 (attempt (write_document ok source provenance content (hash_of content) (fst q))
                                        (\<lambda>_. ctx_commit ok Added))
           in case (case snd q of Inr d \<Rightarrow> d | Inl e \<Rightarrow> None) of
                Some d \<Rightarrow>
                  if dc_provenance d \<noteq> provenance then (fst q, Inr ForeignSkipped)
                  else if dc_hash d = hash_of content then (fst q, Inr Unchanged)
                  else write
              | None \<Rightarrow> write))"

definition add_document ::
    "(nat \<Rightarrow> bool) \<Rightarrow> (string \<Rightarrow> string) \<Rightarrow> string \<Rightarrow> string \<Rightarrow> string \<Rightarrow> ctx_store \<Rightarrow> ctx_store \<times> (store_error + unit)" where
  "add_document ok hash_of source provenance content s =
     (if \<not> is_known_provenance provenance then (s, Inl (UnknownProvenance provenance))
      else ctx_transaction ok (write_document ok source provenance content (hash_of content)) s)"

section \<open>Pruning\<close>

record prune_plan =
  pl_sources :: "string list"
  pl_chunks :: nat
  pl_vectors :: nat
  pl_protected :: nat

definition plan_is_empty :: "prune_plan \<Rightarrow> bool" where
  "plan_is_empty p \<longleftrightarrow> pl_sources p = []"

text \<open>The two tallies and the documents by id, then the loop over them.\<close>

definition tally_of :: "int \<Rightarrow> int list \<Rightarrow> nat" where
  "tally_of i ids = length (filter (\<lambda>j. j = i) ids)"

fun doomed_loop ::
    "ctx_store \<Rightarrow> string set \<Rightarrow> string list \<Rightarrow> document list \<Rightarrow> int list \<times> prune_plan \<Rightarrow> int list \<times> prune_plan" where
  "doomed_loop s keep protect [] r = r"
| "doomed_loop s keep protect (d # ds) (ids, plan) =
     doomed_loop s keep protect ds
       (if dc_source d \<in> keep then (ids, plan)
        else if \<exists>p \<in> set protect. starts_with (dc_source d) p then (ids, plan\<lparr>pl_protected := Suc (pl_protected plan)\<rparr>)
        else (ids @ [dc_id d],
              plan\<lparr>pl_sources := pl_sources plan @ [dc_source d],
                pl_chunks := pl_chunks plan + tally_of (dc_id d) (map ck_doc (cs_chunks s)),
                pl_vectors := pl_vectors plan + tally_of (dc_id d) (map cv_doc (cs_vectors s))\<rparr>))"

definition doomed ::
    "(nat \<Rightarrow> bool) \<Rightarrow> string \<Rightarrow> string set \<Rightarrow> string list \<Rightarrow> ctx_store \<Rightarrow> ctx_store \<times> (store_error + int list \<times> prune_plan)" where
  "doomed ok provenance keep protect s =
     attempt (ctx_query ok (\<lambda>t. t) s) (\<lambda>_ s1. attempt (ctx_query ok (\<lambda>t. t) s1)
       (\<lambda>_. ctx_query ok (\<lambda>t. doomed_loop t keep protect
          (sort_key dc_id (filter (\<lambda>d. dc_provenance d = provenance) (cs_docs t)))
          ([], \<lparr>pl_sources = [], pl_chunks = 0, pl_vectors = 0, pl_protected = 0\<rparr>))))"

fun delete_all :: "(nat \<Rightarrow> bool) \<Rightarrow> int list \<Rightarrow> ctx_store \<Rightarrow> ctx_store \<times> (store_error + unit)" where
  "delete_all ok [] s = (s, Inr ())"
| "delete_all ok (i # is) s = attempt (delete_document ok i s) (\<lambda>_. delete_all ok is)"

definition prune_not_in ::
    "(nat \<Rightarrow> bool) \<Rightarrow> string \<Rightarrow> string set \<Rightarrow> string list \<Rightarrow> ctx_store \<Rightarrow> ctx_store \<times> (store_error + nat)" where
  "prune_not_in ok provenance keep protect s =
     (if \<not> is_known_provenance provenance then (s, Inl (UnknownProvenance provenance))
      else ctx_transaction ok
        (\<lambda>s1. attempt (doomed ok provenance keep protect s1)
           (\<lambda>r s2. attempt (delete_all ok (fst r) s2) (\<lambda>_ s3. (s3, Inr (length (pl_sources (snd r))))))) s)"

definition plan_prune_not_in ::
    "(nat \<Rightarrow> bool) \<Rightarrow> string \<Rightarrow> string set \<Rightarrow> string list \<Rightarrow> ctx_store \<Rightarrow> ctx_store \<times> (store_error + prune_plan)" where
  "plan_prune_not_in ok provenance keep protect s =
     (if \<not> is_known_provenance provenance then (s, Inl (UnknownProvenance provenance))
      else attempt (doomed ok provenance keep protect s) (\<lambda>r s1. (s1, Inr (snd r))))"

text \<open>\<open>prune_missing\<close> runs outside a transaction; \<open>exists\<close> is \<open>Path::exists\<close>.\<close>

fun prune_loop ::
    "(nat \<Rightarrow> bool) \<Rightarrow> (string \<Rightarrow> bool) \<Rightarrow> document list \<Rightarrow> nat \<Rightarrow> ctx_store \<Rightarrow> ctx_store \<times> (store_error + nat)" where
  "prune_loop ok exists_at [] n s = (s, Inr n)"
| "prune_loop ok exists_at (d # ds) n s =
     (if exists_at (dc_source d) then prune_loop ok exists_at ds n s
      else attempt (delete_document ok (dc_id d) s) (\<lambda>_. prune_loop ok exists_at ds (Suc n)))"

definition prune_missing ::
    "(nat \<Rightarrow> bool) \<Rightarrow> (string \<Rightarrow> bool) \<Rightarrow> string \<Rightarrow> ctx_store \<Rightarrow> ctx_store \<times> (store_error + nat)" where
  "prune_missing ok exists_at provenance s =
     (if \<not> is_known_provenance provenance then (s, Inl (UnknownProvenance provenance))
      else attempt (ctx_query ok (\<lambda>t. filter (\<lambda>d. dc_provenance d = provenance) (cs_docs t)) s)
        (\<lambda>rows. prune_loop ok exists_at rows 0))"

section \<open>Indexing a directory\<close>

definition TEXT_EXTENSIONS :: "string list" where
  "TEXT_EXTENSIONS =
     [''txt'', ''md'', ''rst'', ''org'', ''html'', ''htm'', ''json'', ''toml'', ''yaml'', ''yml'', ''csv'', ''log'', ''rs'',
      ''py'', ''js'', ''ts'', ''sh'', ''c'', ''h'', ''cpp'', ''go'', ''java'']"

definition MAX_FILE_BYTES :: nat where
  "MAX_FILE_BYTES = 4 * 1024 * 1024"

text \<open>A regular file the walk yields: its path and name, its metadata, its text when it is UTF-8.\<close>

record walked_file =
  wf_source :: string
  wf_name :: string
  wf_len :: "nat option"
  wf_mtime :: int
  wf_content :: "string option"

record index_report =
  ir_indexed :: nat
  ir_skipped_unchanged :: nat
  ir_chunks :: nat
  ir_skipped_foreign :: "string list"

definition empty_index_report :: index_report where
  "empty_index_report = \<lparr>ir_indexed = 0, ir_skipped_unchanged = 0, ir_chunks = 0, ir_skipped_foreign = []\<rparr>"

text \<open>\<open>Path::extension\<close> of a file name.\<close>

definition extension_of :: "string \<Rightarrow> string" where
  "extension_of name =
     (case split_once (CHR ''.'') (rev name) of
        None \<Rightarrow> []
      | Some (ext, stem) \<Rightarrow> if stem = [] then [] else rev ext)"

definition is_text_file :: "walked_file \<Rightarrow> bool" where
  "is_text_file f \<longleftrightarrow> ascii_lower (extension_of (wf_name f)) \<in> set TEXT_EXTENSIONS"

fun insert_counted ::
    "(nat \<Rightarrow> bool) \<Rightarrow> int \<Rightarrow> int \<Rightarrow> string list \<Rightarrow> index_report \<Rightarrow> ctx_store \<Rightarrow> ctx_store \<times> (store_error + index_report)" where
  "insert_counted ok i seq [] rep s = (s, Inr (rep\<lparr>ir_indexed := Suc (ir_indexed rep)\<rparr>))"
| "insert_counted ok i seq (c # cs) rep s =
     attempt (ctx_exec ok (\<lambda>t. t\<lparr>cs_chunks := cs_chunks t @ [\<lparr>ck_content = c, ck_doc = i, ck_seq = seq\<rparr>]\<rparr>) s)
       (\<lambda>_. insert_counted ok i (seq + 1) cs (rep\<lparr>ir_chunks := Suc (ir_chunks rep)\<rparr>))"

text \<open>One file; there is no transaction, so a failing statement leaves what came before it.\<close>

definition index_file ::
    "(nat \<Rightarrow> bool) \<Rightarrow> (string \<Rightarrow> string) \<Rightarrow> string \<Rightarrow> walked_file \<Rightarrow> index_report \<Rightarrow> ctx_store \<Rightarrow>
     ctx_store \<times> (store_error + index_report)" where
  "index_file ok hash_of provenance f rep s =
     (case (wf_len f, wf_content f) of
        (Some n, Some content) \<Rightarrow>
          if \<not> is_text_file f \<or> MAX_FILE_BYTES < n then (s, Inr rep)
          else (let q = ctx_query ok (doc_of (wf_source f)) s;
                    existing = (case snd q of Inr d \<Rightarrow> d | Inl e \<Rightarrow> None);
                    write = (\<lambda>s1. attempt (insert_document ok (wf_source f) provenance (wf_mtime f) (hash_of content) s1)
                                     (\<lambda>i. insert_counted ok i 0 (chunk_text content) rep))
                in case existing of
                     Some d \<Rightarrow>
                       if dc_provenance d \<noteq> provenance
                       then (fst q, Inr (rep\<lparr>ir_skipped_foreign := ir_skipped_foreign rep @ [wf_source f]\<rparr>))
                       else if dc_hash d = hash_of content
                       then (fst q, Inr (rep\<lparr>ir_skipped_unchanged := Suc (ir_skipped_unchanged rep)\<rparr>))
                       else attempt (delete_document ok (dc_id d) (fst q)) (\<lambda>_. write)
                   | None \<Rightarrow> write (fst q))
      | _ \<Rightarrow> (s, Inr rep))"

fun index_files ::
    "(nat \<Rightarrow> bool) \<Rightarrow> (string \<Rightarrow> string) \<Rightarrow> string \<Rightarrow> walked_file list \<Rightarrow> index_report \<Rightarrow> ctx_store \<Rightarrow>
     ctx_store \<times> (store_error + index_report)" where
  "index_files ok hash_of provenance [] rep s = (s, Inr rep)"
| "index_files ok hash_of provenance (f # fs) rep s =
     attempt (index_file ok hash_of provenance f rep s) (index_files ok hash_of provenance fs)"

definition index_dir_as ::
    "(nat \<Rightarrow> bool) \<Rightarrow> (string \<Rightarrow> string) \<Rightarrow> walked_file list \<Rightarrow> string \<Rightarrow> ctx_store \<Rightarrow> ctx_store \<times> (store_error + index_report)" where
  "index_dir_as ok hash_of files provenance s =
     (if \<not> is_known_provenance provenance then (s, Inl (UnknownProvenance provenance))
      else index_files ok hash_of provenance files empty_index_report s)"

definition index_dir ::
    "(nat \<Rightarrow> bool) \<Rightarrow> (string \<Rightarrow> string) \<Rightarrow> walked_file list \<Rightarrow> ctx_store \<Rightarrow> ctx_store \<times> (store_error + index_report)" where
  "index_dir ok hash_of files = index_dir_as ok hash_of files ''file''"

section \<open>App memory (memory.rs)\<close>

definition is_memory_of :: "string \<Rightarrow> string \<Rightarrow> memory_row \<Rightarrow> bool" where
  "is_memory_of app key r \<longleftrightarrow> mr_app r = app \<and> mr_key r = key"

definition memory_set ::
    "(nat \<Rightarrow> bool) \<Rightarrow> int \<Rightarrow> string \<Rightarrow> string \<Rightarrow> string \<Rightarrow> ctx_store \<Rightarrow> ctx_store \<times> (store_error + unit)" where
  "memory_set ok now app key value =
     ctx_exec ok (\<lambda>t. t\<lparr>cs_memory :=
       (if \<exists>r \<in> set (cs_memory t). is_memory_of app key r
        then map (\<lambda>r. if is_memory_of app key r then r\<lparr>mr_value := value, mr_updated := now\<rparr> else r) (cs_memory t)
        else cs_memory t @ [\<lparr>mr_app = app, mr_key = key, mr_value = value, mr_updated = now\<rparr>])\<rparr>)"

definition memory_get :: "(nat \<Rightarrow> bool) \<Rightarrow> string \<Rightarrow> string \<Rightarrow> ctx_store \<Rightarrow> ctx_store \<times> (store_error + string option)" where
  "memory_get ok app key s =
     (let q = ctx_query ok (\<lambda>t. map_option mr_value (List.find (is_memory_of app key) (cs_memory t))) s
      in (fst q, Inr (case snd q of Inr v \<Rightarrow> v | Inl e \<Rightarrow> None)))"

definition memory_list ::
    "(nat \<Rightarrow> bool) \<Rightarrow> string \<Rightarrow> ctx_store \<Rightarrow> ctx_store \<times> (store_error + (string \<times> string) list)" where
  "memory_list ok app =
     ctx_query ok (\<lambda>t. sort_key fst (map (\<lambda>r. (mr_key r, mr_value r)) (filter (\<lambda>r. mr_app r = app) (cs_memory t))))"

definition memory_wipe :: "(nat \<Rightarrow> bool) \<Rightarrow> string \<Rightarrow> ctx_store \<Rightarrow> ctx_store \<times> (store_error + nat)" where
  "memory_wipe ok app s =
     (let n = length (filter (\<lambda>r. mr_app r = app) (cs_memory s))
      in attempt (ctx_exec ok (\<lambda>t. t\<lparr>cs_memory := filter (\<lambda>r. mr_app r \<noteq> app) (cs_memory t)\<rparr>) s) (\<lambda>_ s1. (s1, Inr n)))"

end
