(* ===== verification/Context_Chunks.thy ===== *)
theory Context_Chunks
  imports Context_Store
begin

text \<open>What cutting a document into chunks keeps, and how large a chunk can be.\<close>

lemma byte_len_append [simp]: "byte_len (a @ b) = byte_len a + byte_len b"
  by (simp add: byte_len_def)

lemma boundary_le: "byte_len (take (boundary n s) s) \<le> n"
  by (induction n s rule: boundary.induct) (auto simp: byte_len_def)

lemma cut_oversized_text: "concat (fst (cut_oversized s)) @ snd (cut_oversized s) = s"
proof (induction s rule: cut_oversized.induct)
  case (1 s)
  show ?case
    by (subst (1 2) cut_oversized.simps) (use 1 in \<open>auto simp: Let_def\<close>)
qed

lemma cut_oversized_small:
  "(\<forall>c \<in> set (fst (cut_oversized s)). c \<noteq> [] \<and> byte_len c \<le> 2048) \<and> byte_len (snd (cut_oversized s)) \<le> 2048"
proof (induction s rule: cut_oversized.induct)
  case (1 s)
  show ?case
  proof (cases "CHUNK_TARGET * 2 < byte_len s")
    case True
    then have "0 < boundary (CHUNK_TARGET * 2) s" "s \<noteq> []"
      using boundary_pos by (auto simp: CHUNK_TARGET_def byte_len_def)
    then show ?thesis
      using 1 [OF True refl] True boundary_le [of "CHUNK_TARGET * 2" s]
      by (subst (1 2) cut_oversized.simps) (auto simp: Let_def CHUNK_TARGET_def)
  next
    case False
    then show ?thesis by (subst (1 2) cut_oversized.simps) (simp add: CHUNK_TARGET_def)
  qed
qed

definition ink :: "string \<Rightarrow> string" where
  "ink s = filter (\<lambda>c. \<not> is_ws c) s"

lemma ink_append [simp]: "ink (a @ b) = ink a @ ink b"
  by (simp add: ink_def)

lemma ink_newline [simp]: "ink (CHR 10 # s) = ink s" "ink [] = []"
  by (simp_all add: ink_def is_ws_code)

lemma ink_blank:
  assumes "trim s = []"
  shows "ink s = []"
proof -
  have all: "\<forall>c \<in> set (dropWhile is_ws s). is_ws c"
    using assms by (simp add: trim_def trim_by_def trim_end_by_def trim_start_by_def)
  have "dropWhile is_ws s = []"
  proof (rule ccontr)
    assume "dropWhile is_ws s \<noteq> []"
    then show False using all hd_dropWhile [of is_ws s] hd_in_set by blast
  qed
  then show ?thesis by (simp add: ink_def filter_empty_conv)
qed

lemma ink_concat: "ink (concat xs) = concat (map ink xs)"
  by (induction xs) simp_all

lemma split_blank_not_Nil: "split_blank s \<noteq> []"
  by (induction s rule: split_blank.induct) (auto split: list.split)

lemma split_blank_ink: "ink (concat (split_blank s)) = ink s"
proof (induction s rule: split_blank.induct)
  case (3 c d s)
  show ?case
  proof (cases "c = CHR 10 \<and> d = CHR 10")
    case True
    then show ?thesis using 3 by simp
  next
    case False
    then obtain w ws where "split_blank (d # s) = w # ws" using split_blank_not_Nil by (meson neq_Nil_conv)
    then show ?thesis using 3(2) False by (auto simp: ink_def split: if_splits)
  qed
qed simp_all

lemma chunk_loop_ink: "ink (concat (chunk_loop ps current)) = ink current @ ink (concat ps)"
proof (induction ps current rule: chunk_loop.induct)
  case (1 current)
  show ?case using ink_blank by simp
next
  case (2 para ps current)
  define full where "full = (current \<noteq> [] \<and> CHUNK_TARGET < byte_len current + byte_len para)"
  define rest where "rest = (if full then [] else current)"
  define joined where "joined = (if rest \<noteq> [] then rest @ [CHR 10, CHR 10] @ para else para)"
  define cut where "cut = cut_oversized joined"
  have "ink (concat (chunk_loop ps (snd cut))) = ink (snd cut) @ ink (concat ps)"
    by (rule "2.IH" [OF full_def rest_def joined_def cut_def])
  moreover have "ink (concat (fst cut)) @ ink (snd cut) = ink joined"
    using cut_oversized_text [of joined] by (metis cut_def ink_append)
  moreover have "(if full then ink current else []) @ ink joined = ink current @ ink para"
    by (auto simp: joined_def rest_def)
  moreover have "chunk_loop (para # ps) current = (if full then [current] else []) @ fst cut @ chunk_loop ps (snd cut)"
    by (simp add: full_def rest_def joined_def cut_def Let_def)
  ultimately show ?case by (auto simp: rest_def)
qed

lemma chunk_loop_small:
  "byte_len current \<le> 2048 \<Longrightarrow> \<forall>c \<in> set (chunk_loop ps current). c \<noteq> [] \<and> byte_len c \<le> 2048"
proof (induction ps current rule: chunk_loop.induct)
  case (1 current)
  then show ?case by (auto simp: trim_def trim_by_def trim_end_by_def trim_start_by_def)
next
  case (2 para ps current)
  define full where "full = (current \<noteq> [] \<and> CHUNK_TARGET < byte_len current + byte_len para)"
  define rest where "rest = (if full then [] else current)"
  define joined where "joined = (if rest \<noteq> [] then rest @ [CHR 10, CHR 10] @ para else para)"
  define cut where "cut = cut_oversized joined"
  have "\<forall>c \<in> set (chunk_loop ps (snd cut)). c \<noteq> [] \<and> byte_len c \<le> 2048"
    using 2(1) [OF full_def rest_def joined_def cut_def] cut_oversized_small [of joined] by (simp add: cut_def)
  moreover have "chunk_loop (para # ps) current = (if full then [current] else []) @ fst cut @ chunk_loop ps (snd cut)"
    by (simp add: full_def rest_def joined_def cut_def Let_def)
  ultimately show ?case using cut_oversized_small [of joined] 2(2) by (auto simp: cut_def full_def)
qed

text \<open>
  Chunks. Cutting a text into chunks loses nothing but white space, keeps the order, and every chunk
  is not empty and at most 2048 bytes long.
\<close>

theorem chunks_keep_the_text:
  "filter (\<lambda>c. \<not> is_ws c) (concat (chunk_text doc)) = filter (\<lambda>c. \<not> is_ws c) doc \<and>
   (\<forall>c \<in> set (chunk_text doc). c \<noteq> [] \<and> byte_len c \<le> 2 * CHUNK_TARGET)"
  using chunk_loop_ink [of "split_blank doc" "[]"] chunk_loop_small [of "[]" "split_blank doc"] split_blank_ink [of doc]
  by (simp add: chunk_text_def ink_def CHUNK_TARGET_def byte_len_def)

lemma chunks_keep_the_text_witness:
  "chunk_text ''ab'' = [''ab''] \<and> hd (chunk_text ''ab'') \<noteq> [] \<and> byte_len (hd (chunk_text ''ab'')) \<le> 2 * CHUNK_TARGET"
proof -
  have "chunk_text ''ab'' = [''ab'']" by code_simp
  then show ?thesis using chunks_keep_the_text [of "''ab''"] by simp
qed

end
