(* ===== verification/Context_Search.thy ===== *)
theory Context_Search
  imports Context_Store
begin

text \<open>
  Retrieval: \<open>search\<close> and \<open>search_scoped\<close> (\<open>index.rs\<close>, \<open>acl.rs\<close>), the vectors and the hybrid ranking of
  \<open>embed.rs\<close>. A vector of \<open>f32\<close> is a list of reals, without rounding and without NaN; a tie may be broken
  either way, so the order in which a hash map is read is an argument, \<open>iter\<close>.
\<close>

section \<open>Lexical search\<close>

record hit =
  h_source :: string
  h_provenance :: string
  h_snippet :: string
  h_score :: real

text \<open>
  FTS5: the snippet and the \<open>bm25\<close> score of a chunk that matches a query, in a table of chunks; \<open>None\<close>
  when it does not match.
\<close>

type_synonym fts = "chunk list \<Rightarrow> string \<Rightarrow> chunk \<Rightarrow> (string \<times> real) option"

definition joined_hits :: "fts \<Rightarrow> string \<Rightarrow> (string \<Rightarrow> bool) \<Rightarrow> ctx_store \<Rightarrow> hit list" where
  "joined_hits fts q visible s =
     concat (map (\<lambda>c. case fts (cs_chunks s) q c of
                None \<Rightarrow> []
              | Some (snippet, score) \<Rightarrow>
                  map (\<lambda>d. \<lparr>h_source = dc_source d, h_provenance = dc_provenance d, h_snippet = snippet, h_score = score\<rparr>)
                    (filter (\<lambda>d. dc_id d = ck_doc c \<and> visible (dc_provenance d)) (cs_docs s)))
        (cs_chunks s))"

definition search ::
    "(nat \<Rightarrow> bool) \<Rightarrow> fts \<Rightarrow> string \<Rightarrow> nat \<Rightarrow> ctx_store \<Rightarrow> ctx_store \<times> (store_error + hit list)" where
  "search ok fts raw limit s =
     (case fts5_query raw of
        None \<Rightarrow> (s, Inr [])
      | Some q \<Rightarrow> ctx_query ok (\<lambda>t. take limit (sort_key h_score (joined_hits fts q (\<lambda>p. True) t))) s)"

definition search_scoped ::
    "(nat \<Rightarrow> bool) \<Rightarrow> fts \<Rightarrow> string \<Rightarrow> string list \<Rightarrow> nat \<Rightarrow> ctx_store \<Rightarrow> ctx_store \<times> (store_error + hit list)" where
  "search_scoped ok fts raw scopes limit s =
     (let allowed = allowed_provenance scopes
      in if allowed = [] then (s, Inr [])
         else (case fts5_query raw of
                 None \<Rightarrow> (s, Inr [])
               | Some q \<Rightarrow>
                   ctx_query ok (\<lambda>t. take limit (sort_key h_score (joined_hits fts q (\<lambda>p. p \<in> set allowed) t))) s))"

section \<open>Vectors\<close>

definition cosine :: "real list \<Rightarrow> real list \<Rightarrow> real" where
  "cosine a b = (if length a \<noteq> length b then 0 else sum_list (map2 (*) a b))"

text \<open>An embedder: its n-th call may fail.\<close>

type_synonym embedder = "nat \<Rightarrow> string list \<Rightarrow> store_error + real list list"

text \<open>\<open>Vec::remove(0)\<close> of an empty answer panics: \<open>None\<close>.\<close>

definition embed_query :: "embedder \<Rightarrow> string \<Rightarrow> ctx_store \<Rightarrow> (store_error + real list) option" where
  "embed_query emb q s =
     (case emb (cs_tries s) [q] of
        Inl e \<Rightarrow> Some (Inl e)
      | Inr [] \<Rightarrow> None
      | Inr (v # vs) \<Rightarrow> Some (Inr v))"

text \<open>The chunks without a vector, in row order; \<open>None\<close> is the whole store.\<close>

definition is_pending :: "string option \<Rightarrow> ctx_store \<Rightarrow> chunk \<Rightarrow> bool" where
  "is_pending provenance s c \<longleftrightarrow>
     \<not> (\<exists>v \<in> set (cs_vectors s). cv_doc v = ck_doc c \<and> cv_seq v = ck_seq c) \<and>
     (case provenance of
        None \<Rightarrow> True
      | Some p \<Rightarrow> \<exists>d \<in> set (cs_docs s). dc_id d = ck_doc c \<and> dc_provenance d = p)"

definition put_vector :: "chunk_vector \<Rightarrow> chunk_vector list \<Rightarrow> chunk_vector list" where
  "put_vector v vs = filter (\<lambda>w. \<not> (cv_doc w = cv_doc v \<and> cv_seq w = cv_seq v)) vs @ [v]"

fun put_vectors ::
    "(nat \<Rightarrow> bool) \<Rightarrow> (chunk \<times> real list) list \<Rightarrow> ctx_store \<Rightarrow> ctx_store \<times> (store_error + unit)" where
  "put_vectors ok [] s = (s, Inr ())"
| "put_vectors ok ((c, v) # ps) s =
     attempt (ctx_exec ok (\<lambda>t. t\<lparr>cs_vectors :=
          put_vector \<lparr>cv_doc = ck_doc c, cv_seq = ck_seq c, cv_vec = v\<rparr> (cs_vectors t)\<rparr>) s)
       (\<lambda>_. put_vectors ok ps)"

text \<open>One round of the loop: \<open>None\<close> when nothing is pending, else how many chunks it took.\<close>

definition embed_round ::
    "(nat \<Rightarrow> bool) \<Rightarrow> embedder \<Rightarrow> nat \<Rightarrow> string option \<Rightarrow> ctx_store \<Rightarrow> ctx_store \<times> (store_error + nat option)" where
  "embed_round ok emb batch provenance s =
     attempt (ctx_query ok (\<lambda>t. take batch (filter (is_pending provenance t) (cs_chunks t))) s)
       (\<lambda>pending s1.
          if pending = [] then (s1, Inr None)
          else (case emb (cs_tries s1) (map ck_content pending) of
                  Inl e \<Rightarrow> (s1, Inl e)
                | Inr vectors \<Rightarrow>
                    attempt (ctx_transaction ok (put_vectors ok (zip pending vectors)) s1)
                      (\<lambda>_ s2. (s2, Inr (Some (length pending))))))"

text \<open>The loop may not end, when an embedder answers with too few vectors: \<open>None\<close>.\<close>

partial_function (option) embed_loop ::
    "(nat \<Rightarrow> bool) \<Rightarrow> embedder \<Rightarrow> nat \<Rightarrow> string option \<Rightarrow> nat \<Rightarrow> ctx_store \<Rightarrow> (ctx_store \<times> (store_error + nat)) option" where
  "embed_loop ok emb batch provenance n s =
     (case embed_round ok emb batch provenance s of
        (s1, Inl e) \<Rightarrow> Some (s1, Inl e)
      | (s1, Inr None) \<Rightarrow> Some (s1, Inr n)
      | (s1, Inr (Some k)) \<Rightarrow> embed_loop ok emb batch provenance (n + k) s1)"

definition embed_pending_batched ::
    "(nat \<Rightarrow> bool) \<Rightarrow> embedder \<Rightarrow> nat \<Rightarrow> ctx_store \<Rightarrow> (ctx_store \<times> (store_error + nat)) option" where
  "embed_pending_batched ok emb batch = embed_loop ok emb (max batch 1) None 0"

definition embed_pending ::
    "(nat \<Rightarrow> bool) \<Rightarrow> embedder \<Rightarrow> ctx_store \<Rightarrow> (ctx_store \<times> (store_error + nat)) option" where
  "embed_pending ok emb = embed_pending_batched ok emb 64"

definition embed_pending_provenance ::
    "(nat \<Rightarrow> bool) \<Rightarrow> embedder \<Rightarrow> string \<Rightarrow> ctx_store \<Rightarrow> (ctx_store \<times> (store_error + nat)) option" where
  "embed_pending_provenance ok emb provenance s =
     (if \<not> is_known_provenance provenance then Some (s, Inl (UnknownProvenance provenance))
      else embed_loop ok emb 64 (Some provenance) 0 s)"

section \<open>Hybrid search\<close>

text \<open>The join of vectors, documents and chunks, row by row.\<close>

definition vector_rows :: "ctx_store \<Rightarrow> (string \<times> string \<times> string \<times> real list) list" where
  "vector_rows s =
     concat (map (\<lambda>v. concat (map (\<lambda>d. map (\<lambda>c. (dc_source d, dc_provenance d, ck_content c, cv_vec v))
          (filter (\<lambda>c. ck_doc c = cv_doc v \<and> ck_seq c = cv_seq v) (cs_chunks s)))
        (filter (\<lambda>d. dc_id d = cv_doc v) (cs_docs s)))) (cs_vectors s))"

text \<open>The best chunk of each source the scan may see.\<close>

fun best_loop ::
    "real list \<Rightarrow> string set \<Rightarrow> string list option \<Rightarrow> (string \<times> string \<times> string \<times> real list) list \<Rightarrow>
     (string \<times> real \<times> hit) list \<Rightarrow> (string \<times> real \<times> hit) list" where
  "best_loop qvec seen scopes [] best = best"
| "best_loop qvec seen scopes ((source, provenance, content, v) # rows) best =
     best_loop qvec seen scopes rows
       (if source \<in> seen then best
        else if (case scopes of Some allowed \<Rightarrow> provenance \<notin> set allowed | None \<Rightarrow> False) then best
        else (let cos = cosine qvec v;
                  h = \<lparr>h_source = source, h_provenance = provenance, h_snippet = take 160 content, h_score = 0\<rparr>
              in case map_of best source of
                   Some (prev, old) \<Rightarrow> if cos \<le> prev then best else al_put source (cos, h) best
                 | None \<Rightarrow> al_put source (cos, h) best))"

definition vector_candidates ::
    "(nat \<Rightarrow> bool) \<Rightarrow> ((string \<times> real \<times> hit) list \<Rightarrow> (string \<times> real \<times> hit) list) \<Rightarrow> real list \<Rightarrow> hit list \<Rightarrow>
     string list option \<Rightarrow> nat \<Rightarrow> ctx_store \<Rightarrow> ctx_store \<times> (store_error + hit list)" where
  "vector_candidates ok iter qvec have_hits scopes k =
     ctx_query ok (\<lambda>t. map (snd \<circ> snd) (take k (sort_key (\<lambda>x. - fst (snd x))
       (iter (best_loop qvec (set (map h_source have_hits)) scopes (vector_rows t) [])))))"

text \<open>The first vector of a source; a failing read counts as none.\<close>

definition first_vector :: "string \<Rightarrow> ctx_store \<Rightarrow> real list option" where
  "first_vector source s =
     (case sort_key cv_seq (filter (\<lambda>v. \<exists>d \<in> set (cs_docs s). dc_id d = cv_doc v \<and> dc_source d = source) (cs_vectors s)) of
        [] \<Rightarrow> None
      | v # vs \<Rightarrow> Some (cv_vec v))"

fun blend ::
    "(nat \<Rightarrow> bool) \<Rightarrow> real list \<Rightarrow> real \<Rightarrow> hit list \<Rightarrow> ctx_store \<Rightarrow> ctx_store \<times> (real \<times> hit) list" where
  "blend ok qvec best [] s = (s, [])"
| "blend ok qvec best (h # hs) s =
     (let q = ctx_query ok (first_vector (h_source h)) s;
          cos = (case snd q of Inr (Some v) \<Rightarrow> cosine qvec v | _ \<Rightarrow> 0);
          blended = 0.5 * (\<bar>h_score h\<bar> / best) + 0.5 * ((cos + 1) / 2);
          r = blend ok qvec best hs (fst q)
      in (fst r, (blended, h) # snd r))"

definition best_bm25 :: "hit list \<Rightarrow> real" where
  "best_bm25 hs = max \<bar>foldl min (h_score (hd hs)) (map h_score (tl hs))\<bar> (1 / 10 ^ 6)"

definition rerank ::
    "(nat \<Rightarrow> bool) \<Rightarrow> real list \<Rightarrow> hit list \<Rightarrow> nat \<Rightarrow> ctx_store \<Rightarrow> ctx_store \<times> (store_error + hit list)" where
  "rerank ok qvec candidates limit s =
     (if candidates = [] then (s, Inr [])
      else (let r = blend ok qvec (best_bm25 candidates) candidates s
            in (fst r, Inr (map snd (take limit (sort_key (\<lambda>x. - fst x) (snd r)))))))"

text \<open>What the two hybrid searches share, once the lexical candidates are there; \<open>None\<close> is a panic.\<close>

definition hybrid_from ::
    "(nat \<Rightarrow> bool) \<Rightarrow> ((string \<times> real \<times> hit) list \<Rightarrow> (string \<times> real \<times> hit) list) \<Rightarrow> embedder \<Rightarrow> string \<Rightarrow>
     string list option \<Rightarrow> nat \<Rightarrow> hit list \<Rightarrow> ctx_store \<Rightarrow> (ctx_store \<times> (store_error + hit list)) option" where
  "hybrid_from ok iter emb q scopes limit candidates s =
     (case embed_query emb q s of
        None \<Rightarrow> None
      | Some (Inl e) \<Rightarrow> Some (s, Inl e)
      | Some (Inr qvec) \<Rightarrow>
          Some (attempt (if length candidates < limit
                         then attempt (vector_candidates ok iter qvec candidates scopes limit s)
                                (\<lambda>extra s1. (s1, Inr (candidates @ extra)))
                         else (s, Inr candidates))
                  (\<lambda>cs. rerank ok qvec cs limit)))"

definition search_hybrid ::
    "(nat \<Rightarrow> bool) \<Rightarrow> fts \<Rightarrow> ((string \<times> real \<times> hit) list \<Rightarrow> (string \<times> real \<times> hit) list) \<Rightarrow> embedder \<Rightarrow> string \<Rightarrow> nat \<Rightarrow>
     ctx_store \<Rightarrow> (ctx_store \<times> (store_error + hit list)) option" where
  "search_hybrid ok fts iter emb q limit s =
     (case search ok fts q (max limit 20 * 3) s of
        (s1, Inl e) \<Rightarrow> Some (s1, Inl e)
      | (s1, Inr candidates) \<Rightarrow> hybrid_from ok iter emb q None limit candidates s1)"

definition search_hybrid_scoped ::
    "(nat \<Rightarrow> bool) \<Rightarrow> fts \<Rightarrow> ((string \<times> real \<times> hit) list \<Rightarrow> (string \<times> real \<times> hit) list) \<Rightarrow> embedder \<Rightarrow> string \<Rightarrow>
     string list \<Rightarrow> nat \<Rightarrow> ctx_store \<Rightarrow> (ctx_store \<times> (store_error + hit list)) option" where
  "search_hybrid_scoped ok fts iter emb q scopes limit s =
     (case search_scoped ok fts q scopes (max limit 20 * 3) s of
        (s1, Inl e) \<Rightarrow> Some (s1, Inl e)
      | (s1, Inr candidates) \<Rightarrow> hybrid_from ok iter emb q (Some scopes) limit candidates s1)"

section \<open>The fallback embedder\<close>

text \<open>
  \<open>HashEmbedder\<close>: the bucket of a token by a 64-bit multiplicative hash of its bytes. The two bytes of a
  scalar from U+0080 to U+00FF are its UTF-8 encoding.
\<close>

definition utf8_bytes :: "char \<Rightarrow> nat list" where
  "utf8_bytes c = (if ccode c < 128 then [ccode c] else [192 + ccode c div 64, 128 + ccode c mod 64])"

definition token_hash :: "string \<Rightarrow> 64 word" where
  "token_hash token =
     foldl (\<lambda>h b. (xor h (word_of_nat b)) * 1099511628211) 1469598103934665603
       (concat (map utf8_bytes (ascii_lower token)))"

definition token_counts :: "nat \<Rightarrow> string \<Rightarrow> real list" where
  "token_counts width text =
     foldl (\<lambda>v token. v[unat (token_hash token) mod width := v ! (unat (token_hash token) mod width) + 1])
       (replicate width 0) (filter (\<lambda>t. t \<noteq> []) (split_on (\<lambda>c. \<not> is_alphanumeric c) text))"

definition unit_length :: "real list \<Rightarrow> real list" where
  "unit_length v = (let norm = sqrt (sum_list (map (\<lambda>x. x * x) v)) in if 0 < norm then map (\<lambda>x. x / norm) v else v)"

definition hash_embed :: "nat \<Rightarrow> embedder" where
  "hash_embed width n texts = Inr (map (\<lambda>t. unit_length (token_counts width t)) texts)"

end
