(* ===== verification/Context_Bus.thy ===== *)
theory Context_Bus
  imports Context_Search Peer_App Ledger
begin

text \<open>
  The D-Bus surface of the context fabric: \<open>daemons/contextd/src/dbus.rs\<close>. A handler gets the peer the
  transport resolved, or none; what the broker answers (\<open>GetNameOwner\<close>), which embedder is in use and the
  JSON text of the ledger detail are arguments.
\<close>

record context_env =
  ce_ok :: "nat \<Rightarrow> bool"
  ce_ledger_ok :: "nat \<Rightarrow> bool"
  ce_wall :: "nat \<Rightarrow> int"
  ce_now :: int
  ce_hash :: "string \<Rightarrow> string"
  ce_fts :: fts
  ce_iter :: "(string \<times> real \<times> hit) list \<Rightarrow> (string \<times> real \<times> hit) list"
  ce_embedder :: embedder
  ce_embedder_kind :: string
  ce_embedder_model :: "string option"
  ce_detail :: "string list \<Rightarrow> bool \<Rightarrow> string \<Rightarrow> string \<Rightarrow> string \<Rightarrow> string"
  ce_identify :: "peer \<Rightarrow> app_identity"
  ce_exe :: "peer \<Rightarrow> string option"
  ce_us :: "32 word"
  ce_canon :: "path \<Rightarrow> path option"
  ce_name_owner :: "string \<Rightarrow> string option"
  ce_ledger_error :: string
  ce_store_error :: "store_error \<Rightarrow> string"

record context1 =
  cx_store :: ctx_store
  cx_ledger :: ledger
  cx_managers :: "path list"

datatype context_error = ContextDenied string | ContextFailed string

text \<open>Who is calling, for attribution.\<close>

definition caller_app :: "context_env \<Rightarrow> peer option \<Rightarrow> app_identity" where
  "caller_app en caller = (case caller of Some p \<Rightarrow> ce_identify en p | None \<Rightarrow> identity_unknown)"

definition is_manager :: "context_env \<Rightarrow> context1 \<Rightarrow> peer \<Rightarrow> bool" where
  "is_manager en s p \<longleftrightarrow>
     may_manage (is_same_user_as_us (ce_us en) p) (map_option path_components (ce_exe en p))
       (resolve_managers (ce_canon en) (cx_managers s)) = Inr ()"

definition caller_may_read_everything :: "context_env \<Rightarrow> context1 \<Rightarrow> peer option \<Rightarrow> bool" where
  "caller_may_read_everything en s caller \<longleftrightarrow> (case caller of Some p \<Rightarrow> is_manager en s p | None \<Rightarrow> False)"

definition broker_identity :: "context_env \<Rightarrow> peer \<Rightarrow> string \<Rightarrow> app_identity option" where
  "broker_identity en p name =
     (case peer_conn p of
        Direct \<Rightarrow> None
      | Bus sender \<Rightarrow>
          if \<not> is_lisa_app_name name then None
          else (case ce_name_owner en name of
                  None \<Rightarrow> None
                | Some ow \<Rightarrow> owned_name_identity sender name (Some ow)))"

definition namespace_for :: "context_env \<Rightarrow> context1 \<Rightarrow> peer option \<Rightarrow> string \<Rightarrow> context_error + string" where
  "namespace_for en s caller asked_for =
     (case caller of
        None \<Rightarrow> Inl (ContextDenied ''the caller could not be identified'')
      | Some p \<Rightarrow>
          (let me = ai_app_id (ce_identify en p)
           in if asked_for = [] \<or> asked_for = me then Inr me
              else (case broker_identity en p asked_for of
                      Some i \<Rightarrow> Inr (ai_app_id i)
                    | None \<Rightarrow>
                        if is_manager en s p then Inr asked_for
                        else Inl (ContextDenied (me @ '' may only use its own memory namespace'')))))"

definition on_ctx ::
    "context_env \<Rightarrow> (ctx_store \<Rightarrow> ctx_store \<times> (store_error + 'a)) \<Rightarrow> context1 \<Rightarrow> context1 \<times> (context_error + 'a)" where
  "on_ctx en f s =
     (let r = f (cx_store s)
      in (s\<lparr>cx_store := fst r\<rparr>, map_sum (\<lambda>e. ContextFailed (ce_store_error en e)) id (snd r)))"

definition search_kind :: "bool \<Rightarrow> bool \<Rightarrow> string" where
  "search_kind unscoped hybrid =
     (if \<not> unscoped \<and> hybrid then ''context.search.scoped.hybrid''
      else if \<not> unscoped then ''context.search.scoped''
      else if hybrid then ''context.search.hybrid''
      else ''context.search'')"

definition search_event :: "context_env \<Rightarrow> app_identity \<Rightarrow> string \<Rightarrow> bool \<Rightarrow> bool \<Rightarrow> string list \<Rightarrow> event" where
  "search_event en app q unscoped hybrid scopes =
     default_event\<lparr>ev_kind := search_kind unscoped hybrid, ev_app_id := ai_app_id app, ev_input_hash := ce_hash en q,
       ev_status := ''ok'',
       ev_detail := ce_detail en scopes unscoped (identity_kind_str (ai_kind app))
         (if hybrid then ce_embedder_kind en else ''none'')
         (case (if hybrid then ce_embedder_model en else None) of Some m \<Rightarrow> m | None \<Rightarrow> ''(daemon default)'')\<rparr>"

text \<open>\<open>Search\<close>, with its options; \<open>None\<close> is a panic.\<close>

definition context_search ::
    "context_env \<Rightarrow> peer option \<Rightarrow> string \<Rightarrow> nat option \<Rightarrow> bool option \<Rightarrow> string list option \<Rightarrow> context1 \<Rightarrow>
     (context1 \<times> (context_error + hit list)) option" where
  "context_search en caller q limit_opt hybrid_opt scopes_opt s =
     (let limit = (case limit_opt of Some n \<Rightarrow> n | None \<Rightarrow> 3);
          hybrid = (hybrid_opt = Some True);
          scopes = (case scopes_opt of Some xs \<Rightarrow> xs | None \<Rightarrow> []);
          app = caller_app en caller;
          unscoped = caller_may_read_everything en s caller;
          l = ledger_append (ce_ledger_ok en) (ce_wall en) (cx_ledger s) (search_event en app q unscoped hybrid scopes);
          s1 = s\<lparr>cx_ledger := fst l\<rparr>;
          answer = (\<lambda>r. case r of
             None \<Rightarrow> None
           | Some x \<Rightarrow> Some (on_ctx en (\<lambda>_. x) s1))
      in case snd l of
           Inl e \<Rightarrow> Some (s1, Inl (ContextFailed (''ledger append failed -- refusing to search: '' @ ce_ledger_error en)))
         | Inr i \<Rightarrow>
             if \<not> unscoped
             then (if hybrid
                   then answer (search_hybrid_scoped (ce_ok en) (ce_fts en) (ce_iter en) (ce_embedder en) q scopes limit (cx_store s1))
                   else answer (Some (search_scoped (ce_ok en) (ce_fts en) q scopes limit (cx_store s1))))
             else (if hybrid
                   then answer (search_hybrid (ce_ok en) (ce_fts en) (ce_iter en) (ce_embedder en) q limit (cx_store s1))
                   else answer (Some (search (ce_ok en) (ce_fts en) q limit (cx_store s1)))))"

section \<open>Memory\<close>

definition context_memory_get ::
    "context_env \<Rightarrow> peer option \<Rightarrow> string \<Rightarrow> string \<Rightarrow> context1 \<Rightarrow> context1 \<times> (context_error + string)" where
  "context_memory_get en caller app key s =
     (case namespace_for en s caller app of
        Inl e \<Rightarrow> (s, Inl e)
      | Inr ns \<Rightarrow>
          attempt (on_ctx en (memory_get (ce_ok en) ns key) s)
            (\<lambda>v s1. case v of
               Some x \<Rightarrow> (s1, Inr x)
             | None \<Rightarrow> (s1, Inl (ContextFailed (''no value for `'' @ key @ ''` in namespace `'' @ ns @ ''`'')))))"

definition context_memory_set ::
    "context_env \<Rightarrow> peer option \<Rightarrow> string \<Rightarrow> string \<Rightarrow> string \<Rightarrow> context1 \<Rightarrow> context1 \<times> (context_error + unit)" where
  "context_memory_set en caller app key value s =
     (case namespace_for en s caller app of
        Inl e \<Rightarrow> (s, Inl e)
      | Inr ns \<Rightarrow> on_ctx en (memory_set (ce_ok en) (ce_now en) ns key value) s)"

definition context_memory_list ::
    "context_env \<Rightarrow> peer option \<Rightarrow> string \<Rightarrow> context1 \<Rightarrow> context1 \<times> (context_error + (string \<times> string) list)" where
  "context_memory_list en caller app s =
     (case namespace_for en s caller app of
        Inl e \<Rightarrow> (s, Inl e)
      | Inr ns \<Rightarrow> on_ctx en (memory_list (ce_ok en) ns) s)"

definition context_memory_wipe ::
    "context_env \<Rightarrow> peer option \<Rightarrow> string \<Rightarrow> context1 \<Rightarrow> context1 \<times> (context_error + unit)" where
  "context_memory_wipe en caller app s =
     (case namespace_for en s caller app of
        Inl e \<Rightarrow> (s, Inl e)
      | Inr ns \<Rightarrow> attempt (on_ctx en (memory_wipe (ce_ok en) ns) s) (\<lambda>_ s1. (s1, Inr ())))"

end
