(* ===== verification/Context_Safety.thy ===== *)
theory Context_Safety
  imports Context_Chunks Context_Bus
begin

text \<open>
  What the context store keeps over every run of its operations, whatever statement fails; what a
  pruning removes; what a scoped search can show.
\<close>

section \<open>No residual content\<close>

text \<open>
  Sources and ids are unique, no chunk or vector outlives its document, the chunks of a document are
  numbered without repetition, and every document carries a tag the ACL knows.
\<close>

definition ctx_ok :: "ctx_store \<Rightarrow> bool" where
  "ctx_ok s \<longleftrightarrow>
     distinct (map dc_source (cs_docs s)) \<and> distinct (map dc_id (cs_docs s)) \<and>
     (\<forall>d \<in> set (cs_docs s). dc_id d \<le> cs_last s \<and> is_known_provenance (dc_provenance d)) \<and>
     (\<forall>c \<in> set (cs_chunks s). ck_doc c \<in> dc_id ` set (cs_docs s)) \<and>
     (\<forall>v \<in> set (cs_vectors s). cv_doc v \<in> dc_id ` set (cs_docs s)) \<and>
     distinct (map (\<lambda>c. (ck_doc c, ck_seq c)) (cs_chunks s))"

lemma ctx_okD:
  assumes "ctx_ok s"
  shows "distinct (map dc_source (cs_docs s))" "distinct (map dc_id (cs_docs s))"
    "d \<in> set (cs_docs s) \<Longrightarrow> dc_id d \<le> cs_last s" "d \<in> set (cs_docs s) \<Longrightarrow> is_known_provenance (dc_provenance d)"
    "c \<in> set (cs_chunks s) \<Longrightarrow> ck_doc c \<in> dc_id ` set (cs_docs s)"
    "v \<in> set (cs_vectors s) \<Longrightarrow> cv_doc v \<in> dc_id ` set (cs_docs s)"
    "distinct (map (\<lambda>c. (ck_doc c, ck_seq c)) (cs_chunks s))"
  using assms by (auto simp: ctx_ok_def)

lemma ctx_ok_tried [simp]: "ctx_ok (ctx_tried s) = ctx_ok s" "ctx_ok (s\<lparr>cs_tries := n\<rparr>) = ctx_ok s"
  by (simp_all add: ctx_ok_def ctx_tried_def)

lemma ctx_tried_fields [simp]:
  "cs_docs (ctx_tried s) = cs_docs s" "cs_chunks (ctx_tried s) = cs_chunks s" "cs_vectors (ctx_tried s) = cs_vectors s"
  "cs_memory (ctx_tried s) = cs_memory s" "cs_last (ctx_tried s) = cs_last s"
  by (simp_all add: ctx_tried_def)

lemma ctx_query_fst [simp]: "fst (ctx_query ok f s) = ctx_tried s"
  by (simp add: ctx_query_def)

lemma ctx_exec_ok: "ctx_ok s \<Longrightarrow> (ctx_ok s \<Longrightarrow> ctx_ok (f s)) \<Longrightarrow> ctx_ok (fst (ctx_exec ok f s))"
  by (simp add: ctx_exec_def)

lemma ctx_exec_both: "ctx_ok s \<Longrightarrow> ctx_ok (f s) \<Longrightarrow> ctx_ok (fst (ctx_exec ok f s))"
  by (simp add: ctx_exec_def)

lemma ctx_exec_Inr: "snd (ctx_exec ok f s) = Inr u \<longleftrightarrow> ok (cs_tries s)"
  by (simp add: ctx_exec_def)

lemma ctx_exec_fst: "ok (cs_tries s) \<Longrightarrow> fst (ctx_exec ok f s) = ctx_tried (f s)"
  by (simp add: ctx_exec_def)

lemma ctx_exec_then: "snd (ctx_exec ok f s) = Inr u \<Longrightarrow> fst (ctx_exec ok f s) = ctx_tried (f s)"
  by (simp add: ctx_exec_def split: if_splits)

lemma ctx_atomic_ok: "ctx_ok s \<Longrightarrow> (\<And>x. snd r = Inr x \<Longrightarrow> ctx_ok (fst r)) \<Longrightarrow> ctx_ok (fst (ctx_atomic s r))"
  by (simp add: ctx_atomic_def split: sum.split)

lemma ctx_commit_ok: "ctx_ok s \<Longrightarrow> ctx_ok (fst (ctx_commit ok x s))"
  unfolding ctx_commit_def by (rule attempt_ok) (simp_all add: ctx_exec_ok)

lemma ctx_transaction_ok:
  assumes "ctx_ok s" and body: "\<And>s1 x. ctx_ok s1 \<Longrightarrow> snd (body s1) = Inr x \<Longrightarrow> ctx_ok (fst (body s1))"
  shows "ctx_ok (fst (ctx_transaction ok body s))"
  unfolding ctx_transaction_def
proof (rule attempt_ok)
  show s1: "ctx_ok (fst (ctx_exec ok (\<lambda>t. t) s))" using assms(1) by (simp add: ctx_exec_ok)
  fix u :: unit
  show "ctx_ok (fst (ctx_atomic (fst (ctx_exec ok (\<lambda>t. t) s)) (attempt (body (fst (ctx_exec ok (\<lambda>t. t) s))) (ctx_commit ok))))"
  proof (rule ctx_atomic_ok [OF s1])
    fix x assume "snd (attempt (body (fst (ctx_exec ok (\<lambda>t. t) s))) (ctx_commit ok)) = Inr x"
    then obtain y where y: "snd (body (fst (ctx_exec ok (\<lambda>t. t) s))) = Inr y"
      "attempt (body (fst (ctx_exec ok (\<lambda>t. t) s))) (ctx_commit ok) = ctx_commit ok y (fst (body (fst (ctx_exec ok (\<lambda>t. t) s))))"
      by (blast dest: attempt_then)
    show "ctx_ok (fst (attempt (body (fst (ctx_exec ok (\<lambda>t. t) s))) (ctx_commit ok)))"
      unfolding y(2) by (rule ctx_commit_ok) (rule body [OF s1 y(1)])
  qed
qed

lemma drop_chunks_ok: "ctx_ok s \<Longrightarrow> ctx_ok (s\<lparr>cs_chunks := filter P (cs_chunks s)\<rparr>)"
  by (auto simp: ctx_ok_def distinct_map_filter)

lemma drop_vectors_ok: "ctx_ok s \<Longrightarrow> ctx_ok (s\<lparr>cs_vectors := filter P (cs_vectors s)\<rparr>)"
  by (auto simp: ctx_ok_def)

lemma drop_doc_ok:
  "ctx_ok s \<Longrightarrow> \<forall>c \<in> set (cs_chunks s). ck_doc c \<noteq> i \<Longrightarrow> \<forall>v \<in> set (cs_vectors s). cv_doc v \<noteq> i \<Longrightarrow>
     ctx_ok (s\<lparr>cs_docs := filter (\<lambda>d. dc_id d \<noteq> i) (cs_docs s)\<rparr>)"
  by (fastforce simp: ctx_ok_def distinct_map_filter)

text \<open>A document with everything it owns, gone.\<close>

definition without_doc :: "int \<Rightarrow> ctx_store \<Rightarrow> ctx_store" where
  "without_doc i s = s\<lparr>cs_docs := filter (\<lambda>d. dc_id d \<noteq> i) (cs_docs s),
     cs_chunks := filter (\<lambda>c. ck_doc c \<noteq> i) (cs_chunks s), cs_vectors := filter (\<lambda>v. cv_doc v \<noteq> i) (cs_vectors s)\<rparr>"

text \<open>After each of the three statements the store is as it should be.\<close>

lemma delete_document_ok:
  assumes ok: "ctx_ok s"
  shows "ctx_ok (fst (delete_document ok i s))"
  unfolding delete_document_def
proof (rule attempt_ok)
  let ?r1 = "ctx_exec ok (\<lambda>t. t\<lparr>cs_chunks := filter (\<lambda>c. ck_doc c \<noteq> i) (cs_chunks t)\<rparr>) s"
  show r1: "ctx_ok (fst ?r1)" by (rule ctx_exec_ok [OF ok drop_chunks_ok])
  fix u assume "snd ?r1 = Inr u"
  then have f1: "fst ?r1 = ctx_tried (s\<lparr>cs_chunks := filter (\<lambda>c. ck_doc c \<noteq> i) (cs_chunks s)\<rparr>)" by (rule ctx_exec_then)
  define s1 where "s1 = fst ?r1"
  have c1: "\<forall>c \<in> set (cs_chunks s1). ck_doc c \<noteq> i" and ok1: "ctx_ok s1" using r1 by (simp_all add: s1_def f1)
  let ?r2 = "ctx_exec ok (\<lambda>t. t\<lparr>cs_vectors := filter (\<lambda>v. cv_doc v \<noteq> i) (cs_vectors t)\<rparr>) s1"
  have "ctx_ok (fst (attempt ?r2 (\<lambda>_. ctx_exec ok (\<lambda>t. t\<lparr>cs_docs := filter (\<lambda>d. dc_id d \<noteq> i) (cs_docs t)\<rparr>))))"
  proof (rule attempt_ok)
    show r2: "ctx_ok (fst ?r2)" by (rule ctx_exec_ok [OF ok1 drop_vectors_ok])
    fix u assume "snd ?r2 = Inr u"
    then have "fst ?r2 = ctx_tried (s1\<lparr>cs_vectors := filter (\<lambda>v. cv_doc v \<noteq> i) (cs_vectors s1)\<rparr>)" by (rule ctx_exec_then)
    then have "\<forall>c \<in> set (cs_chunks (fst ?r2)). ck_doc c \<noteq> i" "\<forall>v \<in> set (cs_vectors (fst ?r2)). cv_doc v \<noteq> i"
      using c1 by simp_all
    then have "ctx_ok ((fst ?r2)\<lparr>cs_docs := filter (\<lambda>d. dc_id d \<noteq> i) (cs_docs (fst ?r2))\<rparr>)"
      by (rule drop_doc_ok [OF r2])
    then show "ctx_ok (fst (ctx_exec ok (\<lambda>t. t\<lparr>cs_docs := filter (\<lambda>d. dc_id d \<noteq> i) (cs_docs t)\<rparr>) (fst ?r2)))"
      by (rule ctx_exec_both [OF r2])
  qed
  then show "ctx_ok (fst (attempt (ctx_exec ok (\<lambda>t. t\<lparr>cs_vectors := filter (\<lambda>v. cv_doc v \<noteq> i) (cs_vectors t)\<rparr>) (fst ?r1))
      (\<lambda>_. ctx_exec ok (\<lambda>t. t\<lparr>cs_docs := filter (\<lambda>d. dc_id d \<noteq> i) (cs_docs t)\<rparr>))))"
    by (simp only: s1_def)
qed

lemma delete_document_done:
  assumes "snd (delete_document ok i s) = Inr u"
  shows "\<exists>n. fst (delete_document ok i s) = (without_doc i s)\<lparr>cs_tries := n\<rparr>"
proof
  have "ok (cs_tries s) \<and> ok (Suc (cs_tries s)) \<and> ok (Suc (Suc (cs_tries s)))"
    using assms by (auto simp: delete_document_def attempt_def ctx_exec_def ctx_tried_def split: if_splits)
  then show "fst (delete_document ok i s) = (without_doc i s)\<lparr>cs_tries := Suc (Suc (Suc (cs_tries s)))\<rparr>"
    by (intro ctx_store.equality) (simp_all add: delete_document_def without_doc_def attempt_def ctx_exec_def ctx_tried_def)
qed

lemma doc_of_None: "doc_of source s = None \<longleftrightarrow> source \<notin> dc_source ` set (cs_docs s)"
  by (auto simp: doc_of_def find_None_iff)

lemma insert_document_ok:
  assumes "ctx_ok s" "is_known_provenance p"
  shows "ctx_ok (fst (insert_document ok src p m h s))"
    and "snd (insert_document ok src p m h s) = Inr i \<Longrightarrow>
      i = cs_last s + 1 \<and> i \<in> dc_id ` set (cs_docs (fst (insert_document ok src p m h s))) \<and>
      (\<forall>c \<in> set (cs_chunks (fst (insert_document ok src p m h s))). ck_doc c \<noteq> i)"
proof -
  have new: "i \<le> cs_last s" if "i \<in> dc_id ` set (cs_docs s)" for i using assms that by (auto simp: ctx_ok_def)
  show "ctx_ok (fst (insert_document ok src p m h s))"
    using assms new
    by (auto simp: insert_document_def doc_of_None attempt_def ctx_exec_def ctx_ok_def Let_def) force+
  assume "snd (insert_document ok src p m h s) = Inr i"
  then show "i = cs_last s + 1 \<and> i \<in> dc_id ` set (cs_docs (fst (insert_document ok src p m h s))) \<and>
      (\<forall>c \<in> set (cs_chunks (fst (insert_document ok src p m h s))). ck_doc c \<noteq> i)"
    using new ctx_okD(5) [OF assms(1)]
    by (fastforce simp: insert_document_def attempt_def ctx_exec_def Let_def split: if_splits)
qed

lemma insert_chunks_ok:
  "ctx_ok s \<Longrightarrow> i \<in> dc_id ` set (cs_docs s) \<Longrightarrow> \<forall>c \<in> set (cs_chunks s). ck_doc c = i \<longrightarrow> ck_seq c < seq \<Longrightarrow>
     ctx_ok (fst (insert_chunks ok i seq cs s))"
proof (induction ok i seq cs s rule: insert_chunks.induct)
  case (2 ok i seq c cs s)
  show ?case
    unfolding insert_chunks.simps
  proof (rule attempt_ok)
    show "ctx_ok (fst (ctx_exec ok (\<lambda>t. t\<lparr>cs_chunks := cs_chunks t @ [\<lparr>ck_content = c, ck_doc = i, ck_seq = seq\<rparr>]\<rparr>) s))"
      using 2(2-4) by (intro ctx_exec_ok) (auto simp: ctx_ok_def)
  next
    fix u assume "snd (ctx_exec ok (\<lambda>t. t\<lparr>cs_chunks := cs_chunks t @ [\<lparr>ck_content = c, ck_doc = i, ck_seq = seq\<rparr>]\<rparr>) s) = Inr u"
    then show "ctx_ok (fst (insert_chunks ok i (seq + 1) cs
        (fst (ctx_exec ok (\<lambda>t. t\<lparr>cs_chunks := cs_chunks t @ [\<lparr>ck_content = c, ck_doc = i, ck_seq = seq\<rparr>]\<rparr>) s))))"
      using 2(2-4) by (intro 2(1)) (auto simp: ctx_exec_Inr ctx_exec_fst ctx_ok_def)
  qed
qed simp

lemmas ctx_attempt = attempt_ok [where P = ctx_ok]

lemma insert_counted_chunks: "fst (insert_counted ok i seq cs rep s) = fst (insert_chunks ok i seq cs s)"
proof (induction ok i seq cs rep s rule: insert_counted.induct)
  case (2 ok i seq c cs rep s)
  then show ?case by (auto simp: attempt_def split: sum.split)
qed simp

text \<open>Insert a document, then its chunks.\<close>

lemma insert_all_ok:
  assumes "ctx_ok s" "is_known_provenance p"
  shows "ctx_ok (fst (attempt (insert_document ok src p m h s) (\<lambda>i. insert_chunks ok i 0 cs)))"
proof (rule ctx_attempt)
  show "ctx_ok (fst (insert_document ok src p m h s))" by (rule insert_document_ok(1) [OF assms])
  fix i assume i: "snd (insert_document ok src p m h s) = Inr i"
  show "ctx_ok (fst (insert_chunks ok i 0 cs (fst (insert_document ok src p m h s))))"
    using insert_document_ok(2) [OF assms i] by (intro insert_chunks_ok insert_document_ok(1) [OF assms]) auto
qed

lemma write_document_ok:
  assumes "ctx_ok s" "is_known_provenance p"
  shows "ctx_ok (fst (write_document ok src p content h s))"
  unfolding write_document_def Let_def
proof (rule ctx_attempt)
  let ?q = "ctx_query ok (doc_of src) s"
  show del: "ctx_ok (fst (case snd ?q of Inr (Some d) \<Rightarrow> delete_document ok (dc_id d) (fst ?q) | _ \<Rightarrow> (fst ?q, Inr ())))"
    using assms(1) by (auto simp: delete_document_ok split: sum.split option.split)
  fix u :: unit
  show "ctx_ok (fst (attempt (insert_document ok src p 0 h
      (fst (case snd ?q of Inr (Some d) \<Rightarrow> delete_document ok (dc_id d) (fst ?q) | _ \<Rightarrow> (fst ?q, Inr ()))))
      (\<lambda>i. insert_chunks ok i 0 (chunk_text content))))"
    by (rule insert_all_ok [OF del assms(2)])
qed

lemma add_document_ok:
  assumes "ctx_ok s"
  shows "ctx_ok (fst (add_document ok hash_of src p content s))"
  using assms by (auto simp: add_document_def intro!: ctx_transaction_ok write_document_ok)

lemma add_if_changed_ok:
  assumes "ctx_ok s"
  shows "ctx_ok (fst (add_document_if_changed ok hash_of src p content s))"
proof (cases "is_known_provenance p")
  case True
  let ?s1 = "fst (ctx_exec ok (\<lambda>t. t) s)"
  have s1: "ctx_ok ?s1" using assms by (simp add: ctx_exec_both)
  have w: "ctx_ok (fst (ctx_atomic ?s1 (attempt (write_document ok src p content (hash_of content) (ctx_tried ?s1))
      (\<lambda>_. ctx_commit ok Added))))"
  proof (rule ctx_atomic_ok [OF s1])
    fix x assume "snd (attempt (write_document ok src p content (hash_of content) (ctx_tried ?s1)) (\<lambda>_. ctx_commit ok Added)) = Inr x"
    have "ctx_ok (fst (write_document ok src p content (hash_of content) (ctx_tried ?s1)))"
      using s1 True by (intro write_document_ok) simp_all
    then show "ctx_ok (fst (attempt (write_document ok src p content (hash_of content) (ctx_tried ?s1)) (\<lambda>_. ctx_commit ok Added)))"
      by (intro ctx_attempt) (auto intro: ctx_commit_ok)
  qed
  show ?thesis
    using True unfolding add_document_if_changed_def Let_def if_not_P [OF True [THEN not_not [THEN iffD2]]]
    by (intro ctx_attempt s1) (use s1 w in \<open>auto split: sum.split option.split\<close>)
qed (simp add: add_document_if_changed_def assms)

lemma delete_all_ok: "ctx_ok s \<Longrightarrow> ctx_ok (fst (delete_all ok is s))"
  by (induction ok "is" s rule: delete_all.induct) (simp_all add: ctx_attempt delete_document_ok)

lemma doomed_state: "ctx_ok s \<Longrightarrow> ctx_ok (fst (doomed ok p keep protect s))"
  by (simp add: doomed_def ctx_attempt)

lemma prune_not_in_ok: "ctx_ok s \<Longrightarrow> ctx_ok (fst (prune_not_in ok p keep protect s))"
  unfolding prune_not_in_def
  by (cases "is_known_provenance p") (simp_all add: ctx_transaction_ok ctx_attempt doomed_state delete_all_ok)

lemma prune_loop_ok: "ctx_ok s \<Longrightarrow> ctx_ok (fst (prune_loop ok ex ds n s))"
  by (induction ok ex ds n s rule: prune_loop.induct) (simp_all add: ctx_attempt delete_document_ok)

lemma prune_missing_ok: "ctx_ok s \<Longrightarrow> ctx_ok (fst (prune_missing ok ex p s))"
  by (simp add: prune_missing_def ctx_attempt prune_loop_ok)

lemma index_file_ok:
  assumes "ctx_ok s" "is_known_provenance p"
  shows "ctx_ok (fst (index_file ok hash_of p f rep s))"
proof -
  have written: "ctx_ok (fst (attempt (insert_document ok src p m h s1) (\<lambda>i. insert_counted ok i 0 cs rep)))"
    if "ctx_ok s1" for s1 src m h cs
  proof -
    have "fst (attempt (insert_document ok src p m h s1) (\<lambda>i. insert_counted ok i 0 cs rep)) =
        fst (attempt (insert_document ok src p m h s1) (\<lambda>i. insert_chunks ok i 0 cs))"
      by (simp add: attempt_def insert_counted_chunks split: sum.split)
    then show ?thesis using insert_all_ok [OF that assms(2)] by simp
  qed
  have rewrite: "ctx_ok (fst (attempt (delete_document ok i (ctx_tried s))
      (\<lambda>_ s1. attempt (insert_document ok src p m h s1) (\<lambda>i. insert_counted ok i 0 cs rep))))" for i src m h cs
    by (rule ctx_attempt) (use assms(1) in \<open>auto intro!: written delete_document_ok\<close>)
  show ?thesis
    using assms(1) written rewrite by (auto simp: index_file_def Let_def split: option.split sum.split)
qed

lemma index_files_ok: "ctx_ok s \<Longrightarrow> is_known_provenance p \<Longrightarrow> ctx_ok (fst (index_files ok hash_of p fs rep s))"
  by (induction ok hash_of p fs rep s rule: index_files.induct) (simp_all add: ctx_attempt index_file_ok)

lemma index_dir_as_ok: "ctx_ok s \<Longrightarrow> ctx_ok (fst (index_dir_as ok hash_of fs p s))"
  by (simp add: index_dir_as_def index_files_ok)

lemma put_vectors_ok:
  "ctx_ok s \<Longrightarrow> \<forall>(c, v) \<in> set ps. ck_doc c \<in> dc_id ` set (cs_docs s) \<Longrightarrow> ctx_ok (fst (put_vectors ok ps s))"
proof (induction ok ps s rule: put_vectors.induct)
  case (2 ok c v ps s)
  show ?case
    unfolding put_vectors.simps
  proof (rule ctx_attempt)
    let ?r = "ctx_exec ok (\<lambda>t. t\<lparr>cs_vectors := put_vector \<lparr>cv_doc = ck_doc c, cv_seq = ck_seq c, cv_vec = v\<rparr> (cs_vectors t)\<rparr>) s"
    have "ctx_ok (s\<lparr>cs_vectors := put_vector \<lparr>cv_doc = ck_doc c, cv_seq = ck_seq c, cv_vec = v\<rparr> (cs_vectors s)\<rparr>)"
      using 2(2,3) by (auto simp: ctx_ok_def put_vector_def)
    with 2(2) show r: "ctx_ok (fst ?r)" by (intro ctx_exec_both)
    fix u assume "snd ?r = Inr u"
    then have "cs_docs (fst ?r) = cs_docs s" by (simp add: ctx_exec_then)
    then show "ctx_ok (fst (put_vectors ok ps (fst ?r)))" using 2(1) [OF r] 2(3) by simp
  qed
qed simp

lemma put_transaction_ok:
  assumes "ctx_ok s" "\<forall>(c, v) \<in> set ps. ck_doc c \<in> dc_id ` set (cs_docs s)"
  shows "ctx_ok (fst (ctx_transaction ok (put_vectors ok ps) s))"
  unfolding ctx_transaction_def
proof (rule ctx_attempt)
  show s1: "ctx_ok (fst (ctx_exec ok (\<lambda>t. t) s))" using assms(1) by (simp add: ctx_exec_both)
  have "ctx_ok (fst (put_vectors ok ps (fst (ctx_exec ok (\<lambda>t. t) s))))"
    using assms(2) by (intro put_vectors_ok s1) (simp add: ctx_exec_def)
  then show "ctx_ok (fst (ctx_atomic (fst (ctx_exec ok (\<lambda>t. t) s))
      (attempt (put_vectors ok ps (fst (ctx_exec ok (\<lambda>t. t) s))) (ctx_commit ok))))" for u :: unit
    by (intro ctx_atomic_ok s1 ctx_attempt) (simp_all add: ctx_commit_ok)
qed

lemma embed_round_ok:
  assumes ok: "ctx_ok s"
  shows "ctx_ok (fst (embed_round ok emb batch provenance s))"
proof -
  let ?pending = "take batch (filter (is_pending provenance s) (cs_chunks s))"
  have "\<forall>(c, v) \<in> set (zip ?pending vs). ck_doc c \<in> dc_id ` set (cs_docs (ctx_tried s))" for vs :: "real list list"
    using ctx_okD(5) [OF ok] by (fastforce dest: set_zip_leftD in_set_takeD)
  then have "ctx_ok (fst (ctx_transaction ok (put_vectors ok (zip ?pending vs)) (ctx_tried s)))" for vs
    using ok by (intro put_transaction_ok) simp_all
  then show ?thesis
    using ok by (auto simp: embed_round_def ctx_query_def attempt_def split: sum.split)
qed

subsection \<open>Every operation\<close>

datatype ctx_op =
    OpAdd string string string
  | OpAddChanged string string string
  | OpPrune string "string list" "string list"
  | OpPruneMissing "string \<Rightarrow> bool" string
  | OpIndex "walked_file list" string
  | OpEmbedRound nat "string option"
  | OpMemorySet int string string string
  | OpMemoryWipe string

fun ctx_apply :: "(nat \<Rightarrow> bool) \<Rightarrow> (string \<Rightarrow> string) \<Rightarrow> embedder \<Rightarrow> ctx_op \<Rightarrow> ctx_store \<Rightarrow> ctx_store" where
  "ctx_apply ok hash_of emb (OpAdd src p content) s = fst (add_document ok hash_of src p content s)"
| "ctx_apply ok hash_of emb (OpAddChanged src p content) s = fst (add_document_if_changed ok hash_of src p content s)"
| "ctx_apply ok hash_of emb (OpPrune p keep protect) s = fst (prune_not_in ok p (set keep) protect s)"
| "ctx_apply ok hash_of emb (OpPruneMissing ex p) s = fst (prune_missing ok ex p s)"
| "ctx_apply ok hash_of emb (OpIndex files p) s = fst (index_dir_as ok hash_of files p s)"
| "ctx_apply ok hash_of emb (OpEmbedRound batch p) s = fst (embed_round ok emb batch p s)"
| "ctx_apply ok hash_of emb (OpMemorySet now app key value) s = fst (memory_set ok now app key value s)"
| "ctx_apply ok hash_of emb (OpMemoryWipe app) s = fst (memory_wipe ok app s)"

lemma memory_ok:
  "ctx_ok s \<Longrightarrow> ctx_ok (fst (memory_set ok now app key value s))" "ctx_ok s \<Longrightarrow> ctx_ok (fst (memory_wipe ok app s))"
  by (auto simp: memory_set_def memory_wipe_def ctx_exec_def attempt_def ctx_ok_def ctx_tried_def)

lemma ctx_apply_ok: "ctx_ok s \<Longrightarrow> ctx_ok (ctx_apply ok hash_of emb op s)"
  by (cases op) (simp_all add: add_document_ok add_if_changed_ok prune_not_in_ok prune_missing_ok index_dir_as_ok
    embed_round_ok memory_ok)


end
