(* ===== verification/Context_Scope.thy ===== *)
theory Context_Scope
  imports Context_Safety
begin

text \<open>What a search can show to a caller, and whose memory a caller can touch.\<close>

section \<open>Search\<close>

text \<open>A hit names a stored document, and its provenance passes a filter.\<close>

definition shown_from :: "(string \<Rightarrow> bool) \<Rightarrow> ctx_store \<Rightarrow> hit \<Rightarrow> bool" where
  "shown_from visible s h \<longleftrightarrow>
     (\<exists>d \<in> set (cs_docs s). dc_source d = h_source h \<and> dc_provenance d = h_provenance h) \<and> visible (h_provenance h)"

lemma shown_from_docs: "cs_docs t = cs_docs s \<Longrightarrow> shown_from P t h = shown_from P s h"
  by (simp add: shown_from_def)

lemma shown_from_mono: "shown_from P s h \<Longrightarrow> (\<And>p. P p \<Longrightarrow> Q p) \<Longrightarrow> shown_from Q s h"
  by (auto simp: shown_from_def)

lemma joined_hitsD: "h \<in> set (joined_hits fts q visible s) \<Longrightarrow> shown_from visible s h"
  by (auto simp: joined_hits_def shown_from_def split: option.splits)

lemma search_scoped_hits:
  assumes "snd (search_scoped ok fts q scopes limit s) = Inr hits"
  shows "\<forall>h \<in> set hits. shown_from (\<lambda>p. p \<in> set (allowed_provenance scopes)) s h"
  using assms
  by (auto simp: search_scoped_def Let_def ctx_query_def split: if_splits option.splits dest!: in_set_takeD joined_hitsD)

lemma search_scoped_docs [simp]: "cs_docs (fst (search_scoped ok fts q scopes limit s)) = cs_docs s"
  by (simp add: search_scoped_def Let_def split: option.split)

lemma vector_rowsD:
  "(source, provenance, content, v) \<in> set (vector_rows s) \<Longrightarrow>
     \<exists>d \<in> set (cs_docs s). dc_source d = source \<and> dc_provenance d = provenance"
  by (auto simp: vector_rows_def)

text \<open>The filter of the vector scan: the provenance against the scope strings themselves.\<close>

abbreviation named_by :: "string list option \<Rightarrow> string \<Rightarrow> bool" where
  "named_by scopes p \<equiv> (case scopes of Some allowed \<Rightarrow> p \<in> set allowed | None \<Rightarrow> True)"

lemma best_loop_hits:
  assumes "\<And>src p c v. (src, p, c, v) \<in> set rows \<Longrightarrow> \<exists>d \<in> set (cs_docs s). dc_source d = src \<and> dc_provenance d = p"
    and "\<And>x. x \<in> set best \<Longrightarrow> shown_from (named_by scopes) s (snd (snd x))"
    and "x \<in> set (best_loop qvec seen scopes rows best)"
  shows "shown_from (named_by scopes) s (snd (snd x))"
  using assms
proof (induction qvec seen scopes rows best rule: best_loop.induct)
  case (2 qvec seen scopes src p content v rows best)
  let ?h = "\<lparr>h_source = src, h_provenance = p, h_snippet = take 160 content, h_score = 0\<rparr>"
  have new: "shown_from (named_by scopes) s ?h" if "named_by scopes p"
    using that 2(2) [of src p content v] by (cases scopes) (simp_all add: shown_from_def)
  show ?case
  proof (rule "2.IH")
    fix y
    assume "y \<in> set (if src \<in> seen then best
        else if (case scopes of Some allowed \<Rightarrow> p \<notin> set allowed | None \<Rightarrow> False) then best
        else (let cos = cosine qvec v; h = ?h
              in case map_of best src of
                   Some (prev, old) \<Rightarrow> if cos \<le> prev then best else al_put src (cos, h) best
                 | None \<Rightarrow> al_put src (cos, h) best))"
    then have "y \<in> set best \<or> named_by scopes p \<and> snd (snd y) = ?h"
      by (auto simp: Let_def split: if_splits option.splits prod.splits dest!: in_al_put)
    then show "shown_from (named_by scopes) s (snd (snd y))" using 2(3) [of y] new by auto
  next
    fix src' p' c' v'
    assume "(src', p', c', v') \<in> set rows"
    then show "\<exists>d \<in> set (cs_docs s). dc_source d = src' \<and> dc_provenance d = p'" using 2(2) [of src' p' c' v'] by simp
  qed (use 2(4) in simp)
qed simp

lemma vector_candidates_hits:
  assumes "\<forall>xs. set (iter xs) \<subseteq> set xs" "snd (vector_candidates ok iter qvec have_hits scopes k s) = Inr hits"
  shows "\<forall>h \<in> set hits. shown_from (named_by scopes) s h"
proof
  fix h assume "h \<in> set hits"
  then obtain x where x: "x \<in> set (iter (best_loop qvec (set (map h_source have_hits)) scopes (vector_rows s) []))" "h = snd (snd x)"
    using assms(2) by (auto simp: vector_candidates_def ctx_query_def split: if_splits dest!: in_set_takeD)
  show "shown_from (named_by scopes) s h"
    unfolding x(2) by (rule best_loop_hits [where rows = "vector_rows s" and best = "[]"])
      (use assms(1) x(1) in \<open>auto dest: vector_rowsD\<close>)
qed

lemma blend_hits: "map snd (snd (blend ok qvec best hs s)) = hs"
  by (induction ok qvec best hs s rule: blend.induct) (simp_all add: Let_def)

lemma rerank_hits: "snd (rerank ok qvec hs limit s) = Inr out \<Longrightarrow> set out \<subseteq> set hs"
proof -
  assume out: "snd (rerank ok qvec hs limit s) = Inr out"
  let ?r = "snd (blend ok qvec (best_bm25 hs) hs s)"
  have "set (take limit (sort_key (\<lambda>x. - fst x) ?r)) \<subseteq> set ?r" using set_take_subset by fastforce
  then have "set (map snd (take limit (sort_key (\<lambda>x. - fst x) ?r))) \<subseteq> set (map snd ?r)" by auto
  with out show ?thesis unfolding blend_hits by (auto simp: rerank_def Let_def split: if_splits)
qed

lemma hybrid_from_hits:
  assumes iter: "\<forall>xs. set (iter xs) \<subseteq> set xs"
    and run: "hybrid_from ok iter emb q scopes limit cs s = Some (s', Inr hits)"
    and h: "h \<in> set hits"
  shows "h \<in> set cs \<or> shown_from (named_by scopes) s h"
proof -
  obtain qvec where "snd (attempt (if length cs < limit
       then attempt (vector_candidates ok iter qvec cs scopes limit s) (\<lambda>extra s1. (s1, Inr (cs @ extra)))
       else (s, Inr cs)) (\<lambda>cs. rerank ok qvec cs limit)) = Inr hits"
    using run by (auto simp: hybrid_from_def split: option.splits sum.splits) (metis snd_conv)
  then obtain all s1 where all: "snd (if length cs < limit
       then attempt (vector_candidates ok iter qvec cs scopes limit s) (\<lambda>extra s1. (s1, Inr (cs @ extra)))
       else (s, Inr cs)) = Inr all" and out: "snd (rerank ok qvec all limit s1) = Inr hits"
    by (auto simp: attempt_def split: sum.splits if_splits)
  have "h \<in> set all" using rerank_hits [OF out] h by auto
  with all show ?thesis
    using vector_candidates_hits [OF iter, of ok qvec cs scopes limit s]
    by (auto simp: attempt_def split: if_splits sum.splits)
qed

lemma search_hybrid_scoped_hits:
  assumes iter: "\<forall>xs. set (iter xs) \<subseteq> set xs"
    and run: "search_hybrid_scoped ok fts iter emb q scopes limit s = Some (s', Inr hits)"
    and h: "h \<in> set hits"
  shows "shown_from (\<lambda>p. p \<in> set (allowed_provenance scopes) \<or> p \<in> set scopes) s h"
proof -
  obtain cs where cs: "snd (search_scoped ok fts q scopes (max limit 20 * 3) s) = Inr cs"
    and hy: "hybrid_from ok iter emb q (Some scopes) limit cs
      (fst (search_scoped ok fts q scopes (max limit 20 * 3) s)) = Some (s', Inr hits)"
    using run by (auto simp: search_hybrid_scoped_def split: prod.splits sum.splits)
  from hybrid_from_hits [OF iter hy h] search_scoped_hits [OF cs] show ?thesis
    by (auto simp: shown_from_def)
qed

text \<open>The provenance tags are scopes of their own, all but one.\<close>

lemma tag_as_scope:
  assumes "is_known_provenance p" "p \<in> set scopes" "p \<noteq> ''file''"
  shows "p \<in> set (allowed_provenance scopes)"
proof -
  have "p \<in> {''mail'', ''calendar'', ''screen'', ''web'', ''system''}"
    using assms(1,3) by (simp add: is_known_provenance_def PROVENANCE_def)
  then have p: "provenance_for_scope p = [p] \<and> p \<in> set [''calendar'', ''file'', ''mail'', ''screen'', ''system'', ''web'']"
    by (elim insertE) (simp_all add: provenance_for_scope_def)
  with assms(2) have "p \<in> (\<Union>x \<in> set scopes. set (provenance_for_scope x))"
    by (intro UN_I [where a = p]) simp_all
  with p show ?thesis by (simp only: allowed_provenance_def set_filter set_concat set_map image_image) simp
qed

text \<open>The handler: first the ledger, then the store.\<close>

lemma on_ctx_Inr:
  "on_ctx en (\<lambda>_. x) s = (s', Inr y) \<Longrightarrow> snd x = Inr y \<and> cx_ledger s' = cx_ledger s"
  by (cases "snd x") (auto simp: on_ctx_def Let_def)

lemma context_search_ledgered:
  assumes "context_search en caller q limit_opt hybrid_opt scopes_opt s = Some (s', Inr hits)"
  defines "e \<equiv> search_event en (caller_app en caller) q (caller_may_read_everything en s caller) (hybrid_opt = Some True)
      (case scopes_opt of Some xs \<Rightarrow> xs | None \<Rightarrow> [])"
  shows "\<exists>i. snd (ledger_append (ce_ledger_ok en) (ce_wall en) (cx_ledger s) e) = Inr i"
    and "cx_ledger s' = fst (ledger_append (ce_ledger_ok en) (ce_wall en) (cx_ledger s) e)"
proof -
  define l where "l = ledger_append (ce_ledger_ok en) (ce_wall en) (cx_ledger s) e"
  have run: "(case snd l of
      Inl er \<Rightarrow> Some (s\<lparr>cx_ledger := fst l\<rparr>, Inl (ContextFailed (''ledger append failed -- refusing to search: '' @ ce_ledger_error en)))
    | Inr i \<Rightarrow> answer) = Some (s', Inr hits) \<Longrightarrow> \<exists>i. snd l = Inr i \<and> answer = Some (s', Inr hits)" for answer
    by (cases "snd l") simp_all
  obtain x where "\<exists>i. snd l = Inr i" "on_ctx en (\<lambda>_. x) (s\<lparr>cx_ledger := fst l\<rparr>) = (s', Inr hits)"
    using assms(1) unfolding context_search_def Let_def e_def [symmetric] l_def [symmetric]
    by (auto dest!: run split: if_splits option.splits)
  then show "\<exists>i. snd l = Inr i" "cx_ledger s' = fst l" by (auto dest: on_ctx_Inr)
qed

lemma context_search_scoped:
  assumes run: "context_search en caller q limit_opt hybrid_opt scopes_opt s = Some (s', Inr hits)"
    and "\<not> caller_may_read_everything en s caller"
  defines "scopes \<equiv> case scopes_opt of Some xs \<Rightarrow> xs | None \<Rightarrow> []"
  obtains (hybrid) t limit where "hybrid_opt = Some True"
      "search_hybrid_scoped (ce_ok en) (ce_fts en) (ce_iter en) (ce_embedder en) q scopes limit (cx_store s) = Some (t, Inr hits)"
    | (lexical) limit where "hybrid_opt \<noteq> Some True"
      "snd (search_scoped (ce_ok en) (ce_fts en) q scopes limit (cx_store s)) = Inr hits"
proof -
  let ?limit = "case limit_opt of Some n \<Rightarrow> n | None \<Rightarrow> 3"
  obtain i where l: "snd (ledger_append (ce_ledger_ok en) (ce_wall en) (cx_ledger s)
      (search_event en (caller_app en caller) q False (hybrid_opt = Some True) scopes)) = Inr i"
    using assms by (auto simp: context_search_def Let_def split: sum.splits)
  show ?thesis
  proof (cases "hybrid_opt = Some True")
    case True
    then have "\<exists>x. search_hybrid_scoped (ce_ok en) (ce_fts en) (ce_iter en) (ce_embedder en) q scopes ?limit (cx_store s) =
        Some x \<and> snd x = Inr hits"
      using assms l by (auto simp: context_search_def Let_def split: option.splits dest!: on_ctx_Inr)
    then show ?thesis using hybrid [OF True] by (metis prod.collapse)
  next
    case False
    then have "snd (search_scoped (ce_ok en) (ce_fts en) q scopes ?limit (cx_store s)) = Inr hits"
      using assms l by (auto simp: context_search_def Let_def dest!: on_ctx_Inr)
    then show ?thesis by (rule lexical [OF False])
  qed
qed

text \<open>A store with two documents, a mail and a file, both with a vector; no caller is a manager.\<close>

definition sample_ctx :: ctx_store where
  "sample_ctx = empty_ctx\<lparr>
     cs_docs := [\<lparr>dc_id = 1, dc_source = ''m'', dc_provenance = ''mail'', dc_mtime = 0, dc_hash = ''''\<rparr>,
                 \<lparr>dc_id = 2, dc_source = ''f'', dc_provenance = ''file'', dc_mtime = 0, dc_hash = ''''\<rparr>],
     cs_chunks := [\<lparr>ck_content = ''hi'', ck_doc = 1, ck_seq = 0\<rparr>, \<lparr>ck_content = ''hi'', ck_doc = 2, ck_seq = 0\<rparr>],
     cs_vectors := [\<lparr>cv_doc = 1, cv_seq = 0, cv_vec = [1]\<rparr>, \<lparr>cv_doc = 2, cv_seq = 0, cv_vec = [1]\<rparr>],
     cs_last := 2\<rparr>"

definition sample_en :: "string \<Rightarrow> context_env" where
  "sample_en app = \<lparr>ce_ok = (\<lambda>n. True), ce_ledger_ok = (\<lambda>n. True), ce_wall = (\<lambda>n. 0), ce_now = 0, ce_hash = (\<lambda>x. x),
     ce_fts = (\<lambda>cs q c. if ck_content c = ''hi'' then Some (''hi'', - 1) else None), ce_iter = (\<lambda>xs. xs),
     ce_embedder = (\<lambda>n ts. Inr (map (\<lambda>t. [1]) ts)), ce_embedder_kind = ''hash'', ce_embedder_model = None,
     ce_detail = (\<lambda>a b c d e. ''''),
     ce_identify = (\<lambda>p. identity_unknown\<lparr>ai_app_id := app\<rparr>),
     ce_exe = (\<lambda>p. None), ce_us = 0, ce_canon = Some, ce_name_owner = (\<lambda>n. None), ce_ledger_error = '''',
     ce_store_error = (\<lambda>e. '''')\<rparr>"

definition sample_cx :: context1 where
  "sample_cx = \<lparr>cx_store = sample_ctx, cx_ledger = empty_ledger, cx_managers = []\<rparr>"

lemma sample_ctx_ok: "ctx_ok sample_ctx"
  by (simp add: ctx_ok_def sample_ctx_def empty_ctx_def is_known_provenance_def PROVENANCE_def)

text \<open>
  C36. Scoped search. A search by a caller that is not a manager answers only with documents the store
  holds and whose provenance the requested scopes grant (a hybrid search that names the scope "file" also
  sees files), and a row for that caller and query is in the ledger before the answer is given.
\<close>

theorem scoped_search_is_scoped:
  assumes run: "context_search en caller q limit_opt hybrid_opt (Some scopes) s = Some (s', Inr hits)"
    and app: "\<not> caller_may_read_everything en s caller" and ok: "ctx_ok (cx_store s)"
    and iter: "\<forall>xs. set (ce_iter en xs) \<subseteq> set xs" and h: "h \<in> set hits"
  shows "(\<exists>d \<in> set (cs_docs (cx_store s)). dc_source d = h_source h \<and> dc_provenance d = h_provenance h) \<and>
    (h_provenance h \<in> set (allowed_provenance scopes) \<or>
      hybrid_opt = Some True \<and> h_provenance h = ''file'' \<and> ''file'' \<in> set scopes) \<and>
    (\<exists>e \<in> set (l_entries (cx_ledger s')). ev_kind (en_event e) = search_kind False (hybrid_opt = Some True) \<and>
      ev_app_id (en_event e) = ai_app_id (caller_app en caller) \<and> ev_input_hash (en_event e) = ce_hash en q)"
proof -
  have led: "\<exists>e \<in> set (l_entries (cx_ledger s')). en_event e =
      search_event en (caller_app en caller) q False (hybrid_opt = Some True) scopes"
    using context_search_ledgered [OF run] app by (auto simp: ledger_append_def Let_def split: if_splits)
  have hit: "shown_from (\<lambda>p. p \<in> set (allowed_provenance scopes) \<or> hybrid_opt = Some True \<and> p \<in> set scopes) (cx_store s) h"
  proof (rule context_search_scoped [OF run app])
    fix t limit
    assume hy: "hybrid_opt = Some True" and r: "search_hybrid_scoped (ce_ok en) (ce_fts en) (ce_iter en) (ce_embedder en) q
      (case Some scopes of Some xs \<Rightarrow> xs | None \<Rightarrow> []) limit (cx_store s) = Some (t, Inr hits)"
    show ?thesis using search_hybrid_scoped_hits [OF iter r h] by (auto simp: shown_from_def hy)
  next
    fix limit
    assume r: "snd (search_scoped (ce_ok en) (ce_fts en) q (case Some scopes of Some xs \<Rightarrow> xs | None \<Rightarrow> []) limit (cx_store s)) = Inr hits"
    show ?thesis using search_scoped_hits [OF r] h by (auto simp: shown_from_def)
  qed
  then have "is_known_provenance (h_provenance h)" using ctx_okD(4) [OF ok] by (auto simp: shown_from_def) metis+
  then have "h_provenance h \<in> set scopes \<Longrightarrow> h_provenance h \<noteq> ''file'' \<Longrightarrow> h_provenance h \<in> set (allowed_provenance scopes)"
    by (rule tag_as_scope)
  moreover have "\<exists>e \<in> set (l_entries (cx_ledger s')). ev_kind (en_event e) = search_kind False (hybrid_opt = Some True) \<and>
      ev_app_id (en_event e) = ai_app_id (caller_app en caller) \<and> ev_input_hash (en_event e) = ce_hash en q"
    using led by (elim bexE, intro bexI) (simp_all add: search_event_def)
  ultimately show ?thesis using hit unfolding shown_from_def by metis
qed

lemmas sample_search_defs = sample_cx_def sample_en_def sample_ctx_def empty_ctx_def empty_ledger_def ledger_append_def
  context_search_def caller_may_read_everything_def search_scoped_def search_hybrid_scoped_def hybrid_from_def
  allowed_provenance_def provenance_for_scope_def ctx_query_def joined_hits_def on_ctx_def embed_query_def
  vector_candidates_def vector_rows_def rerank_def attempt_def ctx_tried_def

lemma sample_query: "fts5_query ''hi'' = Some [CHR 34, CHR ''h'', CHR ''i'', CHR 34]"
  by code_simp

theorem scoped_search_is_scoped_witness:
  "\<exists>s' h. context_search (sample_en ''a'') None ''hi'' None None (Some [''mail.read'']) sample_cx = Some (s', Inr [h]) \<and>
     h_provenance h \<in> set (allowed_provenance [''mail.read''])"
proof -
  obtain s' h where run: "context_search (sample_en ''a'') None ''hi'' None None (Some [''mail.read'']) sample_cx =
      Some (s', Inr [h])"
    by (simp add: sample_search_defs sample_query Let_def)
  from scoped_search_is_scoped [OF run] sample_ctx_ok show ?thesis
    using run by (auto simp: caller_may_read_everything_def sample_cx_def sample_en_def)
qed

text \<open>
  The scope "file" names no provenance, yet a hybrid search that asks for it is answered with files.
\<close>

lemma raw_scope_reads_files:
  "allowed_provenance [''file''] = [] \<and>
   (\<exists>s' h. context_search (sample_en ''a'') None ''hi'' None (Some True) (Some [''file'']) sample_cx = Some (s', Inr [h]) \<and>
      h_provenance h = ''file'')"
  by (simp add: sample_search_defs sample_query Let_def)

end
