(* ===== verification/Context_Memory.thy ===== *)
theory Context_Memory
  imports Context_Scope
begin

text \<open>
  App memory: whose namespace a call reaches, and what reading gives after writing.
\<close>

text \<open>
  The namespaces of a caller that is no manager: its own application id, and the Lisa names its own bus
  connection owns.
\<close>

definition own_spaces :: "context_env \<Rightarrow> peer option \<Rightarrow> string set" where
  "own_spaces en caller =
     (case caller of
        None \<Rightarrow> {}
      | Some p \<Rightarrow> insert (ai_app_id (ce_identify en p))
          {n. is_lisa_app_name n \<and> (\<exists>c. peer_conn p = Bus c \<and> c \<noteq> [] \<and> ce_name_owner en n = Some c)})"

lemma namespace_own:
  assumes "namespace_for en s caller asked = Inr ns" "\<not> caller_may_read_everything en s caller"
  shows "ns \<in> own_spaces en caller"
  using assms
  by (auto simp: namespace_for_def caller_may_read_everything_def own_spaces_def broker_identity_def owned_name_identity_def
      identity_bus_name_def Let_def split: option.splits if_splits peer_id.splits)

text \<open>The rows of one application.\<close>

abbreviation rows_of :: "string \<Rightarrow> context1 \<Rightarrow> memory_row list" where
  "rows_of ns s \<equiv> filter (\<lambda>r. mr_app r = ns) (cs_memory (cx_store s))"

lemma memory_set_rows:
  assumes "ns \<noteq> app"
  shows "filter (\<lambda>r. mr_app r = ns) (cs_memory (fst (memory_set ok now app key value s))) =
    filter (\<lambda>r. mr_app r = ns) (cs_memory s)"
proof -
  have "filter (\<lambda>r. mr_app r = ns) (map (\<lambda>r. if is_memory_of app key r then r\<lparr>mr_value := value, mr_updated := now\<rparr> else r) rs) =
      filter (\<lambda>r. mr_app r = ns) rs" for rs
    using assms by (induction rs) (auto simp: is_memory_of_def)
  then show ?thesis using assms by (simp add: memory_set_def ctx_exec_def)
qed

lemma memory_wipe_rows:
  "ns \<noteq> app \<Longrightarrow> filter (\<lambda>r. mr_app r = ns) (cs_memory (fst (memory_wipe ok app s))) = filter (\<lambda>r. mr_app r = ns) (cs_memory s)"
  by (auto simp: memory_wipe_def Let_def attempt_def ctx_exec_def intro: filter_cong)

lemma on_ctx_rows: "rows_of ns (fst (on_ctx en f s)) = filter (\<lambda>r. mr_app r = ns) (cs_memory (fst (f (cx_store s))))"
  by (simp add: on_ctx_def Let_def)

text \<open>
  C37. Memory is private. A caller that is not a manager writes and wipes no row outside its own
  namespaces, and whatever key or listing it is given comes from one of them.
\<close>

theorem memory_is_private:
  assumes "\<not> caller_may_read_everything en s caller" "ns \<notin> own_spaces en caller"
  shows "rows_of ns (fst (context_memory_set en caller app key value s)) = rows_of ns s \<and>
    rows_of ns (fst (context_memory_wipe en caller app s)) = rows_of ns s \<and>
    (\<forall>v. snd (context_memory_get en caller app key s) = Inr v \<longrightarrow>
       (\<exists>r \<in> set (cs_memory (cx_store s)). mr_app r \<in> own_spaces en caller \<and> mr_key r = key \<and> mr_value r = v)) \<and>
    (\<forall>l. snd (context_memory_list en caller app s) = Inr l \<longrightarrow>
       (\<forall>(k, v) \<in> set l. \<exists>r \<in> set (cs_memory (cx_store s)). mr_app r \<in> own_spaces en caller \<and> mr_key r = k \<and> mr_value r = v))"
proof (cases "namespace_for en s caller app")
  case (Inl e)
  then show ?thesis
    by (simp add: context_memory_set_def context_memory_wipe_def context_memory_get_def context_memory_list_def)
next
  case (Inr me)
  with assms have me: "me \<in> own_spaces en caller" "ns \<noteq> me" using namespace_own by auto
  have get: "\<exists>r \<in> set (cs_memory (cx_store s)). mr_app r \<in> own_spaces en caller \<and> mr_key r = key \<and> mr_value r = v"
    if "snd (context_memory_get en caller app key s) = Inr v" for v
    using that Inr me(1)
    by (auto simp: context_memory_get_def on_ctx_def memory_get_def ctx_query_def attempt_def Let_def is_memory_of_def
        find_Some_iff split: if_splits option.splits dest!: nth_mem)
  have list: "\<forall>(k, v) \<in> set l. \<exists>r \<in> set (cs_memory (cx_store s)). mr_app r \<in> own_spaces en caller \<and> mr_key r = k \<and> mr_value r = v"
    if "snd (context_memory_list en caller app s) = Inr l" for l
    using that Inr me(1) by (auto simp: context_memory_list_def on_ctx_def memory_list_def ctx_query_def Let_def split: if_splits)
  have "rows_of ns (fst (context_memory_set en caller app key value s)) = rows_of ns s"
    using me by (simp add: context_memory_set_def Inr on_ctx_rows memory_set_rows)
  moreover have "rows_of ns (fst (context_memory_wipe en caller app s)) = rows_of ns s"
    using me
    by (simp add: context_memory_wipe_def Inr attempt_def on_ctx_rows memory_wipe_rows split: sum.split)
  ultimately show ?thesis using get list by simp
qed

text \<open>A caller whose application id is "a", next to rows of "b".\<close>

definition two_spaces :: context1 where
  "two_spaces = sample_cx\<lparr>cx_store := sample_ctx\<lparr>cs_memory :=
     [\<lparr>mr_app = ''a'', mr_key = ''k'', mr_value = ''v'', mr_updated = 0\<rparr>,
      \<lparr>mr_app = ''b'', mr_key = ''k'', mr_value = ''w'', mr_updated = 0\<rparr>]\<rparr>\<rparr>"

definition sample_caller :: "peer option" where
  "sample_caller = Some \<lparr>peer_conn = Bus '':1'', peer_uid = None, peer_pid = Some 7, peer_fd = None\<rparr>"

lemma sample_caller_facts:
  "\<not> caller_may_read_everything (sample_en ''a'') two_spaces sample_caller" "''b'' \<notin> own_spaces (sample_en ''a'') sample_caller"
  by (simp_all add: caller_may_read_everything_def is_manager_def may_manage_def own_spaces_def sample_caller_def sample_en_def)

theorem memory_is_private_witness:
  "rows_of ''b'' (fst (context_memory_wipe (sample_en ''a'') sample_caller [] two_spaces)) \<noteq> [] \<and>
   rows_of ''a'' (fst (context_memory_wipe (sample_en ''a'') sample_caller [] two_spaces)) = []"
  using memory_is_private [OF sample_caller_facts, of "[]"]
  by (simp add: two_spaces_def sample_caller_def sample_en_def context_memory_wipe_def namespace_for_def attempt_def on_ctx_def
      memory_wipe_def ctx_exec_def Let_def ctx_tried_def)

text \<open>A lookup in the rows after the upsert.\<close>

lemma find_snoc: "List.find P (rs @ [r]) = (case List.find P rs of Some x \<Rightarrow> Some x | None \<Rightarrow> if P r then Some r else None)"
  by (induction rs) auto

lemma find_updated:
  "map_option mr_value (List.find (is_memory_of ns k)
      (map (\<lambda>r. if is_memory_of ns key r then r\<lparr>mr_value := value, mr_updated := u\<rparr> else r) rs)) =
   (if k = key then map_option (\<lambda>_. value) (List.find (is_memory_of ns key) rs)
    else map_option mr_value (List.find (is_memory_of ns k) rs))"
  by (induction rs) (auto simp: is_memory_of_def [abs_def])

lemma find_after_set:
  "map_option mr_value (List.find (is_memory_of ns k)
     (if \<exists>r \<in> set rs. is_memory_of ns key r
      then map (\<lambda>r. if is_memory_of ns key r then r\<lparr>mr_value := value, mr_updated := u\<rparr> else r) rs
      else rs @ [\<lparr>mr_app = ns, mr_key = key, mr_value = value, mr_updated = u\<rparr>])) =
   (if k = key then Some value else map_option mr_value (List.find (is_memory_of ns k) rs))"
proof (cases "\<exists>r \<in> set rs. is_memory_of ns key r")
  case True
  then have "List.find (is_memory_of ns key) rs \<noteq> None" by (auto simp: find_None_iff)
  with True show ?thesis by (auto simp: find_updated)
next
  case False
  then have "List.find (is_memory_of ns key) rs = None" by (simp add: find_None_iff)
  with False show ?thesis by (auto simp: find_snoc is_memory_of_def [abs_def] split: option.split)
qed

text \<open>
  Memory round trip. After a write that succeeded, the same caller reads the written value under that
  key, every other key and namespace reads as before; after a wipe that succeeded nothing of it is left.
\<close>

theorem memory_roundtrip:
  assumes "\<forall>n. ce_ok en n" "namespace_for en s caller app = Inr ns"
  shows "snd (context_memory_get en caller app key (fst (context_memory_set en caller app key value s))) = Inr value \<and>
    (key' \<noteq> key \<longrightarrow> snd (context_memory_get en caller app key' (fst (context_memory_set en caller app key value s))) =
       snd (context_memory_get en caller app key' s)) \<and>
    snd (context_memory_list en caller app (fst (context_memory_wipe en caller app s))) = Inr []"
proof -
  let ?s = "fst (context_memory_set en caller app key value s)"
  have same: "namespace_for en t caller app = Inr ns" if "cx_managers t = cx_managers s" for t
  proof -
    have m: "is_manager en t = is_manager en s" using that by (simp add: is_manager_def fun_eq_iff)
    show ?thesis using assms(2) unfolding namespace_for_def m .
  qed
  have m: "cs_memory (cx_store ?s) = (if \<exists>r \<in> set (cs_memory (cx_store s)). is_memory_of ns key r
        then map (\<lambda>r. if is_memory_of ns key r then r\<lparr>mr_value := value, mr_updated := ce_now en\<rparr> else r) (cs_memory (cx_store s))
        else cs_memory (cx_store s) @ [\<lparr>mr_app = ns, mr_key = key, mr_value = value, mr_updated = ce_now en\<rparr>])"
    using assms by (simp add: context_memory_set_def on_ctx_def memory_set_def ctx_exec_def Let_def)
  have managers: "cx_managers ?s = cx_managers s" "cx_managers (fst (context_memory_wipe en caller app s)) = cx_managers s"
    using assms by (simp_all add: context_memory_set_def context_memory_wipe_def on_ctx_def attempt_def Let_def split: sum.split)
  have get: "snd (context_memory_get en caller app k t) =
      (case map_option mr_value (List.find (is_memory_of ns k) (cs_memory (cx_store t))) of Some x \<Rightarrow> Inr x
       | None \<Rightarrow> Inl (ContextFailed (''no value for `'' @ k @ ''` in namespace `'' @ ns @ ''`'')))"
    if "cx_managers t = cx_managers s" for k t
    using assms(1) same [OF that]
    by (simp add: context_memory_get_def on_ctx_def memory_get_def ctx_query_def attempt_def Let_def split: option.split)
  have found: "map_option mr_value (List.find (is_memory_of ns k) (cs_memory (cx_store ?s))) =
      (if k = key then Some value else map_option mr_value (List.find (is_memory_of ns k) (cs_memory (cx_store s))))" for k
    unfolding m by (rule find_after_set)
  have "snd (context_memory_list en caller app (fst (context_memory_wipe en caller app s))) = Inr []"
    using assms same [OF managers(2)]
    by (simp add: context_memory_list_def context_memory_wipe_def on_ctx_def memory_wipe_def
        memory_list_def ctx_exec_def ctx_query_def attempt_def Let_def ctx_tried_def)
  then show ?thesis by (simp add: get [OF managers(1)] get [OF refl] found)
qed

theorem memory_roundtrip_witness:
  "snd (context_memory_get (sample_en ''a'') sample_caller [] ''x'' (fst (context_memory_set (sample_en ''a'') sample_caller [] ''x'' ''y'' two_spaces))) =
     Inr ''y''"
proof -
  have "namespace_for (sample_en ''a'') two_spaces sample_caller [] = Inr ''a''" "\<forall>n. ce_ok (sample_en ''a'') n"
    by (simp_all add: namespace_for_def sample_caller_def sample_en_def)
  from memory_roundtrip [OF this(2,1)] show ?thesis by blast
qed

end
