(* ===== verification/Context_Prune.thy ===== *)
theory Context_Prune
  imports Context_Scope
begin

text \<open>
  What pruning removes, against the plan it announces; and that re-indexing under one provenance leaves
  the documents of another alone.
\<close>

section \<open>The plan\<close>

text \<open>Which documents a pruning is about.\<close>

definition condemned :: "string \<Rightarrow> string set \<Rightarrow> string list \<Rightarrow> document \<Rightarrow> bool" where
  "condemned p keep protect d \<longleftrightarrow>
     dc_provenance d = p \<and> dc_source d \<notin> keep \<and> \<not> (\<exists>q \<in> set protect. starts_with (dc_source d) q)"

lemma doomed_loop_result:
  "doomed_loop s keep protect ds (ids, plan) =
     (let D = filter (condemned p keep protect) ds in
      (ids @ map dc_id D,
       plan\<lparr>pl_sources := pl_sources plan @ map dc_source D,
         pl_chunks := pl_chunks plan + sum_list (map (\<lambda>i. tally_of i (map ck_doc (cs_chunks s))) (map dc_id D)),
         pl_vectors := pl_vectors plan + sum_list (map (\<lambda>i. tally_of i (map cv_doc (cs_vectors s))) (map dc_id D)),
         pl_protected := pl_protected plan + length (filter (\<lambda>d. dc_source d \<notin> keep \<and> (\<exists>q \<in> set protect. starts_with (dc_source d) q)) ds)\<rparr>))"
  if "\<forall>d \<in> set ds. dc_provenance d = p"
  using that
proof (induction ds arbitrary: ids plan)
  case (Cons d ds)
  then show ?case by (auto simp: Let_def condemned_def)
qed simp

text \<open>The rows of the documents to go, by id.\<close>

definition tagged :: "string \<Rightarrow> ctx_store \<Rightarrow> document list" where
  "tagged p s = sort_key dc_id (filter (\<lambda>d. dc_provenance d = p) (cs_docs s))"

lemma doomed_Inr:
  assumes "snd (doomed ok p keep protect s) = Inr (ids, plan)"
  shows "ids = map dc_id (filter (condemned p keep protect) (tagged p s))"
    "pl_sources plan = map dc_source (filter (condemned p keep protect) (tagged p s))"
    "pl_chunks plan = sum_list (map (\<lambda>i. tally_of i (map ck_doc (cs_chunks s))) ids)"
    "pl_vectors plan = sum_list (map (\<lambda>i. tally_of i (map cv_doc (cs_vectors s))) ids)"
proof -
  have "doomed_loop (s\<lparr>cs_tries := n\<rparr>) keep protect (tagged p s) r = doomed_loop s keep protect (tagged p s) r" for n r
  proof -
    have "doomed_loop (s\<lparr>cs_tries := n\<rparr>) keep protect ds r = doomed_loop s keep protect ds r" for ds
    proof (induction ds arbitrary: r)
      case (Cons d ds)
      then show ?case by (cases r) simp
    qed simp
    then show ?thesis .
  qed
  then have run: "doomed_loop s keep protect (tagged p s) ([], \<lparr>pl_sources = [], pl_chunks = 0, pl_vectors = 0, pl_protected = 0\<rparr>) = (ids, plan)"
    using assms by (auto simp: doomed_def attempt_def ctx_query_def ctx_tried_def tagged_def split: if_splits)
  have p: "\<forall>d \<in> set (tagged p s). dc_provenance d = p" by (simp add: tagged_def)
  note r = run [unfolded doomed_loop_result [OF p] Let_def, symmetric]
  show "ids = map dc_id (filter (condemned p keep protect) (tagged p s))"
    "pl_sources plan = map dc_source (filter (condemned p keep protect) (tagged p s))"
    "pl_chunks plan = sum_list (map (\<lambda>i. tally_of i (map ck_doc (cs_chunks s))) ids)"
    "pl_vectors plan = sum_list (map (\<lambda>i. tally_of i (map cv_doc (cs_vectors s))) ids)"
    using r by simp_all
qed

lemma delete_all_done:
  assumes "snd (delete_all ok is s) = Inr u"
  shows "cs_docs (fst (delete_all ok is s)) = filter (\<lambda>d. dc_id d \<notin> set is) (cs_docs s) \<and>
    cs_chunks (fst (delete_all ok is s)) = filter (\<lambda>c. ck_doc c \<notin> set is) (cs_chunks s) \<and>
    cs_vectors (fst (delete_all ok is s)) = filter (\<lambda>v. cv_doc v \<notin> set is) (cs_vectors s) \<and>
    cs_memory (fst (delete_all ok is s)) = cs_memory s"
  using assms
proof (induction ok "is" s rule: delete_all.induct)
  case (2 ok i "is" s)
  from attempt_then [OF 2(2) [unfolded delete_all.simps]] obtain v where v: "snd (delete_document ok i s) = Inr v"
    and eq: "delete_all ok (i # is) s = delete_all ok is (fst (delete_document ok i s))"
    by auto
  obtain n where d: "fst (delete_document ok i s) = (without_doc i s)\<lparr>cs_tries := n\<rparr>"
    using delete_document_done [OF v] by blast
  show ?case using 2(1) [of "fst (delete_document ok i s)"] 2(2) unfolding eq
    by (simp add: d without_doc_def v)
qed simp

text \<open>What is counted is what goes.\<close>

lemma tallies:
  "distinct is \<Longrightarrow> length (filter (\<lambda>x. f x \<notin> set is) xs) + sum_list (map (\<lambda>i. tally_of i (map f xs)) is) = length xs"
proof (induction "is")
  case (Cons i "is")
  have "length (filter (\<lambda>x. f x \<notin> set (i # is)) xs) + tally_of i (map f xs) = length (filter (\<lambda>x. f x \<notin> set is) xs)"
    using Cons(2) by (induction xs) (auto simp: tally_of_def)
  with Cons show ?case by simp
qed simp

lemma transaction_Inr:
  assumes "snd (ctx_transaction ok body s) = Inr x"
  shows "\<exists>n m. snd (body (s\<lparr>cs_tries := n\<rparr>)) = Inr x \<and> fst (ctx_transaction ok body s) = (fst (body (s\<lparr>cs_tries := n\<rparr>)))\<lparr>cs_tries := m\<rparr>"
proof -
  let ?s = "s\<lparr>cs_tries := Suc (cs_tries s)\<rparr>"
  have "snd (body ?s) = Inr x \<and> fst (ctx_transaction ok body s) = ctx_tried (fst (body ?s))"
    using assms
    by (auto simp: ctx_transaction_def attempt_def ctx_exec_def ctx_tried_def ctx_atomic_def ctx_commit_def split: if_splits sum.splits)
  then show ?thesis by (auto simp: ctx_tried_def)
qed

lemma transaction_Inl:
  "snd (ctx_transaction ok body s) = Inl e \<Longrightarrow> \<exists>n. fst (ctx_transaction ok body s) = s\<lparr>cs_tries := n\<rparr>"
  by (auto simp: ctx_transaction_def attempt_def ctx_exec_def ctx_tried_def ctx_atomic_def ctx_commit_def split: if_splits sum.splits)

lemma sources_of_ids:
  assumes "ctx_ok s" "set D \<subseteq> set (cs_docs s)" "d \<in> set (cs_docs s)"
  shows "dc_id d \<in> dc_id ` set D \<longleftrightarrow> dc_source d \<in> dc_source ` set D"
proof -
  have "inj_on dc_source (set (cs_docs s))" "inj_on dc_id (set (cs_docs s))"
    using ctx_okD(1,2) [OF assms(1)] by (simp_all add: distinct_map)
  with assms(2,3) show ?thesis by (simp add: inj_on_image_mem_iff)
qed

lemma doomed_tables:
  "cs_docs (fst (doomed ok p keep protect s)) = cs_docs s" "cs_chunks (fst (doomed ok p keep protect s)) = cs_chunks s"
  "cs_vectors (fst (doomed ok p keep protect s)) = cs_vectors s" "cs_memory (fst (doomed ok p keep protect s)) = cs_memory s"
  by (simp_all add: doomed_def attempt_def ctx_query_def ctx_tried_def)

lemma plan_free:
  assumes "snd (doomed ok p keep protect (s\<lparr>cs_tries := n\<rparr>)) = Inr (ids, plan)"
  shows "snd (plan_prune_not_in (\<lambda>n. True) p keep protect s) = Inr plan \<or> \<not> is_known_provenance p"
proof -
  have swap: "doomed_loop (s\<lparr>cs_tries := n\<rparr>) keep protect ds r = doomed_loop (s\<lparr>cs_tries := m\<rparr>) keep protect ds r" for n m ds r
  proof (induction ds arbitrary: r)
    case (Cons d ds)
    then show ?case by (cases r) simp
  qed simp
  show ?thesis
    using assms swap
    by (auto simp: plan_prune_not_in_def doomed_def attempt_def ctx_query_def ctx_tried_def split: if_splits) (metis snd_conv)
qed

lemma prune_not_in_Inr:
  assumes "snd (prune_not_in ok p keep protect s) = Inr n"
  obtains ids plan s2 k m u where "is_known_provenance p" "snd (doomed ok p keep protect (s\<lparr>cs_tries := k\<rparr>)) = Inr (ids, plan)"
    "n = length (pl_sources plan)" "snd (delete_all ok ids s2) = Inr u"
    "fst (prune_not_in ok p keep protect s) = (fst (delete_all ok ids s2))\<lparr>cs_tries := m\<rparr>"
    "cs_docs s2 = cs_docs s" "cs_chunks s2 = cs_chunks s" "cs_vectors s2 = cs_vectors s" "cs_memory s2 = cs_memory s"
proof -
  define body where "body = (\<lambda>s1. attempt (doomed ok p keep protect s1)
    (\<lambda>r s2. attempt (delete_all ok (fst r) s2) (\<lambda>_ s3. (s3, Inr (length (pl_sources (snd r)))))))"
  have known: "is_known_provenance p" and r: "prune_not_in ok p keep protect s = ctx_transaction ok body s"
    using assms by (auto simp: prune_not_in_def body_def split: if_splits)
  obtain k m where b: "snd (body (s\<lparr>cs_tries := k\<rparr>)) = Inr n"
      "fst (prune_not_in ok p keep protect s) = (fst (body (s\<lparr>cs_tries := k\<rparr>)))\<lparr>cs_tries := m\<rparr>"
    using transaction_Inr [of ok body s n] assms unfolding r by blast
  obtain ids plan where dm: "snd (doomed ok p keep protect (s\<lparr>cs_tries := k\<rparr>)) = Inr (ids, plan)"
    and body: "body (s\<lparr>cs_tries := k\<rparr>) =
      attempt (delete_all ok ids (fst (doomed ok p keep protect (s\<lparr>cs_tries := k\<rparr>)))) (\<lambda>_ s3. (s3, Inr (length (pl_sources plan))))"
    using attempt_then [OF b(1) [unfolded body_def]] by (auto simp: body_def)
  show thesis
    by (rule that [OF known dm, of "fst (doomed ok p keep protect (s\<lparr>cs_tries := k\<rparr>))"])
      (use b in \<open>auto simp: body attempt_def doomed_tables split: sum.splits\<close>)
qed

text \<open>
  C39. Pruning does what its plan says. When a pruning succeeds, the documents gone are exactly those of
  the plan, which are the ones of that provenance that are neither kept nor under a protected prefix; as
  many chunks and vectors are gone as the plan counted, and memory is untouched. When it fails, no table
  has changed.
\<close>

theorem prune_follows_the_plan:
  assumes ok: "ctx_ok s"
  shows "let r = prune_not_in ok p keep protect s in case snd r of
      Inl e \<Rightarrow> \<exists>n. fst r = s\<lparr>cs_tries := n\<rparr>
    | Inr n \<Rightarrow> \<exists>plan. snd (plan_prune_not_in (\<lambda>n. True) p keep protect s) = Inr plan \<and> n = length (pl_sources plan) \<and>
        set (pl_sources plan) = {dc_source d | d. d \<in> set (cs_docs s) \<and> dc_provenance d = p \<and> dc_source d \<notin> keep \<and>
          \<not> (\<exists>q \<in> set protect. starts_with (dc_source d) q)} \<and>
        cs_docs (fst r) = filter (\<lambda>d. dc_source d \<notin> set (pl_sources plan)) (cs_docs s) \<and>
        length (cs_chunks (fst r)) + pl_chunks plan = length (cs_chunks s) \<and>
        length (cs_vectors (fst r)) + pl_vectors plan = length (cs_vectors s) \<and> cs_memory (fst r) = cs_memory s"
proof (cases "snd (prune_not_in ok p keep protect s)")
  case (Inl e)
  have self: "\<exists>n. s = s\<lparr>cs_tries := n\<rparr>" by (rule exI [of _ "cs_tries s"]) simp
  from Inl have "\<exists>n. fst (prune_not_in ok p keep protect s) = s\<lparr>cs_tries := n\<rparr>"
    by (cases "is_known_provenance p") (auto simp: prune_not_in_def self dest: transaction_Inl)
  with Inl show ?thesis by (simp add: Let_def)
next
  case (Inr n)
  then show ?thesis
  proof (rule prune_not_in_Inr)
    fix ids plan s2 k m u
    assume dm: "snd (doomed ok p keep protect (s\<lparr>cs_tries := k\<rparr>)) = Inr (ids, plan)" and known: "is_known_provenance p"
      and n: "n = length (pl_sources plan)" and del: "snd (delete_all ok ids s2) = Inr u"
      and fin: "fst (prune_not_in ok p keep protect s) = (fst (delete_all ok ids s2))\<lparr>cs_tries := m\<rparr>"
      and s2: "cs_docs s2 = cs_docs s" "cs_chunks s2 = cs_chunks s" "cs_vectors s2 = cs_vectors s" "cs_memory s2 = cs_memory s"
    define D where "D = filter (condemned p keep protect) (tagged p (s\<lparr>cs_tries := k\<rparr>))"
    have D: "set D = {d \<in> set (cs_docs s). condemned p keep protect d}" by (auto simp: D_def tagged_def condemned_def)
    have ids: "ids = map dc_id D" "pl_sources plan = map dc_source D"
      using doomed_Inr(1,2) [OF dm] by (simp_all add: D_def)
    have "distinct (map dc_id D)"
      using ctx_okD(2) [OF ok] unfolding D_def tagged_def
      by (auto simp: distinct_map intro: inj_on_subset)
    then have dist: "distinct ids" by (simp add: ids)
    have gone: "dc_id d \<in> set ids \<longleftrightarrow> dc_source d \<in> set (pl_sources plan)" if "d \<in> set (cs_docs s)" for d
      using sources_of_ids [OF ok _ that, of D] D by (auto simp: ids)
    note done' = delete_all_done [OF del]
    have "cs_docs (fst (prune_not_in ok p keep protect s)) = filter (\<lambda>d. dc_source d \<notin> set (pl_sources plan)) (cs_docs s)"
      using done' gone by (auto simp: fin s2 intro!: filter_cong)
    moreover have "length (cs_chunks (fst (prune_not_in ok p keep protect s))) + pl_chunks plan = length (cs_chunks s)"
      "length (cs_vectors (fst (prune_not_in ok p keep protect s))) + pl_vectors plan = length (cs_vectors s)"
      "cs_memory (fst (prune_not_in ok p keep protect s)) = cs_memory s"
      using done' doomed_Inr(3,4) [OF dm] tallies [OF dist, of ck_doc "cs_chunks s"] tallies [OF dist, of cv_doc "cs_vectors s"]
      by (simp_all add: fin s2)
    moreover have "set (pl_sources plan) = {dc_source d | d. d \<in> set (cs_docs s) \<and> dc_provenance d = p \<and> dc_source d \<notin> keep \<and>
          \<not> (\<exists>q \<in> set protect. starts_with (dc_source d) q)}"
      by (auto simp: ids D condemned_def)
    moreover have "snd (plan_prune_not_in (\<lambda>n. True) p keep protect s) = Inr plan" using plan_free [OF dm] known by simp
    ultimately show ?thesis using Inr n unfolding Let_def by simp
  qed
qed

theorem prune_follows_the_plan_witness:
  "map dc_source (cs_docs (fst (prune_not_in (\<lambda>n. True) ''mail'' {} [] sample_ctx))) = [''f''] \<and>
   map dc_source (cs_docs sample_ctx) = [''m'', ''f'']"
proof -
  obtain n where n: "snd (prune_not_in (\<lambda>n. True) ''mail'' {} [] sample_ctx) = Inr n"
    by (simp add: sample_ctx_def empty_ctx_def prune_not_in_def is_known_provenance_def PROVENANCE_def ctx_transaction_def
        attempt_def ctx_exec_def ctx_query_def ctx_atomic_def ctx_commit_def ctx_tried_def doomed_def delete_document_def)
  obtain plan :: prune_plan where plan: "set (pl_sources plan) = {dc_source d | d. d \<in> set (cs_docs sample_ctx) \<and> dc_provenance d = ''mail'' \<and>
      dc_source d \<notin> {} \<and> \<not> Bex (set []) (starts_with (dc_source d))}"
    "cs_docs (fst (prune_not_in (\<lambda>n. True) ''mail'' {} [] sample_ctx)) = filter (\<lambda>d. dc_source d \<notin> set (pl_sources plan)) (cs_docs sample_ctx)"
    using prune_follows_the_plan [OF sample_ctx_ok, of "\<lambda>n. True" "''mail''" "{}" "[]"] unfolding Let_def n sum.case by blast
  have "set (pl_sources plan) = {''m''}" unfolding plan(1) by (auto simp: sample_ctx_def conj_disj_distribL conj_disj_distribR ex_disj_distrib)
  then show ?thesis unfolding plan(2) by (simp add: sample_ctx_def)
qed

section \<open>Documents of another provenance\<close>

text \<open>A document is kept: the row, its chunks and its vectors are there as they were.\<close>

definition kept :: "document \<Rightarrow> ctx_store \<Rightarrow> ctx_store \<Rightarrow> bool" where
  "kept d s t \<longleftrightarrow> d \<in> set (cs_docs t) \<and>
     filter (\<lambda>c. ck_doc c = dc_id d) (cs_chunks t) = filter (\<lambda>c. ck_doc c = dc_id d) (cs_chunks s) \<and>
     filter (\<lambda>v. cv_doc v = dc_id d) (cs_vectors t) = filter (\<lambda>v. cv_doc v = dc_id d) (cs_vectors s)"

lemma kept_tries [simp]: "kept d s (ctx_tried t) = kept d s t" "kept d s (t\<lparr>cs_tries := n\<rparr>) = kept d s t"
  "kept d (ctx_tried s) t = kept d s t" "kept d (s\<lparr>cs_tries := n\<rparr>) t = kept d s t"
  by (simp_all add: kept_def ctx_tried_def)

lemma kept_trans: "kept d s t \<Longrightarrow> kept d t u \<Longrightarrow> kept d s u"
  by (simp add: kept_def)

lemma kept_exec: "kept d s t \<Longrightarrow> kept d s (f t) \<Longrightarrow> kept d s (fst (ctx_exec ok f t))"
  by (simp add: ctx_exec_def)

lemmas kept_attempt = attempt_ok [where P = "kept d s" for d s]

lemma filter_other: "a \<noteq> b \<Longrightarrow> filter (\<lambda>x. f x \<noteq> b \<and> f x = a) xs = filter (\<lambda>x. f x = a) xs"
  by (rule filter_cong) auto

lemma delete_document_kept: "kept d s t \<Longrightarrow> i \<noteq> dc_id d \<Longrightarrow> kept d s (fst (delete_document ok i t))"
  by (auto simp: delete_document_def attempt_def ctx_exec_def ctx_tried_def kept_def filter_other)

lemma insert_document_kept: "kept d s t \<Longrightarrow> kept d s (fst (insert_document ok src p m h t))"
  by (auto simp: insert_document_def Let_def attempt_def ctx_exec_def kept_def)

lemma insert_chunks_kept: "kept d s t \<Longrightarrow> i \<noteq> dc_id d \<Longrightarrow> kept d s (fst (insert_chunks ok i seq cs t))"
proof (induction ok i seq cs t rule: insert_chunks.induct)
  case (2 ok i seq c cs t)
  show ?case
    unfolding insert_chunks.simps
    by (rule kept_attempt) (use 2 in \<open>auto simp: kept_def ctx_exec_def\<close>)
qed simp

lemma insert_document_id: "snd (insert_document ok src p m h t) = Inr i \<Longrightarrow> i = cs_last t + 1"
  by (auto simp: insert_document_def Let_def attempt_def ctx_exec_def split: if_splits)

lemma insert_all_kept:
  assumes "kept d s t" "dc_id d \<le> cs_last t"
  shows "kept d s (fst (attempt (insert_document ok src p m h t) (\<lambda>i. insert_chunks ok i 0 cs)))"
    and "kept d s (fst (attempt (insert_document ok src p m h t) (\<lambda>i. insert_counted ok i 0 cs rep)))"
proof -
  show all: "kept d s (fst (attempt (insert_document ok src p m h t) (\<lambda>i. insert_chunks ok i 0 cs)))"
  proof (rule kept_attempt)
    show ins: "kept d s (fst (insert_document ok src p m h t))" by (rule insert_document_kept [OF assms(1)])
    fix i assume "snd (insert_document ok src p m h t) = Inr i"
    then have "i \<noteq> dc_id d" using insert_document_id assms(2) by fastforce
    then show "kept d s (fst (insert_chunks ok i 0 cs (fst (insert_document ok src p m h t))))"
      by (rule insert_chunks_kept [OF ins])
  qed
  have "fst (attempt (insert_document ok src p m h t) (\<lambda>i. insert_counted ok i 0 cs rep)) =
      fst (attempt (insert_document ok src p m h t) (\<lambda>i. insert_chunks ok i 0 cs))"
    by (simp add: attempt_def insert_counted_chunks split: sum.split)
  with all show "kept d s (fst (attempt (insert_document ok src p m h t) (\<lambda>i. insert_counted ok i 0 cs rep)))" by simp
qed

lemma delete_document_last: "cs_last (fst (delete_document ok i t)) = cs_last t"
  by (simp add: delete_document_def attempt_def ctx_exec_def ctx_tried_def)

text \<open>A document found under a source that is rewritten is not the kept one.\<close>

lemma found_other:
  assumes "ctx_ok s" "d \<in> set (cs_docs s)" "doc_of src s = Some d'" "dc_provenance d' \<noteq> dc_provenance d"
  shows "dc_id d' \<noteq> dc_id d"
proof -
  have "d' \<in> set (cs_docs s)" using assms(3) by (auto simp: doc_of_def find_Some_iff)
  with assms ctx_okD(2) [OF assms(1)] show ?thesis by (auto simp: distinct_map inj_on_def)
qed

lemma kept_self: "d \<in> set (cs_docs s) \<Longrightarrow> kept d s s"
  by (simp add: kept_def)

lemma index_file_kept:
  assumes ok: "ctx_ok s" and all: "\<forall>n. ok n" and d: "d \<in> set (cs_docs s)" "dc_provenance d \<noteq> p"
  shows "kept d s (fst (index_file ok hash_of p f rep s))"
proof -
  have self: "kept d s (ctx_tried s)" "dc_id d \<le> cs_last (ctx_tried s)"
    using d kept_self ctx_okD(3) [OF ok] by simp_all
  have rewrite: "kept d s (fst (attempt (delete_document ok i (ctx_tried s))
      (\<lambda>_ s1. attempt (insert_document ok src p m h s1) (\<lambda>i. insert_counted ok i 0 cs rep))))"
    if "i \<noteq> dc_id d" for i src m h cs
    by (rule kept_attempt)
      (use self that in \<open>auto intro!: insert_all_kept delete_document_kept simp: delete_document_last\<close>)
  have "kept d s s" using d(1) by (rule kept_self)
  then show ?thesis
    using self rewrite all d(2) found_other [OF ok d(1)]
    by (auto simp: index_file_def Let_def ctx_query_def insert_all_kept split: option.split)
qed

lemma index_files_kept:
  assumes "ctx_ok s" "\<forall>n. ok n" "d \<in> set (cs_docs s)" "dc_provenance d \<noteq> p" "is_known_provenance p"
  shows "kept d s (fst (index_files ok hash_of p fs rep s))"
  using assms
proof (induction ok hash_of p fs rep s rule: index_files.induct)
  case (2 ok hash_of p f fs rep s)
  have first: "kept d s (fst (index_file ok hash_of p f rep s))" using 2 by (intro index_file_kept)
  show ?case
    unfolding index_files.simps
  proof (rule kept_attempt [OF first])
    fix rep'
    have "kept d (fst (index_file ok hash_of p f rep s)) (fst (index_files ok hash_of p fs rep' (fst (index_file ok hash_of p f rep s))))"
      using 2 first by (intro 2(1)) (auto simp: kept_def index_file_ok)
    with first show "kept d s (fst (index_files ok hash_of p fs rep' (fst (index_file ok hash_of p f rep s))))"
      by (rule kept_trans)
  qed
qed (simp add: kept_self)

lemma write_document_kept:
  assumes ok: "ctx_ok s" and all: "\<forall>n. ok n" and d: "d \<in> set (cs_docs s)" "dc_provenance d \<noteq> p"
    and src: "case doc_of src s of Some d' \<Rightarrow> dc_provenance d' = p | None \<Rightarrow> True"
  shows "kept d s (fst (write_document ok src p content h s))"
  unfolding write_document_def Let_def
proof (rule kept_attempt)
  let ?r = "case snd (ctx_query ok (doc_of src) s) of
      Inr (Some d') \<Rightarrow> delete_document ok (dc_id d') (fst (ctx_query ok (doc_of src) s))
    | _ \<Rightarrow> (fst (ctx_query ok (doc_of src) s), Inr ())"
  have "kept d s (fst ?r) \<and> cs_last (fst ?r) = cs_last s"
    using all src d kept_self [OF d(1)] found_other [OF ok d(1), of src]
    by (auto simp: ctx_query_def delete_document_last intro!: delete_document_kept split: option.splits)
  then show r: "kept d s (fst ?r)" and "kept d s (fst (attempt (insert_document ok src p 0 h (fst ?r)) (\<lambda>i. insert_chunks ok i 0 (chunk_text content))))"
    for u :: unit
    using ctx_okD(3) [OF ok d(1)] by (simp_all add: insert_all_kept)
qed

lemma ctx_atomic_kept: "kept d s t \<Longrightarrow> kept d s (fst r) \<Longrightarrow> kept d s (fst (ctx_atomic t r))"
  by (simp add: ctx_atomic_def split: sum.split)

text \<open>
  Provenance is kept. While no statement fails, adding a document or indexing a directory under one
  provenance leaves every document of another provenance with its row, its chunks and its vectors, even
  when they share the source.
\<close>

theorem provenance_is_kept:
  assumes ok: "ctx_ok s" and all: "\<forall>n. ok n" and d: "d \<in> set (cs_docs s)" "dc_provenance d \<noteq> p"
  shows "kept d s (fst (add_document_if_changed ok hash_of src p content s)) \<and> kept d s (fst (index_dir_as ok hash_of files p s))"
proof
  have self: "kept d s s" using d(1) by (rule kept_self)
  show "kept d s (fst (index_dir_as ok hash_of files p s))"
    using self index_files_kept [OF ok all d] by (simp add: index_dir_as_def)
  let ?s1 = "ctx_tried s"
  have s1: "kept d s ?s1" "ctx_ok (ctx_tried ?s1)" "d \<in> set (cs_docs (ctx_tried ?s1))" using self ok d by simp_all
  have w: "kept d s (fst (ctx_atomic ?s1 (attempt (write_document ok src p content h (ctx_tried ?s1)) (\<lambda>_. ctx_commit ok Added))))"
    if "case doc_of src s of Some d' \<Rightarrow> dc_provenance d' = p | None \<Rightarrow> True" for h
  proof (rule ctx_atomic_kept [OF s1(1)])
    have "doc_of src (ctx_tried ?s1) = doc_of src s" by (simp add: doc_of_def)
    then have "kept d (ctx_tried ?s1) (fst (write_document ok src p content h (ctx_tried ?s1)))"
      using that s1 all d(2) by (intro write_document_kept) simp_all
    then have "kept d s (fst (write_document ok src p content h (ctx_tried ?s1)))" by simp
    then show "kept d s (fst (attempt (write_document ok src p content h (ctx_tried ?s1)) (\<lambda>_. ctx_commit ok Added)))"
      by (intro kept_attempt) (simp_all add: ctx_commit_def attempt_def ctx_exec_def)
  qed
  have step: "ctx_exec ok (\<lambda>t. t) s = (?s1, Inr ())" "ctx_query ok (doc_of src) ?s1 = (ctx_tried ?s1, Inr (doc_of src s))"
    using all by (simp_all add: ctx_exec_def ctx_query_def doc_of_def)
  show "kept d s (fst (add_document_if_changed ok hash_of src p content s))"
    using self w
    unfolding add_document_if_changed_def step Let_def attempt_def fst_conv snd_conv sum.case
    by (auto split: option.split)
qed

theorem provenance_is_kept_witness:
  "map dc_provenance (cs_docs (fst (add_document_if_changed (\<lambda>n. True) (\<lambda>x. x) ''m'' ''file'' ''x'' sample_ctx))) = [''mail'', ''file'']"
proof -
  have "hd (cs_docs sample_ctx) \<in> set (cs_docs sample_ctx)" "dc_provenance (hd (cs_docs sample_ctx)) \<noteq> ''file''"
    by (simp_all add: sample_ctx_def)
  from provenance_is_kept [OF sample_ctx_ok _ this, of "\<lambda>n. True" "\<lambda>x. x" "''m''" "''x''"] show ?thesis
    by (simp add: kept_def sample_ctx_def empty_ctx_def add_document_if_changed_def is_known_provenance_def PROVENANCE_def
        attempt_def ctx_exec_def ctx_query_def ctx_tried_def doc_of_def)
qed

text \<open>
  When the read of the old row fails, the same call replaces the mail by a file of the same source; and a
  directory walk that fails between a document and its chunks leaves a document without text, which the
  next walk passes over as unchanged.
\<close>

lemma chunk_x: "chunk_text ''x'' = [''x'']"
  by (simp add: chunk_text_def cut_oversized.simps CHUNK_TARGET_def byte_len_def utf8_len_def trim_def trim_by_def
      trim_start_by_def trim_end_by_def is_ws_def)

lemma failed_read_relabels:
  "map dc_provenance (cs_docs (fst (add_document_if_changed (\<lambda>n. n \<noteq> 1) (\<lambda>x. x) ''m'' ''file'' ''x'' sample_ctx))) = [''file'', ''file''] \<and>
   map dc_source (cs_docs (fst (add_document_if_changed (\<lambda>n. n \<noteq> 1) (\<lambda>x. x) ''m'' ''file'' ''x'' sample_ctx))) = [''f'', ''m'']"
  by (simp add: sample_ctx_def empty_ctx_def add_document_if_changed_def is_known_provenance_def PROVENANCE_def
      attempt_def ctx_exec_def ctx_query_def ctx_tried_def doc_of_def write_document_def delete_document_def insert_document_def
      ctx_atomic_def ctx_commit_def chunk_x Let_def)

definition one_file :: walked_file where
  "one_file = \<lparr>wf_source = ''d/a.txt'', wf_name = ''a.txt'', wf_len = Some 1, wf_mtime = 0, wf_content = Some ''x''\<rparr>"

lemma one_file_is_text: "is_text_file one_file"
  by code_simp

lemma interrupted_walk_pins_an_empty_document:
  "let s1 = fst (index_dir_as (\<lambda>n. n \<noteq> 2) (\<lambda>x. x) [one_file] ''file'' empty_ctx);
       r2 = index_dir_as (\<lambda>n. n \<noteq> 2) (\<lambda>x. x) [one_file] ''file'' s1
   in map dc_source (cs_docs s1) = [''d/a.txt''] \<and> cs_chunks s1 = [] \<and>
      snd r2 = Inr (empty_index_report\<lparr>ir_skipped_unchanged := 1\<rparr>) \<and> cs_chunks (fst r2) = []"
  using one_file_is_text
  by (simp add: index_dir_as_def index_file_def empty_ctx_def is_known_provenance_def PROVENANCE_def one_file_def
      attempt_def ctx_exec_def ctx_query_def ctx_tried_def doc_of_def insert_document_def chunk_x MAX_FILE_BYTES_def
      empty_index_report_def Let_def)

end
