(* ===== verification/Context_Embed.thy ===== *)
theory Context_Embed
  imports Context_Prune
begin

text \<open>The embedding backfill ends with nothing left to embed.\<close>

lemma is_pending_tables:
  "cs_docs t = cs_docs s \<Longrightarrow> cs_vectors t = cs_vectors s \<Longrightarrow> is_pending p t c = is_pending p s c"
  by (simp add: is_pending_def cong: option.case_cong)

lemma put_vector_keys:
  "(\<exists>w \<in> set (put_vector v vs). cv_doc w = i \<and> cv_seq w = j) \<longleftrightarrow> (cv_doc v = i \<and> cv_seq v = j) \<or> (\<exists>w \<in> set vs. cv_doc w = i \<and> cv_seq w = j)"
  by (auto simp: put_vector_def)

lemma put_vectors_done:
  assumes "snd (put_vectors ok ps s) = Inr u"
  shows "cs_docs (fst (put_vectors ok ps s)) = cs_docs s" "cs_chunks (fst (put_vectors ok ps s)) = cs_chunks s"
    "is_pending p (fst (put_vectors ok ps s)) c \<longleftrightarrow>
       is_pending p s c \<and> (ck_doc c, ck_seq c) \<notin> (\<lambda>(c, v). (ck_doc c, ck_seq c)) ` set ps"
proof -
  have "cs_docs (fst (put_vectors ok ps s)) = cs_docs s \<and> cs_chunks (fst (put_vectors ok ps s)) = cs_chunks s \<and>
    (is_pending p (fst (put_vectors ok ps s)) c \<longleftrightarrow>
       is_pending p s c \<and> (ck_doc c, ck_seq c) \<notin> (\<lambda>(c, v). (ck_doc c, ck_seq c)) ` set ps)"
    using assms
  proof (induction ok ps s rule: put_vectors.induct)
    case (2 ok d v ps s)
    define t where "t = ctx_tried (s\<lparr>cs_vectors := put_vector \<lparr>cv_doc = ck_doc d, cv_seq = ck_seq d, cv_vec = v\<rparr> (cs_vectors s)\<rparr>)"
    from attempt_then [OF 2(2) [unfolded put_vectors.simps]]
    have eq: "put_vectors ok ((d, v) # ps) s = put_vectors ok ps t" by (auto simp: ctx_exec_def t_def split: if_splits)
    have t: "cs_docs t = cs_docs s" "cs_chunks t = cs_chunks s"
      "is_pending p t c \<longleftrightarrow> is_pending p s c \<and> (ck_doc c, ck_seq c) \<noteq> (ck_doc d, ck_seq d)"
      by (auto simp: t_def is_pending_def put_vector_keys cong: option.case_cong)
    show ?case using 2(1) [of t] 2(2) t unfolding eq by auto
  qed simp
  then show "cs_docs (fst (put_vectors ok ps s)) = cs_docs s" "cs_chunks (fst (put_vectors ok ps s)) = cs_chunks s"
    "is_pending p (fst (put_vectors ok ps s)) c \<longleftrightarrow>
       is_pending p s c \<and> (ck_doc c, ck_seq c) \<notin> (\<lambda>(c, v). (ck_doc c, ck_seq c)) ` set ps"
    by blast+
qed

lemma filter_drop:
  assumes "distinct (map f xs)"
  shows "filter (\<lambda>x. P x \<and> f x \<notin> f ` set (take n (filter P xs))) xs = drop n (filter P xs)"
proof -
  have split: "filter (\<lambda>y. f y \<notin> f ` set a) (a @ b) = b" if "distinct (map f (a @ b))" for a b
    using that by (auto simp: filter_empty_conv filter_id_conv)
  let ?ys = "filter P xs"
  have "filter (\<lambda>y. f y \<notin> f ` set (take n ?ys)) ?ys = drop n ?ys"
    using split [of "take n ?ys" "drop n ?ys"] distinct_map_filter [OF assms] by simp
  then show ?thesis by (simp add: conj_commute)
qed

lemma embed_round_Some:
  assumes one: "\<forall>n ts vs. emb n ts = Inr vs \<longrightarrow> length vs = length ts" and ok: "ctx_ok s"
    and run: "snd (embed_round ok emb batch p s) = Inr (Some k)"
  shows "k = length (take batch (filter (is_pending p s) (cs_chunks s))) \<and> 0 < k \<and>
    filter (is_pending p (fst (embed_round ok emb batch p s))) (cs_chunks (fst (embed_round ok emb batch p s))) =
      drop batch (filter (is_pending p s) (cs_chunks s))"
proof -
  define pend where "pend = take batch (filter (is_pending p s) (cs_chunks s))"
  obtain vs where vs: "emb (cs_tries (ctx_tried s)) (map ck_content pend) = Inr vs" and ne: "pend \<noteq> []"
    and k: "k = length pend" and tr: "snd (ctx_transaction ok (put_vectors ok (zip pend vs)) (ctx_tried s)) = Inr ()"
    and fin: "fst (embed_round ok emb batch p s) = fst (ctx_transaction ok (put_vectors ok (zip pend vs)) (ctx_tried s))"
    using run by (auto simp: embed_round_def ctx_query_def attempt_def pend_def split: if_splits sum.splits)
  obtain n m where put: "snd (put_vectors ok (zip pend vs) ((ctx_tried s)\<lparr>cs_tries := n\<rparr>)) = Inr ()"
    "fst (embed_round ok emb batch p s) = (fst (put_vectors ok (zip pend vs) ((ctx_tried s)\<lparr>cs_tries := n\<rparr>)))\<lparr>cs_tries := m\<rparr>"
    using transaction_Inr [OF tr] fin by auto
  have "length vs = length pend" using one vs by fastforce
  then have keys: "(\<lambda>(c, v). (ck_doc c, ck_seq c)) ` set (zip pend vs) = (\<lambda>c. (ck_doc c, ck_seq c)) ` set pend"
    by (metis (no_types, lifting) case_prod_unfold image_image image_cong map_fst_zip list.set_map)
  have now: "is_pending p (fst (embed_round ok emb batch p s)) c \<longleftrightarrow>
      is_pending p s c \<and> (ck_doc c, ck_seq c) \<notin> (\<lambda>c. (ck_doc c, ck_seq c)) ` set pend" for c
    using put_vectors_done(3) [OF put(1), of p c] is_pending_tables [of "(ctx_tried s)\<lparr>cs_tries := n\<rparr>" s p c]
    by (simp add: put(2) keys is_pending_def cong: option.case_cong)
  have "cs_chunks (fst (embed_round ok emb batch p s)) = cs_chunks s"
    using put_vectors_done(2) [OF put(1)] by (simp add: put(2))
  then show ?thesis
    using filter_drop [OF ctx_okD(7) [OF ok], of "is_pending p s" batch] ne
    by (simp add: k now pend_def cong: filter_cong)
qed

lemma embed_round_None:
  "snd (embed_round ok emb batch p s) = Inr None \<Longrightarrow>
     take batch (filter (is_pending p s) (cs_chunks s)) = [] \<and> fst (embed_round ok emb batch p s) = ctx_tried s"
  by (auto simp: embed_round_def ctx_query_def attempt_def split: if_splits sum.splits)

lemma embed_loop_ends:
  assumes one: "\<forall>n ts vs. emb n ts = Inr vs \<longrightarrow> length vs = length ts" and batch: "0 < batch" and ok: "ctx_ok s"
  shows "\<exists>s' r. embed_loop ok emb batch p n s = Some (s', r) \<and> ctx_ok s' \<and>
    (\<forall>m. r = Inr m \<longrightarrow> filter (is_pending p s') (cs_chunks s') = [] \<and> m = n + length (filter (is_pending p s) (cs_chunks s)))"
  using ok
proof (induction "length (filter (is_pending p s) (cs_chunks s))" arbitrary: n s rule: less_induct)
  case less
  define s1 where "s1 = fst (embed_round ok emb batch p s)"
  have s1: "ctx_ok s1" using embed_round_ok [OF less(2)] by (simp add: s1_def)
  consider (fail) e where "snd (embed_round ok emb batch p s) = Inl e" | (stop) "snd (embed_round ok emb batch p s) = Inr None"
    | (more) k where "snd (embed_round ok emb batch p s) = Inr (Some k)"
    by (metis not_None_eq obj_sumE)
  then show ?case
  proof cases
    case fail
    then show ?thesis using s1 by (subst embed_loop.simps) (simp add: case_prod_unfold s1_def)
  next
    case stop
    from embed_round_None [OF stop] batch have "filter (is_pending p s) (cs_chunks s) = [] \<and> s1 = ctx_tried s"
      by (simp add: s1_def)
    moreover from this have "is_pending p s1 c = is_pending p s c" for c by (intro is_pending_tables) simp_all
    ultimately show ?thesis using s1 stop
      by (subst embed_loop.simps) (simp add: case_prod_unfold s1_def [symmetric] cong: filter_cong)
  next
    case (more k)
    note r = embed_round_Some [OF one less(2) more, folded s1_def]
    from r batch have "length (filter (is_pending p s1) (cs_chunks s1)) < length (filter (is_pending p s) (cs_chunks s))"
      and "n + k + length (filter (is_pending p s1) (cs_chunks s1)) = n + length (filter (is_pending p s) (cs_chunks s))"
      by auto
    with less(1) [of s1 "n + k"] s1 more show ?thesis
      by (subst embed_loop.simps) (simp add: case_prod_unfold s1_def [symmetric])
  qed
qed

text \<open>
  The backfill ends. If the embedder answers one vector per text, embedding what is pending returns;
  and when it reports a count, every chunk (of the provenance asked for) has a vector and the count is how
  many were missing one before.
\<close>

theorem backfill_ends:
  assumes "\<forall>n ts vs. emb n ts = Inr vs \<longrightarrow> length vs = length ts" "ctx_ok s" "is_known_provenance p"
  shows "(\<exists>s' r. embed_pending_batched ok emb batch s = Some (s', r) \<and>
      (\<forall>m. r = Inr m \<longrightarrow> filter (is_pending None s') (cs_chunks s') = [] \<and> m = length (filter (is_pending None s) (cs_chunks s)))) \<and>
    (\<exists>s' r. embed_pending_provenance ok emb p s = Some (s', r) \<and>
      (\<forall>m. r = Inr m \<longrightarrow> filter (is_pending (Some p) s') (cs_chunks s') = [] \<and>
        m = length (filter (is_pending (Some p) s) (cs_chunks s))))"
proof
  show "\<exists>s' r. embed_pending_batched ok emb batch s = Some (s', r) \<and>
      (\<forall>m. r = Inr m \<longrightarrow> filter (is_pending None s') (cs_chunks s') = [] \<and> m = length (filter (is_pending None s) (cs_chunks s)))"
    using embed_loop_ends [OF assms(1) _ assms(2), of "max batch 1" ok None 0] by (fastforce simp: embed_pending_batched_def less_max_iff_disj)
  show "\<exists>s' r. embed_pending_provenance ok emb p s = Some (s', r) \<and>
      (\<forall>m. r = Inr m \<longrightarrow> filter (is_pending (Some p) s') (cs_chunks s') = [] \<and>
        m = length (filter (is_pending (Some p) s) (cs_chunks s)))"
    using embed_loop_ends [OF assms(1) _ assms(2), of 64 ok "Some p" 0] assms(3) by (auto simp: embed_pending_provenance_def)
qed

theorem backfill_ends_witness:
  "embed_pending_batched (\<lambda>n. True) (hash_embed 8) 1 sample_ctx \<noteq> None \<and> filter (is_pending None empty_ctx) (cs_chunks empty_ctx) = []"
proof -
  have "\<forall>n ts vs. hash_embed 8 n ts = Inr vs \<longrightarrow> length vs = length ts" by (auto simp: hash_embed_def)
  from backfill_ends [OF this sample_ctx_ok, of "''mail''" "\<lambda>n. True" 1] show ?thesis
    by (auto simp: is_known_provenance_def PROVENANCE_def empty_ctx_def)
qed

end
