(* ===== verification/Remote_Net.thy ===== *)
theory Remote_Net
  imports Lisa_Prelude
begin

text \<open>
  Where the one daemon with egress may dial: \<open>daemons/remoted/src/net.rs\<close>. The \<open>url\<close> crate is an argument:
  \<open>parse\<close> is \<open>Url::parse\<close>, and \<open>without_userinfo\<close> the text of a URL after its user and password were
  cleared. So is the lookup of a name.
\<close>

section \<open>Addresses\<close>

datatype ipv4 = Octets "8 word" "8 word" "8 word" "8 word"

datatype ipv6 = Segments "16 word" "16 word" "16 word" "16 word" "16 word" "16 word" "16 word" "16 word"

datatype ip_addr = V4 ipv4 | V6 ipv6

text \<open>The predicates of \<open>std::net::Ipv4Addr\<close>.\<close>

fun v4_loopback :: "ipv4 \<Rightarrow> bool" where
  "v4_loopback (Octets a b c d) \<longleftrightarrow> a = 127"

fun v4_private :: "ipv4 \<Rightarrow> bool" where
  "v4_private (Octets a b c d) \<longleftrightarrow> a = 10 \<or> (a = 172 \<and> 16 \<le> b \<and> b \<le> 31) \<or> (a = 192 \<and> b = 168)"

fun v4_link_local :: "ipv4 \<Rightarrow> bool" where
  "v4_link_local (Octets a b c d) \<longleftrightarrow> a = 169 \<and> b = 254"

fun v4_multicast :: "ipv4 \<Rightarrow> bool" where
  "v4_multicast (Octets a b c d) \<longleftrightarrow> 224 \<le> a \<and> a \<le> 239"

fun v4_broadcast :: "ipv4 \<Rightarrow> bool" where
  "v4_broadcast (Octets a b c d) \<longleftrightarrow> a = 255 \<and> b = 255 \<and> c = 255 \<and> d = 255"

fun v4_unspecified :: "ipv4 \<Rightarrow> bool" where
  "v4_unspecified (Octets a b c d) \<longleftrightarrow> a = 0 \<and> b = 0 \<and> c = 0 \<and> d = 0"

fun v4_documentation :: "ipv4 \<Rightarrow> bool" where
  "v4_documentation (Octets a b c d) \<longleftrightarrow>
     (a = 192 \<and> b = 0 \<and> c = 2) \<or> (a = 198 \<and> b = 51 \<and> c = 100) \<or> (a = 203 \<and> b = 0 \<and> c = 113)"

fun is_public_v4 :: "ipv4 \<Rightarrow> bool" where
  "is_public_v4 (Octets a b c d) \<longleftrightarrow>
     (let ip = Octets a b c d
      in \<not> (v4_loopback ip \<or> v4_private ip \<or> v4_link_local ip \<or> v4_multicast ip \<or> v4_broadcast ip \<or>
            v4_unspecified ip \<or> v4_documentation ip \<or>
            (a = 100 \<and> 64 \<le> b \<and> b < 128) \<or>
            (a = 192 \<and> b = 0 \<and> c = 0) \<or>
            (a = 198 \<and> (b = 18 \<or> b = 19)) \<or>
            240 \<le> a))"

text \<open>The predicates of \<open>std::net::Ipv6Addr\<close>.\<close>

fun v6_loopback :: "ipv6 \<Rightarrow> bool" where
  "v6_loopback (Segments s0 s1 s2 s3 s4 s5 s6 s7) \<longleftrightarrow>
     s0 = 0 \<and> s1 = 0 \<and> s2 = 0 \<and> s3 = 0 \<and> s4 = 0 \<and> s5 = 0 \<and> s6 = 0 \<and> s7 = 1"

fun v6_unspecified :: "ipv6 \<Rightarrow> bool" where
  "v6_unspecified (Segments s0 s1 s2 s3 s4 s5 s6 s7) \<longleftrightarrow>
     s0 = 0 \<and> s1 = 0 \<and> s2 = 0 \<and> s3 = 0 \<and> s4 = 0 \<and> s5 = 0 \<and> s6 = 0 \<and> s7 = 0"

fun v6_multicast :: "ipv6 \<Rightarrow> bool" where
  "v6_multicast (Segments s0 s1 s2 s3 s4 s5 s6 s7) \<longleftrightarrow> and s0 0xff00 = 0xff00"

fun to_ipv4_mapped :: "ipv6 \<Rightarrow> ipv4 option" where
  "to_ipv4_mapped (Segments s0 s1 s2 s3 s4 s5 s6 s7) =
     (if s0 = 0 \<and> s1 = 0 \<and> s2 = 0 \<and> s3 = 0 \<and> s4 = 0 \<and> s5 = 0xffff
      then Some (Octets (ucast (drop_bit 8 s6)) (ucast s6) (ucast (drop_bit 8 s7)) (ucast s7))
      else None)"

fun is_public_v6 :: "ipv6 \<Rightarrow> bool" where
  "is_public_v6 (Segments s0 s1 s2 s3 s4 s5 s6 s7) \<longleftrightarrow>
     (let ip = Segments s0 s1 s2 s3 s4 s5 s6 s7
      in \<not> (v6_loopback ip \<or> v6_unspecified ip \<or> v6_multicast ip \<or>
            and s0 0xfe00 = 0xfc00 \<or>
            and s0 0xffc0 = 0xfe80 \<or>
            (s0 = 0x2001 \<and> s1 = 0x0db8)))"

fun is_public :: "ip_addr \<Rightarrow> bool" where
  "is_public (V4 ip) = is_public_v4 ip"
| "is_public (V6 ip) = (case to_ipv4_mapped ip of Some mapped \<Rightarrow> is_public_v4 mapped | None \<Rightarrow> is_public_v6 ip)"

section \<open>URLs\<close>

datatype url_refusal = Unparseable | BadScheme | NoHost | Userinfo | NotPublic

datatype locality = PublicOnly | LocalAllowed

datatype url_host = Domain string | HostV4 ipv4 | HostV6 ipv6

record url =
  ur_scheme :: string
  ur_username :: string
  ur_password :: "string option"
  ur_host :: "url_host option"
  ur_text :: string

definition validate_base_url :: "(string \<Rightarrow> url option) \<Rightarrow> string \<Rightarrow> locality \<Rightarrow> url_refusal + url" where
  "validate_base_url parse raw loc =
     (case parse (trim raw) of
        None \<Rightarrow> Inl Unparseable
      | Some url \<Rightarrow>
          if ur_username url \<noteq> [] \<or> ur_password url \<noteq> None then Inl Userinfo
          else if \<not> (ur_scheme url = ''https'' \<or> ur_scheme url = ''http'' \<and> loc = LocalAllowed) then Inl BadScheme
          else (case ur_host url of
                  None \<Rightarrow> Inl NoHost
                | Some host \<Rightarrow>
                    if loc = LocalAllowed then Inr url
                    else (case host of
                            HostV4 ip \<Rightarrow> if \<not> is_public (V4 ip) then Inl NotPublic else Inr url
                          | HostV6 ip \<Rightarrow> if \<not> is_public (V6 ip) then Inl NotPublic else Inr url
                          | Domain d \<Rightarrow>
                              (let d = ascii_lower (trim_end_by (\<lambda>c. c = CHR ''.'') d)
                               in if d = ''localhost'' \<or> ends_with d ''.localhost'' then Inl NotPublic else Inr url))))"

text \<open>The addresses a guarded client gets for a name; \<open>lookup\<close> is the system's resolver.\<close>

definition guarded_resolve :: "(string \<Rightarrow> 'e + ip_addr list) \<Rightarrow> string \<Rightarrow> ('e option) + ip_addr list" where
  "guarded_resolve lookup host =
     (case lookup host of
        Inl e \<Rightarrow> Inl (Some e)
      | Inr addrs \<Rightarrow>
          (let allowed = filter is_public addrs
           in if allowed = [] then Inl None else Inr allowed))"

definition redact_url :: "(string \<Rightarrow> url option) \<Rightarrow> (url \<Rightarrow> string) \<Rightarrow> string \<Rightarrow> string" where
  "redact_url parse without_userinfo raw =
     (case parse raw of
        Some url \<Rightarrow> if ur_username url = [] \<and> ur_password url = None then raw else without_userinfo url
      | None \<Rightarrow> raw)"

section \<open>The blocks that are not public\<close>

text \<open>
  The reference: an address is a number, a block is the number of its network and a prefix length.
\<close>

fun v4_number :: "ipv4 \<Rightarrow> nat" where
  "v4_number (Octets a b c d) = ((unat a * 256 + unat b) * 256 + unat c) * 256 + unat d"

fun v6_number :: "ipv6 \<Rightarrow> nat" where
  "v6_number (Segments s0 s1 s2 s3 s4 s5 s6 s7) =
     ((((((unat s0 * 65536 + unat s1) * 65536 + unat s2) * 65536 + unat s3) * 65536 + unat s4) * 65536 + unat s5) * 65536 +
        unat s6) * 65536 + unat s7"

definition in_block :: "nat \<Rightarrow> nat \<times> nat \<Rightarrow> nat \<Rightarrow> bool" where
  "in_block width blk n \<longleftrightarrow> n div 2 ^ (width - snd blk) = fst blk div 2 ^ (width - snd blk)"

definition special_v4 :: "(nat \<times> nat) list" where
  "special_v4 = map (\<lambda>(ip, len). (v4_number ip, len))
     [(Octets 0 0 0 0, 32), (Octets 10 0 0 0, 8), (Octets 100 64 0 0, 10), (Octets 127 0 0 0, 8),
      (Octets 169 254 0 0, 16), (Octets 172 16 0 0, 12), (Octets 192 0 0 0, 24), (Octets 192 0 2 0, 24),
      (Octets 192 168 0 0, 16), (Octets 198 18 0 0, 15), (Octets 198 51 100 0, 24), (Octets 203 0 113 0, 24),
      (Octets 224 0 0 0, 4), (Octets 240 0 0 0, 4)]"

definition special_v6 :: "(nat \<times> nat) list" where
  "special_v6 = map (\<lambda>(ip, len). (v6_number ip, len))
     [(Segments 0 0 0 0 0 0 0 0, 128), (Segments 0 0 0 0 0 0 0 1, 128), (Segments 0xff00 0 0 0 0 0 0 0, 8),
      (Segments 0xfc00 0 0 0 0 0 0 0, 7), (Segments 0xfe80 0 0 0 0 0 0 0, 10), (Segments 0x2001 0x0db8 0 0 0 0 0 0, 32)]"

lemma unat8_lt: "unat (x :: 8 word) < 256"
  using unsigned_less [of x] by simp

lemma unat16_lt: "unat (x :: 16 word) < 65536"
  using unsigned_less [of x] by simp

lemma v4_number_div:
  "v4_number (Octets a b c d) div 2 ^ 8 = (unat a * 256 + unat b) * 256 + unat c"
  "v4_number (Octets a b c d) div 2 ^ 16 = unat a * 256 + unat b"
  "v4_number (Octets a b c d) div 2 ^ 17 = unat a * 128 + unat b div 2"
  "v4_number (Octets a b c d) div 2 ^ 20 = unat a * 16 + unat b div 16"
  "v4_number (Octets a b c d) div 2 ^ 22 = unat a * 4 + unat b div 64"
  "v4_number (Octets a b c d) div 2 ^ 24 = unat a"
  "v4_number (Octets a b c d) div 2 ^ 28 = unat a div 16"
  using unat8_lt [of a] unat8_lt [of b] unat8_lt [of c] unat8_lt [of d] by simp_all

lemma digits: "y < m \<Longrightarrow> y' < m \<Longrightarrow> x * m + y = x' * m + y' \<longleftrightarrow> x = x' \<and> y = y'" for x y m :: nat
proof
  assume y: "y < m" "y' < m" and eq: "x * m + y = x' * m + y'"
  from eq have "(x * m + y) div m = (x' * m + y') div m" "(x * m + y) mod m = (x' * m + y') mod m" by simp_all
  with y show "x = x' \<and> y = y'" by simp
qed simp

lemma block_of_octets:
  "in_block 32 (v4_number (Octets a0 b0 c0 d0), 4) (v4_number (Octets a b c d)) \<longleftrightarrow> unat a div 16 = unat a0 div 16"
  "in_block 32 (v4_number (Octets a0 b0 c0 d0), 8) (v4_number (Octets a b c d)) \<longleftrightarrow> a = a0"
  "in_block 32 (v4_number (Octets a0 b0 c0 d0), 10) (v4_number (Octets a b c d)) \<longleftrightarrow> a = a0 \<and> unat b div 64 = unat b0 div 64"
  "in_block 32 (v4_number (Octets a0 b0 c0 d0), 12) (v4_number (Octets a b c d)) \<longleftrightarrow> a = a0 \<and> unat b div 16 = unat b0 div 16"
  "in_block 32 (v4_number (Octets a0 b0 c0 d0), 15) (v4_number (Octets a b c d)) \<longleftrightarrow> a = a0 \<and> unat b div 2 = unat b0 div 2"
  "in_block 32 (v4_number (Octets a0 b0 c0 d0), 16) (v4_number (Octets a b c d)) \<longleftrightarrow> a = a0 \<and> b = b0"
  "in_block 32 (v4_number (Octets a0 b0 c0 d0), 24) (v4_number (Octets a b c d)) \<longleftrightarrow> a = a0 \<and> b = b0 \<and> c = c0"
  "in_block 32 (v4_number (Octets a0 b0 c0 d0), 32) (v4_number (Octets a b c d)) \<longleftrightarrow> a = a0 \<and> b = b0 \<and> c = c0 \<and> d = d0"
proof -
  have q: "unat b div 64 < 4" "unat b div 16 < 16" "unat b div 2 < 128" for b :: "8 word" using unat8_lt [of b] by simp_all
  have w: "32 - 4 = (28::nat)" "32 - 8 = (24::nat)" "32 - 10 = (22::nat)" "32 - 12 = (20::nat)" "32 - 15 = (17::nat)"
    "32 - 16 = (16::nat)" "32 - 24 = (8::nat)" "32 - 32 = (0::nat)" by simp_all
  note d = in_block_def fst_conv snd_conv w v4_number_div word_unat_eq_iff
  show "in_block 32 (v4_number (Octets a0 b0 c0 d0), 4) (v4_number (Octets a b c d)) \<longleftrightarrow> unat a div 16 = unat a0 div 16"
    "in_block 32 (v4_number (Octets a0 b0 c0 d0), 8) (v4_number (Octets a b c d)) \<longleftrightarrow> a = a0"
    unfolding d by (rule refl)+
  show "in_block 32 (v4_number (Octets a0 b0 c0 d0), 10) (v4_number (Octets a b c d)) \<longleftrightarrow> a = a0 \<and> unat b div 64 = unat b0 div 64"
    "in_block 32 (v4_number (Octets a0 b0 c0 d0), 12) (v4_number (Octets a b c d)) \<longleftrightarrow> a = a0 \<and> unat b div 16 = unat b0 div 16"
    "in_block 32 (v4_number (Octets a0 b0 c0 d0), 15) (v4_number (Octets a b c d)) \<longleftrightarrow> a = a0 \<and> unat b div 2 = unat b0 div 2"
    "in_block 32 (v4_number (Octets a0 b0 c0 d0), 16) (v4_number (Octets a b c d)) \<longleftrightarrow> a = a0 \<and> b = b0"
    unfolding d by (simp_all only: digits q unat8_lt)
  show "in_block 32 (v4_number (Octets a0 b0 c0 d0), 24) (v4_number (Octets a b c d)) \<longleftrightarrow> a = a0 \<and> b = b0 \<and> c = c0"
    unfolding d by (simp only: digits unat8_lt conj_assoc)
  show "in_block 32 (v4_number (Octets a0 b0 c0 d0), 32) (v4_number (Octets a b c d)) \<longleftrightarrow> a = a0 \<and> b = b0 \<and> c = c0 \<and> d = d0"
    unfolding d v4_number.simps power_0 div_by_1 by (simp only: digits unat8_lt conj_assoc)
qed

lemma public_v4_blocks: "is_public_v4 ip \<longleftrightarrow> filter (\<lambda>b. in_block 32 b (v4_number ip)) special_v4 = []"
proof (cases ip)
  case (Octets a b c d)
  have lt: "unat a < 256" "unat b < 256" by (rule unat8_lt)+
  have r: "(64 \<le> b \<and> b < 128) \<longleftrightarrow> unat b div 64 = 1" "(16 \<le> b \<and> b \<le> 31) \<longleftrightarrow> unat b div 16 = 1"
    "(b = 18 \<or> b = 19) \<longleftrightarrow> unat b div 2 = 9" "(224 \<le> a \<and> a \<le> 239) \<longleftrightarrow> unat a div 16 = 14" "240 \<le> a \<longleftrightarrow> unat a div 16 = 15"
    using lt by (auto simp: word_unat_eq_iff word_le_nat_alt word_less_nat_alt)
  have n: "unat (64::8 word) div 64 = 1" "unat (16::8 word) div 16 = 1" "unat (18::8 word) div 2 = 9"
    "unat (224::8 word) div 16 = 14" "unat (240::8 word) div 16 = 15" by simp_all
  have bc: "a = 255 \<Longrightarrow> unat a div 16 = 15" by simp
  have empty: "filter P [] = [] \<longleftrightarrow> True" "filter P (x # xs) = [] \<longleftrightarrow> \<not> P x \<and> filter P xs = []" for P :: "nat \<times> nat \<Rightarrow> bool" and x xs
    by simp_all
  show ?thesis
    unfolding Octets special_v4_def list.map prod.case empty block_of_octets n is_public_v4.simps v4_loopback.simps
      v4_private.simps v4_link_local.simps v4_multicast.simps v4_broadcast.simps v4_unspecified.simps v4_documentation.simps
      Let_def r
    using bc by argo
qed

text \<open>IPv6: the first segments of the number, and the tests on their leading bits.\<close>

lemma v6_number_div:
  "v6_number (Segments s0 s1 s2 s3 s4 s5 s6 s7) div 2 ^ 112 = unat s0"
  "v6_number (Segments s0 s1 s2 s3 s4 s5 s6 s7) div 2 ^ 96 = unat s0 * 65536 + unat s1"
  "v6_number (Segments s0 s1 s2 s3 s4 s5 s6 s7) div 2 ^ 32 =
     ((((unat s0 * 65536 + unat s1) * 65536 + unat s2) * 65536 + unat s3) * 65536 + unat s4) * 65536 + unat s5"
  "v6_number (Segments s0 s1 s2 s3 s4 s5 s6 s7) mod 2 ^ 32 = unat s6 * 65536 + unat s7"
proof -
  have up: "(x * 65536 + unat (s :: 16 word)) div 65536 = x" for x s using unat16_lt [of s] by simp
  have p: "2 ^ 112 = (65536 * (65536 * (65536 * (65536 * (65536 * (65536 * 65536))))) :: nat)"
    "2 ^ 96 = (65536 * (65536 * (65536 * (65536 * (65536 * 65536)))) :: nat)" "2 ^ 32 = (65536 * 65536 :: nat)" by simp_all
  show "v6_number (Segments s0 s1 s2 s3 s4 s5 s6 s7) div 2 ^ 112 = unat s0"
    "v6_number (Segments s0 s1 s2 s3 s4 s5 s6 s7) div 2 ^ 96 = unat s0 * 65536 + unat s1"
    "v6_number (Segments s0 s1 s2 s3 s4 s5 s6 s7) div 2 ^ 32 =
       ((((unat s0 * 65536 + unat s1) * 65536 + unat s2) * 65536 + unat s3) * 65536 + unat s4) * 65536 + unat s5"
    unfolding p v6_number.simps div_mult2_eq up by (rule refl)+
  have "((x * 65536 + unat s6) * 65536 + unat s7) mod 2 ^ 32 = unat s6 * 65536 + unat s7" for x
  proof -
    have e: "(x * 65536 + unat s6) * 65536 + unat s7 = x * 2 ^ 32 + (unat s6 * 65536 + unat s7)" by simp
    have "unat s6 * 65536 + unat s7 < 2 ^ 32" using unat16_lt [of s6] unat16_lt [of s7] by simp
    then show ?thesis unfolding e by simp
  qed
  then show "v6_number (Segments s0 s1 s2 s3 s4 s5 s6 s7) mod 2 ^ 32 = unat s6 * 65536 + unat s7"
    unfolding v6_number.simps .
qed

lemma v6_number_div_first:
  "v6_number (Segments s0 s1 s2 s3 s4 s5 s6 s7) div 2 ^ (112 + k) = unat s0 div 2 ^ k"
  by (simp only: power_add div_mult2_eq v6_number_div)

lemma block_of_segments:
  "in_block 128 (v6_number (Segments a0 a1 a2 a3 a4 a5 a6 a7), 7) (v6_number (Segments s0 s1 s2 s3 s4 s5 s6 s7)) \<longleftrightarrow> unat s0 div 2 ^ 9 = unat a0 div 2 ^ 9"
  "in_block 128 (v6_number (Segments a0 a1 a2 a3 a4 a5 a6 a7), 8) (v6_number (Segments s0 s1 s2 s3 s4 s5 s6 s7)) \<longleftrightarrow> unat s0 div 2 ^ 8 = unat a0 div 2 ^ 8"
  "in_block 128 (v6_number (Segments a0 a1 a2 a3 a4 a5 a6 a7), 10) (v6_number (Segments s0 s1 s2 s3 s4 s5 s6 s7)) \<longleftrightarrow> unat s0 div 2 ^ 6 = unat a0 div 2 ^ 6"
  "in_block 128 (v6_number (Segments a0 a1 a2 a3 a4 a5 a6 a7), 32) (v6_number (Segments s0 s1 s2 s3 s4 s5 s6 s7)) \<longleftrightarrow> s0 = a0 \<and> s1 = a1"
  "in_block 128 (v6_number (Segments a0 a1 a2 a3 a4 a5 a6 a7), 128) (v6_number (Segments s0 s1 s2 s3 s4 s5 s6 s7)) \<longleftrightarrow>
     s0 = a0 \<and> s1 = a1 \<and> s2 = a2 \<and> s3 = a3 \<and> s4 = a4 \<and> s5 = a5 \<and> s6 = a6 \<and> s7 = a7"
proof -
  have w: "128 - 7 = (112 + 9 :: nat)" "128 - 8 = (112 + 8 :: nat)" "128 - 10 = (112 + 6 :: nat)" "128 - 32 = (96 :: nat)" "128 - 128 = (0 :: nat)"
    by simp_all
  note d = in_block_def fst_conv snd_conv w v6_number_div_first
  show "in_block 128 (v6_number (Segments a0 a1 a2 a3 a4 a5 a6 a7), 7) (v6_number (Segments s0 s1 s2 s3 s4 s5 s6 s7)) \<longleftrightarrow> unat s0 div 2 ^ 9 = unat a0 div 2 ^ 9"
    "in_block 128 (v6_number (Segments a0 a1 a2 a3 a4 a5 a6 a7), 8) (v6_number (Segments s0 s1 s2 s3 s4 s5 s6 s7)) \<longleftrightarrow> unat s0 div 2 ^ 8 = unat a0 div 2 ^ 8"
    "in_block 128 (v6_number (Segments a0 a1 a2 a3 a4 a5 a6 a7), 10) (v6_number (Segments s0 s1 s2 s3 s4 s5 s6 s7)) \<longleftrightarrow> unat s0 div 2 ^ 6 = unat a0 div 2 ^ 6"
    unfolding d by (rule refl)+
  show "in_block 128 (v6_number (Segments a0 a1 a2 a3 a4 a5 a6 a7), 32) (v6_number (Segments s0 s1 s2 s3 s4 s5 s6 s7)) \<longleftrightarrow> s0 = a0 \<and> s1 = a1"
    unfolding d v6_number_div word_unat_eq_iff by (simp only: digits unat16_lt)
  show "in_block 128 (v6_number (Segments a0 a1 a2 a3 a4 a5 a6 a7), 128) (v6_number (Segments s0 s1 s2 s3 s4 s5 s6 s7)) \<longleftrightarrow>
     s0 = a0 \<and> s1 = a1 \<and> s2 = a2 \<and> s3 = a3 \<and> s4 = a4 \<and> s5 = a5 \<and> s6 = a6 \<and> s7 = a7"
    unfolding d v6_number.simps power_0 div_by_1 word_unat_eq_iff by (simp only: digits unat16_lt conj_assoc)
qed

text \<open>A mask test of the leading bits of a segment is a quotient of its number.\<close>

lemma mask_test:
  assumes "k \<le> 16"
  shows "and w (push_bit k (mask (16 - k))) = push_bit k v \<longleftrightarrow> drop_bit k w = drop_bit k (push_bit k (v :: 16 word))"
proof -
  have "and w (push_bit k (mask (16 - k))) = push_bit k (drop_bit k w)"
    by (rule bit_word_eqI) (use assms in \<open>auto simp: bit_simps dest: bit_imp_le_length\<close>)
  moreover have "drop_bit k (push_bit k (drop_bit k w)) = drop_bit k w"
    by (rule bit_word_eqI) (use assms in \<open>auto simp: bit_simps dest: bit_imp_le_length\<close>)
  moreover have "push_bit k (drop_bit k (push_bit k v)) = push_bit k v"
    by (rule bit_word_eqI) (use assms in \<open>auto simp: bit_simps dest: bit_imp_le_length\<close>)
  ultimately show ?thesis by metis
qed

lemma segment_tests:
  "and w 0xff00 = 0xff00 \<longleftrightarrow> unat w div 2 ^ 8 = 255"
  "and w 0xfe00 = 0xfc00 \<longleftrightarrow> unat w div 2 ^ 9 = 126"
  "and w 0xffc0 = 0xfe80 \<longleftrightarrow> unat w div 2 ^ 6 = 1018" for w :: "16 word"
proof -
  have t: "and w m = x \<longleftrightarrow> unat w div 2 ^ k = unat x div 2 ^ k"
    if "k \<le> 16" "m = push_bit k (mask (16 - k))" "x = push_bit k v" for m x v :: "16 word" and k
    unfolding that(2,3) mask_test [OF that(1)]
    unfolding word_unat_eq_iff unat_drop_bit_eq by (simp only: drop_bit_eq_div)
  have p: "0xff00 = push_bit 8 (mask (16 - 8) :: 16 word)" "0xfe00 = push_bit 9 (mask (16 - 9) :: 16 word)"
    "0xffc0 = push_bit 6 (mask (16 - 6) :: 16 word)" "0xff00 = push_bit 8 (255 :: 16 word)" "0xfc00 = push_bit 9 (126 :: 16 word)"
    "0xfe80 = push_bit 6 (1018 :: 16 word)"
    by (simp_all add: push_bit_eq_mult mask_eq_exp_minus_1)
  have n: "unat (0xff00 :: 16 word) div 2 ^ 8 = 255" "unat (0xfc00 :: 16 word) div 2 ^ 9 = 126" "unat (0xfe80 :: 16 word) div 2 ^ 6 = 1018"
    by simp_all
  show "and w 0xff00 = 0xff00 \<longleftrightarrow> unat w div 2 ^ 8 = 255" using t [OF _ p(1,4)] unfolding n by simp
  show "and w 0xfe00 = 0xfc00 \<longleftrightarrow> unat w div 2 ^ 9 = 126" using t [OF _ p(2,5)] unfolding n by simp
  show "and w 0xffc0 = 0xfe80 \<longleftrightarrow> unat w div 2 ^ 6 = 1018" using t [OF _ p(3,6)] unfolding n by simp
qed

lemma public_v6_blocks: "is_public_v6 ip \<longleftrightarrow> filter (\<lambda>b. in_block 128 b (v6_number ip)) special_v6 = []"
proof (cases ip)
  case (Segments s0 s1 s2 s3 s4 s5 s6 s7)
  have n: "unat (0xff00 :: 16 word) div 2 ^ 8 = 255" "unat (0xfc00 :: 16 word) div 2 ^ 9 = 126" "unat (0xfe80 :: 16 word) div 2 ^ 6 = 1018"
    by simp_all
  have empty: "filter P [] = [] \<longleftrightarrow> True" "filter P (x # xs) = [] \<longleftrightarrow> \<not> P x \<and> filter P xs = []" for P :: "nat \<times> nat \<Rightarrow> bool" and x xs
    by simp_all
  show ?thesis
    unfolding Segments special_v6_def list.map prod.case empty block_of_segments n is_public_v6.simps v6_loopback.simps
      v6_unspecified.simps v6_multicast.simps Let_def segment_tests
    by argo
qed

lemma mapped_number:
  "to_ipv4_mapped ip = Some m \<Longrightarrow> v6_number ip div 2 ^ 32 = 65535 \<and> v6_number ip mod 2 ^ 32 = v4_number m"
  "to_ipv4_mapped ip = None \<Longrightarrow> v6_number ip div 2 ^ 32 \<noteq> 65535"
proof -
  obtain s0 s1 s2 s3 s4 s5 s6 s7 where ip: "ip = Segments s0 s1 s2 s3 s4 s5 s6 s7" by (cases ip)
  have zero: "65535 = ((((0 * 65536 + 0) * 65536 + 0) * 65536 + 0) * 65536 + 0) * 65536 + (65535 :: nat)" by simp
  have small: "(0 :: nat) < 65536" "(65535 :: nat) < 65536" by simp_all
  have top: "v6_number ip div 2 ^ 32 = 65535 \<longleftrightarrow> s0 = 0 \<and> s1 = 0 \<and> s2 = 0 \<and> s3 = 0 \<and> s4 = 0 \<and> s5 = 0xffff"
  proof -
    have "v6_number ip div 2 ^ 32 = 65535 \<longleftrightarrow>
        unat s0 = 0 \<and> unat s1 = 0 \<and> unat s2 = 0 \<and> unat s3 = 0 \<and> unat s4 = 0 \<and> unat s5 = 65535"
      unfolding ip v6_number_div by (subst zero) (simp only: digits unat16_lt small conj_assoc)
    then show ?thesis by (simp add: word_unat_eq_iff)
  qed
  have u: "unat (ucast (drop_bit 8 s) :: 8 word) = unat s div 256" "unat (ucast s :: 8 word) = unat s mod 256" for s :: "16 word"
    using unat16_lt [of s]
    by (simp_all add: unsigned_ucast_eq take_bit_eq_mod drop_bit_eq_div unat_div)
  show "v6_number ip div 2 ^ 32 = 65535 \<and> v6_number ip mod 2 ^ 32 = v4_number m" if "to_ipv4_mapped ip = Some m"
  proof
    from that have m: "s0 = 0 \<and> s1 = 0 \<and> s2 = 0 \<and> s3 = 0 \<and> s4 = 0 \<and> s5 = 0xffff"
      "m = Octets (ucast (drop_bit 8 s6)) (ucast s6) (ucast (drop_bit 8 s7)) (ucast s7)"
      by (auto simp: ip split: if_splits)
    then show "v6_number ip div 2 ^ 32 = 65535" using top by simp
    have r: "(x * 256 + y div 256) * 256 + y mod 256 = x * 65536 + y" for x y :: nat
    proof -
      have "(x * 256 + q) * 256 + t = x * 65536 + (q * 256 + t)" for q t :: nat by simp
      then show ?thesis by (simp only: div_mult_mod_eq)
    qed
    show "v6_number ip mod 2 ^ 32 = v4_number m"
      unfolding ip v6_number_div m(2) v4_number.simps u(1) unfolding u(2) div_mult_mod_eq r ..
  qed
  show "v6_number ip div 2 ^ 32 \<noteq> 65535" if "to_ipv4_mapped ip = None"
    using that top by (auto simp: ip split: if_splits)
qed

text \<open>
  C27. Public addresses. The octet and mask tests of \<open>is_public\<close> refuse exactly the addresses in the listed
  blocks; an IPv4-mapped IPv6 address (::ffff:0:0/96) is judged by the IPv4 blocks.
\<close>

theorem public_is_outside_the_blocks:
  "is_public ip \<longleftrightarrow>
    (case ip of
       V4 a \<Rightarrow> filter (\<lambda>b. in_block 32 b (v4_number a)) special_v4 = []
     | V6 a \<Rightarrow>
         if v6_number a div 2 ^ 32 = 65535 then filter (\<lambda>b. in_block 32 b (v6_number a mod 2 ^ 32)) special_v4 = []
         else filter (\<lambda>b. in_block 128 b (v6_number a)) special_v6 = [])"
proof (cases ip)
  case (V4 a)
  then show ?thesis by (simp add: public_v4_blocks)
next
  case (V6 a)
  then show ?thesis
    using mapped_number [of a] by (cases "to_ipv4_mapped a") (simp_all add: public_v4_blocks public_v6_blocks)
qed

text \<open>
  Not every special-purpose address is in the list: an IPv4-compatible ::127.0.0.1, 10.0.0.1 behind the
  NAT64 prefix and in a 6to4 prefix, a site-local address, and 0.0.0.1 of "this network" pass as public.
\<close>

lemma special_addresses_that_pass:
  "is_public (V6 (Segments 0 0 0 0 0 0 0x7f00 1))" "is_public (V6 (Segments 0x64 0xff9b 0 0 0 0 0x0a00 1))"
  "is_public (V6 (Segments 0x2002 0x0a00 1 0 0 0 0 1))" "is_public (V6 (Segments 0xfec0 0 0 0 0 0 0 1))"
  "is_public (V4 (Octets 0 0 0 1))"
  by simp_all

section \<open>What a client reaches\<close>

text \<open>
  The addresses a client may open a connection to for a base URL: a literal address is dialled as it is, a
  name through the client's resolver.
\<close>

definition dial :: "(string \<Rightarrow> 'e + ip_addr list) \<Rightarrow> bool \<Rightarrow> url \<Rightarrow> ip_addr set" where
  "dial lookup guarded url =
     (case ur_host url of
        None \<Rightarrow> {}
      | Some (HostV4 ip) \<Rightarrow> {V4 ip}
      | Some (HostV6 ip) \<Rightarrow> {V6 ip}
      | Some (Domain d) \<Rightarrow>
          (if guarded then (case guarded_resolve lookup d of Inr addrs \<Rightarrow> set addrs | Inl e \<Rightarrow> {})
           else (case lookup d of Inr addrs \<Rightarrow> set addrs | Inl e \<Rightarrow> {})))"

lemma guarded_public: "guarded_resolve lookup d = Inr addrs \<Longrightarrow> addr \<in> set addrs \<Longrightarrow> is_public addr"
  by (auto simp: guarded_resolve_def Let_def split: sum.splits if_splits)


definition sample_url :: url where
  "sample_url = \<lparr>ur_scheme = ''https'', ur_username = [], ur_password = None, ur_host = Some (Domain ''e.x''), ur_text = ''https://e.x/''\<rparr>"


end
