(* ===== verification/Remote_Store.thy ===== *)
theory Remote_Store
  imports Remote_Net
begin

text \<open>
  What the broker keeps between requests: \<open>consent.rs\<close>, \<open>secrets.rs\<close> and \<open>registry.rs\<close> of
  \<open>daemons/remoted/src\<close>. A file is the value that was written to it (the TOML and the JSON of the crates
  are not modelled further); the n-th write gives an outcome.
\<close>

datatype io_outcome = IoOk | IoFailed | IoTorn

datatype 'a kept_file = Absent | Holds 'a | Torn

text \<open>
  \<open>std::fs::write\<close> truncates before it writes, so a write that fails may leave a torn file; a temporary file
  renamed over the old one is the new one or the old one.
\<close>

definition fs_write :: "(nat \<Rightarrow> io_outcome) \<Rightarrow> nat \<Rightarrow> 'a \<Rightarrow> 'a kept_file \<Rightarrow> 'a kept_file \<times> bool" where
  "fs_write io n x old = (case io n of IoOk \<Rightarrow> (Holds x, True) | IoFailed \<Rightarrow> (old, False) | IoTorn \<Rightarrow> (Torn, False))"

definition write_then_rename :: "(nat \<Rightarrow> io_outcome) \<Rightarrow> nat \<Rightarrow> 'a \<Rightarrow> 'a \<Rightarrow> 'a \<times> bool" where
  "write_then_rename io n x old = (if io n = IoOk then (x, True) else (old, False))"

section \<open>Offload consent (consent.rs)\<close>

definition OFFLOAD_SCOPES :: "string list" where
  "OFFLOAD_SCOPES = [''prompt'', ''files'', ''mail'', ''calendar'', ''screen'', ''memory'']"

datatype consent_error = UnknownScope string | ScopesDenied "string list" | ConsentIo | ConsentParse

record offload =
  of_file :: "(string \<times> bool) list kept_file"
  of_may :: "(string \<times> bool) list"
  of_writes :: nat

definition consent_open :: "(string \<times> bool) list kept_file \<Rightarrow> consent_error + offload" where
  "consent_open stored =
     (case stored of
        Holds m \<Rightarrow> Inr \<lparr>of_file = stored, of_may = m, of_writes = 0\<rparr>
      | Absent \<Rightarrow> Inr \<lparr>of_file = stored, of_may = [], of_writes = 0\<rparr>
      | Torn \<Rightarrow> Inl ConsentParse)"

definition consent_allowed :: "offload \<Rightarrow> string \<Rightarrow> bool" where
  "consent_allowed c scope \<longleftrightarrow> (case map_of (of_may c) scope of Some b \<Rightarrow> b | None \<Rightarrow> False)"

definition consent_snapshot :: "offload \<Rightarrow> (string \<times> bool) list" where
  "consent_snapshot c = map (\<lambda>s. (s, consent_allowed c s)) OFFLOAD_SCOPES"

definition consent_set :: "(nat \<Rightarrow> io_outcome) \<Rightarrow> string \<Rightarrow> bool \<Rightarrow> offload \<Rightarrow> offload \<times> (consent_error + unit)" where
  "consent_set io scope allowed c =
     (if scope \<notin> set OFFLOAD_SCOPES then (c, Inl (UnknownScope scope))
      else (let may = al_put scope allowed (of_may c);
                w = fs_write io (of_writes c) may (of_file c);
                c1 = c\<lparr>of_may := may, of_file := fst w, of_writes := Suc (of_writes c)\<rparr>
            in (c1, if snd w then Inr () else Inl ConsentIo)))"

definition consent_check :: "offload \<Rightarrow> string list \<Rightarrow> consent_error + unit" where
  "consent_check c scopes =
     (case List.find (\<lambda>s. s \<notin> set OFFLOAD_SCOPES) scopes of
        Some s \<Rightarrow> Inl (UnknownScope s)
      | None \<Rightarrow>
          (let required = (if \<exists>s \<in> set scopes. s = ''prompt'' then scopes else scopes @ [''prompt'']);
               denied = filter (\<lambda>s. \<not> consent_allowed c s) required
           in if denied = [] then Inr () else Inl (ScopesDenied denied)))"

section \<open>Credentials (secrets.rs)\<close>

datatype secrets_error = Missing string | SecretsIo | BadName string

definition safe_name :: "string \<Rightarrow> secrets_error + string" where
  "safe_name name =
     (if name = [] \<or> name = ''.'' \<or> name = ''..'' \<or> CHR ''/'' \<in> set name \<or> CHR 92 \<in> set name \<or> CHR 0x00 \<in> set name \<or>
         starts_with name ''.''
      then Inl (BadName name) else Inr name)"

text \<open>The directory of keys: file names and contents.\<close>

record secret_store =
  ss_files :: "(string \<times> string) list"
  ss_writes :: nat

definition path_of :: "string \<Rightarrow> secrets_error + string" where
  "path_of name = safe_name name"

definition key_path :: "string \<Rightarrow> secrets_error + string" where
  "key_path provider = (case safe_name provider of Inl e \<Rightarrow> Inl e | Inr p \<Rightarrow> path_of (provider @ ''.key''))"

definition secrets_set_named ::
    "(nat \<Rightarrow> io_outcome) \<Rightarrow> string \<Rightarrow> string \<Rightarrow> secret_store \<Rightarrow> secret_store \<times> (secrets_error + unit)" where
  "secrets_set_named io name value s =
     (case path_of name of
        Inl e \<Rightarrow> (s, Inl e)
      | Inr dest \<Rightarrow>
          (let w = write_then_rename io (ss_writes s) (al_put dest (trim value) (ss_files s)) (ss_files s)
           in (s\<lparr>ss_files := fst w, ss_writes := Suc (ss_writes s)\<rparr>, if snd w then Inr () else Inl SecretsIo)))"

definition secrets_set ::
    "(nat \<Rightarrow> io_outcome) \<Rightarrow> string \<Rightarrow> string \<Rightarrow> secret_store \<Rightarrow> secret_store \<times> (secrets_error + unit)" where
  "secrets_set io provider = secrets_set_named io (provider @ ''.key'')"

text \<open>Reading; \<open>unreadable\<close> are the files the system fails on.\<close>

definition read_secret :: "(string \<Rightarrow> bool) \<Rightarrow> string \<Rightarrow> string \<Rightarrow> secret_store \<Rightarrow> secrets_error + string" where
  "read_secret unreadable label dest s =
     (if unreadable dest then Inl SecretsIo
      else (case map_of (ss_files s) dest of Some v \<Rightarrow> Inr (trim v) | None \<Rightarrow> Inl (Missing label)))"

definition secrets_get_named :: "(string \<Rightarrow> bool) \<Rightarrow> string \<Rightarrow> secret_store \<Rightarrow> secrets_error + string" where
  "secrets_get_named unreadable name s =
     (case path_of name of Inl e \<Rightarrow> Inl e | Inr dest \<Rightarrow> read_secret unreadable name dest s)"

definition secrets_get :: "(string \<Rightarrow> bool) \<Rightarrow> string \<Rightarrow> secret_store \<Rightarrow> secrets_error + string" where
  "secrets_get unreadable provider s =
     (case key_path provider of Inl e \<Rightarrow> Inl e | Inr dest \<Rightarrow> read_secret unreadable provider dest s)"

definition secrets_has_named :: "string \<Rightarrow> secret_store \<Rightarrow> bool" where
  "secrets_has_named name s \<longleftrightarrow> (case path_of name of Inl e \<Rightarrow> False | Inr dest \<Rightarrow> map_of (ss_files s) dest \<noteq> None)"

definition secrets_has :: "string \<Rightarrow> secret_store \<Rightarrow> bool" where
  "secrets_has provider s \<longleftrightarrow> (case key_path provider of Inl e \<Rightarrow> False | Inr dest \<Rightarrow> map_of (ss_files s) dest \<noteq> None)"

definition remove_file :: "(nat \<Rightarrow> io_outcome) \<Rightarrow> string \<Rightarrow> secret_store \<Rightarrow> secret_store \<times> bool option" where
  "remove_file io dest s =
     (if map_of (ss_files s) dest = None then (s, Some False)
      else if io (ss_writes s) = IoOk
      then (s\<lparr>ss_files := al_del dest (ss_files s), ss_writes := Suc (ss_writes s)\<rparr>, Some True)
      else (s\<lparr>ss_writes := Suc (ss_writes s)\<rparr>, None))"

definition secrets_remove_named ::
    "(nat \<Rightarrow> io_outcome) \<Rightarrow> string \<Rightarrow> secret_store \<Rightarrow> secret_store \<times> (secrets_error + unit)" where
  "secrets_remove_named io name s =
     (case path_of name of
        Inl e \<Rightarrow> (s, Inl e)
      | Inr dest \<Rightarrow> (case remove_file io dest s of (s1, None) \<Rightarrow> (s1, Inl SecretsIo) | (s1, Some b) \<Rightarrow> (s1, Inr ())))"

definition secrets_remove ::
    "(nat \<Rightarrow> io_outcome) \<Rightarrow> string \<Rightarrow> secret_store \<Rightarrow> secret_store \<times> (secrets_error + unit)" where
  "secrets_remove io provider s =
     (case key_path provider of
        Inl e \<Rightarrow> (s, Inl e)
      | Inr dest \<Rightarrow>
          (case remove_file io dest s of
             (s1, None) \<Rightarrow> (s1, Inl SecretsIo)
           | (s1, Some True) \<Rightarrow> (s1, Inr ())
           | (s1, Some False) \<Rightarrow> (s1, Inl (Missing provider))))"

section \<open>Providers (registry.rs)\<close>

datatype auth_style = Bearer | AnthropicApiKey | AnthropicOauth

datatype dialect = OpenaiCompat | AnthropicMessages

record provider_spec =
  ps_id :: string
  ps_name :: string
  ps_base_url :: "string option"
  ps_auth :: auth_style
  ps_dialect :: dialect
  ps_notes :: string
  ps_builtin :: bool
  ps_allow_local :: bool

definition builtin_row :: "string \<Rightarrow> string \<Rightarrow> string \<Rightarrow> auth_style \<Rightarrow> dialect \<Rightarrow> string \<Rightarrow> provider_spec" where
  "builtin_row i name base_url auth dialect notes =
     \<lparr>ps_id = i, ps_name = name, ps_base_url = Some base_url, ps_auth = auth, ps_dialect = dialect, ps_notes = notes,
      ps_builtin = True, ps_allow_local = False\<rparr>"

definition builtin_providers :: "provider_spec list" where
  "builtin_providers =
   [builtin_row ''openai'' (''OpenAI'') (''https://api.openai.com/v1'') Bearer OpenaiCompat
      (''OpenAI API (chat completions).''),
    builtin_row ''anthropic'' (''Anthropic'') (''https://api.anthropic.com'') AnthropicApiKey AnthropicMessages
      (''Native Messages API; Sign in with Claude OAuth once Anthropic publishes a registerable client (ADR-0008 '' @ [CHR 0xA7] @ ''4).''),
    builtin_row ''tinker'' (''Tinker (Thinking Machines)'') (''https://tinker.thinkingmachines.dev/services/tinker-prod/oai/api/v1'') Bearer OpenaiCompat
      (''OpenAI-compatible sampling (beta); models are tinker:// checkpoint URIs. The same credential serves the M6 adapter-training lane.''),
    builtin_row ''together'' (''Together.ai'') (''https://api.together.ai/v1'') Bearer OpenaiCompat
      (''OpenAI-compatible; namespaced model ids (org/model).''),
    builtin_row ''fireworks'' (''Fireworks.ai'') (''https://api.fireworks.ai/inference/v1'') Bearer OpenaiCompat
      (''OpenAI-compatible chat completions.''),
    builtin_row ''huggingface'' (''Hugging Face'') (''https://router.huggingface.co/v1'') Bearer OpenaiCompat
      (''Inference Providers router (chat only). Model ids are org/model with an optional policy/provider suffix, e.g. openai/gpt-oss-120b:cheapest or :groq. HF token from hf.co/settings/tokens with Inference Providers scope.''),
    builtin_row ''moonshot'' (''Moonshot (Kimi)'') (''https://api.moonshot.ai/v1'') Bearer OpenaiCompat
      (''Kimi models (kimi-k2, moonshot-v1-*), OpenAI-compatible.''),
    builtin_row ''google'' (''Google Gemini'') (''https://generativelanguage.googleapis.com/v1beta/openai'') Bearer OpenaiCompat
      (''Gemini via its OpenAI-compatible endpoint (model ids like gemini-2.5-flash).''),
    builtin_row ''deepseek'' (''DeepSeek'') (''https://api.deepseek.com/v1'') Bearer OpenaiCompat
      (''OpenAI-compatible (deepseek-chat, deepseek-reasoner).''),
    builtin_row ''groq'' (''Groq'') (''https://api.groq.com/openai/v1'') Bearer OpenaiCompat
      (''OpenAI-compatible; low-latency inference.''),
    builtin_row ''mistral'' (''Mistral'') (''https://api.mistral.ai/v1'') Bearer OpenaiCompat
      (''OpenAI-compatible chat completions.''),
    builtin_row ''xai'' (''xAI (Grok)'') (''https://api.x.ai/v1'') Bearer OpenaiCompat
      (''Grok models, OpenAI-compatible.''),
    builtin_row ''openrouter'' (''OpenRouter'') (''https://openrouter.ai/api/v1'') Bearer OpenaiCompat
      (''Aggregator; model ids are vendor/model (e.g. anthropic/claude-3.5-sonnet).''),
    builtin_row ''perplexity'' (''Perplexity'') (''https://api.perplexity.ai'') Bearer OpenaiCompat
      (''Sonar models, OpenAI-compatible.'')]"

datatype registry_error =
    UnknownProvider string | ProviderExists string | BuiltinProvider string | InvalidId string | InvalidUrl url_refusal
  | RegistryIo | RegistryParse

record registry_state =
  rg_file :: "provider_spec list kept_file"
  rg_custom :: "provider_spec list"
  rg_writes :: nat

definition valid_id :: "string \<Rightarrow> bool" where
  "valid_id i \<longleftrightarrow> i \<noteq> [] \<and> list_all (\<lambda>c. is_ascii_lower c \<or> is_ascii_digit c \<or> c = CHR ''-'' \<or> c = CHR ''_'') i"

definition registry_open :: "provider_spec list kept_file \<Rightarrow> registry_error + registry_state" where
  "registry_open stored =
     (case stored of
        Holds rows \<Rightarrow> Inr \<lparr>rg_file = stored, rg_custom = rows, rg_writes = 0\<rparr>
      | Absent \<Rightarrow> Inr \<lparr>rg_file = stored, rg_custom = [], rg_writes = 0\<rparr>
      | Torn \<Rightarrow> Inl RegistryParse)"

definition provider_list :: "registry_state \<Rightarrow> provider_spec list" where
  "provider_list r = builtin_providers @ rg_custom r"

definition registry_get :: "registry_state \<Rightarrow> string \<Rightarrow> registry_error + provider_spec" where
  "registry_get r i =
     (case List.find (\<lambda>p. ps_id p = i) (provider_list r) of Some p \<Rightarrow> Inr p | None \<Rightarrow> Inl (UnknownProvider i))"

definition registry_persist ::
    "(nat \<Rightarrow> io_outcome) \<Rightarrow> registry_state \<Rightarrow> registry_state \<times> (registry_error + unit)" where
  "registry_persist io r =
     (let w = write_then_rename io (rg_writes r) (Holds (rg_custom r)) (rg_file r)
      in (r\<lparr>rg_file := fst w, rg_writes := Suc (rg_writes r)\<rparr>, if snd w then Inr () else Inl RegistryIo))"

definition custom_spec :: "string \<Rightarrow> string \<Rightarrow> url \<Rightarrow> locality \<Rightarrow> provider_spec" where
  "custom_spec i name url loc =
     \<lparr>ps_id = i, ps_name = name, ps_base_url = Some (trim_end_by (\<lambda>c. c = CHR ''/'') (ur_text url)), ps_auth = Bearer,
      ps_dialect = OpenaiCompat,
      ps_notes = (if loc = LocalAllowed then ''User-supplied endpoint on this machine or this network.''
                  else ''User-supplied OpenAI-compatible endpoint.''),
      ps_builtin = False, ps_allow_local = (loc = LocalAllowed)\<rparr>"

definition registry_add_custom ::
    "(nat \<Rightarrow> io_outcome) \<Rightarrow> (string \<Rightarrow> url option) \<Rightarrow> string \<Rightarrow> string \<Rightarrow> string \<Rightarrow> locality \<Rightarrow> registry_state \<Rightarrow>
     registry_state \<times> (registry_error + unit)" where
  "registry_add_custom io parse i name base_url loc r =
     (if \<not> valid_id i then (r, Inl (InvalidId i))
      else (case validate_base_url parse base_url loc of
              Inl e \<Rightarrow> (r, Inl (InvalidUrl e))
            | Inr url \<Rightarrow>
                if \<exists>p \<in> set (provider_list r). ps_id p = i then (r, Inl (ProviderExists i))
                else registry_persist io (r\<lparr>rg_custom := rg_custom r @ [custom_spec i name url loc]\<rparr>)))"

definition registry_remove_custom ::
    "(nat \<Rightarrow> io_outcome) \<Rightarrow> string \<Rightarrow> registry_state \<Rightarrow> registry_state \<times> (registry_error + unit)" where
  "registry_remove_custom io i r =
     (if \<exists>p \<in> set builtin_providers. ps_id p = i then (r, Inl (BuiltinProvider i))
      else (let kept = filter (\<lambda>p. ps_id p \<noteq> i) (rg_custom r)
            in if length kept = length (rg_custom r) then (r\<lparr>rg_custom := kept\<rparr>, Inl (UnknownProvider i))
               else registry_persist io (r\<lparr>rg_custom := kept\<rparr>)))"

end
