(* ===== verification/Remote_Bytes.thy ===== *)
theory Remote_Bytes
  imports Lisa_Prelude
begin

text \<open>
  Bytes from the network. A Rust \<open>String\<close> made of them is the list of its UTF-8 bytes here, so that a
  provider may send any scalar; \<open>utf8_lossy\<close> is \<open>String::from_utf8_lossy\<close>.
\<close>

type_synonym bytes = "8 word list"

definition utf8_char :: "char \<Rightarrow> bytes" where
  "utf8_char c =
     (if ccode c < 128 then [word_of_nat (ccode c)]
      else [word_of_nat (192 + ccode c div 64), word_of_nat (128 + ccode c mod 64)])"

definition utf8_encode :: "string \<Rightarrow> bytes" where
  "utf8_encode s = concat (map utf8_char s)"

text \<open>ASCII text as bytes, and back.\<close>

definition ascii :: "string \<Rightarrow> bytes" where
  "ascii s = map (\<lambda>c. word_of_nat (ccode c)) s"

section \<open>Decoding\<close>

definition is_cont :: "8 word \<Rightarrow> bool" where
  "is_cont b \<longleftrightarrow> 128 \<le> b \<and> b < 192"

text \<open>A missing byte reads as zero.\<close>

definition byte_at :: "bytes \<Rightarrow> nat \<Rightarrow> 8 word" where
  "byte_at bs i = (if i < length bs then bs ! i else 0)"

text \<open>How many bytes the sequence at the front takes, and whether they encode a scalar.\<close>

definition utf8_step :: "bytes \<Rightarrow> nat \<times> bool" where
  "utf8_step bs =
     (let b = byte_at bs 0; c = byte_at bs 1
      in if b < 128 then (1, True)
         else if 194 \<le> b \<and> b \<le> 223 then (if is_cont c then (2, True) else (1, False))
         else if 224 \<le> b \<and> b \<le> 239
         then (if \<not> (if b = 224 then 160 \<le> c \<and> c \<le> 191 else if b = 237 then 128 \<le> c \<and> c \<le> 159 else is_cont c) then (1, False)
               else if \<not> is_cont (byte_at bs 2) then (2, False)
               else (3, True))
         else if 240 \<le> b \<and> b \<le> 244
         then (if \<not> (if b = 240 then 144 \<le> c \<and> c \<le> 191 else if b = 244 then 128 \<le> c \<and> c \<le> 143 else is_cont c) then (1, False)
               else if \<not> is_cont (byte_at bs 2) then (2, False)
               else if \<not> is_cont (byte_at bs 3) then (3, False)
               else (4, True))
         else (1, False))"

lemma utf8_step_pos: "0 < fst (utf8_step bs)"
  by (simp add: utf8_step_def Let_def)

definition REPLACEMENT :: bytes where
  "REPLACEMENT = [239, 191, 189]"

function utf8_lossy :: "bytes \<Rightarrow> bytes" where
  "utf8_lossy bs =
     (if bs = [] then []
      else (case utf8_step bs of
              (n, good) \<Rightarrow> (if good then take n bs else REPLACEMENT) @ utf8_lossy (drop n bs)))"
  by pat_completeness auto
termination
proof (relation "measure length")
  fix bs :: bytes and n good
  assume "bs \<noteq> []" "(n, good) = utf8_step bs"
  then have "0 < n" using utf8_step_pos [of bs] by (metis fst_conv)
  with \<open>bs \<noteq> []\<close> show "(drop n bs, bs) \<in> measure length" by simp
qed simp

declare utf8_lossy.simps [simp del]

section \<open>Lines\<close>

text \<open>\<open>str::lines\<close>: pieces that end in a line feed, without it and without one carriage return before it.\<close>

fun split_inclusive :: "'a \<Rightarrow> 'a list \<Rightarrow> 'a list list" where
  "split_inclusive d [] = []"
| "split_inclusive d (c # s) =
     (if c = d then [c] # split_inclusive d s
      else (case split_inclusive d s of [] \<Rightarrow> [[c]] | w # ws \<Rightarrow> (c # w) # ws))"

definition strip_suffix :: "'a list \<Rightarrow> 'a list \<Rightarrow> 'a list option" where
  "strip_suffix s p = (if ends_with s p then Some (take (length s - length p) s) else None)"

definition strip_line_end :: "bytes \<Rightarrow> bytes" where
  "strip_line_end line =
     (case strip_suffix line [10] of
        None \<Rightarrow> line
      | Some l \<Rightarrow> (case strip_suffix l [13] of None \<Rightarrow> l | Some l' \<Rightarrow> l'))"

definition byte_lines :: "bytes \<Rightarrow> bytes list" where
  "byte_lines bs = map strip_line_end (split_inclusive 10 bs)"

section \<open>White space\<close>

text \<open>The scalars of \<open>char::is_whitespace\<close>, encoded.\<close>

definition white_space :: "bytes list" where
  "white_space =
     [[9], [10], [11], [12], [13], [32], [194, 133], [194, 160], [225, 154, 128]] @
     map (\<lambda>n. [226, 128, word_of_nat n]) [128..<139] @
     [[226, 128, 168], [226, 128, 169], [226, 128, 175], [226, 129, 159], [227, 128, 128]]"

function strip_all :: "bytes list \<Rightarrow> bytes \<Rightarrow> bytes" where
  "strip_all seqs bs =
     (case List.find (\<lambda>w. w \<noteq> [] \<and> starts_with bs w) seqs of
        None \<Rightarrow> bs
      | Some w \<Rightarrow> strip_all seqs (drop (length w) bs))"
  by pat_completeness auto
termination
proof (relation "measure (\<lambda>(seqs, bs). length bs)")
  fix seqs bs w
  assume "List.find (\<lambda>w. w \<noteq> [] \<and> starts_with bs w) seqs = Some w"
  then have "w \<noteq> []" "starts_with bs w" by (auto simp: find_Some_iff)
  then show "((seqs, drop (length w) bs), seqs, bs) \<in> measure (\<lambda>(seqs, bs). length bs)"
    by (auto simp: starts_with_iff)
qed simp

declare strip_all.simps [simp del]

definition trim_bytes :: "bytes \<Rightarrow> bytes" where
  "trim_bytes bs = rev (strip_all (map rev white_space) (rev (strip_all white_space bs)))"

section \<open>URL encoding (oauth.rs)\<close>

definition hex_nibble :: "nat \<Rightarrow> char" where
  "hex_nibble n = (if n < 10 then char_of (48 + n) else char_of (55 + n))"

definition unreserved :: "8 word \<Rightarrow> bool" where
  "unreserved b \<longleftrightarrow>
     (65 \<le> b \<and> b \<le> 90) \<or> (97 \<le> b \<and> b \<le> 122) \<or> (48 \<le> b \<and> b \<le> 57) \<or> b = 45 \<or> b = 46 \<or> b = 95 \<or> b = 126"

definition urlencode_byte :: "8 word \<Rightarrow> string" where
  "urlencode_byte b =
     (if unreserved b then [char_of (unat b)]
      else [CHR ''%'', hex_nibble (unat b div 16), hex_nibble (unat b mod 16)])"

definition urlencode :: "bytes \<Rightarrow> string" where
  "urlencode s = concat (map urlencode_byte s)"

text \<open>\<open>u8::from_str_radix\<close> with base 16: a leading plus sign is accepted.\<close>

definition hex_value :: "8 word \<Rightarrow> nat option" where
  "hex_value b =
     (if 48 \<le> b \<and> b \<le> 57 then Some (unat b - 48)
      else if 65 \<le> b \<and> b \<le> 70 then Some (unat b - 55)
      else if 97 \<le> b \<and> b \<le> 102 then Some (unat b - 87)
      else None)"

definition hex_pair :: "8 word \<Rightarrow> 8 word \<Rightarrow> (8 word) option" where
  "hex_pair x y =
     (if x = 43 then map_option word_of_nat (hex_value y)
      else (case (hex_value x, hex_value y) of
              (Some h, Some l) \<Rightarrow> Some (word_of_nat (16 * h + l))
            | _ \<Rightarrow> None))"

text \<open>
  \<open>percent_decode\<close>, before the lossy decoding of its result. The two bytes after a percent sign are sliced
  out of the text, which panics (\<open>None\<close>) when the slice ends inside a character.
\<close>

fun percent_bytes :: "bytes \<Rightarrow> bytes option" where
  "percent_bytes [] = Some []"
| "percent_bytes (b # bs) =
     (if b = 37 then
        (case bs of
           x # y # rest \<Rightarrow>
             if rest \<noteq> [] \<and> is_cont (hd rest) then None
             else (case hex_pair x y of
                     Some v \<Rightarrow> map_option (Cons v) (percent_bytes rest)
                   | None \<Rightarrow> map_option (Cons 37) (percent_bytes bs))
         | _ \<Rightarrow> map_option (Cons 37) (percent_bytes bs))
      else if b = 43 then map_option (Cons 32) (percent_bytes bs)
      else map_option (Cons b) (percent_bytes bs))"

definition percent_decode :: "bytes \<Rightarrow> bytes option" where
  "percent_decode bs = map_option utf8_lossy (percent_bytes bs)"

section \<open>Facts\<close>

lemma hex_digit_facts:
  assumes "n < 16"
  shows "hex_value (word_of_nat (ccode (hex_nibble n))) = Some n" "(word_of_nat (ccode (hex_nibble n)) :: 8 word) \<noteq> 43"
    "(word_of_nat (ccode (hex_nibble n)) :: 8 word) < 128"
proof -
  have "n \<in> {0, 1, 2, 3, 4, 5, 6, 7, 8, 9, 10, 11, 12, 13, 14, 15}" using assms by (simp; presburger)
  then show "hex_value (word_of_nat (ccode (hex_nibble n))) = Some n" "(word_of_nat (ccode (hex_nibble n)) :: 8 word) \<noteq> 43"
    "(word_of_nat (ccode (hex_nibble n)) :: 8 word) < 128"
    by (elim insertE; simp add: hex_value_def hex_nibble_def)+
qed

lemma unat_byte: "unat (b :: 8 word) < 256"
  using unsigned_less [of b] by simp

lemma byte_char [simp]: "word_of_nat (unat b mod 256) = (b :: 8 word)"
  using unat_byte [of b] by simp

lemma ascii_append [simp]: "ascii (s @ t) = ascii s @ ascii t" "ascii [] = []"
  by (simp_all add: ascii_def)

lemma unreserved_facts: "unreserved b \<Longrightarrow> b < 128 \<and> b \<noteq> 37 \<and> b \<noteq> 43"
  by (auto simp: unreserved_def word_less_nat_alt word_le_nat_alt)

lemma nibbles: "unat (b :: 8 word) div 16 < 16" "unat b mod 16 < 16"
  using unat_byte [of b] by simp_all

lemma urlencode_byte_ascii: "x \<in> set (ascii (urlencode_byte b)) \<Longrightarrow> x < 128"
  using unreserved_facts [of b] hex_digit_facts(3) [OF nibbles(1) [of b]] hex_digit_facts(3) [OF nibbles(2) [of b]]
  by (auto simp: urlencode_byte_def ascii_def split: if_splits)

lemma urlencode_ascii: "x \<in> set (ascii (urlencode bs)) \<Longrightarrow> x < 128"
proof (induction bs)
  case (Cons b bs)
  then show ?case using urlencode_byte_ascii [of x b] by (auto simp: urlencode_def)
qed (simp add: urlencode_def)

lemma percent_urlencode: "percent_bytes (ascii (urlencode bs)) = Some bs"
proof (induction bs)
  case (Cons b bs)
  have step: "ascii (urlencode (b # bs)) = ascii (urlencode_byte b) @ ascii (urlencode bs)" by (simp add: urlencode_def)
  show ?case
  proof (cases "unreserved b")
    case True
    with unreserved_facts have "b \<noteq> 37" "b \<noteq> 43" by auto
    moreover have "ascii (urlencode_byte b) = [b]" using True by (simp add: urlencode_byte_def ascii_def)
    ultimately show ?thesis unfolding step by (simp add: Cons)
  next
    case False
    let ?x = "word_of_nat (ccode (hex_nibble (unat b div 16))) :: 8 word" and ?y = "word_of_nat (ccode (hex_nibble (unat b mod 16))) :: 8 word"
    have enc: "ascii (urlencode_byte b) = [37, ?x, ?y]" using False by (simp add: urlencode_byte_def ascii_def)
    have "hex_pair ?x ?y = Some b"
      using hex_digit_facts [OF nibbles(1) [of b]] hex_digit_facts [OF nibbles(2) [of b]] by (simp add: hex_pair_def)
    moreover have "\<not> (ascii (urlencode bs) \<noteq> [] \<and> is_cont (hd (ascii (urlencode bs))))"
      using urlencode_ascii [of "hd (ascii (urlencode bs))" bs] by (auto simp: is_cont_def not_le dest: hd_in_set)
    ultimately show ?thesis unfolding step enc by (simp add: Cons)
  qed
qed (simp add: urlencode_def)

text \<open>Text that is UTF-8 already is not changed by the lossy decoding.\<close>

lemma utf8_step_char:
  "utf8_step (utf8_char c @ bs) = (length (utf8_char c), True)"
proof -
  have c: "ccode c < 256" by simp
  consider "ccode c < 128" | "128 \<le> ccode c" by linarith
  then show ?thesis
  proof cases
    case 1
    then have "(word_of_nat (ccode c) :: 8 word) < 128" by (simp add: word_less_nat_alt unat_of_nat)
    with 1 show ?thesis by (simp add: utf8_char_def utf8_step_def byte_at_def Let_def)
  next
    case 2
    let ?x = "word_of_nat (192 + ccode c div 64) :: 8 word" and ?y = "word_of_nat (128 + ccode c mod 64) :: 8 word"
    have le: "ccode c \<le> 255" using c by linarith
    have "2 \<le> ccode c div 64" "ccode c div 64 < 4" "ccode c mod 64 < 64" using 2 div_le_mono [OF le, of 64] by simp_all
    then have ux: "unat ?x = 192 + ccode c div 64" and uy: "unat ?y = 128 + ccode c mod 64"
      by (simp_all add: unat_of_nat del: of_nat_add)
    then have "194 \<le> ?x" "?x \<le> 223" "is_cont ?y"
      using \<open>2 \<le> ccode c div 64\<close> \<open>ccode c div 64 < 4\<close> \<open>ccode c mod 64 < 64\<close>
      by (simp_all add: word_le_nat_alt word_less_nat_alt is_cont_def)
    moreover from this have "\<not> ?x < 128" by (auto simp: word_le_nat_alt word_less_nat_alt)
    ultimately show ?thesis using 2 by (simp add: utf8_char_def utf8_step_def byte_at_def Let_def del: of_nat_add)
  qed
qed

lemma utf8_lossy_encode: "utf8_lossy (utf8_encode s) = utf8_encode s"
proof (induction s)
  case (Cons c s)
  have "utf8_char c \<noteq> []" by (simp add: utf8_char_def)
  with Cons show ?case
    by (subst utf8_lossy.simps) (simp add: utf8_encode_def utf8_step_char)
qed (simp add: utf8_encode_def utf8_lossy.simps)

text \<open>
  Percent encoding. What \<open>urlencode\<close> wrote \<open>percent_decode\<close> reads back, for every text.
\<close>

theorem percent_roundtrip:
  "percent_decode (ascii (urlencode (utf8_encode s))) = Some (utf8_encode s)"
  by (simp add: percent_decode_def percent_urlencode utf8_lossy_encode)

text \<open>A percent sign before a letter and a two-byte character makes the slice panic; a plus sign is a digit.\<close>

lemma percent_panic: "percent_decode (ascii ''%a'' @ utf8_encode [CHR 0xE9]) = None"
  by (simp add: percent_decode_def ascii_def utf8_encode_def utf8_char_def is_cont_def)

lemma percent_plus: "percent_decode (ascii ''%+f'') = Some [15]"
  by (simp add: percent_decode_def ascii_def hex_pair_def hex_value_def utf8_lossy.simps utf8_step_def byte_at_def)

end
