(* ===== verification/Remote_Json.thy ===== *)
theory Remote_Json
  imports Json Remote_Bytes "HOL-Library.Char_ord" "HOL-Library.List_Lexorder"
begin

text \<open>
  Building and reading JSON values the way \<open>serde_json\<close> does: indexing that gives null for what is not there,
  objects sorted by key.
\<close>

definition json_at :: "json \<Rightarrow> string \<Rightarrow> json" where
  "json_at v k = (case json_get v k of Some x \<Rightarrow> x | None \<Rightarrow> JNull)"

definition json_nth :: "json \<Rightarrow> nat \<Rightarrow> json" where
  "json_nth v n = (case v of JArr xs \<Rightarrow> if n < length xs then xs ! n else JNull | _ \<Rightarrow> JNull)"

text \<open>\<open>Map::insert\<close> keeps the keys sorted and replaces an old value.\<close>

fun map_insert :: "string \<Rightarrow> json \<Rightarrow> (string \<times> json) list \<Rightarrow> (string \<times> json) list" where
  "map_insert k v [] = [(k, v)]"
| "map_insert k v ((k', v') # kvs) =
     (if k = k' then (k, v) # kvs
      else if k < k' then (k, v) # (k', v') # kvs
      else (k', v') # map_insert k v kvs)"

definition json_object :: "(string \<times> json) list \<Rightarrow> json" where
  "json_object kvs = JObj (foldl (\<lambda>m (k, v). map_insert k v m) [] kvs)"

text \<open>Assigning through an index: null becomes an object; \<open>None\<close> is the panic on any other value.\<close>

definition json_put :: "json \<Rightarrow> string \<Rightarrow> json \<Rightarrow> json option" where
  "json_put v k x =
     (case v of
        JObj kvs \<Rightarrow> Some (JObj (map_insert k x kvs))
      | JNull \<Rightarrow> Some (JObj [(k, x)])
      | _ \<Rightarrow> None)"

definition json_remove :: "string \<Rightarrow> json \<Rightarrow> json" where
  "json_remove k v = (case v of JObj kvs \<Rightarrow> JObj (filter (\<lambda>(k', x). k' \<noteq> k) kvs) | _ \<Rightarrow> v)"

definition as_bool :: "json \<Rightarrow> bool option" where
  "as_bool v = (case v of JBool b \<Rightarrow> Some b | _ \<Rightarrow> None)"

definition unwrap_or :: "'a \<Rightarrow> 'a option \<Rightarrow> 'a" where
  "unwrap_or d x = (case x of Some y \<Rightarrow> y | None \<Rightarrow> d)"

lemma map_of_map_insert [simp]: "map_of (map_insert k v kvs) = (map_of kvs)(k \<mapsto> v)"
  by (induction k v kvs rule: map_insert.induct) (auto simp: fun_eq_iff)

end
