(* ===== verification/Remote_Proxy.thy ===== *)
theory Remote_Proxy
  imports Remote_Store Remote_Json
begin

text \<open>
  Rendering one OpenAI-shaped request for a provider and its answer back: \<open>daemons/remoted/src/proxy.rs\<close>.
  \<open>parse\<close> and \<open>print\<close> are \<open>serde_json::from_str\<close> and \<open>Value::to_string\<close>.
\<close>

definition MAX_UPSTREAM_BODY :: nat where
  "MAX_UPSTREAM_BODY = 2 * 1024"

text \<open>The last character boundary at or below a position.\<close>

fun char_boundary :: "bytes \<Rightarrow> nat \<Rightarrow> nat" where
  "char_boundary body 0 = 0"
| "char_boundary body (Suc n) =
     (if Suc n < length body \<and> is_cont (body ! Suc n) then char_boundary body n else Suc n)"

definition cap_body :: "bytes \<Rightarrow> bytes" where
  "cap_body body =
     (if length body \<le> MAX_UPSTREAM_BODY then body
      else (let e = char_boundary body MAX_UPSTREAM_BODY
            in take e body @ [226, 128, 166] @ ascii '' ['' @ ascii (nat_str (length body - e)) @ ascii '' bytes truncated]''))"

datatype proxy_error =
    NoEndpoint string | BadRequest | Unsupported string | Upstream "16 word" bytes | HttpFailed string

record upstream_request =
  uq_url :: string
  uq_headers :: "(string \<times> string) list"
  uq_body :: json

section \<open>Content\<close>

definition content_text :: "json \<Rightarrow> string" where
  "content_text content =
     (case content of
        JStr s \<Rightarrow> s
      | JArr parts \<Rightarrow>
          join [CHR 10] (List.map_filter (\<lambda>p. as_str (json_at p ''text''))
            (filter (\<lambda>p. as_str (json_at p ''type'') = Some ''text'') parts))
      | _ \<Rightarrow> [])"

text \<open>\<open>str::split_once\<close> with a string pattern.\<close>

fun split_once_str :: "string \<Rightarrow> string \<Rightarrow> (string \<times> string) option" where
  "split_once_str [] p = (if p = [] then Some ([], []) else None)"
| "split_once_str (c # s) p =
     (if starts_with (c # s) p then Some ([], drop (length p) (c # s))
      else map_option (\<lambda>(a, b). (c # a, b)) (split_once_str s p))"

definition anthropic_part :: "json \<Rightarrow> proxy_error + json" where
  "anthropic_part part =
     (let kind = as_str (json_at part ''type'')
      in if kind = Some ''text'' then
           Inr (json_object [(''type'', JStr ''text''), (''text'', JStr (unwrap_or [] (as_str (json_at part ''text''))))])
         else if kind = Some ''image_url'' then
           (let url = unwrap_or [] (as_str (json_at (json_at part ''image_url'') ''url''))
            in case Option.bind (strip_prefix url ''data:'') (\<lambda>rest. split_once_str rest '';base64,'') of
                 Some (mime, payload) \<Rightarrow>
                   Inr (json_object [(''type'', JStr ''image''),
                     (''source'', json_object [(''type'', JStr ''base64''), (''media_type'', JStr mime), (''data'', JStr payload)])])
               | None \<Rightarrow>
                   if starts_with url ''http'' then
                     Inr (json_object [(''type'', JStr ''image''),
                       (''source'', json_object [(''type'', JStr ''url''), (''url'', JStr url)])])
                   else Inl (Unsupported ''image_url must be a data: URI or an http(s) URL''))
         else Inl (Unsupported (''Anthropic cannot carry a `'' @ unwrap_or ''(untyped)'' kind @
                ''` content part -- send it to a provider that supports the modality'')))"

fun anthropic_parts :: "json list \<Rightarrow> proxy_error + json list" where
  "anthropic_parts [] = Inr []"
| "anthropic_parts (p # ps) =
     (case anthropic_part p of
        Inl e \<Rightarrow> Inl e
      | Inr b \<Rightarrow> (case anthropic_parts ps of Inl e \<Rightarrow> Inl e | Inr bs \<Rightarrow> Inr (b # bs)))"

definition anthropic_content :: "json \<Rightarrow> proxy_error + json" where
  "anthropic_content content =
     (case content of
        JArr parts \<Rightarrow> map_sum id JArr (anthropic_parts parts)
      | _ \<Rightarrow> Inr (JStr (content_text content)))"

section \<open>The request\<close>

definition ANTHROPIC_OAUTH_BETA :: string where
  "ANTHROPIC_OAUTH_BETA = ''oauth-2025-04-20''"

definition ANTHROPIC_CLAUDE_CODE_SYSTEM :: string where
  "ANTHROPIC_CLAUDE_CODE_SYSTEM = ''You are Claude Code, Anthropic'' @ [CHR 39] @ ''s official CLI for Claude.''"

definition auth_headers :: "auth_style \<Rightarrow> string \<Rightarrow> (string \<times> string) list" where
  "auth_headers auth credential =
     (''content-type'', ''application/json'') #
     (case auth of
        Bearer \<Rightarrow> [(''authorization'', ''Bearer '' @ credential)]
      | AnthropicApiKey \<Rightarrow> [(''x-api-key'', credential), (''anthropic-version'', ''2023-06-01'')]
      | AnthropicOauth \<Rightarrow>
          [(''authorization'', ''Bearer '' @ credential), (''anthropic-beta'', ANTHROPIC_OAUTH_BETA),
           (''anthropic-version'', ''2023-06-01'')])"

definition tool_use_block :: "(string \<Rightarrow> json option) \<Rightarrow> json \<Rightarrow> json" where
  "tool_use_block parse call =
     json_object [(''type'', JStr ''tool_use''), (''id'', JStr (unwrap_or ''call_1'' (as_str (json_at call ''id'')))),
       (''name'', JStr (unwrap_or [] (as_str (json_at (json_at call ''function'') ''name'')))),
       (''input'', unwrap_or (json_object [])
          (parse (unwrap_or ''{}'' (as_str (json_at (json_at call ''function'') ''arguments'')))))]"

text \<open>One message: another part of the system text, or a turn.\<close>

definition anthropic_message ::
    "(string \<Rightarrow> json option) \<Rightarrow> json \<Rightarrow> proxy_error + string list \<times> json list" where
  "anthropic_message parse m =
     (let role = unwrap_or ''user'' (as_str (json_at m ''role''));
          content = content_text (json_at m ''content'')
      in if role = ''system'' \<or> role = ''developer'' then Inr ([content], [])
         else if role = ''tool'' then
           Inr ([], [json_object [(''role'', JStr ''user''), (''content'', JArr [json_object
             [(''type'', JStr ''tool_result''),
              (''tool_use_id'', JStr (unwrap_or [] (as_str (json_at m ''tool_call_id'')))),
              (''content'', JStr content)]])]])
         else if role = ''assistant'' then
           (case as_array (json_at m ''tool_calls'') of
              Some (call # calls) \<Rightarrow>
                Inr ([], [json_object [(''role'', JStr ''assistant''), (''content'', JArr [tool_use_block parse call])]])
            | _ \<Rightarrow> Inr ([], [json_object [(''role'', JStr ''assistant''), (''content'', JStr content)]]))
         else
           (case anthropic_content (json_at m ''content'') of
              Inl e \<Rightarrow> Inl e
            | Inr c \<Rightarrow> Inr ([], [json_object [(''role'', JStr ''user''), (''content'', c)]])))"

fun anthropic_messages ::
    "(string \<Rightarrow> json option) \<Rightarrow> json list \<Rightarrow> proxy_error + string list \<times> json list" where
  "anthropic_messages parse [] = Inr ([], [])"
| "anthropic_messages parse (m # ms) =
     (case anthropic_message parse m of
        Inl e \<Rightarrow> Inl e
      | Inr (sys, turns) \<Rightarrow>
          (case anthropic_messages parse ms of
             Inl e \<Rightarrow> Inl e
           | Inr (sys', turns') \<Rightarrow> Inr (sys @ sys', turns @ turns')))"

definition anthropic_tool :: "json \<Rightarrow> json" where
  "anthropic_tool t =
     (let f = json_at t ''function''
      in json_object
           [(''name'', JStr (unwrap_or [] (as_str (json_at f ''name'')))),
            (''description'', JStr (unwrap_or [] (as_str (json_at f ''description'')))),
            (''input_schema'', unwrap_or (json_object [(''type'', JStr ''object'')]) (json_get f ''parameters''))])"

text \<open>The members the tools add to the request.\<close>

definition anthropic_tools :: "json \<Rightarrow> (string \<times> json) list" where
  "anthropic_tools body =
     (case as_array (json_at body ''tools'') of
        Some (t # ts) \<Rightarrow>
          (let choice = as_str (json_at body ''tool_choice'');
               tools = (if choice = Some ''none'' then [] else [(''tools'', JArr (map anthropic_tool (t # ts)))]);
               forced = (if choice = Some ''required'' then Some [(''type'', JStr ''any'')] else None)
           in tools @
              (if as_bool (json_at body ''parallel_tool_calls'') = Some False \<and> tools \<noteq> []
               then [(''tool_choice'', json_object
                        (unwrap_or [(''type'', JStr ''auto'')] forced @ [(''disable_parallel_tool_use'', JBool True)]))]
               else (case forced of Some c \<Rightarrow> [(''tool_choice'', json_object c)] | None \<Rightarrow> [])))
      | _ \<Rightarrow> [])"

definition base_of :: "string \<Rightarrow> string" where
  "base_of url = trim_end_by (\<lambda>c. c = CHR ''/'') url"

definition anthropic_body ::
    "json \<Rightarrow> string list \<Rightarrow> json list \<Rightarrow> json" where
  "anthropic_body body sys turns =
     json_object
       ([(''model'', unwrap_or JNull (json_get body ''model'')),
         (''max_tokens'', json_u64 (unwrap_or 1024 (Option.bind (json_get body ''max_tokens'') as_u64))),
         (''messages'', JArr turns)] @
        (if sys \<noteq> [] then [(''system'', JStr (join [CHR 10] sys))] else []) @
        anthropic_tools body @
        (if as_bool (json_at body ''stream'') = Some True then [(''stream'', JBool True)] else []))"

definition build_upstream ::
    "(string \<Rightarrow> json option) \<Rightarrow> provider_spec \<Rightarrow> string \<Rightarrow> json \<Rightarrow> proxy_error + upstream_request" where
  "build_upstream parse spec credential body =
     (case ps_base_url spec of
        None \<Rightarrow> Inl (NoEndpoint (ps_id spec))
      | Some base \<Rightarrow>
          (case Option.bind (json_get body ''messages'') as_array of
             None \<Rightarrow> Inl BadRequest
           | Some messages \<Rightarrow>
               (let headers = auth_headers (ps_auth spec) credential
                in case ps_dialect spec of
                     OpenaiCompat \<Rightarrow>
                       Inr \<lparr>uq_url = base_of base @ ''/chat/completions'', uq_headers = headers,
                            uq_body = json_remove ''lisa_priority'' body\<rparr>
                   | AnthropicMessages \<Rightarrow>
                       (case anthropic_messages parse messages of
                          Inl e \<Rightarrow> Inl e
                        | Inr (sys, turns) \<Rightarrow>
                            Inr \<lparr>uq_url = base_of base @
                                   (if ps_auth spec = AnthropicOauth then ''/v1/messages?beta=true'' else ''/v1/messages''),
                                 uq_headers = headers,
                                 uq_body = anthropic_body body
                                   ((if ps_auth spec = AnthropicOauth then [ANTHROPIC_CLAUDE_CODE_SYSTEM] else []) @ sys)
                                   turns\<rparr>))))"

section \<open>The answer\<close>

definition blocks_of :: "json \<Rightarrow> string \<Rightarrow> json list" where
  "blocks_of upstream kind =
     (case as_array (json_at upstream ''content'') of
        Some bs \<Rightarrow> filter (\<lambda>b. json_at b ''type'' = JStr kind) bs
      | None \<Rightarrow> [])"

definition tool_call :: "(json \<Rightarrow> string) \<Rightarrow> nat \<Rightarrow> json \<Rightarrow> json" where
  "tool_call print i b =
     json_object
       [(''index'', json_int (int i)), (''id'', JStr (unwrap_or ''call_1'' (as_str (json_at b ''id'')))),
        (''type'', JStr ''function''),
        (''function'', json_object
           [(''name'', JStr (unwrap_or [] (as_str (json_at b ''name'')))),
            (''arguments'', JStr (print (json_at b ''input'')))])]"

definition finish_reason :: "json \<Rightarrow> json list \<Rightarrow> string" where
  "finish_reason upstream calls =
     (let stop = as_str (json_at upstream ''stop_reason'')
      in if stop = Some ''max_tokens'' then ''length''
         else if stop = Some ''tool_use'' then ''tool_calls''
         else if calls \<noteq> [] then ''tool_calls''
         else ''stop'')"

definition translate_response :: "(json \<Rightarrow> string) \<Rightarrow> dialect \<Rightarrow> json \<Rightarrow> json" where
  "translate_response print d upstream =
     (case d of
        OpenaiCompat \<Rightarrow> upstream
      | AnthropicMessages \<Rightarrow>
          (let text = concat (List.map_filter (\<lambda>b. as_str (json_at b ''text'')) (blocks_of upstream ''text''));
               blocks = blocks_of upstream ''tool_use'';
               calls = map2 (tool_call print) [0..<length blocks] blocks;
               message = json_object
                 ([(''role'', JStr ''assistant''), (''content'', JStr text)] @
                  (if calls \<noteq> [] then [(''tool_calls'', JArr calls)] else []));
               input = unwrap_or 0 (as_u64 (json_at (json_at upstream ''usage'') ''input_tokens''));
               output = unwrap_or 0 (as_u64 (json_at (json_at upstream ''usage'') ''output_tokens''))
           in json_object
                [(''id'', unwrap_or JNull (json_get upstream ''id'')), (''object'', JStr ''chat.completion''),
                 (''model'', unwrap_or JNull (json_get upstream ''model'')),
                 (''choices'', JArr [json_object
                    [(''index'', json_int 0), (''message'', message),
                     (''finish_reason'', JStr (finish_reason upstream calls))]]),
                 (''usage'', json_object
                    [(''prompt_tokens'', json_u64 input), (''completion_tokens'', json_u64 output),
                     (''total_tokens'', json_u64 (input + output))])]))"

definition output_tokens :: "json \<Rightarrow> int" where
  "output_tokens normalized = unwrap_or 0 (as_i64 (json_at (json_at normalized ''usage'') ''completion_tokens''))"

end
