(* ===== verification/Remote_Oauth.thy ===== *)
theory Remote_Oauth
  imports Remote_Proxy Ledger
begin

text \<open>
  Sign-in and access tokens: \<open>daemons/remoted/src/oauth.rs\<close>, over the state of the broker
  (\<open>service.rs\<close>). Every request that leaves the machine is an \<open>egress\<close> and is recorded in \<open>bk_sent\<close>, with the
  number of rows the ledger had when it left (neither is state of the daemon: they are the trace the theorems speak of). The
  network, the clock, the crates that parse and print, and the random PKCE challenge are arguments.
\<close>

section \<open>The network\<close>

datatype egress =
    TokenRequest string "(string \<times> string) list"
  | ModelsRequest bool string "(string \<times> string) list"
  | ChatRequest bool upstream_request
  | StreamRequest bool upstream_request

datatype net_read = NetBytes bytes | NetError string | NetStalled

datatype http_reply = NoReply string | Reply "16 word" "net_read list"

definition is_success :: "16 word \<Rightarrow> bool" where
  "is_success status \<longleftrightarrow> 200 \<le> status \<and> status < 300"

text \<open>The whole body of an answer.\<close>

fun body_bytes :: "net_read list \<Rightarrow> string + bytes" where
  "body_bytes [] = Inr []"
| "body_bytes (NetBytes b # rs) = map_sum id (\<lambda>bs. b @ bs) (body_bytes rs)"
| "body_bytes (NetError e # rs) = Inl e"
| "body_bytes (NetStalled # rs) = Inl ''operation timed out''"

record remote_env =
  re_secrets_io :: "nat \<Rightarrow> io_outcome"
  re_consent_io :: "nat \<Rightarrow> io_outcome"
  re_registry_io :: "nat \<Rightarrow> io_outcome"
  re_unreadable :: "string \<Rightarrow> bool"
  re_ledger_ok :: "nat \<Rightarrow> bool"
  re_wall :: "nat \<Rightarrow> int"
  re_now :: "nat \<Rightarrow> int"
  re_http :: "nat \<Rightarrow> egress \<Rightarrow> http_reply"
  re_parse_url :: "string \<Rightarrow> url option"
  re_without_userinfo :: "url \<Rightarrow> string"
  re_parse :: "string \<Rightarrow> json option"
  re_parse_bytes :: "bytes \<Rightarrow> json option"
  re_print :: "json \<Rightarrow> string"
  re_hash :: "string \<Rightarrow> string"
  re_text :: "bytes \<Rightarrow> string"
  re_stored_text :: "string \<Rightarrow> string"
  re_stored_refresh :: "string \<Rightarrow> string option"

record broker =
  bk_registry :: registry_state
  bk_secrets :: secret_store
  bk_consent :: offload
  bk_cache :: "(string \<times> string \<times> int) list"
  bk_active :: "string list"
  bk_ledger :: ledger
  bk_sent :: "(nat \<times> egress) list"

text \<open>One request leaves.\<close>

definition send_out :: "remote_env \<Rightarrow> egress \<Rightarrow> broker \<Rightarrow> broker \<times> http_reply" where
  "send_out en e b = (b\<lparr>bk_sent := bk_sent b @ [(length (l_entries (bk_ledger b)), e)]\<rparr>, re_http en (length (bk_sent b)) e)"

section \<open>Providers\<close>

datatype token_encoding = TokenJson | TokenForm

record oauth_provider =
  op_id :: string
  op_label :: string
  op_authorize_url :: string
  op_token_url :: string
  op_client_id :: string
  op_redirect_uri :: string
  op_callback_addr :: string
  op_callback_path :: string
  op_callback_port :: "16 word"
  op_scope :: string
  op_encoding :: token_encoding
  op_authorize_extra :: "(string \<times> string) list"
  op_exchange_sends_state :: bool
  op_refresh_sends_scope :: bool
  op_anthropic_bearer :: bool

definition ANTHROPIC :: oauth_provider where
  "ANTHROPIC =
     \<lparr>op_id = ''anthropic'', op_label = ''Claude'', op_authorize_url = ''https://claude.ai/oauth/authorize'',
      op_token_url = ''https://platform.claude.com/v1/oauth/token'',
      op_client_id = ''9d1c250a-e61b-44d9-88ed-5944d1962f5e'', op_redirect_uri = ''http://localhost:53692/callback'',
      op_callback_addr = ''127.0.0.1:53692'', op_callback_path = ''/callback'', op_callback_port = 53692,
      op_scope = ''user:profile user:inference'', op_encoding = TokenJson, op_authorize_extra = [(''code'', ''true'')],
      op_exchange_sends_state = True, op_refresh_sends_scope = False, op_anthropic_bearer = True\<rparr>"

definition OPENAI :: oauth_provider where
  "OPENAI =
     \<lparr>op_id = ''openai'', op_label = ''ChatGPT'', op_authorize_url = ''https://auth.openai.com/oauth/authorize'',
      op_token_url = ''https://auth.openai.com/oauth/token'', op_client_id = ''app_EMoamEEZ73f0CkXaXp7hrann'',
      op_redirect_uri = ''http://localhost:1455/auth/callback'', op_callback_addr = ''127.0.0.1:1455'',
      op_callback_path = ''/auth/callback'', op_callback_port = 1455, op_scope = ''openid profile email offline_access'',
      op_encoding = TokenForm,
      op_authorize_extra = [(''id_token_add_organizations'', ''true''), (''codex_cli_simplified_flow'', ''true''),
        (''originator'', ''lisa'')],
      op_exchange_sends_state = False, op_refresh_sends_scope = True, op_anthropic_bearer = False\<rparr>"

definition oauth_provider_of :: "string \<Rightarrow> oauth_provider option" where
  "oauth_provider_of i =
     (if i = ''anthropic'' then Some ANTHROPIC else if i = ''openai'' then Some OPENAI else None)"

definition is_capable :: "string \<Rightarrow> bool" where
  "is_capable i \<longleftrightarrow> oauth_provider_of i \<noteq> None"

definition authorize_url :: "oauth_provider \<Rightarrow> string \<Rightarrow> string \<Rightarrow> string" where
  "authorize_url p challenge state =
     (let params = [(''response_type'', ''code''), (''client_id'', op_client_id p), (''redirect_uri'', op_redirect_uri p),
            (''scope'', op_scope p), (''code_challenge'', challenge), (''code_challenge_method'', ''S256''),
            (''state'', state)] @ op_authorize_extra p
      in op_authorize_url p @ ''?'' @
           join ''&'' (map (\<lambda>(k, v). urlencode (utf8_encode k) @ ''='' @ urlencode (utf8_encode v)) params))"

definition exchange_params :: "oauth_provider \<Rightarrow> string \<Rightarrow> string \<Rightarrow> string \<Rightarrow> (string \<times> string) list" where
  "exchange_params p code verifier state =
     [(''grant_type'', ''authorization_code''), (''client_id'', op_client_id p), (''code'', code),
      (''code_verifier'', verifier), (''redirect_uri'', op_redirect_uri p)] @
     (if op_exchange_sends_state p then [(''state'', state)] else [])"

definition refresh_params :: "oauth_provider \<Rightarrow> string \<Rightarrow> (string \<times> string) list" where
  "refresh_params p refresh =
     [(''grant_type'', ''refresh_token''), (''client_id'', op_client_id p), (''refresh_token'', refresh)] @
     (if op_refresh_sends_scope p then [(''scope'', op_scope p)] else [])"

section \<open>Tokens\<close>

datatype oauth_error =
    NotCapable string | ReauthRequired string | SignInProgress string | OauthBind "16 word" string
  | TokenRefused "16 word" bytes | OauthHttp string | OauthSecrets secrets_error | OauthCallback string

record token_response =
  tk_access :: string
  tk_refresh :: "string option"
  tk_expires_ms :: int

text \<open>An \<open>i64\<close> wraps around in a release build.\<close>

definition i64 :: "int \<Rightarrow> int" where
  "i64 n = sint (word_of_int n :: 64 word)"

definition post_token ::
    "remote_env \<Rightarrow> oauth_provider \<Rightarrow> (string \<times> string) list \<Rightarrow> broker \<Rightarrow> broker \<times> (oauth_error + token_response)" where
  "post_token en p params b =
     (case send_out en (TokenRequest (op_token_url p) params) b of
        (b1, NoReply e) \<Rightarrow> (b1, Inl (OauthHttp e))
      | (b1, Reply status reads) \<Rightarrow>
          (b1,
           case body_bytes reads of
             Inl e \<Rightarrow> Inl (OauthHttp e)
           | Inr body \<Rightarrow>
               if \<not> is_success status then Inl (TokenRefused status (utf8_lossy body))
               else (case re_parse_bytes en (utf8_lossy body) of
                       None \<Rightarrow> Inl (OauthCallback ''parse token'')
                     | Some v \<Rightarrow>
                         (let access = unwrap_or [] (as_str (json_at v ''access_token''))
                          in if access = [] then Inl (TokenRefused status (ascii ''token response missing access_token''))
                             else Inr \<lparr>tk_access = access,
                               tk_refresh = (case as_str (json_at v ''refresh_token'') of
                                 Some s \<Rightarrow> if s = [] then None else Some s | None \<Rightarrow> None),
                               tk_expires_ms = i64 (re_now en (length (bk_sent b1)) +
                                 i64 (unwrap_or 3600 (as_i64 (json_at v ''expires_in'')) * 1000))\<rparr>))))"

definition is_invalid_grant :: "oauth_error \<Rightarrow> bool" where
  "is_invalid_grant e \<longleftrightarrow>
     (case e of TokenRefused status body \<Rightarrow> status = 400 \<and> contains_str body (ascii ''invalid_grant'') | _ \<Rightarrow> False)"

definition store_name :: "string \<Rightarrow> string" where
  "store_name i = i @ ''.oauth.json''"

definition load_refresh :: "remote_env \<Rightarrow> string \<Rightarrow> broker \<Rightarrow> string option" where
  "load_refresh en i b =
     (case secrets_get_named (re_unreadable en) (store_name i) (bk_secrets b) of
        Inl e \<Rightarrow> None
      | Inr raw \<Rightarrow>
          (case re_stored_refresh en raw of
             None \<Rightarrow> None
           | Some refresh \<Rightarrow> if refresh \<noteq> [] then Some refresh else None))"

definition connected :: "remote_env \<Rightarrow> string \<Rightarrow> broker \<Rightarrow> bool" where
  "connected en i b \<longleftrightarrow> load_refresh en i b \<noteq> None"

definition persist_refresh :: "remote_env \<Rightarrow> string \<Rightarrow> string \<Rightarrow> broker \<Rightarrow> broker \<times> (oauth_error + unit)" where
  "persist_refresh en i refresh b =
     (let r = secrets_set_named (re_secrets_io en) (store_name i) (re_stored_text en refresh) (bk_secrets b)
      in (b\<lparr>bk_secrets := fst r\<rparr>, map_sum OauthSecrets id (snd r)))"

definition oauth_logout :: "remote_env \<Rightarrow> string \<Rightarrow> broker \<Rightarrow> broker \<times> (oauth_error + unit)" where
  "oauth_logout en i b =
     (let r = secrets_remove_named (re_secrets_io en) (store_name i) (bk_secrets b);
          b1 = b\<lparr>bk_secrets := fst r\<rparr>
      in case snd r of
           Inl e \<Rightarrow> (b1, Inl (OauthSecrets e))
         | Inr u \<Rightarrow> (b1\<lparr>bk_cache := al_del i (bk_cache b1)\<rparr>, Inr ()))"

definition cache_token :: "string \<Rightarrow> token_response \<Rightarrow> broker \<Rightarrow> broker" where
  "cache_token i t b = b\<lparr>bk_cache := al_put i (tk_access t, tk_expires_ms t) (bk_cache b)\<rparr>"

definition complete_login ::
    "remote_env \<Rightarrow> oauth_provider \<Rightarrow> string \<Rightarrow> string \<Rightarrow> string \<Rightarrow> broker \<Rightarrow> broker \<times> (oauth_error + unit)" where
  "complete_login en p code verifier state b =
     attempt (post_token en p (exchange_params p code verifier state) b)
       (\<lambda>resp b1.
          case tk_refresh resp of
            None \<Rightarrow> (b1, Inl (OauthCallback ''token response missing refresh_token''))
          | Some refresh \<Rightarrow>
              attempt (persist_refresh en (op_id p) refresh b1) (\<lambda>_ b2. (cache_token (op_id p) resp b2, Inr ())))"

definition EXPIRY_MARGIN_MS :: int where
  "EXPIRY_MARGIN_MS = 60000"

definition access_token :: "remote_env \<Rightarrow> string \<Rightarrow> broker \<Rightarrow> broker \<times> (oauth_error + string)" where
  "access_token en i b =
     (case oauth_provider_of i of
        None \<Rightarrow> (b, Inl (NotCapable i))
      | Some p \<Rightarrow>
          (case (case map_of (bk_cache b) i of
                   Some (access, expires) \<Rightarrow>
                     if EXPIRY_MARGIN_MS < i64 (expires - re_now en (length (bk_sent b))) then Some access else None
                 | None \<Rightarrow> None) of
             Some access \<Rightarrow> (b, Inr access)
           | None \<Rightarrow>
               (case load_refresh en i b of
                  None \<Rightarrow> (b, Inl (ReauthRequired (op_label p)))
                | Some refresh \<Rightarrow>
                    (case post_token en p (refresh_params p refresh) b of
                       (b1, Inl e) \<Rightarrow> (b1, Inl (if is_invalid_grant e then ReauthRequired (op_label p) else e))
                     | (b1, Inr resp) \<Rightarrow>
                         attempt (case tk_refresh resp of
                                    Some fresh \<Rightarrow> if fresh \<noteq> refresh then persist_refresh en i fresh b1 else (b1, Inr ())
                                  | None \<Rightarrow> (b1, Inr ()))
                           (\<lambda>_ b2. (cache_token i resp b2, Inr (tk_access resp)))))))"

section \<open>The browser's callback\<close>

fun parse_query_from :: "bytes list \<Rightarrow> (bytes \<times> bytes) list \<Rightarrow> (bytes \<times> bytes) list option" where
  "parse_query_from [] m = Some m"
| "parse_query_from (pair # pairs) m =
     (if pair = [] then parse_query_from pairs m
      else (let (k, v) = (case split_once 61 pair of Some kv \<Rightarrow> kv | None \<Rightarrow> (pair, []))
            in case percent_decode k of
                 None \<Rightarrow> None
               | Some k' \<Rightarrow>
                   (case percent_decode v of
                      None \<Rightarrow> None
                    | Some v' \<Rightarrow> parse_query_from pairs (al_put k' v' m))))"

definition parse_query :: "bytes \<Rightarrow> (bytes \<times> bytes) list option" where
  "parse_query q = parse_query_from (split_on (\<lambda>b. b = 38) q) []"

datatype callback_end = CallbackError string | GotCode bytes

text \<open>
  One connection: its request target, if one could be read. \<open>None\<close> is a panic; \<open>Some None\<close> goes on to the
  next connection.
\<close>

definition accept_one :: "oauth_provider \<Rightarrow> bytes \<Rightarrow> bytes option \<Rightarrow> callback_end option option" where
  "accept_one p expected_state target =
     (case target of
        None \<Rightarrow> Some None
      | Some t \<Rightarrow>
          (let (path, query) = (case split_once 63 t of Some pq \<Rightarrow> pq | None \<Rightarrow> (t, []))
           in if path \<noteq> ascii (op_callback_path p) then Some None
              else (case parse_query query of
                      None \<Rightarrow> None
                    | Some params \<Rightarrow>
                        (case map_of params (ascii ''error'') of
                           Some err \<Rightarrow> Some (Some (CallbackError ''the provider reported an error''))
                         | None \<Rightarrow>
                             (let state = unwrap_or [] (map_of params (ascii ''state''));
                                  code = unwrap_or [] (map_of params (ascii ''code''))
                              in if state \<noteq> expected_state then Some (Some (CallbackError ''state mismatch''))
                                 else if code = [] then Some (Some (CallbackError ''missing authorization code''))
                                 else Some (Some (GotCode code)))))))"

text \<open>The connections until the time-out.\<close>

fun accept_code :: "oauth_provider \<Rightarrow> bytes \<Rightarrow> bytes option list \<Rightarrow> callback_end option" where
  "accept_code p expected_state [] = Some (CallbackError ''timed out waiting for the browser'')"
| "accept_code p expected_state (t # ts) =
     (case accept_one p expected_state t of
        None \<Rightarrow> None
      | Some None \<Rightarrow> accept_code p expected_state ts
      | Some (Some e) \<Rightarrow> Some e)"

text \<open>\<open>begin_login\<close>: one sign-in at a time; \<open>bound\<close> says whether the loopback port could be bound.\<close>

definition begin_login ::
    "string \<Rightarrow> string option \<Rightarrow> string \<Rightarrow> string \<Rightarrow> broker \<Rightarrow> broker \<times> (oauth_error + string)" where
  "begin_login i bind_error challenge state b =
     (case oauth_provider_of i of
        None \<Rightarrow> (b, Inl (NotCapable i))
      | Some p \<Rightarrow>
          if i \<in> set (bk_active b) then (b, Inl (SignInProgress (op_label p)))
          else (case bind_error of
                  Some e \<Rightarrow> (b, Inl (OauthBind (op_callback_port p) e))
                | None \<Rightarrow> (b\<lparr>bk_active := i # bk_active b\<rparr>, Inr (authorize_url p challenge state))))"

text \<open>
  The task \<open>begin_login\<close> spawned, over the connections the browser (or anyone on the machine) makes. A panic
  ends the task before it clears the entry.
\<close>

definition finish_login ::
    "remote_env \<Rightarrow> string \<Rightarrow> string \<Rightarrow> string \<Rightarrow> bytes option list \<Rightarrow> broker \<Rightarrow>
     broker \<times> (oauth_error + unit) option" where
  "finish_login en i verifier state conns b =
     (case oauth_provider_of i of
        None \<Rightarrow> (b, None)
      | Some p \<Rightarrow>
          (case accept_code p (ascii state) conns of
             None \<Rightarrow> (b, None)
           | Some e \<Rightarrow>
               (let r = (case e of CallbackError m \<Rightarrow> (b, Inl (OauthCallback m))
                                 | GotCode code \<Rightarrow> complete_login en p (re_text en code) verifier state b)
                in ((fst r)\<lparr>bk_active := filter (\<lambda>j. j \<noteq> i) (bk_active (fst r))\<rparr>, Some (snd r)))))"

end
