(* ===== verification/Remote_Stream.thy ===== *)
theory Remote_Stream
  imports Remote_Store Remote_Json
begin

text \<open>
  The streaming data plane: \<open>daemons/remoted/src/stream.rs\<close>. \<open>parse\<close> is \<open>serde_json::from_str\<close>.
\<close>

section \<open>Server-sent events\<close>

record sse_parser =
  sp_buf :: bytes
  sp_scanned :: nat
  sp_overflowed :: bool

definition sse_new :: sse_parser where
  "sse_new = \<lparr>sp_buf = [], sp_scanned = 0, sp_overflowed = False\<rparr>"

definition MAX_EVENT_BYTES :: nat where
  "MAX_EVENT_BYTES = 512 * 1024"

text \<open>The first blank line: the bytes before it and the length of the separator.\<close>

fun find_boundary :: "bytes \<Rightarrow> (nat \<times> nat) option" where
  "find_boundary [] = None"
| "find_boundary (b # bs) =
     (if b = 10 \<and> starts_with bs [10] then Some (0, 2)
      else if b = 10 \<and> starts_with bs [13, 10] then Some (0, 3)
      else map_option (\<lambda>(e, sep). (Suc e, sep)) (find_boundary bs))"

definition event_boundary :: "bytes \<Rightarrow> nat \<Rightarrow> (nat \<times> nat) option" where
  "event_boundary buf from = map_option (\<lambda>(e, sep). (from + e, sep)) (find_boundary (drop from buf))"

text \<open>The payload of one event, if it has a data line.\<close>

definition event_data :: "bytes \<Rightarrow> bytes option" where
  "event_data event =
     (let data = List.map_filter
           (\<lambda>l. map_option (\<lambda>d. (case strip_prefix d [32] of Some d' \<Rightarrow> d' | None \<Rightarrow> d)) (strip_prefix l (ascii ''data:'')))
           (map (\<lambda>l. case strip_suffix l [13] of Some l' \<Rightarrow> l' | None \<Rightarrow> l) (byte_lines (utf8_lossy event)))
      in if data = [] then None else Some (join [10] data))"

lemma find_boundary_bound: "find_boundary bs = Some (e, sep) \<Longrightarrow> e + sep \<le> length bs \<and> 2 \<le> sep"
  by (induction bs arbitrary: e) (auto simp: starts_with_iff split: if_splits)

function feed_loop :: "bytes \<Rightarrow> nat \<Rightarrow> bytes list \<times> bytes" where
  "feed_loop buf scanned =
     (case event_boundary buf scanned of
        None \<Rightarrow> ([], buf)
      | Some (e, sep) \<Rightarrow>
          (let r = feed_loop (drop (e + sep) buf) 0
           in ((case event_data (take e buf) of Some d \<Rightarrow> [d] | None \<Rightarrow> []) @ fst r, snd r)))"
  by pat_completeness auto
termination
proof (relation "measure (\<lambda>(buf, scanned). length buf)")
  fix buf :: bytes and scanned p e sep
  assume "event_boundary buf scanned = Some p" "(e, sep) = p"
  then obtain e' where "find_boundary (drop scanned buf) = Some (e', sep)" "e = scanned + e'"
    by (auto simp: event_boundary_def)
  then have "0 < sep" "e + sep \<le> length buf" using find_boundary_bound [of "drop scanned buf" e' sep] by auto
  then show "((drop (e + sep) buf, 0), buf, scanned) \<in> measure (\<lambda>(buf, scanned). length buf)" by simp
qed simp

declare feed_loop.simps [simp del]

definition sse_feed :: "sse_parser \<Rightarrow> bytes \<Rightarrow> sse_parser \<times> bytes list" where
  "sse_feed p bytes =
     (if sp_overflowed p then (p, [])
      else (let r = feed_loop (sp_buf p @ bytes) (sp_scanned p);
                buf = snd r
            in (if MAX_EVENT_BYTES < length buf then \<lparr>sp_buf = [], sp_scanned = 0, sp_overflowed = True\<rparr>
                else \<lparr>sp_buf = buf, sp_scanned = length buf - 2, sp_overflowed = False\<rparr>,
                fst r)))"

section \<open>Translation\<close>

datatype stream_item = Chunk json | StreamDone | StreamError string

record stream_translator =
  tr_dialect :: dialect
  tr_id :: json
  tr_model :: json
  tr_output_tokens :: "int option"

definition translator_new :: "dialect \<Rightarrow> stream_translator" where
  "translator_new d = \<lparr>tr_dialect = d, tr_id = JNull, tr_model = JNull, tr_output_tokens = None\<rparr>"

definition chunk_of :: "stream_translator \<Rightarrow> json \<Rightarrow> json \<Rightarrow> stream_item" where
  "chunk_of t delta finish_reason =
     Chunk (json_object
       [(''id'', tr_id t), (''object'', JStr ''chat.completion.chunk''), (''model'', tr_model t),
        (''choices'', JArr [json_object [(''index'', json_int 0), (''delta'', delta), (''finish_reason'', finish_reason)]])])"

definition translate_anthropic :: "stream_translator \<Rightarrow> json \<Rightarrow> stream_translator \<times> stream_item option" where
  "translate_anthropic t v =
     (let kind = unwrap_or [] (as_str (json_at v ''type''))
      in if kind = ''message_start'' then
           (let t1 = t\<lparr>tr_id := json_at (json_at v ''message'') ''id'', tr_model := json_at (json_at v ''message'') ''model''\<rparr>
            in (t1, Some (chunk_of t1 (json_object [(''role'', JStr ''assistant''), (''content'', JStr '''')]) JNull)))
         else if kind = ''content_block_delta'' then
           (case as_str (json_at (json_at v ''delta'') ''text'') of
              None \<Rightarrow> (t, None)
            | Some text \<Rightarrow> (t, Some (chunk_of t (json_object [(''content'', JStr text)]) JNull)))
         else if kind = ''message_delta'' then
           (let t1 = (case as_i64 (json_at (json_at v ''usage'') ''output_tokens'') of
                        Some n \<Rightarrow> t\<lparr>tr_output_tokens := Some n\<rparr>
                      | None \<Rightarrow> t);
                finish = (if json_at (json_at v ''delta'') ''stop_reason'' = JStr ''max_tokens'' then ''length'' else ''stop'')
            in (t1, Some (chunk_of t1 (json_object []) (JStr finish))))
         else if kind = ''message_stop'' then (t, Some StreamDone)
         else if kind = ''error'' then
           (t, Some (StreamError (unwrap_or ''provider stream error'' (as_str (json_at (json_at v ''error'') ''message'')))))
         else (t, None))"

definition translate ::
    "(bytes \<Rightarrow> json option) \<Rightarrow> (json \<Rightarrow> string) \<Rightarrow> stream_translator \<Rightarrow> bytes \<Rightarrow> stream_translator \<times> stream_item option" where
  "translate parse print t data =
     (if trim_bytes data = ascii ''[DONE]'' then (t, Some StreamDone)
      else (case parse data of
              None \<Rightarrow> (t, None)
            | Some v \<Rightarrow>
                (case tr_dialect t of
                   OpenaiCompat \<Rightarrow>
                     (case filter (\<lambda>e. e \<noteq> JNull) (case json_get v ''error'' of Some e \<Rightarrow> [e] | None \<Rightarrow> []) of
                        err # _ \<Rightarrow> (t, Some (StreamError (unwrap_or (print err) (as_str (json_at err ''message'')))))
                      | [] \<Rightarrow>
                          ((case as_i64 (json_at (json_at v ''usage'') ''completion_tokens'') of
                              Some n \<Rightarrow> t\<lparr>tr_output_tokens := Some n\<rparr>
                            | None \<Rightarrow> t), Some (Chunk v)))
                 | AnthropicMessages \<Rightarrow> translate_anthropic t v)))"

end
