(* ===== verification/Remote_Sse.thy ===== *)
theory Remote_Sse
  imports Remote_Stream
begin

text \<open>The event parser against a reference that sees the whole stream at once.\<close>

section \<open>The reference\<close>

text \<open>Cut a stream at its blank lines: the payloads, and what is left over.\<close>

function sse_split :: "bytes \<Rightarrow> bytes list \<times> bytes" where
  "sse_split bs =
     (case find_boundary bs of
        None \<Rightarrow> ([], bs)
      | Some (e, sep) \<Rightarrow>
          (let r = sse_split (drop (e + sep) bs)
           in ((case event_data (take e bs) of Some d \<Rightarrow> [d] | None \<Rightarrow> []) @ fst r, snd r)))"
  by pat_completeness auto
termination
proof (relation "measure length")
  fix bs :: bytes and p e sep
  assume "find_boundary bs = Some p" "(e, sep) = p"
  then have "0 < sep" "e + sep \<le> length bs" using find_boundary_bound [of bs e sep] by auto
  then show "(drop (e + sep) bs, bs) \<in> measure length" by simp
qed simp

declare sse_split.simps [simp del]

section \<open>Boundaries do not move\<close>

lemma find_boundary_append:
  "find_boundary bs = Some (e, sep) \<Longrightarrow> find_boundary (bs @ ys) = Some (e, sep)"
proof (induction bs arbitrary: e)
  case (Cons b bs)
  show ?case
  proof (cases "b = 10 \<and> (starts_with bs [10] \<or> starts_with bs [13, 10])")
    case True
    then show ?thesis using Cons.prems by (auto simp: starts_with_iff split: if_splits)
  next
    case False
    then obtain e' where e': "find_boundary bs = Some (e', sep)" "e = Suc e'"
      using Cons.prems by (auto split: if_splits)
    have "2 \<le> length bs" using find_boundary_bound [OF e'(1)] by simp
    then obtain x y zs where bs: "bs = x # y # zs" by (cases bs; cases "tl bs") auto
    have "\<not> (b = 10 \<and> (starts_with (bs @ ys) [10] \<or> starts_with (bs @ ys) [13, 10]))"
      using False by (auto simp: bs)
    then show ?thesis using Cons.IH [OF e'(1)] e'(2) by auto
  qed
qed simp

text \<open>Without a boundary, one that more bytes bring starts at one of the last two bytes.\<close>

lemma find_boundary_late:
  assumes "find_boundary bs = None" "n \<le> length bs - 2"
  shows "event_boundary (bs @ ys) n = find_boundary (bs @ ys)"
  using assms
proof (induction n arbitrary: bs)
  case 0
  then show ?case by (simp add: event_boundary_def option.map_ident split_def)
next
  case (Suc n)
  then obtain b x y zs where bs: "bs = b # x # y # zs"
    by (cases bs; cases "tl bs"; cases "tl (tl bs)") auto
  have none: "find_boundary (x # y # zs) = None" "\<not> (b = 10 \<and> (x = 10 \<or> x = 13 \<and> y = 10))"
    using Suc.prems(1) by (auto simp: bs split: if_splits)
  have "event_boundary ((x # y # zs) @ ys) n = find_boundary ((x # y # zs) @ ys)"
    using Suc.prems(2) by (intro Suc.IH none(1)) (simp add: bs)
  moreover have "event_boundary (bs @ ys) (Suc n) = map_option (\<lambda>(e, sep). (Suc e, sep)) (event_boundary ((x # y # zs) @ ys) n)"
    by (simp add: event_boundary_def bs option.map_comp o_def split_def)
  moreover have "find_boundary (bs @ ys) = map_option (\<lambda>(e, sep). (Suc e, sep)) (find_boundary ((x # y # zs) @ ys))"
    using none(2) by (auto simp: bs)
  ultimately show ?case by simp
qed

lemma feed_loop_split:
  assumes "event_boundary buf scanned = find_boundary buf"
  shows "feed_loop buf scanned = sse_split buf"
  using assms
proof (induction buf arbitrary: scanned rule: sse_split.induct)
  case (1 buf)
  show ?case
  proof (cases "find_boundary buf")
    case None
    then show ?thesis using 1(2) by (simp add: feed_loop.simps [of buf] sse_split.simps [of buf])
  next
    case (Some p)
    obtain e sep where p: "p = (e, sep)" by (cases p)
    have "event_boundary (drop (e + sep) buf) 0 = find_boundary (drop (e + sep) buf)"
      by (simp add: event_boundary_def option.map_ident split_def)
    from 1(1) [OF Some p [symmetric] this] show ?thesis
      using 1(2) by (simp add: feed_loop.simps [of buf] sse_split.simps [of buf] Some p)
  qed
qed

lemma sse_split_rest: "find_boundary (snd (sse_split bs)) = None"
proof (induction bs rule: sse_split.induct)
  case (1 bs)
  show ?case
  proof (cases "find_boundary bs")
    case None
    then show ?thesis by (simp add: sse_split.simps [of bs])
  next
    case (Some p)
    obtain e sep where p: "p = (e, sep)" by (cases p)
    from 1 [OF Some p [symmetric]] show ?thesis by (simp add: sse_split.simps [of bs] Some p Let_def)
  qed
qed

lemma sse_split_append:
  "sse_split (bs @ ys) = (fst (sse_split bs) @ fst (sse_split (snd (sse_split bs) @ ys)), snd (sse_split (snd (sse_split bs) @ ys)))"
proof (induction bs rule: sse_split.induct)
  case (1 bs)
  show ?case
  proof (cases "find_boundary bs")
    case None
    then show ?thesis by (simp add: sse_split.simps [of bs])
  next
    case (Some p)
    obtain e sep where p: "p = (e, sep)" by (cases p)
    have le: "e + sep \<le> length bs" using find_boundary_bound Some p by blast
    have "find_boundary (bs @ ys) = Some (e, sep)" using find_boundary_append Some p by blast
    then show ?thesis
      using 1 [OF Some p [symmetric]] le
      by (simp add: sse_split.simps [of bs] sse_split.simps [of "bs @ ys"] Some p Let_def)
  qed
qed

section \<open>Reads do not matter\<close>

definition sse_run :: "bytes list \<Rightarrow> sse_parser \<times> bytes list" where
  "sse_run reads = foldl (\<lambda>r bs. (fst (sse_feed (fst r) bs), snd r @ snd (sse_feed (fst r) bs))) (sse_new, []) reads"

text \<open>A parser that has not given up holds what is left of the stream and has looked at all but two bytes of it.\<close>

definition sse_follows :: "bytes list \<Rightarrow> sse_parser \<Rightarrow> bytes list \<Rightarrow> bool" where
  "sse_follows reads p out \<longleftrightarrow>
     (if sp_overflowed p
      then sp_buf p = [] \<and> (\<exists>n. MAX_EVENT_BYTES < length (snd (sse_split (concat (take n reads)))) \<and>
             out = fst (sse_split (concat (take n reads))))
      else out = fst (sse_split (concat reads)) \<and> sp_buf p = snd (sse_split (concat reads)) \<and>
           sp_scanned p = length (sp_buf p) - 2 \<and> length (sp_buf p) \<le> MAX_EVENT_BYTES)"

lemma sse_feed_follows:
  assumes "sse_follows reads p out"
  shows "sse_follows (reads @ [bs]) (fst (sse_feed p bs)) (out @ snd (sse_feed p bs))"
proof (cases "sp_overflowed p")
  case True
  then obtain n where n: "sp_buf p = []" "MAX_EVENT_BYTES < length (snd (sse_split (concat (take n reads))))"
    "out = fst (sse_split (concat (take n reads)))"
    using assms by (auto simp: sse_follows_def)
  have "take (min n (length reads)) (reads @ [bs]) = take n reads" by (simp add: min_def)
  with n True show ?thesis
    unfolding sse_follows_def sse_feed_def
    by (simp del: take_append) (rule exI [where x = "min n (length reads)"], simp)
next
  case False
  let ?rest = "snd (sse_split (concat reads))"
  have p: "out = fst (sse_split (concat reads))" "sp_buf p = ?rest" "sp_scanned p = length ?rest - 2"
    using assms False by (auto simp: sse_follows_def)
  have "feed_loop (sp_buf p @ bs) (sp_scanned p) = sse_split (?rest @ bs)"
    unfolding p(2,3) by (intro feed_loop_split find_boundary_late sse_split_rest) simp
  moreover have "sse_split (concat (reads @ [bs])) = (out @ fst (sse_split (?rest @ bs)), snd (sse_split (?rest @ bs)))"
    using sse_split_append [of "concat reads" bs] by (simp add: p(1))
  ultimately show ?thesis
    using False by (auto simp: sse_feed_def sse_follows_def Let_def intro!: exI [where x = "Suc (length reads)"])
qed

text \<open>
  C28. Reads do not matter. However the network cuts a stream into reads, the parser yields the events of
  the whole stream and holds at most 512 KiB; it gives up only when, after some read, an unfinished event
  is larger than that, and then it has yielded the events up to that read.
\<close>

theorem sse_reads_do_not_matter:
  "(if sp_overflowed (fst (sse_run reads))
    then \<exists>n. MAX_EVENT_BYTES < length (snd (sse_split (concat (take n reads)))) \<and>
           snd (sse_run reads) = fst (sse_split (concat (take n reads)))
    else snd (sse_run reads) = fst (sse_split (concat reads))) \<and>
   length (sp_buf (fst (sse_run reads))) \<le> MAX_EVENT_BYTES"
proof -
  have "sse_follows reads (fst (sse_run reads)) (snd (sse_run reads))"
  proof (induction reads rule: rev_induct)
    case Nil
    then show ?case by (simp add: sse_run_def sse_new_def sse_follows_def sse_split.simps)
  next
    case (snoc bs reads)
    then show ?case using sse_feed_follows [OF snoc] by (simp add: sse_run_def)
  qed
  then show ?thesis by (auto simp: sse_follows_def)
qed

end
