(* ===== verification/Remote_Broker.thy ===== *)
theory Remote_Broker
  imports Remote_Oauth Remote_Sse
begin

text \<open>
  The broker: \<open>daemons/remoted/src/service.rs\<close>. Management calls, the gate before egress and the three ways
  out: a model list, a completion, a stream.
\<close>

datatype broker_error =
    BrokerRegistry registry_error | BrokerSecrets secrets_error | BrokerConsent consent_error | BrokerOauth oauth_error
  | BrokerProxy proxy_error | BrokerLedger ledger_error

definition remote_event :: "string \<Rightarrow> string \<Rightarrow> string \<Rightarrow> string \<Rightarrow> event" where
  "remote_event kind app model status =
     default_event\<lparr>ev_kind := kind, ev_app_id := app, ev_model := model, ev_status := status\<rparr>"

text \<open>\<open>Broker::open\<close>: the files are read, nothing is cached and nothing has left yet.\<close>

definition broker_open ::
    "provider_spec list kept_file \<Rightarrow> (string \<times> bool) list kept_file \<Rightarrow> (string \<times> string) list \<Rightarrow> ledger \<Rightarrow>
     broker_error + broker" where
  "broker_open providers consent keys l =
     (case registry_open providers of
        Inl e \<Rightarrow> Inl (BrokerRegistry e)
      | Inr reg \<Rightarrow>
          (case consent_open consent of
             Inl e \<Rightarrow> Inl (BrokerConsent e)
           | Inr c \<Rightarrow> Inr \<lparr>bk_registry = reg, bk_secrets = \<lparr>ss_files = keys, ss_writes = 0\<rparr>, bk_consent = c, bk_cache = [],
               bk_active = [], bk_ledger = l, bk_sent = []\<rparr>))"

definition broker_append :: "remote_env \<Rightarrow> event \<Rightarrow> broker \<Rightarrow> broker \<times> (broker_error + int)" where
  "broker_append en e b =
     (let l = ledger_append (re_ledger_ok en) (re_wall en) (bk_ledger b) e
      in (b\<lparr>bk_ledger := fst l\<rparr>, map_sum BrokerLedger id (snd l)))"

text \<open>The client of a provider: guarded unless the user vouched for the endpoint.\<close>

definition client_guarded :: "provider_spec \<Rightarrow> bool" where
  "client_guarded spec \<longleftrightarrow> \<not> ps_allow_local spec"

definition lift_error :: "('e \<Rightarrow> broker_error) \<Rightarrow> broker \<times> ('e + 'a) \<Rightarrow> broker \<times> (broker_error + 'a)" where
  "lift_error f r = (fst r, map_sum f id (snd r))"

section \<open>Management\<close>

definition on_registry ::
    "(registry_state \<Rightarrow> registry_state \<times> (registry_error + 'a)) \<Rightarrow> broker \<Rightarrow> broker \<times> (broker_error + 'a)" where
  "on_registry f b = (let r = f (bk_registry b) in (b\<lparr>bk_registry := fst r\<rparr>, map_sum BrokerRegistry id (snd r)))"

definition on_secrets ::
    "(secret_store \<Rightarrow> secret_store \<times> (secrets_error + 'a)) \<Rightarrow> broker \<Rightarrow> broker \<times> (broker_error + 'a)" where
  "on_secrets f b = (let r = f (bk_secrets b) in (b\<lparr>bk_secrets := fst r\<rparr>, map_sum BrokerSecrets id (snd r)))"

definition add_provider ::
    "remote_env \<Rightarrow> string \<Rightarrow> string \<Rightarrow> string \<Rightarrow> locality \<Rightarrow> broker \<Rightarrow> broker \<times> (broker_error + unit)" where
  "add_provider en i name base_url loc =
     on_registry (registry_add_custom (re_registry_io en) (re_parse_url en) i name base_url loc)"

definition remove_provider :: "remote_env \<Rightarrow> string \<Rightarrow> broker \<Rightarrow> broker \<times> (broker_error + unit)" where
  "remove_provider en i b =
     attempt (on_registry (registry_remove_custom (re_registry_io en) i) b)
       (\<lambda>_ b1. (fst (on_secrets (secrets_remove (re_secrets_io en) i) b1), Inr ()))"

definition set_key :: "remote_env \<Rightarrow> string \<Rightarrow> string \<Rightarrow> broker \<Rightarrow> broker \<times> (broker_error + unit)" where
  "set_key en i key b =
     (case registry_get (bk_registry b) i of
        Inl e \<Rightarrow> (b, Inl (BrokerRegistry e))
      | Inr spec \<Rightarrow> on_secrets (secrets_set (re_secrets_io en) i key) b)"

definition clear_key :: "remote_env \<Rightarrow> string \<Rightarrow> broker \<Rightarrow> broker \<times> (broker_error + unit)" where
  "clear_key en i = on_secrets (secrets_remove (re_secrets_io en) i)"

text \<open>\<open>detail\<close> is the JSON text of the row.\<close>

definition set_consent ::
    "remote_env \<Rightarrow> string \<Rightarrow> string \<Rightarrow> bool \<Rightarrow> broker \<Rightarrow> broker \<times> (broker_error + unit)" where
  "set_consent en who scope allowed b =
     (let r = consent_set (re_consent_io en) scope allowed (bk_consent b);
          b1 = b\<lparr>bk_consent := fst r\<rparr>
      in case snd r of
           Inl e \<Rightarrow> (b1, Inl (BrokerConsent e))
         | Inr u \<Rightarrow>
             attempt (broker_append en ((remote_event ''remote.consent'' who [] ''ok'')
                 \<lparr>ev_preview := map Some (''may_offload '' @ scope @ '' = '' @ (if allowed then ''true'' else ''false'')),
                  ev_detail := re_print en (json_object [(''egress'', JStr ''remote''), (''scope'', JStr scope),
                    (''allowed'', JBool allowed)])\<rparr>) b1)
               (\<lambda>_ b2. (b2, Inr ())))"

definition broker_begin_login ::
    "string \<Rightarrow> string option \<Rightarrow> string \<Rightarrow> string \<Rightarrow> broker \<Rightarrow> broker \<times> (broker_error + string)" where
  "broker_begin_login i bind_error challenge state b =
     (case registry_get (bk_registry b) i of
        Inl e \<Rightarrow> (b, Inl (BrokerRegistry e))
      | Inr spec \<Rightarrow> lift_error BrokerOauth (begin_login i bind_error challenge state b))"

definition grant_detail :: "string \<Rightarrow> string \<Rightarrow> json" where
  "grant_detail i action =
     json_object [(''egress'', JStr ''remote''), (''provider'', JStr i), (''grant'', JStr ''oauth-signin''), (''action'', JStr action)]"

definition logout :: "remote_env \<Rightarrow> string \<Rightarrow> string \<Rightarrow> broker \<Rightarrow> broker \<times> (broker_error + unit)" where
  "logout en who i b =
     attempt (lift_error BrokerOauth (oauth_logout en i b))
       (\<lambda>_ b1. attempt (broker_append en ((remote_event ''remote.grant'' who (i @ '':oauth'') ''revoked'')
                   \<lparr>ev_detail := re_print en (grant_detail i ''revoke'')\<rparr>) b1)
          (\<lambda>_ b2. (b2, Inr ())))"

definition ledger_login_grant :: "remote_env \<Rightarrow> string \<Rightarrow> broker \<Rightarrow> broker" where
  "ledger_login_grant en i b =
     fst (broker_append en ((remote_event ''remote.grant'' ''settings'' (i @ '':oauth'') ''ok'')
       \<lparr>ev_detail := re_print en (grant_detail i ''grant'')\<rparr>) b)"

section \<open>The gate\<close>

definition credential_for ::
    "remote_env \<Rightarrow> string \<Rightarrow> auth_style \<Rightarrow> broker \<Rightarrow> broker \<times> (broker_error + string \<times> auth_style)" where
  "credential_for en i auth b =
     (if is_capable i \<and> connected en i b
      then attempt (lift_error BrokerOauth (access_token en i b))
             (\<lambda>access b1. (b1, Inr (access, if auth = Bearer then Bearer else AnthropicOauth)))
      else (b, case secrets_get (re_unreadable en) i (bk_secrets b) of
                 Inl e \<Rightarrow> Inl (BrokerSecrets e)
               | Inr key \<Rightarrow> Inr (key, if auth = Bearer then Bearer else AnthropicApiKey)))"

record preflight_state =
  pf_spec :: provider_spec
  pf_upstream :: upstream_request
  pf_model :: string
  pf_start :: int

definition prompt_preview :: "json \<Rightarrow> string" where
  "prompt_preview body =
     unwrap_or [] (Option.bind (Option.bind (as_array (json_at body ''messages''))
       (\<lambda>ms. if ms = [] then None else Some (last ms))) (\<lambda>m. as_str (json_at m ''content'')))"

text \<open>
  What the rows say of an error. A denied scope has passed the test for known scopes, so its \<open>Debug\<close> text is the
  debug_text name.
\<close>

definition debug_text :: "string \<Rightarrow> string" where
  "debug_text s = [CHR 34] @ s @ [CHR 34]"

definition consent_error_text :: "consent_error \<Rightarrow> string" where
  "consent_error_text e =
     (case e of
        UnknownScope s \<Rightarrow> ''unknown scope: '' @ s
      | ScopesDenied ss \<Rightarrow> ''scope not permitted to leave this device: ['' @ join '', '' (map debug_text ss) @ '']''
      | ConsentIo \<Rightarrow> ''io: write failed''
      | ConsentParse \<Rightarrow> ''consent.toml: not readable'')"

definition proxy_error_text :: "remote_env \<Rightarrow> proxy_error \<Rightarrow> string" where
  "proxy_error_text en e =
     (case e of
        NoEndpoint i \<Rightarrow> ''provider '' @ i @ '' has no endpoint configured''
      | BadRequest \<Rightarrow> ''request body must contain a messages array''
      | Unsupported m \<Rightarrow> m
      | Upstream status body \<Rightarrow> ''upstream error '' @ nat_str (unat status) @ '': '' @ re_text en body
      | HttpFailed m \<Rightarrow> ''http: '' @ m)"

definition preflight ::
    "remote_env \<Rightarrow> string \<Rightarrow> string list \<Rightarrow> json \<Rightarrow> broker \<Rightarrow> broker \<times> (broker_error + preflight_state)" where
  "preflight en i scopes body b =
     (case registry_get (bk_registry b) i of
        Inl e \<Rightarrow> (b, Inl (BrokerRegistry e))
      | Inr spec \<Rightarrow>
          (let model = ps_id spec @ '':'' @ unwrap_or [] (as_str (json_at body ''model''));
               event = (remote_event ''remote.generate'' ''host'' model ''started'')
                 \<lparr>ev_input_hash := re_hash en (re_print en body), ev_preview := preview_of (prompt_preview body)\<rparr>
           in case consent_check (bk_consent b) scopes of
                Inl denied \<Rightarrow>
                  attempt (broker_append en (event\<lparr>ev_status := ''denied'',
                      ev_detail := re_print en (json_object [(''egress'', JStr ''remote''), (''provider'', JStr (ps_id spec)),
                        (''scopes'', json_strs scopes), (''reason'', JStr (consent_error_text denied))])\<rparr>) b)
                    (\<lambda>_ b1. (b1, Inl (BrokerConsent denied)))
              | Inr u \<Rightarrow>
                  attempt (credential_for en (ps_id spec) (ps_auth spec) b)
                    (\<lambda>(credential, auth) b1.
                       let spec' = spec\<lparr>ps_auth := auth\<rparr>
                       in case build_upstream (re_parse en) spec' credential body of
                            Inl e \<Rightarrow> (b1, Inl (BrokerProxy e))
                          | Inr upstream \<Rightarrow>
                              attempt (broker_append en (event\<lparr>ev_detail :=
                                  re_print en (json_object [(''egress'', JStr ''remote''), (''provider'', JStr (ps_id spec)),
                                    (''endpoint'', json_opt (\<lambda>u. JStr (redact_url (re_parse_url en) (re_without_userinfo en) u)) (ps_base_url spec)),
                                    (''scopes'', json_strs scopes)])\<rparr>) b1)
                                (\<lambda>start b2. (b2, Inr \<lparr>pf_spec = spec', pf_upstream = upstream, pf_model = model, pf_start = start\<rparr>)))))"

section \<open>Ways out\<close>

text \<open>\<open>proxy::send\<close>.\<close>

definition upstream_answer :: "remote_env \<Rightarrow> http_reply \<Rightarrow> proxy_error + json" where
  "upstream_answer en reply =
     (case reply of
        NoReply e \<Rightarrow> Inl (HttpFailed e)
      | Reply status reads \<Rightarrow>
          (let parsed = (case body_bytes reads of Inl e \<Rightarrow> None | Inr bs \<Rightarrow> re_parse_bytes en bs)
           in if is_success status
              then (case parsed of Some v \<Rightarrow> Inr v | None \<Rightarrow> Inl (HttpFailed ''error decoding response body''))
              else Inl (Upstream status (cap_body (utf8_encode (re_print en (unwrap_or JNull parsed)))))))"

definition completion_row ::
    "preflight_state \<Rightarrow> string \<Rightarrow> string \<Rightarrow> int \<Rightarrow> int \<Rightarrow> event" where
  "completion_row p status detail tokens duration =
     (remote_event ''remote.complete'' ''host'' (pf_model p) status)
       \<lparr>ev_detail := detail, ev_ref_id := Some (pf_start p), ev_output_tokens := tokens, ev_duration_ms := duration\<rparr>"

definition complete_detail :: "remote_env \<Rightarrow> preflight_state \<Rightarrow> (string \<times> json) list \<Rightarrow> string" where
  "complete_detail en p extra =
     re_print en (json_object ([(''egress'', JStr ''remote''), (''provider'', JStr (ps_id (pf_spec p)))] @ extra))"

definition chat ::
    "remote_env \<Rightarrow> int \<Rightarrow> string \<Rightarrow> string list \<Rightarrow> json \<Rightarrow> broker \<Rightarrow> broker \<times> (broker_error + json)" where
  "chat en duration i scopes body b =
     attempt (preflight en i scopes body b)
       (\<lambda>p b1.
          let (b2, reply) = send_out en (ChatRequest (client_guarded (pf_spec p)) (pf_upstream p)) b1
          in case upstream_answer en reply of
               Inr raw \<Rightarrow>
                 (let normalized = translate_response (re_print en) (ps_dialect (pf_spec p)) raw
                  in attempt (broker_append en (completion_row p ''ok'' (complete_detail en p []) (output_tokens normalized) duration) b2)
                       (\<lambda>_ b3. (b3, Inr normalized)))
             | Inl e \<Rightarrow>
                 attempt (broker_append en (completion_row p ''error'' (complete_detail en p [(''error'', JStr (proxy_error_text en e))]) 0 duration) b2)
                   (\<lambda>_ b3. (b3, Inl (BrokerProxy e))))"

definition models_of :: "json \<Rightarrow> string list" where
  "models_of body =
     sort (case as_array (json_at body ''data'') of
             Some a \<Rightarrow> List.map_filter (\<lambda>m. as_str (json_at m ''id'')) a
           | None \<Rightarrow> [])"

definition models_headers :: "auth_style \<Rightarrow> string \<Rightarrow> (string \<times> string) list" where
  "models_headers auth credential =
     (case auth of
        AnthropicApiKey \<Rightarrow> [(''x-api-key'', credential), (''anthropic-version'', ''2023-06-01'')]
      | AnthropicOauth \<Rightarrow> [(''authorization'', ''Bearer '' @ credential), (''anthropic-version'', ''2023-06-01'')]
      | Bearer \<Rightarrow> [(''authorization'', ''Bearer '' @ credential)])"

definition list_models :: "remote_env \<Rightarrow> string \<Rightarrow> broker \<Rightarrow> broker \<times> (broker_error + string list)" where
  "list_models en i b =
     (case registry_get (bk_registry b) i of
        Inl e \<Rightarrow> (b, Inl (BrokerRegistry e))
      | Inr spec \<Rightarrow>
          (case ps_base_url spec of
             None \<Rightarrow> (b, Inl (BrokerProxy (Upstream 0 (ascii ''provider has no configured endpoint''))))
           | Some base \<Rightarrow>
               attempt (credential_for en i (ps_auth spec) b)
                 (\<lambda>(credential, auth) b1.
                    let url = base_of base @ (case ps_dialect spec of AnthropicMessages \<Rightarrow> ''/v1/models'' | OpenaiCompat \<Rightarrow> ''/models'');
                        row = (\<lambda>status. remote_event ''remote.models'' ''settings'' (ps_id spec) status)
                    in attempt (broker_append en ((row ''started'')\<lparr>ev_detail :=
                            re_print en (json_object [(''egress'', JStr ''remote''), (''provider'', JStr (ps_id spec)),
                              (''endpoint'', JStr (redact_url (re_parse_url en) (re_without_userinfo en) url))])\<rparr>) b1)
                         (\<lambda>start b2.
                            let (b3, reply) = send_out en (ModelsRequest (client_guarded spec) url (models_headers auth credential)) b2;
                                finish = (\<lambda>status detail. fst (broker_append en
                                  ((row status)\<lparr>ev_ref_id := Some start, ev_detail := re_print en (json_object detail)\<rparr>) b3))
                            in case reply of
                                 NoReply e \<Rightarrow>
                                   (finish ''error'' [(''egress'', JStr ''remote''), (''error'', JStr e)], Inl (BrokerProxy (HttpFailed e)))
                               | Reply status reads \<Rightarrow>
                                   if \<not> is_success status
                                   then (finish ''error'' [(''egress'', JStr ''remote''), (''status'', json_int (uint status))],
                                         Inl (BrokerProxy (Upstream status (cap_body
                                           (case body_bytes reads of Inl e \<Rightarrow> [] | Inr bs \<Rightarrow> utf8_lossy bs)))))
                                   else (finish ''ok'' [(''egress'', JStr ''remote''), (''provider'', JStr (ps_id spec))],
                                         case (case body_bytes reads of Inl e \<Rightarrow> None | Inr bs \<Rightarrow> re_parse_bytes en bs) of
                                           Some v \<Rightarrow> Inr (models_of v)
                                         | None \<Rightarrow> Inl (BrokerProxy (HttpFailed ''error decoding response body'')))))))"

section \<open>Streaming\<close>

record stream_state =
  st_parser :: sse_parser
  st_translator :: stream_translator
  st_chunks :: int
  st_chars :: int

datatype stream_end = StreamClean | StreamFailed string | StreamOpen | StreamGone

definition count_text :: "string option \<Rightarrow> stream_state \<Rightarrow> stream_state" where
  "count_text text s =
     (case text of
        Some t \<Rightarrow> if t \<noteq> [] then s\<lparr>st_chunks := st_chunks s + 1, st_chars := st_chars s + int (length t)\<rparr> else s
      | None \<Rightarrow> s)"

text \<open>
  The payloads of one read, in order, until the stream ends. \<open>gone r f\<close> says whether the consumer has dropped
  the stream by the time \<open>r\<close> reads were waited for and \<open>f\<close> frames were handed to it.
\<close>

fun stream_frames ::
    "remote_env \<Rightarrow> (nat \<Rightarrow> bool) \<Rightarrow> bytes list \<Rightarrow> stream_state \<Rightarrow> json list \<Rightarrow> stream_state \<times> json list \<times> stream_end" where
  "stream_frames en gone [] s out = (s, out, StreamOpen)"
| "stream_frames en gone (d # ds) s out =
     (case translate (re_parse_bytes en) (re_print en) (st_translator s) d of
        (t, item) \<Rightarrow>
          (let s1 = s\<lparr>st_translator := t\<rparr>
           in case item of
                None \<Rightarrow> stream_frames en gone ds s1 out
              | Some StreamDone \<Rightarrow> (s1, out, StreamClean)
              | Some (StreamError m) \<Rightarrow> (s1, out, StreamFailed m)
              | Some (Chunk c) \<Rightarrow>
                  (let s2 = count_text (as_str (json_at (json_at (json_nth (json_at c ''choices'') 0) ''delta'') ''content'')) s1
                   in if gone (Suc (length out)) then (s2, out @ [c], StreamGone)
                      else stream_frames en gone ds s2 (out @ [c]))))"

text \<open>The loop over the reads.\<close>

fun stream_loop ::
    "remote_env \<Rightarrow> (nat \<Rightarrow> nat \<Rightarrow> bool) \<Rightarrow> nat \<Rightarrow> net_read list \<Rightarrow> stream_state \<Rightarrow> json list \<Rightarrow>
     stream_state \<times> json list \<times> stream_end" where
  "stream_loop en gone n reads s out =
     (if gone n (length out) then (s, out, StreamGone)
      else case reads of
             [] \<Rightarrow> (s, out, StreamFailed ''provider stream ended before completion'')
           | NetStalled # rs \<Rightarrow> (s, out, StreamFailed ''provider stream stalled (no bytes for 120s)'')
           | NetError e # rs \<Rightarrow> (s, out, StreamFailed e)
           | NetBytes b # rs \<Rightarrow>
               (let f = sse_feed (st_parser s) b
                in case stream_frames en (gone (Suc n)) (snd f) (s\<lparr>st_parser := fst f\<rparr>) out of
                     (s1, out1, StreamOpen) \<Rightarrow> stream_loop en gone (Suc n) rs s1 out1
                   | (s1, out1, e) \<Rightarrow> (s1, out1, e)))"

declare stream_loop.simps [simp del]

text \<open>What goes downstream: chunk frames, an error frame if the stream failed, and the end marker.\<close>

datatype stream_frame = ChunkFrame json | ErrorFrame string | DoneFrame

definition stream_complete ::
    "remote_env \<Rightarrow> preflight_state \<Rightarrow> string \<Rightarrow> string option \<Rightarrow> int \<Rightarrow> int \<Rightarrow> int \<Rightarrow> broker \<Rightarrow> broker" where
  "stream_complete en p status err tokens chars duration b =
     fst (broker_append en (completion_row p status
       (complete_detail en p ([(''streamed'', JBool True), (''output_chars'', json_int chars)] @
          (case err of Some e \<Rightarrow> [(''error'', JStr e)] | None \<Rightarrow> []))) tokens duration) b)"

definition stream_answer ::
    "remote_env \<Rightarrow> int \<Rightarrow> (nat \<Rightarrow> nat \<Rightarrow> bool) \<Rightarrow> preflight_state \<Rightarrow> net_read list \<Rightarrow> broker \<Rightarrow> broker \<times> stream_frame list" where
  "stream_answer en duration gone p reads b =
     (let s0 = \<lparr>st_parser = sse_new, st_translator = translator_new (ps_dialect (pf_spec p)), st_chunks = 0, st_chars = 0\<rparr>;
          (s, out, e) = stream_loop en gone 0 reads s0 [];
          tokens = unwrap_or (st_chunks s) (tr_output_tokens (st_translator s))
      in case e of
           StreamFailed m \<Rightarrow>
             (stream_complete en p ''error'' (Some m) tokens (st_chars s) duration b, map ChunkFrame out @ [ErrorFrame m, DoneFrame])
         | StreamGone \<Rightarrow>
             (stream_complete en p ''aborted'' (Some ''consumer disconnected mid-stream'') (st_chunks s) (st_chars s) duration b,
              map ChunkFrame out)
         | _ \<Rightarrow> (stream_complete en p ''ok'' None tokens (st_chars s) duration b, map ChunkFrame out @ [DoneFrame]))"

definition chat_stream ::
    "remote_env \<Rightarrow> int \<Rightarrow> (nat \<Rightarrow> nat \<Rightarrow> bool) \<Rightarrow> string \<Rightarrow> string list \<Rightarrow> json \<Rightarrow> broker \<Rightarrow>
     broker \<times> (broker_error + stream_frame list)" where
  "chat_stream en duration gone i scopes body b =
     attempt (preflight en i scopes body b)
       (\<lambda>p b1.
          let (b2, reply) = send_out en (StreamRequest (client_guarded (pf_spec p)) (pf_upstream p)) b1;
              fail = (\<lambda>e. (stream_complete en p ''error'' (Some (proxy_error_text en e)) 0 0 duration b2, Inl (BrokerProxy e)))
          in case reply of
               NoReply e \<Rightarrow> fail (HttpFailed e)
             | Reply status reads \<Rightarrow>
                 if \<not> is_success status
                 then fail (Upstream status (cap_body (case body_bytes reads of Inl e \<Rightarrow> [] | Inr bs \<Rightarrow> utf8_lossy bs)))
                 else (let r = stream_answer en duration gone p reads b2 in (fst r, Inr (snd r))))"

section \<open>Calls\<close>

text \<open>
  The calls of the two surfaces (\<open>api.rs\<close>, \<open>dbus.rs\<close>) and the two ends of the task a sign-in spawns. In the
  model a call runs to its end before the next one; the daemon may interleave them where they await the network.
\<close>

datatype broker_call =
    AddProvider string string string locality
  | RemoveProvider string
  | SetKey string string
  | ClearKey string
  | SetOffload string string bool
  | BeginLogin string "string option" string string
  | FinishLogin string string string "bytes option list"
  | LoginGranted string
  | Logout string string
  | ListModels string
  | Chat int string "string list" json
  | ChatStream int "nat \<Rightarrow> nat \<Rightarrow> bool" string "string list" json

fun broker_step :: "remote_env \<Rightarrow> broker_call \<Rightarrow> broker \<Rightarrow> broker" where
  "broker_step en (AddProvider i name url loc) b = fst (add_provider en i name url loc b)"
| "broker_step en (RemoveProvider i) b = fst (remove_provider en i b)"
| "broker_step en (SetKey i key) b = fst (set_key en i key b)"
| "broker_step en (ClearKey i) b = fst (clear_key en i b)"
| "broker_step en (SetOffload who scope allowed) b = fst (set_consent en who scope allowed b)"
| "broker_step en (BeginLogin i bind_error challenge state) b = fst (broker_begin_login i bind_error challenge state b)"
| "broker_step en (FinishLogin i verifier state conns) b = fst (finish_login en i verifier state conns b)"
| "broker_step en (LoginGranted i) b = ledger_login_grant en i b"
| "broker_step en (Logout who i) b = fst (logout en who i b)"
| "broker_step en (ListModels i) b = fst (list_models en i b)"
| "broker_step en (Chat duration i scopes body) b = fst (chat en duration i scopes body b)"
| "broker_step en (ChatStream duration gone i scopes body) b = fst (chat_stream en duration gone i scopes body b)"

definition broker_run :: "remote_env \<Rightarrow> broker_call list \<Rightarrow> broker \<Rightarrow> broker" where
  "broker_run en cs b = fold (broker_step en) cs b"

end
