(* ===== verification/Remote_Gate.thy ===== *)
theory Remote_Gate
  imports Remote_Broker
begin

text \<open>
  Nothing leaves unrecorded: what every call of the broker keeps. The laws of the parts are a locale, so that each
  invariant of the broker is shown on the parts only.
\<close>

section \<open>Rows that cover a request\<close>

text \<open>What is recorded before it leaves, and what carries the user's content.\<close>

fun audited :: "egress \<Rightarrow> bool" where
  "audited (TokenRequest u ps) = False"
| "audited e = True"

fun content_of :: "egress \<Rightarrow> (bool \<times> upstream_request) option" where
  "content_of (ChatRequest g up) = Some (g, up)"
| "content_of (StreamRequest g up) = Some (g, up)"
| "content_of e = None"

definition endpoint_text :: "remote_env \<Rightarrow> string \<Rightarrow> json" where
  "endpoint_text en u = JStr (redact_url (re_parse_url en) (re_without_userinfo en) u)"

definition gate_row :: "remote_env \<Rightarrow> provider_spec \<Rightarrow> string list \<Rightarrow> json \<Rightarrow> event" where
  "gate_row en spec scopes body =
     (remote_event ''remote.generate'' ''host'' (ps_id spec @ '':'' @ unwrap_or [] (as_str (json_at body ''model''))) ''started'')
       \<lparr>ev_input_hash := re_hash en (re_print en body), ev_preview := preview_of (prompt_preview body),
        ev_detail := re_print en (json_object [(''egress'', JStr ''remote''), (''provider'', JStr (ps_id spec)),
          (''endpoint'', json_opt (endpoint_text en) (ps_base_url spec)), (''scopes'', json_strs scopes)])\<rparr>"

definition models_row :: "remote_env \<Rightarrow> string \<Rightarrow> string \<Rightarrow> event" where
  "models_row en i url =
     (remote_event ''remote.models'' ''settings'' i ''started'')
       \<lparr>ev_detail := re_print en (json_object [(''egress'', JStr ''remote''), (''provider'', JStr i), (''endpoint'', endpoint_text en url)])\<rparr>"

lemma models_row_fold:
  "(remote_event ''remote.models'' ''settings'' i ''started'')\<lparr>ev_detail :=
      re_print en (json_object [(''egress'', JStr ''remote''), (''provider'', JStr i),
        (''endpoint'', JStr (redact_url (re_parse_url en) (re_without_userinfo en) url))])\<rparr> = models_row en i url"
  by (simp add: models_row_def endpoint_text_def)

text \<open>
  A row covers a request when it is the started row written for it: of the same provider, with the address, the
  scopes and the hash of the body the request was rendered from.
\<close>

fun row_covers :: "remote_env \<Rightarrow> event \<Rightarrow> egress \<Rightarrow> bool" where
  "row_covers en ev (TokenRequest u ps) = True"
| "row_covers en ev (ModelsRequest g u hs) = (\<exists>i. ev = models_row en i u)"
| "row_covers en ev (ChatRequest g up) =
     (\<exists>spec scopes body credential. ev = gate_row en spec scopes body \<and> g = client_guarded spec \<and>
        build_upstream (re_parse en) spec credential body = Inr up)"
| "row_covers en ev (StreamRequest g up) =
     (\<exists>spec scopes body credential. ev = gate_row en spec scopes body \<and> g = client_guarded spec \<and>
        build_upstream (re_parse en) spec credential body = Inr up)"

section \<open>The parts\<close>

lemma broker_append_same [simp]:
  "bk_registry (fst (broker_append en e b)) = bk_registry b" "bk_secrets (fst (broker_append en e b)) = bk_secrets b"
  "bk_consent (fst (broker_append en e b)) = bk_consent b" "bk_cache (fst (broker_append en e b)) = bk_cache b"
  "bk_active (fst (broker_append en e b)) = bk_active b" "bk_sent (fst (broker_append en e b)) = bk_sent b"
  by (simp_all add: broker_append_def Let_def)

lemma broker_append_rows:
  "prefix (l_entries (bk_ledger b)) (l_entries (bk_ledger (fst (broker_append en e b))))"
  by (simp add: broker_append_def Let_def ledger_append_prefix)

lemma broker_append_Inr:
  assumes "snd (broker_append en e b) = Inr i"
  obtains r where "l_entries (bk_ledger (fst (broker_append en e b))) = l_entries (bk_ledger b) @ [r]" "en_id r = i" "en_event r = e"
proof -
  have "snd (ledger_append (re_ledger_ok en) (re_wall en) (bk_ledger b) e) = Inr i"
    using assms by (cases "snd (ledger_append (re_ledger_ok en) (re_wall en) (bk_ledger b) e)") (auto simp: broker_append_def Let_def)
  then obtain l' where "ledger_append (re_ledger_ok en) (re_wall en) (bk_ledger b) e = (l', Inr i)"
    by (cases "ledger_append (re_ledger_ok en) (re_wall en) (bk_ledger b) e") auto
  then show ?thesis using ledger_append_Inr that by (fastforce simp: broker_append_def Let_def)
qed

lemma fst_lift_error [simp]: "fst (lift_error f r) = fst r"
  by (simp add: lift_error_def)

lemma send_out_same [simp]:
  "bk_registry (fst (send_out en e b)) = bk_registry b" "bk_secrets (fst (send_out en e b)) = bk_secrets b"
  "bk_consent (fst (send_out en e b)) = bk_consent b" "bk_ledger (fst (send_out en e b)) = bk_ledger b"
  "bk_sent (fst (send_out en e b)) = bk_sent b @ [(length (l_entries (bk_ledger b)), e)]"
  by (simp_all add: send_out_def)

text \<open>What a gate that opens has done.\<close>

lemma preflight_covers:
  assumes "preflight en i scopes body b = (b2, Inr p)"
  obtains spec u credential auth b1 where
    "registry_get (bk_registry b) i = Inr spec" "consent_check (bk_consent b) scopes = Inr u"
    "credential_for en (ps_id spec) (ps_auth spec) b = (b1, Inr (credential, auth))"
    "pf_spec p = spec\<lparr>ps_auth := auth\<rparr>"
    "build_upstream (re_parse en) (spec\<lparr>ps_auth := auth\<rparr>) credential body = Inr (pf_upstream p)"
    "broker_append en (gate_row en (spec\<lparr>ps_auth := auth\<rparr>) scopes body) b1 = (b2, Inr (pf_start p))"
    "pf_model p = ps_id spec @ '':'' @ unwrap_or [] (as_str (json_at body ''model''))"
proof -
  from assms obtain spec where spec: "registry_get (bk_registry b) i = Inr spec"
    by (auto simp: preflight_def split: sum.splits)
  from assms spec obtain u where u: "consent_check (bk_consent b) scopes = Inr u"
    by (auto simp: preflight_def attempt_def Let_def split: sum.splits)
  from assms spec u obtain b1 credential auth where
    c: "credential_for en (ps_id spec) (ps_auth spec) b = (b1, Inr (credential, auth))"
    by (cases "credential_for en (ps_id spec) (ps_auth spec) b") (auto simp: preflight_def attempt_def Let_def split: sum.splits)
  from assms spec u c obtain up where up: "build_upstream (re_parse en) (spec\<lparr>ps_auth := auth\<rparr>) credential body = Inr up"
    by (cases "build_upstream (re_parse en) (spec\<lparr>ps_auth := auth\<rparr>) credential body") (auto simp: preflight_def attempt_def Let_def)
  have "gate_row en (spec\<lparr>ps_auth := auth\<rparr>) scopes body =
      ((remote_event ''remote.generate'' ''host'' (ps_id spec @ '':'' @ unwrap_or [] (as_str (json_at body ''model''))) ''started'')
       \<lparr>ev_input_hash := re_hash en (re_print en body), ev_preview := preview_of (prompt_preview body)\<rparr>)
       \<lparr>ev_detail := re_print en (json_object [(''egress'', JStr ''remote''), (''provider'', JStr (ps_id spec)),
          (''endpoint'', json_opt (\<lambda>u. JStr (redact_url (re_parse_url en) (re_without_userinfo en) u)) (ps_base_url spec)), (''scopes'', json_strs scopes)])\<rparr>"
    by (simp add: gate_row_def endpoint_text_def [abs_def])
  with assms spec u c up show ?thesis
    by (cases "broker_append en (gate_row en (spec\<lparr>ps_auth := auth\<rparr>) scopes body) b1")
      (auto simp: preflight_def attempt_def Let_def split: sum.splits intro!: that)
qed

lemma covers_gate:
  "build_upstream (re_parse en) spec credential body = Inr up \<Longrightarrow> row_covers en (gate_row en spec scopes body) (ChatRequest (client_guarded spec) up)"
  "build_upstream (re_parse en) spec credential body = Inr up \<Longrightarrow> row_covers en (gate_row en spec scopes body) (StreamRequest (client_guarded spec) up)"
  by auto

fun generates :: "broker_call \<Rightarrow> bool" where
  "generates (Chat duration i scopes body) = True"
| "generates (ChatStream duration gone i scopes body) = True"
| "generates c = False"

fun switches :: "broker_call \<Rightarrow> bool" where
  "switches (SetOffload who scope allowed) = True"
| "switches c = False"

section \<open>Invariants of the broker\<close>

text \<open>
  A property of the broker is kept by every call when the parts keep it: a row, a token request, a model list behind
  its row, a rotated secret and a cached token (the data plane), a request with content behind its row, and the
  operations of the management plane.
\<close>

locale broker_data =
  fixes en :: remote_env and P :: "broker \<Rightarrow> bool"
  assumes row: "P b \<Longrightarrow> P (fst (broker_append en e b))"
    and token: "P b \<Longrightarrow> P (fst (send_out en (TokenRequest u ps) b))"
    and listed: "P b \<Longrightarrow> broker_append en (models_row en i url) b = (b1, Inr n) \<Longrightarrow>
      P (fst (send_out en (ModelsRequest g url hs) b1))"
    and secrets: "P b \<Longrightarrow> P (b\<lparr>bk_secrets := s\<rparr>)"
    and cache: "P b \<Longrightarrow> P (b\<lparr>bk_cache := c\<rparr>)"
begin

lemma post_token_inv: "P b \<Longrightarrow> P (fst (post_token en p ps b))"
  using token [of b "op_token_url p" ps]
  by (cases "send_out en (TokenRequest (op_token_url p) ps) b") (auto simp: post_token_def split: http_reply.splits)

lemma persist_inv: "P b \<Longrightarrow> P (fst (persist_refresh en i refresh b))"
  by (simp add: persist_refresh_def Let_def secrets)

lemma attempt_inv: "P (fst r) \<Longrightarrow> (\<And>x. snd r = Inr x \<Longrightarrow> P (fst (k x (fst r)))) \<Longrightarrow> P (fst (attempt r k))"
  by (rule attempt_ok)

lemma fresh_token_inv:
  assumes "P b"
  shows "P (fst (attempt (case tk_refresh resp of
                  Some fresh \<Rightarrow> if fresh \<noteq> refresh then persist_refresh en i fresh b else (b, Inr ())
                | None \<Rightarrow> (b, Inr ()))
              (\<lambda>_ b2. (cache_token i resp b2, Inr (tk_access resp)))))" (is "P (fst (attempt ?r ?k))")
proof -
  have "P (fst ?r)" using assms persist_inv by (cases "tk_refresh resp") simp_all
  then show ?thesis by (rule attempt_inv) (simp add: cache_token_def cache \<open>P (fst ?r)\<close>)
qed

lemma access_token_inv: assumes "P b" shows "P (fst (access_token en i b))"
proof (cases "oauth_provider_of i")
  case None
  with assms show ?thesis by (simp add: access_token_def)
next
  case (Some p)
  show ?thesis
  proof (cases "load_refresh en i b")
    case None
    with assms Some show ?thesis by (simp add: access_token_def split: option.split)
  next
    case (Some refresh)
    obtain b1 r where r: "post_token en p (refresh_params p refresh) b = (b1, r)" by fastforce
    have b1: "P b1" using post_token_inv [OF assms, of p "refresh_params p refresh"] r by simp
    then have "P (fst (case post_token en p (refresh_params p refresh) b of
        (b1, Inl e) \<Rightarrow> (b1, Inl (if is_invalid_grant e then ReauthRequired (op_label p) else e))
      | (b1, Inr resp) \<Rightarrow>
          attempt (case tk_refresh resp of
              Some fresh \<Rightarrow> if fresh \<noteq> refresh then persist_refresh en i fresh b1 else (b1, Inr ())
            | None \<Rightarrow> (b1, Inr ())) (\<lambda>_ b2. (cache_token i resp b2, Inr (tk_access resp)))))"
      unfolding r by (cases r) (use fresh_token_inv in simp_all)
    with assms Some \<open>oauth_provider_of i = Some p\<close> show ?thesis
      unfolding access_token_def by (simp split: option.split)
  qed
qed

lemma credential_for_inv: assumes "P b" shows "P (fst (credential_for en i auth b))"
proof -
  have "P (fst (attempt (lift_error BrokerOauth (access_token en i b))
      (\<lambda>access b1. (b1, Inr (access, if auth = Bearer then Bearer else AnthropicOauth)))))"
    by (rule attempt_inv) (simp_all add: access_token_inv assms)
  with assms show ?thesis by (simp add: credential_for_def)
qed

lemma row_last: "P b \<Longrightarrow> (\<And>x b2. fst (k x b2) = b2) \<Longrightarrow> P (fst (attempt (broker_append en e b) k))"
  by (rule attempt_inv) (simp_all add: row)

lemma preflight_inv: assumes "P b" shows "P (fst (preflight en i scopes body b))"
proof -
  show ?thesis
  proof (cases "registry_get (bk_registry b) i")
    case (Inl e)
    with assms show ?thesis by (simp add: preflight_def)
  next
    case (Inr spec)
    show ?thesis
    proof (cases "consent_check (bk_consent b) scopes")
      case (Inl e)
      with Inr show ?thesis by (simp add: preflight_def Let_def row_last assms)
    next
      case (Inr u)
      have c: "P (fst (credential_for en (ps_id spec) (ps_auth spec) b))" by (rule credential_for_inv [OF assms])
      show ?thesis
        unfolding preflight_def \<open>registry_get (bk_registry b) i = Inr spec\<close> Inr sum.case Let_def
        by (rule attempt_inv [OF c]) (auto intro!: row_last [OF c] simp: c split: prod.split sum.split)
    qed
  qed
qed

lemma complete_login_inv: assumes "P b" shows "P (fst (complete_login en p code verifier state b))"
  unfolding complete_login_def
proof (rule attempt_inv [OF post_token_inv [OF assms]])
  fix resp
  let ?b = "fst (post_token en p (exchange_params p code verifier state) b)"
  have b: "P ?b" by (rule post_token_inv [OF assms])
  have "P (fst (attempt (persist_refresh en (op_id p) refresh ?b) (\<lambda>_ b2. (cache_token (op_id p) resp b2, Inr ()))))" for refresh
    by (rule attempt_inv) (simp_all add: cache_token_def cache persist_inv b)
  with b show "P (fst (case tk_refresh resp of
      None \<Rightarrow> (?b, Inl (OauthCallback ''token response missing refresh_token''))
    | Some refresh \<Rightarrow> attempt (persist_refresh en (op_id p) refresh ?b) (\<lambda>_ b2. (cache_token (op_id p) resp b2, Inr ()))))"
    by (simp split: option.split)
qed

lemma list_models_inv: assumes "P b" shows "P (fst (list_models en i b))"
proof (cases "registry_get (bk_registry b) i")
  case (Inl e)
  with assms show ?thesis by (simp add: list_models_def)
next
  case (Inr spec)
  show ?thesis
  proof (cases "ps_base_url spec")
    case None
    with Inr assms show ?thesis by (simp add: list_models_def)
  next
    case (Some base)
    have c: "P (fst (credential_for en i (ps_auth spec) b))" by (rule credential_for_inv [OF assms])
    have sent: "P (fst (send_out en (ModelsRequest g url hs) b2))"
      if "broker_append en (models_row en (ps_id spec) url) b1 = (b2, Inr n)" "P b1" for b1 b2 n g url hs
      by (rule listed [OF that(2, 1)])
    have go: "P (fst (attempt (broker_append en (models_row en (ps_id spec) url) b1)
        (\<lambda>start b2. case send_out en (ModelsRequest g url hs) b2 of (b3, reply) \<Rightarrow> models_end reply b3 start)))"
      if "P b1" "\<And>reply b3 start. P b3 \<Longrightarrow> P (fst (models_end reply b3 start))" for b1 url g hs models_end
    proof (rule attempt_inv [OF row [OF that(1)]])
      fix n
      assume "snd (broker_append en (models_row en (ps_id spec) url) b1) = Inr n"
      then have "broker_append en (models_row en (ps_id spec) url) b1 = (fst (broker_append en (models_row en (ps_id spec) url) b1), Inr n)"
        by (simp add: prod_eq_iff)
      from sent [OF this that(1), of g hs] that(2)
      show "P (fst (case send_out en (ModelsRequest g url hs) (fst (broker_append en (models_row en (ps_id spec) url) b1)) of
          (b3, reply) \<Rightarrow> models_end reply b3 n))"
        by (auto split: prod.split)
    qed
    show ?thesis
      unfolding list_models_def Inr Some sum.case option.case Let_def
      unfolding models_row_fold
      by (rule attempt_inv [OF c])
        (auto intro!: go c simp: row split: prod.split http_reply.split)
  qed
qed

end

locale broker_sends = broker_data +
  assumes gated: "P b \<Longrightarrow> broker_append en e b = (b1, Inr n) \<Longrightarrow> content_of eg \<noteq> None \<Longrightarrow> row_covers en e eg \<Longrightarrow>
      P (fst (send_out en eg b1))"
begin

lemma sent_behind_the_gate:
  assumes "P b" and p: "snd (preflight en i scopes body b) = Inr p"
    and eg: "content_of eg \<noteq> None"
    and c: "\<And>spec credential. pf_spec p = spec \<Longrightarrow> build_upstream (re_parse en) spec credential body = Inr (pf_upstream p) \<Longrightarrow>
      row_covers en (gate_row en spec scopes body) eg"
  shows "P (fst (send_out en eg (fst (preflight en i scopes body b))))"
proof -
  from p have "preflight en i scopes body b = (fst (preflight en i scopes body b), Inr p)" by (simp add: prod_eq_iff)
  then show ?thesis
  proof (rule preflight_covers)
    fix spec u credential auth b1
    assume a: "credential_for en (ps_id spec) (ps_auth spec) b = (b1, Inr (credential, auth))" "pf_spec p = spec\<lparr>ps_auth := auth\<rparr>"
      "build_upstream (re_parse en) (spec\<lparr>ps_auth := auth\<rparr>) credential body = Inr (pf_upstream p)"
      "broker_append en (gate_row en (spec\<lparr>ps_auth := auth\<rparr>) scopes body) b1 = (fst (preflight en i scopes body b), Inr (pf_start p))"
    have "P b1" using credential_for_inv [OF assms(1), of "ps_id spec" "ps_auth spec"] a(1) by simp
    then show ?thesis using a(4) eg c [OF a(2, 3)] by (rule gated)
  qed
qed

lemma chat_inv: assumes "P b" shows "P (fst (chat en duration i scopes body b))"
  unfolding chat_def
proof (rule attempt_inv [OF preflight_inv [OF assms]])
  fix p
  let ?b = "fst (preflight en i scopes body b)"
  assume p: "snd (preflight en i scopes body b) = Inr p"
  have "P (fst (send_out en (ChatRequest (client_guarded (pf_spec p)) (pf_upstream p)) ?b))"
    by (rule sent_behind_the_gate [OF assms p]) (simp, simp only: covers_gate)
  then show "P (fst (let (b2, reply) = send_out en (ChatRequest (client_guarded (pf_spec p)) (pf_upstream p)) ?b
          in case upstream_answer en reply of
               Inr raw \<Rightarrow>
                 (let normalized = translate_response (re_print en) (ps_dialect (pf_spec p)) raw
                  in attempt (broker_append en (completion_row p ''ok'' (complete_detail en p []) (output_tokens normalized) duration) b2)
                       (\<lambda>_ b3. (b3, Inr normalized)))
             | Inl e \<Rightarrow>
                 attempt (broker_append en (completion_row p ''error'' (complete_detail en p [(''error'', JStr (proxy_error_text en e))]) 0 duration) b2)
                   (\<lambda>_ b3. (b3, Inl (BrokerProxy e)))))"
    by (auto simp: Let_def intro!: row_last split: prod.split sum.split)
qed

lemma stream_complete_inv: "P b \<Longrightarrow> P (stream_complete en p status err tokens chars duration b)"
  by (simp add: stream_complete_def row)

lemma stream_answer_inv: "P b \<Longrightarrow> P (fst (stream_answer en duration gone p reads b))"
  by (simp add: stream_answer_def Let_def stream_complete_inv split: prod.split stream_end.split)

lemma chat_stream_inv: assumes "P b" shows "P (fst (chat_stream en duration gone i scopes body b))"
  unfolding chat_stream_def
proof (rule attempt_inv [OF preflight_inv [OF assms]])
  fix p
  let ?b = "fst (preflight en i scopes body b)"
  assume p: "snd (preflight en i scopes body b) = Inr p"
  have "P (fst (send_out en (StreamRequest (client_guarded (pf_spec p)) (pf_upstream p)) ?b))"
    by (rule sent_behind_the_gate [OF assms p]) (simp, simp only: covers_gate)
  then show "P (fst (let (b2, reply) = send_out en (StreamRequest (client_guarded (pf_spec p)) (pf_upstream p)) ?b;
              fail = (\<lambda>e. (stream_complete en p ''error'' (Some (proxy_error_text en e)) 0 0 duration b2, Inl (BrokerProxy e)))
          in case reply of
               NoReply e \<Rightarrow> fail (HttpFailed e)
             | Reply status reads \<Rightarrow>
                 if \<not> is_success status
                 then fail (Upstream status (cap_body (case body_bytes reads of Inl e \<Rightarrow> [] | Inr bs \<Rightarrow> utf8_lossy bs)))
                 else (let r = stream_answer en duration gone p reads b2 in (fst r, Inr (snd r)))))"
    by (auto simp: Let_def stream_complete_inv stream_answer_inv split: prod.split http_reply.split)
qed

end

locale broker_parts = broker_data +
  assumes added: "P b \<Longrightarrow>
      P (b\<lparr>bk_registry := fst (registry_add_custom (re_registry_io en) (re_parse_url en) i name url loc (bk_registry b))\<rparr>)"
    and removed: "P b \<Longrightarrow> P (b\<lparr>bk_registry := fst (registry_remove_custom (re_registry_io en) i (bk_registry b))\<rparr>)"
    and active: "P b \<Longrightarrow> P (b\<lparr>bk_active := a\<rparr>)"
begin

lemma quiet_step: assumes "P b" "\<not> generates c" "\<not> switches c" shows "P (broker_step en c b)"
proof (cases c)
  case (AddProvider i name url loc)
  with added [OF assms(1)] show ?thesis by (simp add: add_provider_def on_registry_def Let_def)
next
  case (RemoveProvider i)
  with assms(1) show ?thesis
    by (auto simp: remove_provider_def on_registry_def on_secrets_def Let_def intro!: attempt_inv removed secrets)
next
  case (SetKey i key)
  with assms(1) show ?thesis by (simp add: set_key_def on_secrets_def Let_def secrets split: sum.split)
next
  case (ClearKey i)
  with assms(1) show ?thesis by (simp add: clear_key_def on_secrets_def Let_def secrets)
next
  case (BeginLogin i bind_error challenge state)
  with assms(1) show ?thesis
    by (auto simp: broker_begin_login_def begin_login_def active split: sum.split option.split)
next
  case (FinishLogin i verifier state conns)
  with assms(1) show ?thesis
    by (auto simp: finish_login_def Let_def intro!: active complete_login_inv split: option.split callback_end.split)
next
  case (LoginGranted i)
  with assms(1) show ?thesis by (simp add: ledger_login_grant_def row)
next
  case (Logout who i)
  have "P (fst (oauth_logout en i b))"
    using assms(1) by (auto simp: oauth_logout_def Let_def intro!: cache secrets split: sum.split)
  with Logout show ?thesis by (auto simp: logout_def intro!: attempt_inv row_last)
next
  case (ListModels i)
  with list_models_inv [OF assms(1)] show ?thesis by simp
next
  case (SetOffload who scope allowed)
  with assms(3) show ?thesis by simp
next
  case (Chat duration i scopes body)
  with assms(2) show ?thesis by simp
next
  case (ChatStream duration gone i scopes body)
  with assms(2) show ?thesis by simp
qed

end

locale broker_egress = broker_parts + broker_sends
begin

lemma egress_step: assumes "P b" "\<not> switches c" shows "P (broker_step en c b)"
proof (cases "generates c")
  case False
  with assms show ?thesis by (intro quiet_step)
next
  case True
  with assms(1) show ?thesis by (cases c) (simp_all add: chat_inv chat_stream_inv)
qed

end

locale broker_inv = broker_egress +
  assumes switched: "P b \<Longrightarrow> P (b\<lparr>bk_consent := fst (consent_set (re_consent_io en) scope allowed (bk_consent b))\<rparr>)"
begin

lemma step_inv: assumes "P b" shows "P (broker_step en c b)"
proof (cases "switches c")
  case False
  with assms show ?thesis by (intro egress_step)
next
  case True
  with switched [OF assms] show ?thesis
    by (cases c) (auto simp: set_consent_def Let_def intro!: row_last split: sum.split)
qed

lemma run_inv: "P b \<Longrightarrow> P (broker_run en cs b)"
  unfolding broker_run_def by (induction cs arbitrary: b) (simp_all add: step_inv)

end

section \<open>Recorded first\<close>

text \<open>
  The audited requests in the order they left: each has a row of its own, the newest when it left, that covers it.
\<close>

definition audited_sent :: "broker \<Rightarrow> (nat \<times> egress) list" where
  "audited_sent b = filter (\<lambda>(n, e). audited e) (bk_sent b)"

definition recorded :: "remote_env \<Rightarrow> broker \<Rightarrow> bool" where
  "recorded en b \<longleftrightarrow>
     sorted_wrt (<) (map fst (audited_sent b)) \<and>
     list_all (\<lambda>(n, e). 0 < n \<and> n \<le> length (l_entries (bk_ledger b)) \<and>
       row_covers en (en_event (l_entries (bk_ledger b) ! (n - 1))) e) (audited_sent b)"

lemma row_kept: "0 < n \<Longrightarrow> n \<le> length xs \<Longrightarrow> (xs @ ys) ! (n - Suc 0) = xs ! (n - Suc 0)"
  by (cases n) (simp_all add: nth_append)

lemma recorded_more_rows:
  assumes "recorded en b" "bk_sent b' = bk_sent b" "prefix (l_entries (bk_ledger b)) (l_entries (bk_ledger b'))"
  shows "recorded en b'"
proof -
  from assms(3) obtain rows where "l_entries (bk_ledger b') = l_entries (bk_ledger b) @ rows" by (auto simp: prefix_def)
  with assms(1, 2) show ?thesis
    by (fastforce simp: recorded_def audited_sent_def list_all_iff row_kept)
qed

lemma recorded_same: "recorded en b \<Longrightarrow> bk_sent b' = bk_sent b \<Longrightarrow> bk_ledger b' = bk_ledger b \<Longrightarrow> recorded en b'"
  by (rule recorded_more_rows) auto

lemma recorded_gated:
  assumes r: "recorded en b" and a: "broker_append en e b = (b1, Inr n)" and c: "row_covers en e eg"
  shows "recorded en (fst (send_out en eg b1))"
proof -
  obtain r where b1: "l_entries (bk_ledger b1) = l_entries (bk_ledger b) @ [r]" "en_event r = e"
    using broker_append_Inr [of en e b n] a by auto
  have "bk_sent b1 = bk_sent b" using broker_append_same(6) [of en e b] a by simp
  with r b1 c show ?thesis
    by (auto simp: recorded_def audited_sent_def list_all_iff nth_append sorted_wrt_append)
      (fastforce simp: less_Suc_eq_le)+
qed

interpretation gate: broker_inv en "recorded en" for en
proof
  show "recorded en b \<Longrightarrow> recorded en (fst (broker_append en e b))" for b e
    by (erule recorded_more_rows) (simp, rule broker_append_rows)
  show "recorded en b \<Longrightarrow> recorded en (fst (send_out en (TokenRequest u ps) b))" for b u ps
    by (simp add: recorded_def audited_sent_def)
  show "recorded en b \<Longrightarrow> broker_append en (models_row en i url) b = (b1, Inr n) \<Longrightarrow>
      recorded en (fst (send_out en (ModelsRequest g url hs) b1))" for b i url b1 n g hs
    by (erule recorded_gated, assumption) auto
qed (auto intro: recorded_gated elim: recorded_same)

lemma broker_open_fields:
  "broker_open providers consent keys l = Inr b \<Longrightarrow> bk_sent b = [] \<and> bk_ledger b = l \<and>
     registry_open providers = Inr (bk_registry b) \<and> consent_open consent = Inr (bk_consent b)"
  by (auto simp: broker_open_def split: sum.splits)


definition sample_remote :: remote_env where
  "sample_remote =
     \<lparr>re_secrets_io = (\<lambda>_. IoOk), re_consent_io = (\<lambda>_. IoOk), re_registry_io = (\<lambda>_. IoOk), re_unreadable = (\<lambda>_. False),
      re_ledger_ok = (\<lambda>_. True), re_wall = int, re_now = int, re_http = (\<lambda>_ _. Reply 200 []), re_parse_url = (\<lambda>_. None),
      re_without_userinfo = (\<lambda>_. []), re_parse = (\<lambda>_. None), re_parse_bytes = (\<lambda>_. Some JNull), re_print = (\<lambda>_. ''{}''),
      re_hash = (\<lambda>_. ''h''), re_text = (\<lambda>_. []), re_stored_text = id, re_stored_refresh = (\<lambda>_. None)\<rparr>"

definition sample_broker :: broker where
  "sample_broker =
     \<lparr>bk_registry = \<lparr>rg_file = Absent, rg_custom = [], rg_writes = 0\<rparr>, bk_secrets = \<lparr>ss_files = [], ss_writes = 0\<rparr>,
      bk_consent = \<lparr>of_file = Absent, of_may = [], of_writes = 0\<rparr>, bk_cache = [], bk_active = [],
      bk_ledger = empty_ledger, bk_sent = []\<rparr>"

definition sample_body :: json where
  "sample_body = JObj [(''messages'', JArr []), (''model'', JStr ''m'')]"

definition sample_calls :: "broker_call list" where
  "sample_calls = [SetOffload ''settings'' ''prompt'' True, SetKey ''openai'' ''sk'', Chat 1 ''openai'' [''prompt''] sample_body]"


end
