(* ===== verification/Remote_Policy.thy ===== *)
theory Remote_Policy
  imports Remote_Gate
begin

text \<open>
  Who decides what leaves, and where it goes: consent, the provider rows, the address and the credential of a request.
\<close>

section \<open>Consent\<close>

lemma consent_check_ok:
  "consent_check c scopes = Inr u \<longleftrightarrow>
     (\<forall>s \<in> insert ''prompt'' (set scopes). s \<in> set OFFLOAD_SCOPES \<and> consent_allowed c s)"
proof (cases "List.find (\<lambda>s. s \<notin> set OFFLOAD_SCOPES) scopes")
  case None
  then have "\<forall>s \<in> set scopes. s \<in> set OFFLOAD_SCOPES" by (auto simp: find_None_iff)
  moreover have "''prompt'' \<in> set OFFLOAD_SCOPES" by (simp add: OFFLOAD_SCOPES_def)
  ultimately show ?thesis using None
    by (auto simp: consent_check_def Let_def filter_empty_conv)
next
  case (Some s)
  then have "consent_check c scopes = Inl (UnknownScope s)" by (simp add: consent_check_def)
  moreover from Some have "s \<in> set scopes" "s \<notin> set OFFLOAD_SCOPES" by (auto simp: find_Some_iff)
  ultimately show ?thesis by auto
qed

lemma consent_allowed_iff: "consent_allowed c s \<longleftrightarrow> map_of (of_may c) s = Some True"
  by (simp add: consent_allowed_def split: option.split)

definition contents :: "broker \<Rightarrow> (bool \<times> upstream_request) list" where
  "contents b = List.map_filter (\<lambda>(n, e). content_of e) (bk_sent b)"

lemma contents_send [simp]:
  "contents (fst (send_out en e b)) = contents b @ (case content_of e of Some up \<Rightarrow> [up] | None \<Rightarrow> [])"
  by (simp add: contents_def map_filter_def split: option.split)

lemma contents_same: "bk_sent b' = bk_sent b \<Longrightarrow> contents b' = contents b"
  by (simp add: contents_def)

interpretation quiet: broker_parts en "\<lambda>b. contents b = c" for en c
proof
  show "contents b = c \<Longrightarrow> broker_append en (models_row en i url) b = (b1, Inr n) \<Longrightarrow>
      contents (fst (send_out en (ModelsRequest g url hs) b1)) = c" for b i url b1 n g hs
    using broker_append_same(6) [of en "models_row en i url" b] by (simp add: contents_same [of b1 b])
qed (simp_all add: contents_def map_filter_def)

interpretation steady: broker_egress en "\<lambda>b. bk_consent b = c" for en c
proof
  show "bk_consent b = c \<Longrightarrow> broker_append en (models_row en i url) b = (b1, Inr n) \<Longrightarrow>
      bk_consent (fst (send_out en (ModelsRequest g url hs) b1)) = c" for b i url b1 n g hs
    using broker_append_same(3) [of en "models_row en i url" b] by simp
  show "bk_consent b = c \<Longrightarrow> broker_append en e b = (b1, Inr n) \<Longrightarrow> content_of eg \<noteq> None \<Longrightarrow> row_covers en e eg \<Longrightarrow>
      bk_consent (fst (send_out en eg b1)) = c" for b e b1 n eg
    using broker_append_same(3) [of en e b] by simp
qed simp_all

lemma set_consent_contents: "contents (fst (set_consent en who scope allowed b)) = contents b"
  by (auto simp: set_consent_def Let_def contents_def attempt_def split: sum.split)

lemma preflight_denied:
  assumes "\<not> (\<forall>s \<in> insert ''prompt'' (set scopes). s \<in> set OFFLOAD_SCOPES \<and> consent_allowed (bk_consent b) s)"
  shows "\<exists>e. snd (preflight en i scopes body b) = Inl e \<and> bk_sent (fst (preflight en i scopes body b)) = bk_sent b"
proof (cases "registry_get (bk_registry b) i")
  case (Inl e)
  then show ?thesis by (simp add: preflight_def)
next
  case (Inr spec)
  from assms obtain e where "consent_check (bk_consent b) scopes = Inl e"
    using consent_check_ok [of "bk_consent b" scopes "()"] by (cases "consent_check (bk_consent b) scopes") auto
  with Inr show ?thesis by (simp add: preflight_def Let_def attempt_def split: sum.split)
qed

fun scopes_of :: "broker_call \<Rightarrow> string list" where
  "scopes_of (Chat duration i scopes body) = ''prompt'' # scopes"
| "scopes_of (ChatStream duration gone i scopes body) = ''prompt'' # scopes"
| "scopes_of c = []"

lemma attempt_Inl: "snd r = Inl e \<Longrightarrow> attempt r k = (fst r, Inl e)"
  by (simp add: attempt_def)

lemma step_needs_consent:
  assumes "contents (broker_step en c b) \<noteq> contents b"
  shows "generates c \<and> (\<forall>s \<in> set (scopes_of c). s \<in> set OFFLOAD_SCOPES \<and> map_of (of_may (bk_consent b)) s = Some True)"
proof (cases "generates c")
  case False
  have "contents (broker_step en c b) = contents b"
  proof (cases "switches c")
    case True
    then show ?thesis by (cases c) (simp_all add: set_consent_contents)
  next
    case False
    with \<open>\<not> generates c\<close> show ?thesis by (intro quiet.quiet_step) simp_all
  qed
  with assms show ?thesis by simp
next
  case True
  have no: "contents (fst (attempt (preflight en i scopes body b) k)) = contents b"
    if off: "\<not> (\<forall>s \<in> insert ''prompt'' (set scopes). s \<in> set OFFLOAD_SCOPES \<and> consent_allowed (bk_consent b) s)" for scopes i body k
  proof -
    obtain e where "snd (preflight en i scopes body b) = Inl e" "bk_sent (fst (preflight en i scopes body b)) = bk_sent b"
      using preflight_denied [OF off] by blast
    then show ?thesis by (simp add: attempt_Inl contents_def)
  qed
  from True assms show ?thesis
  proof (cases c)
    case (Chat duration i scopes body)
    with assms no [of scopes i body] show ?thesis
      by (simp add: chat_def consent_allowed_iff) blast
  next
    case (ChatStream duration gone i scopes body)
    with assms no [of scopes i body] show ?thesis
      by (simp add: chat_stream_def consent_allowed_iff) blast
  qed simp_all
qed

text \<open>The last position the user gave a switch.\<close>

fun switch_of :: "string \<Rightarrow> broker_call \<Rightarrow> bool option \<Rightarrow> bool option" where
  "switch_of s (SetOffload who scope allowed) v = (if scope = s then Some allowed else v)"
| "switch_of s c v = v"

definition last_switch :: "string \<Rightarrow> broker_call list \<Rightarrow> bool option" where
  "last_switch s cs = fold (switch_of s) cs None"

lemma switch_step:
  assumes "s \<in> set OFFLOAD_SCOPES"
  shows "map_of (of_may (bk_consent (broker_step en c b))) s = switch_of s c (map_of (of_may (bk_consent b)) s)"
proof (cases "switches c")
  case False
  then have "bk_consent (broker_step en c b) = bk_consent b" by (intro steady.egress_step) simp_all
  moreover have "switch_of s c v = v" for v using False by (cases c) simp_all
  ultimately show ?thesis by simp
next
  case True
  then obtain who scope allowed where c: "c = SetOffload who scope allowed" by (cases c) simp_all
  have "bk_consent (fst (set_consent en who scope allowed b)) = fst (consent_set (re_consent_io en) scope allowed (bk_consent b))"
    by (auto simp: set_consent_def Let_def attempt_def split: sum.split)
  with assms c show ?thesis by (auto simp: consent_set_def Let_def)
qed

lemma switch_run:
  "s \<in> set OFFLOAD_SCOPES \<Longrightarrow>
     map_of (of_may (bk_consent (broker_run en cs b))) s = fold (switch_of s) cs (map_of (of_may (bk_consent b)) s)"
  unfolding broker_run_def by (induction cs arbitrary: b) (simp_all add: switch_step)

text \<open>
  Default deny. A broker that starts without a consent file sends user content only in answer to a completion or
  a stream, and only if for every scope that call declares, and for \<open>prompt\<close> even when it is not declared, the last
  thing the user did with that scope's switch was to turn it on.
\<close>

theorem content_leaves_only_after_opt_in:
  assumes "broker_open providers Absent keys l = Inr b0"
    and "contents (broker_run en (cs @ [c]) b0) \<noteq> contents (broker_run en cs b0)"
  shows "generates c \<and> list_all (\<lambda>s. last_switch s cs = Some True) (scopes_of c)"
proof -
  have "bk_consent b0 = \<lparr>of_file = Absent, of_may = [], of_writes = 0\<rparr>"
    using broker_open_fields [OF assms(1)] by (simp add: consent_open_def)
  then have "last_switch s cs = map_of (of_may (bk_consent (broker_run en cs b0))) s" if "s \<in> set OFFLOAD_SCOPES" for s
    using that by (simp add: last_switch_def switch_run)
  moreover have "broker_run en (cs @ [c]) b0 = broker_step en c (broker_run en cs b0)" by (simp add: broker_run_def)
  ultimately show ?thesis
    using step_needs_consent [of en c "broker_run en cs b0"] assms(2) by (simp add: list_all_iff)
qed

theorem content_leaves_only_after_opt_in_witness:
  "last_switch ''prompt'' (take 2 sample_calls) = Some True \<and>
   length (contents (broker_run sample_remote sample_calls sample_broker)) = 1"
proof -
  have o: "broker_open Absent Absent [] empty_ledger = Inr sample_broker"
    by (simp add: broker_open_def registry_open_def consent_open_def sample_broker_def)
  have n: "length (contents (broker_run sample_remote sample_calls sample_broker)) = 1"
    "length (contents (broker_run sample_remote (take 2 sample_calls) sample_broker)) = 0" by code_simp+
  have "sample_calls = take 2 sample_calls @ [Chat 1 ''openai'' [''prompt''] sample_body]" by (simp add: sample_calls_def)
  with content_leaves_only_after_opt_in [OF o, of sample_remote "take 2 sample_calls" "Chat 1 ''openai'' [''prompt''] sample_body"] n
  show ?thesis by force
qed

text \<open>What a refusal leaves behind.\<close>

definition denied_row :: "remote_env \<Rightarrow> provider_spec \<Rightarrow> string list \<Rightarrow> json \<Rightarrow> consent_error \<Rightarrow> event" where
  "denied_row en spec scopes body e =
     (gate_row en spec scopes body)
       \<lparr>ev_status := ''denied'',
        ev_detail := re_print en (json_object [(''egress'', JStr ''remote''), (''provider'', JStr (ps_id spec)),
          (''scopes'', json_strs scopes), (''reason'', JStr (consent_error_text e))])\<rparr>"

text \<open>
  C25. Refusals are recorded. For a known provider and a scope that is off, a completion and a stream alike send
  nothing at all (no token refresh either), fail, and append the denied row; nothing but the ledger changes.
\<close>

theorem refused_content_is_recorded:
  assumes "registry_get (bk_registry b) i = Inr spec" "consent_check (bk_consent b) scopes = Inl e"
  shows "fst (chat en duration i scopes body b) = fst (broker_append en (denied_row en spec scopes body e) b) \<and>
    chat_stream en duration gone i scopes body b =
      (fst (chat en duration i scopes body b), map_sum id (\<lambda>v. []) (snd (chat en duration i scopes body b))) \<and>
    snd (chat en duration i scopes body b) = Inl
      (case snd (broker_append en (denied_row en spec scopes body e) b) of Inl x \<Rightarrow> x | Inr n \<Rightarrow> BrokerConsent e)"
proof -
  let ?a = "broker_append en (denied_row en spec scopes body e) b"
  have "preflight en i scopes body b = attempt ?a (\<lambda>_ b1. (b1, Inl (BrokerConsent e)))"
    using assms by (simp add: preflight_def Let_def denied_row_def gate_row_def remote_event_def)
  then have "snd (preflight en i scopes body b) = Inl (case snd ?a of Inl x \<Rightarrow> x | Inr n \<Rightarrow> BrokerConsent e) \<and>
      fst (preflight en i scopes body b) = fst ?a"
    by (cases "snd ?a") (simp_all add: attempt_def)
  then show ?thesis by (simp add: chat_def chat_stream_def attempt_Inl)
qed

theorem refused_content_is_recorded_witness:
  "fst (chat sample_remote 1 ''openai'' [''mail''] sample_body sample_broker) =
     fst (broker_append sample_remote (denied_row sample_remote (hd builtin_providers) [''mail''] sample_body
       (ScopesDenied [''mail'', ''prompt''])) sample_broker)"
proof -
  have "registry_get (bk_registry sample_broker) ''openai'' = Inr (hd builtin_providers)" by code_simp
  moreover have "consent_check (bk_consent sample_broker) [''mail''] = Inl (ScopesDenied [''mail'', ''prompt''])" by code_simp
  ultimately show ?thesis by (rule refused_content_is_recorded [THEN conjunct1])
qed

end
