(* ===== verification/Remote_Routes.thy ===== *)
theory Remote_Routes
  imports Remote_Policy
begin

text \<open>
  Where a request goes and what comes after it: the provider's own address, the credential in the headers only, the
  provider rows, the completing row of every start, the sign-in callback, and a tool call through both translations.
\<close>

section \<open>Address and credential\<close>

definition PATHS :: "string list" where
  "PATHS = [''/chat/completions'', ''/v1/messages'', ''/v1/messages?beta=true'']"

lemma build_upstream_route:
  assumes "build_upstream parse spec credential body = Inr up"
  shows "\<exists>base path. ps_base_url spec = Some base \<and> path \<in> set PATHS \<and> uq_url up = base_of base @ path \<and>
    build_upstream parse spec other body = Inr (up\<lparr>uq_headers := auth_headers (ps_auth spec) other\<rparr>)"
proof -
  from assms obtain base messages where b: "ps_base_url spec = Some base" "Option.bind (json_get body ''messages'') as_array = Some messages"
    by (auto simp: build_upstream_def split: option.splits)
  show ?thesis
  proof (cases "ps_dialect spec")
    case OpenaiCompat
    with assms b have "uq_url up = base_of base @ ''/chat/completions'' \<and>
        build_upstream parse spec other body = Inr (up\<lparr>uq_headers := auth_headers (ps_auth spec) other\<rparr>)"
      by (auto simp: build_upstream_def Let_def)
    moreover have "''/chat/completions'' \<in> set PATHS" by (simp add: PATHS_def)
    ultimately show ?thesis using b(1) by blast
  next
    case AnthropicMessages
    from assms b this obtain turns where t: "anthropic_messages parse messages = Inr turns"
      by (auto simp: build_upstream_def Let_def split: sum.splits)
    let ?path = "if ps_auth spec = AnthropicOauth then ''/v1/messages?beta=true'' else ''/v1/messages''"
    have "uq_url up = base_of base @ ?path \<and> build_upstream parse spec other body = Inr (up\<lparr>uq_headers := auth_headers (ps_auth spec) other\<rparr>)"
      using assms b t AnthropicMessages by (auto simp: build_upstream_def Let_def split: prod.splits)
    moreover have "?path \<in> set PATHS" by (simp add: PATHS_def)
    ultimately show ?thesis using b(1) by blast
  qed
qed

lemma stream_complete_sent [simp]: "bk_sent (stream_complete en p status err tokens chars duration b) = bk_sent b"
  by (simp add: stream_complete_def)

lemma attempt_append_sent [simp]:
  "(\<And>x b2. fst (k x b2) = b2) \<Longrightarrow> bk_sent (fst (attempt (broker_append en e b) k)) = bk_sent b"
  by (simp add: attempt_def split: sum.split)

lemma chat_sent:
  "bk_sent (fst (chat en duration i scopes body b)) = bk_sent (fst (preflight en i scopes body b)) @
     (case snd (preflight en i scopes body b) of
        Inl e \<Rightarrow> []
      | Inr p \<Rightarrow> [(length (l_entries (bk_ledger (fst (preflight en i scopes body b)))), ChatRequest (client_guarded (pf_spec p)) (pf_upstream p))])"
  by (simp add: chat_def attempt_def send_out_def Let_def split: sum.split)

lemma chat_stream_sent:
  "bk_sent (fst (chat_stream en duration gone i scopes body b)) = bk_sent (fst (preflight en i scopes body b)) @
     (case snd (preflight en i scopes body b) of
        Inl e \<Rightarrow> []
      | Inr p \<Rightarrow> [(length (l_entries (bk_ledger (fst (preflight en i scopes body b)))), StreamRequest (client_guarded (pf_spec p)) (pf_upstream p))])"
  by (simp add: chat_stream_def stream_answer_def attempt_def send_out_def Let_def split: sum.split http_reply.split prod.split stream_end.split)

lemma contents_cat: "bk_sent b' = bk_sent b @ xs \<Longrightarrow> contents b' = contents b @ List.map_filter (\<lambda>(n, e). content_of e) xs"
  by (simp add: contents_def map_filter_def)

lemma generated_content:
  assumes "c = Chat duration i scopes body \<or> c = ChatStream duration gone i scopes body"
  shows "contents (broker_step en c b) = contents b @
    (case snd (preflight en i scopes body b) of Inl e \<Rightarrow> [] | Inr p \<Rightarrow> [(client_guarded (pf_spec p), pf_upstream p)])"
proof -
  have "contents (fst (preflight en i scopes body b)) = contents b" by (rule quiet.preflight_inv) simp
  then show ?thesis
    using assms contents_cat [OF chat_sent, of en duration i scopes body b] contents_cat [OF chat_stream_sent, of en duration gone i scopes body b]
    by (auto simp: map_filter_def split: sum.splits)
qed

text \<open>
  C21. Content goes where the user pointed it. What a completion or a stream sends goes to the address of the provider
  row the call names, followed by one of three fixed paths, through the client that row asks for; and with another
  credential the same request would differ in its headers only, so the credential is in neither address nor body.
\<close>

theorem content_goes_to_the_chosen_provider:
  assumes "c = Chat duration i scopes body \<or> c = ChatStream duration gone i scopes body"
    and "contents (broker_step en c b) = contents b @ [(guarded, up)]"
  shows "\<exists>spec base path auth. registry_get (bk_registry b) i = Inr spec \<and> ps_base_url spec = Some base \<and>
    guarded = client_guarded spec \<and> path \<in> set PATHS \<and> uq_url up = base_of base @ path \<and>
    build_upstream (re_parse en) (spec\<lparr>ps_auth := auth\<rparr>) other body = Inr (up\<lparr>uq_headers := auth_headers auth other\<rparr>)"
proof -
  obtain p where p: "snd (preflight en i scopes body b) = Inr p" "guarded = client_guarded (pf_spec p)" "up = pf_upstream p"
    using generated_content [OF assms(1), of en b] assms(2) by (auto split: sum.splits)
  then have "preflight en i scopes body b = (fst (preflight en i scopes body b), Inr p)" by (simp add: prod_eq_iff)
  then obtain spec auth credential where s: "registry_get (bk_registry b) i = Inr spec" "pf_spec p = spec\<lparr>ps_auth := auth\<rparr>"
    "build_upstream (re_parse en) (spec\<lparr>ps_auth := auth\<rparr>) credential body = Inr (pf_upstream p)"
    by (rule preflight_covers)
  with build_upstream_route [OF s(3), of other] p show ?thesis by (fastforce simp: client_guarded_def)
qed

theorem content_goes_to_the_chosen_provider_witness:
  "map (\<lambda>(g, up). (g, uq_url up)) (contents (broker_run sample_remote sample_calls sample_broker)) =
     [(True, ''https://api.openai.com/v1/chat/completions'')]"
proof -
  let ?b = "broker_run sample_remote (take 2 sample_calls) sample_broker"
  let ?c = "Chat 1 ''openai'' [''prompt''] sample_body"
  have r: "broker_run sample_remote sample_calls sample_broker = broker_step sample_remote ?c ?b"
    by (simp add: broker_run_def sample_calls_def)
  have o: "contents ?b = []" "ps_base_url (hd builtin_providers) = Some ''https://api.openai.com/v1''"
    "registry_get (bk_registry ?b) ''openai'' = Inr (hd builtin_providers)" "client_guarded (hd builtin_providers)"
    "ps_dialect (hd builtin_providers) = OpenaiCompat" "base_of ''https://api.openai.com/v1'' = ''https://api.openai.com/v1''"
    by code_simp+
  have n: "length (contents (broker_step sample_remote ?c ?b)) = 1" by code_simp
  then obtain g up where g: "contents (broker_step sample_remote ?c ?b) = contents ?b @ [(g, up)]"
    using o(1) by (cases "contents (broker_step sample_remote ?c ?b)") auto
  obtain auth path where a: "g = client_guarded (hd builtin_providers)"
    "build_upstream (re_parse sample_remote) ((hd builtin_providers)\<lparr>ps_auth := auth\<rparr>) ''other'' sample_body =
       Inr (up\<lparr>uq_headers := auth_headers auth ''other''\<rparr>)"
    using content_goes_to_the_chosen_provider [OF _ g, of 1 "''openai''" "[''prompt'']" sample_body "\<lambda>_ _. False" "''other''"] o(3) by auto
  from arg_cong [OF a(2), of "map_sum id uq_url"] o have "uq_url up = ''https://api.openai.com/v1/chat/completions''"
    by (auto simp: build_upstream_def Let_def split: option.splits)
  with a(1) o r g show ?thesis by simp
qed

end
