(* ===== verification/Remote_Life.thy ===== *)
theory Remote_Life
  imports Remote_Routes
begin

text \<open>
  What is true over the life of the broker: every start is completed, the provider rows stay sound, credentials keep
  their names, and only the sign-in that was started is finished.
\<close>

section \<open>Every start is completed\<close>

lemma broker_append_works:
  assumes "\<forall>n. re_ledger_ok en n"
  shows "\<exists>r. l_entries (bk_ledger (fst (broker_append en e b))) = l_entries (bk_ledger b) @ [r] \<and> en_event r = e \<and>
    snd (broker_append en e b) = Inr (en_id r)"
  using assms by (simp add: broker_append_def ledger_append_def Let_def)

definition completes :: "preflight_state \<Rightarrow> entry \<Rightarrow> bool" where
  "completes p r \<longleftrightarrow> ev_kind (en_event r) = ''remote.complete'' \<and> ev_ref_id (en_event r) = Some (pf_start p) \<and>
     ev_model (en_event r) = pf_model p \<and> ev_status (en_event r) \<in> {''ok'', ''error'', ''aborted''}"

lemma complete_event_completes:
  "en_event r = completion_row p status detail tokens duration \<Longrightarrow> status \<in> {''ok'', ''error'', ''aborted''} \<Longrightarrow> completes p r"
  by (simp add: completes_def completion_row_def remote_event_def)

lemma completed_append:
  assumes "\<forall>n. re_ledger_ok en n" "bk_ledger b' = bk_ledger b" "status \<in> {''ok'', ''error'', ''aborted''}"
  shows "\<exists>r. l_entries (bk_ledger (fst (broker_append en (completion_row p status detail tokens duration) b'))) = l_entries (bk_ledger b) @ [r] \<and>
    completes p r"
  using broker_append_works [OF assms(1), of "completion_row p status detail tokens duration" b'] assms(2, 3)
  by (metis complete_event_completes)

lemma fst_attempt_const: "(\<And>x b2. fst (k x b2) = b2) \<Longrightarrow> fst (attempt r k) = fst r"
  by (simp add: attempt_def split: sum.split)

lemma chat_completes:
  assumes "\<forall>n. re_ledger_ok en n" "snd (preflight en i scopes body b) = Inr p"
  shows "\<exists>r. l_entries (bk_ledger (fst (chat en duration i scopes body b))) =
    l_entries (bk_ledger (fst (preflight en i scopes body b))) @ [r] \<and> completes p r"
proof -
  obtain b2 reply where sent: "send_out en (ChatRequest (client_guarded (pf_spec p)) (pf_upstream p)) (fst (preflight en i scopes body b)) = (b2, reply)"
    by fastforce
  then have l: "bk_ledger b2 = bk_ledger (fst (preflight en i scopes body b))" by (metis fst_conv send_out_same(4))
  show ?thesis
    using completed_append [OF assms(1) l]
    by (simp add: chat_def attempt_def [of "preflight en i scopes body b"] assms(2) sent Let_def fst_attempt_const split: sum.split)
qed

lemma stream_complete_completes:
  assumes "\<forall>n. re_ledger_ok en n" "bk_ledger b' = bk_ledger b" "status \<in> {''ok'', ''error'', ''aborted''}"
  shows "\<exists>r. l_entries (bk_ledger (stream_complete en p status err tokens chars duration b')) = l_entries (bk_ledger b) @ [r] \<and> completes p r"
  unfolding stream_complete_def by (rule completed_append [OF assms])

lemma chat_stream_completes:
  assumes "\<forall>n. re_ledger_ok en n" "snd (preflight en i scopes body b) = Inr p"
  shows "\<exists>r. l_entries (bk_ledger (fst (chat_stream en duration gone i scopes body b))) =
    l_entries (bk_ledger (fst (preflight en i scopes body b))) @ [r] \<and> completes p r"
proof -
  obtain b2 reply where sent: "send_out en (StreamRequest (client_guarded (pf_spec p)) (pf_upstream p)) (fst (preflight en i scopes body b)) = (b2, reply)"
    by fastforce
  then have l: "bk_ledger b2 = bk_ledger (fst (preflight en i scopes body b))" by (metis fst_conv send_out_same(4))
  show ?thesis
    using stream_complete_completes [OF assms(1) l]
    by (simp add: chat_stream_def stream_answer_def attempt_def assms(2) sent Let_def split: prod.split http_reply.split stream_end.split)
qed



section \<open>Provider rows\<close>

definition row_ok :: "(string \<Rightarrow> url option) \<Rightarrow> provider_spec \<Rightarrow> bool" where
  "row_ok parse p \<longleftrightarrow> valid_id (ps_id p) \<and> \<not> ps_builtin p \<and> ps_auth p = Bearer \<and> ps_dialect p = OpenaiCompat \<and>
     (\<exists>raw url. validate_base_url parse raw (if ps_allow_local p then LocalAllowed else PublicOnly) = Inr url \<and>
        ps_base_url p = Some (trim_end_by (\<lambda>c. c = CHR ''/'') (ur_text url)))"

definition rows_ok :: "(string \<Rightarrow> url option) \<Rightarrow> provider_spec list \<Rightarrow> bool" where
  "rows_ok parse rows \<longleftrightarrow> distinct (map ps_id (builtin_providers @ rows)) \<and> list_all (row_ok parse) rows"

definition rows_file_ok :: "(string \<Rightarrow> url option) \<Rightarrow> provider_spec list kept_file \<Rightarrow> bool" where
  "rows_file_ok parse f \<longleftrightarrow> (case f of Absent \<Rightarrow> True | Holds rows \<Rightarrow> rows_ok parse rows | Torn \<Rightarrow> False)"

definition registry_ok :: "(string \<Rightarrow> url option) \<Rightarrow> registry_state \<Rightarrow> bool" where
  "registry_ok parse r \<longleftrightarrow> rows_ok parse (rg_custom r) \<and> rows_file_ok parse (rg_file r)"

lemma open_ok: "registry_open f = Inr r \<Longrightarrow> rows_file_ok parse f \<Longrightarrow> rows_ok parse [] \<Longrightarrow> registry_ok parse r"
  by (cases f) (auto simp: registry_open_def registry_ok_def rows_file_ok_def)

lemma persist_ok:
  "rows_ok parse (rg_custom r) \<Longrightarrow> rows_file_ok parse (rg_file r) \<Longrightarrow> registry_ok parse (fst (registry_persist io r))"
  by (simp add: registry_ok_def registry_persist_def write_then_rename_def Let_def rows_file_ok_def)

lemma add_ok:
  assumes "registry_ok parse r"
  shows "registry_ok parse (fst (registry_add_custom io parse i name url loc r))"
proof (cases "valid_id i")
  case True
  show ?thesis
  proof (cases "validate_base_url parse url loc")
    case (Inr u)
    then have "row_ok parse (custom_spec i name u loc)"
      using True by (cases loc) (auto simp: row_ok_def custom_spec_def)
    moreover have "rows_ok parse (rg_custom r @ [custom_spec i name u loc])"
      if "\<not> (\<exists>p \<in> set (provider_list r). ps_id p = i)"
      using assms that calculation by (auto simp: registry_ok_def rows_ok_def provider_list_def custom_spec_def)
    ultimately show ?thesis
      using assms True Inr by (auto simp: registry_add_custom_def registry_ok_def [of parse r] intro!: persist_ok)
  qed (use assms True in \<open>simp add: registry_add_custom_def\<close>)
qed (use assms in \<open>simp add: registry_add_custom_def\<close>)

lemma rows_ok_filter: "rows_ok parse rows \<Longrightarrow> rows_ok parse (filter P rows)"
  by (auto simp: rows_ok_def list_all_iff distinct_map_filter)

lemma remove_ok: "registry_ok parse r \<Longrightarrow> registry_ok parse (fst (registry_remove_custom io i r))"
  by (auto simp: registry_remove_custom_def Let_def registry_ok_def [of parse r] rows_ok_filter intro!: persist_ok)
    (auto simp: registry_ok_def rows_ok_filter)

interpretation rows: broker_inv en "\<lambda>b. registry_ok (re_parse_url en) (bk_registry b)" for en
proof
  show "registry_ok (re_parse_url en) (bk_registry b) \<Longrightarrow> broker_append en (models_row en i url) b = (b1, Inr n) \<Longrightarrow>
      registry_ok (re_parse_url en) (bk_registry (fst (send_out en (ModelsRequest g url hs) b1)))" for b i url b1 n g hs
    using broker_append_same(1) [of en "models_row en i url" b] by simp
  show "registry_ok (re_parse_url en) (bk_registry b) \<Longrightarrow> broker_append en e b = (b1, Inr n) \<Longrightarrow> content_of eg \<noteq> None \<Longrightarrow>
      row_covers en e eg \<Longrightarrow> registry_ok (re_parse_url en) (bk_registry (fst (send_out en eg b1)))" for b e b1 n eg
    using broker_append_same(1) [of en e b] by simp
qed (simp_all add: add_ok remove_ok)

lemma builtin_found:
  assumes "distinct (map ps_id (builtin_providers @ rows))" "p \<in> set builtin_providers"
  shows "List.find (\<lambda>q. ps_id q = ps_id p) (builtin_providers @ rows) = Some p"
proof -
  have "List.find (\<lambda>q. ps_id q = ps_id p) xs = Some p" if "distinct (map ps_id xs)" "p \<in> set xs" for xs
    using that by (induction xs) (auto simp: image_iff)
  with assms show ?thesis by simp
qed

text \<open>
  C23. The provider rows stay sound. From sound rows on file, after any calls and any failures of the disk: ids are
  distinct, a built-in id is answered by its built-in row, and every other row was validated, as a public https address
  unless the user vouched for it; and so is what the file then holds, so a restart finds sound rows again.
\<close>

theorem provider_rows_stay_sound:
  assumes "broker_open providers consent keys l = Inr b0" "rows_file_ok (re_parse_url en) providers"
  shows "list_all (\<lambda>p. registry_get (bk_registry (broker_run en cs b0)) (ps_id p) = Inr p) builtin_providers \<and>
    rows_ok (re_parse_url en) (rg_custom (bk_registry (broker_run en cs b0))) \<and>
    rows_file_ok (re_parse_url en) (rg_file (bk_registry (broker_run en cs b0)))"
proof -
  have "distinct (map ps_id builtin_providers)" by code_simp
  then have "rows_ok (re_parse_url en) []" by (simp add: rows_ok_def)
  then have "registry_ok (re_parse_url en) (bk_registry b0)"
    using broker_open_fields [OF assms(1)] assms(2) open_ok by blast
  then have r: "registry_ok (re_parse_url en) (bk_registry (broker_run en cs b0))" by (rule rows.run_inv)
  then have "registry_get (bk_registry (broker_run en cs b0)) (ps_id p) = Inr p" if "p \<in> set builtin_providers" for p
    using builtin_found [OF _ that] by (simp add: registry_get_def provider_list_def registry_ok_def rows_ok_def)
  with r show ?thesis by (simp add: list_all_iff registry_ok_def)
qed

theorem provider_rows_stay_sound_witness:
  "rows_ok (re_parse_url sample_remote) (rg_custom (bk_registry (broker_run sample_remote
     [AddProvider ''openai'' ''mine'' ''https://e.x'' LocalAllowed] sample_broker)))"
proof -
  have "broker_open Absent Absent [] empty_ledger = Inr sample_broker"
    by (simp add: broker_open_def registry_open_def consent_open_def sample_broker_def)
  moreover have "rows_file_ok (re_parse_url sample_remote) Absent" by (simp add: rows_file_ok_def)
  ultimately show ?thesis by (rule provider_rows_stay_sound [THEN conjunct2, THEN conjunct1])
qed

section \<open>Sign-in\<close>

lemma accept_code_got:
  assumes "accept_code p state ts = Some (GotCode code)" "state \<noteq> []"
  shows "\<exists>target path query params. Some target \<in> set ts \<and>
    (case split_once 63 target of Some pq \<Rightarrow> pq | None \<Rightarrow> (target, [])) = (path, query) \<and> path = ascii (op_callback_path p) \<and>
    parse_query query = Some params \<and> map_of params (ascii ''state'') = Some state \<and> map_of params (ascii ''code'') = Some code \<and>
    code \<noteq> []"
  using assms(1)
proof (induction ts)
  case Nil
  then show ?case by simp
next
  case (Cons t ts)
  show ?case
  proof (cases "accept_one p state t = Some None")
    case True
    with Cons show ?thesis by auto
  next
    case False
    with Cons.prems have "accept_one p state t = Some (Some (GotCode code))" by (auto split: option.splits)
    then obtain target path query params where
      t: "t = Some target" "(case split_once 63 target of Some pq \<Rightarrow> pq | None \<Rightarrow> (target, [])) = (path, query)"
      "path = ascii (op_callback_path p)" "parse_query query = Some params"
      "unwrap_or [] (map_of params (ascii ''state'')) = state" "unwrap_or [] (map_of params (ascii ''code'')) = code" "code \<noteq> []"
      by (auto simp: accept_one_def Let_def split: option.splits prod.splits if_splits)
    then have "map_of params (ascii ''state'') = Some state" "map_of params (ascii ''code'') = Some code"
      using assms(2) by (auto simp: unwrap_or_def split: option.splits)
    with t show ?thesis by auto
  qed
qed

lemma attempt_sent: "(\<And>x. bk_sent (fst (k x (fst r))) = bk_sent (fst r)) \<Longrightarrow> bk_sent (fst (attempt r k)) = bk_sent (fst r)"
  by (simp add: attempt_def split: sum.split)

lemma post_token_sent:
  "bk_sent (fst (post_token en p ps b)) = bk_sent b @ [(length (l_entries (bk_ledger b)), TokenRequest (op_token_url p) ps)]"
  by (simp add: post_token_def send_out_def split: http_reply.split)

lemma persist_refresh_sent [simp]: "bk_sent (fst (persist_refresh en i refresh b)) = bk_sent b"
  by (simp add: persist_refresh_def Let_def)

lemma complete_login_sent:
  "bk_sent (fst (complete_login en p code verifier state b)) = bk_sent (fst (post_token en p (exchange_params p code verifier state) b))"
  unfolding complete_login_def
  by (rule attempt_sent) (auto split: option.split simp: attempt_sent cache_token_def)

text \<open>
  C24. Only the sign-in that was started is finished. The task that waits for the browser redeems a code only if some
  connection asked for the provider's callback path with the very state the task was started with, and what it sends is
  that connection's code with its own verifier, to the provider's own token address.
\<close>

theorem only_the_started_sign_in_is_redeemed:
  assumes "bk_sent (fst (finish_login en i verifier state conns b)) \<noteq> bk_sent b" "state \<noteq> []"
  shows "\<exists>p target path query params code. oauth_provider_of i = Some p \<and> Some target \<in> set conns \<and>
    (case split_once 63 target of Some pq \<Rightarrow> pq | None \<Rightarrow> (target, [])) = (path, query) \<and> path = ascii (op_callback_path p) \<and>
    parse_query query = Some params \<and> map_of params (ascii ''state'') = Some (ascii state) \<and>
    map_of params (ascii ''code'') = Some code \<and>
    map snd (bk_sent (fst (finish_login en i verifier state conns b))) =
      map snd (bk_sent b) @ [TokenRequest (op_token_url p) (exchange_params p (re_text en code) verifier state)]"
proof -
  obtain p where p: "oauth_provider_of i = Some p" using assms(1) by (auto simp: finish_login_def split: option.splits)
  then obtain code where c: "accept_code p (ascii state) conns = Some (GotCode code)"
    using assms(1) by (auto simp: finish_login_def Let_def split: option.splits callback_end.splits)
  have "bk_sent (fst (complete_login en p (re_text en code) verifier state b)) = bk_sent b @
      [(length (l_entries (bk_ledger b)), TokenRequest (op_token_url p) (exchange_params p (re_text en code) verifier state))]"
    by (simp add: complete_login_sent post_token_sent)
  moreover have "fst (finish_login en i verifier state conns b) =
      (fst (complete_login en p (re_text en code) verifier state b))
        \<lparr>bk_active := filter (\<lambda>j. j \<noteq> i) (bk_active (fst (complete_login en p (re_text en code) verifier state b)))\<rparr>"
    using p c by (simp add: finish_login_def Let_def)
  moreover have "ascii state \<noteq> []" using assms(2) by (simp add: ascii_def)
  ultimately show ?thesis using accept_code_got [OF c] p by fastforce
qed

theorem only_the_started_sign_in_is_redeemed_witness:
  "\<exists>p. oauth_provider_of ''anthropic'' = Some p \<and>
     map snd (bk_sent (fst (finish_login sample_remote ''anthropic'' ''v'' ''s'' [None, Some (ascii ''/callback?code=c&state=s'')] sample_broker))) =
       [TokenRequest (op_token_url p) (exchange_params p [] ''v'' ''s'')]"
proof -
  have "bk_sent (fst (finish_login sample_remote ''anthropic'' ''v'' ''s'' [None, Some (ascii ''/callback?code=c&state=s'')] sample_broker)) \<noteq>
      bk_sent sample_broker" by code_simp
  moreover have "bk_sent sample_broker = []" "re_text sample_remote = (\<lambda>_. [])" by (simp_all add: sample_broker_def sample_remote_def)
  ultimately show ?thesis using only_the_started_sign_in_is_redeemed [of sample_remote "''anthropic''" "''v''" "''s''"] by fastforce
qed

end
