(* ===== verification/Remote_Surface.thy ===== *)
theory Remote_Surface
  imports Remote_Life Peer_App
begin

text \<open>
  The two surfaces of the broker: the unix socket (\<open>api.rs\<close>) and the session bus (\<open>dbus.rs\<close>) of
  \<open>daemons/remoted/src\<close>. Both ask \<open>lisa-peer\<close> who calls before anything that changes a setting.
\<close>

section \<open>Callers\<close>

record remote_surface =
  su_us :: "32 word"
  su_exe :: "peer \<Rightarrow> string option"
  su_canon :: "path \<Rightarrow> path option"
  su_managers :: "path list"

text \<open>\<open>Manager::authorize\<close>: the label is the file name of the program that earned it.\<close>

definition manager_authorize :: "bool \<Rightarrow> path option \<Rightarrow> path list \<Rightarrow> manager_refusal + string" where
  "manager_authorize same_user exe managers =
     map_sum id (\<lambda>u. unwrap_or ''unknown'' (Option.bind exe file_name)) (may_manage same_user exe managers)"

text \<open>\<open>None\<close> is a request without a resolved peer.\<close>

definition manager_of :: "remote_surface \<Rightarrow> peer option \<Rightarrow> string option" where
  "manager_of su caller =
     (case caller of
        None \<Rightarrow> None
      | Some p \<Rightarrow>
          (case manager_authorize (is_same_user_as_us (su_us su) p) (map_option path_components (su_exe su p))
                  (resolve_managers (su_canon su) (su_managers su)) of
             Inl why \<Rightarrow> None
           | Inr label \<Rightarrow> Some label))"

text \<open>\<open>unix::peer_of_socket\<close>, from what the kernel says of the connection.\<close>

definition peer_of_socket :: "(32 word) option \<Rightarrow> (32 word) option \<Rightarrow> nat option \<Rightarrow> peer" where
  "peer_of_socket uid pid fd =
     \<lparr>peer_conn = Direct, peer_uid = uid, peer_pid = Option.bind uid (\<lambda>u. if pid = Some 0 then None else pid), peer_fd = fd\<rparr>"

section \<open>Requests\<close>

datatype remote_request =
    HttpChat "string option" "string option" int "nat \<Rightarrow> nat \<Rightarrow> bool" json
  | HttpAddProvider string string string bool
  | DbusAddProvider string string string
  | RemoveProviderRequest string
  | SetKeyRequest string string
  | ClearKeyRequest string
  | SetConsentRequest string bool
  | BeginLoginRequest string "string option" string string
  | LogoutRequest string
  | ListModelsRequest string

definition header_scopes :: "string option \<Rightarrow> string list" where
  "header_scopes h =
     (case h of None \<Rightarrow> [] | Some s \<Rightarrow> filter (\<lambda>t. t \<noteq> []) (map trim (split_on (\<lambda>c. c = CHR '','') s)))"

definition managed :: "remote_surface \<Rightarrow> peer option \<Rightarrow> (string \<Rightarrow> broker_call) \<Rightarrow> broker_call option" where
  "managed su caller call = map_option call (manager_of su caller)"

text \<open>
  The call a request becomes; \<open>None\<close>: it is answered with a refusal (403, 400, AccessDenied) and nothing else
  happens. The data plane and the model list ask for no manager.
\<close>

fun admitted_call :: "remote_surface \<Rightarrow> peer option \<Rightarrow> remote_request \<Rightarrow> broker_call option" where
  "admitted_call su caller (HttpChat provider scopes duration gone body) =
     map_option (\<lambda>i. if unwrap_or False (as_bool (json_at body ''stream''))
                     then ChatStream duration gone i (header_scopes scopes) body
                     else Chat duration i (header_scopes scopes) body) provider"
| "admitted_call su caller (HttpAddProvider i name url allow_local) =
     managed su caller (\<lambda>who. AddProvider i name url (if allow_local then LocalAllowed else PublicOnly))"
| "admitted_call su caller (DbusAddProvider i name url) = managed su caller (\<lambda>who. AddProvider i name url PublicOnly)"
| "admitted_call su caller (RemoveProviderRequest i) = managed su caller (\<lambda>who. RemoveProvider i)"
| "admitted_call su caller (SetKeyRequest i key) = managed su caller (\<lambda>who. SetKey i key)"
| "admitted_call su caller (ClearKeyRequest i) = managed su caller (\<lambda>who. ClearKey i)"
| "admitted_call su caller (SetConsentRequest scope allowed) = managed su caller (\<lambda>who. SetOffload who scope allowed)"
| "admitted_call su caller (BeginLoginRequest i bind_error challenge state) =
     managed su caller (\<lambda>who. BeginLogin i bind_error challenge state)"
| "admitted_call su caller (LogoutRequest i) = managed su caller (\<lambda>who. Logout who i)"
| "admitted_call su caller (ListModelsRequest i) = Some (ListModels i)"

text \<open>
  What the daemon sees: requests, and the end of a sign-in task, whose success the bus surface records
  (\<open>spawn_login_signal\<close>).
\<close>

datatype remote_happening =
    Asked "peer option" remote_request
  | SignInDone string string string "bytes option list"

definition calls_of :: "remote_surface \<Rightarrow> remote_env \<Rightarrow> remote_happening \<Rightarrow> broker \<Rightarrow> broker_call list" where
  "calls_of su en h b =
     (case h of
        Asked caller r \<Rightarrow> (case admitted_call su caller r of None \<Rightarrow> [] | Some c \<Rightarrow> [c])
      | SignInDone i verifier state conns \<Rightarrow>
          FinishLogin i verifier state conns #
          (if snd (finish_login en i verifier state conns b) = Some (Inr ()) then [LoginGranted i] else []))"

definition surface_step :: "remote_surface \<Rightarrow> remote_env \<Rightarrow> remote_happening \<Rightarrow> broker \<Rightarrow> broker" where
  "surface_step su en h b = broker_run en (calls_of su en h b) b"

definition surface_run :: "remote_surface \<Rightarrow> remote_env \<Rightarrow> remote_happening list \<Rightarrow> broker \<Rightarrow> broker" where
  "surface_run su en hs b = fold (surface_step su en) hs b"

text \<open>The status of an error on the socket.\<close>

definition error_status :: "broker_error \<Rightarrow> nat" where
  "error_status e =
     (case e of
        BrokerConsent (ScopesDenied ss) \<Rightarrow> 403
      | BrokerConsent (UnknownScope s) \<Rightarrow> 400
      | BrokerRegistry (UnknownProvider i) \<Rightarrow> 404
      | BrokerRegistry x \<Rightarrow> 400
      | BrokerSecrets (Missing i) \<Rightarrow> 412
      | BrokerOauth (NotCapable i) \<Rightarrow> 400
      | BrokerOauth (ReauthRequired l) \<Rightarrow> 401
      | BrokerOauth (SignInProgress l) \<Rightarrow> 409
      | BrokerOauth x \<Rightarrow> 502
      | BrokerProxy BadRequest \<Rightarrow> 400
      | BrokerProxy (Upstream s b) \<Rightarrow> 502
      | BrokerLedger x \<Rightarrow> 503
      | _ \<Rightarrow> 500)"

text \<open>\<open>providers_json\<close> and \<open>consent_json\<close>: what a read shows of a provider, never a credential.\<close>

definition auth_text :: "auth_style \<Rightarrow> string" where
  "auth_text a = (case a of Bearer \<Rightarrow> ''bearer'' | AnthropicApiKey \<Rightarrow> ''anthropic-api-key'' | AnthropicOauth \<Rightarrow> ''anthropic-oauth'')"

definition dialect_text :: "dialect \<Rightarrow> string" where
  "dialect_text d = (case d of OpenaiCompat \<Rightarrow> ''openai-compat'' | AnthropicMessages \<Rightarrow> ''anthropic-messages'')"

definition providers_json :: "remote_env \<Rightarrow> broker \<Rightarrow> json" where
  "providers_json en b =
     json_object [(''providers'', JArr (map (\<lambda>p.
       let oauth_capable = is_capable (ps_id p);
           conn = (oauth_capable \<and> connected en (ps_id p) b);
           has_key = secrets_has (ps_id p) (bk_secrets b)
       in json_object
            [(''id'', JStr (ps_id p)), (''display_name'', JStr (ps_name p)), (''base_url'', json_opt JStr (ps_base_url p)),
             (''auth_style'', JStr (auth_text (ps_auth p))), (''dialect'', JStr (dialect_text (ps_dialect p))),
             (''notes'', JStr (ps_notes p)), (''builtin'', JBool (ps_builtin p)), (''has_credential'', JBool (has_key \<or> conn)),
             (''has_key'', JBool has_key), (''auth'', JStr (if conn then ''oauth'' else ''key'')),
             (''oauth_capable'', JBool oauth_capable), (''connected'', JBool conn)]) (provider_list (bk_registry b))))]"

definition consent_json :: "broker \<Rightarrow> json" where
  "consent_json b = json_object [(''may_offload'', json_object (map (\<lambda>(s, v). (s, JBool v)) (consent_snapshot (bk_consent b))))]"

section \<open>Only managers change what may leave\<close>

lemma managed_Some: "managed su caller call = Some c \<longleftrightarrow> (\<exists>who. manager_of su caller = Some who \<and> c = call who)"
  by (auto simp: managed_def)

text \<open>A manager: a program of the allowlist, resolved on this machine.\<close>

lemma manager_is_listed:
  "manager_of su caller = Some who \<Longrightarrow>
     \<exists>p exe m k. caller = Some p \<and> su_exe su p = Some exe \<and> m \<in> set (su_managers su) \<and> su_canon su m = Some k \<and>
       path_eq k (path_components exe)"
  by (auto simp: manager_of_def manager_authorize_def may_manage_def resolve_managers_def map_filter_def
      split: option.splits sum.splits if_splits)

fun last_request :: "remote_surface \<Rightarrow> string \<Rightarrow> remote_happening list \<Rightarrow> bool option \<Rightarrow> bool option" where
  "last_request su s [] v = v"
| "last_request su s (Asked caller (SetConsentRequest scope allowed) # hs) v =
     last_request su s hs (if scope = s \<and> manager_of su caller \<noteq> None then Some allowed else v)"
| "last_request su s (h # hs) v = last_request su s hs v"

lemma calls_switch:
  assumes "c \<in> set (calls_of su en h b)" "switches c"
  shows "\<exists>caller who scope allowed. h = Asked caller (SetConsentRequest scope allowed) \<and> manager_of su caller = Some who \<and>
    c = SetOffload who scope allowed"
proof (cases h)
  case (Asked caller r)
  with assms show ?thesis by (cases r) (auto simp: calls_of_def managed_def split: option.splits if_splits)
next
  case (SignInDone i verifier state conns)
  with assms show ?thesis by (auto simp: calls_of_def split: if_splits)
qed

lemma switch_request:
  assumes "s \<in> set OFFLOAD_SCOPES"
  shows "map_of (of_may (bk_consent (surface_step su en h b))) s =
    last_request su s [h] (map_of (of_may (bk_consent b)) s)"
proof (cases "\<exists>caller scope allowed. h = Asked caller (SetConsentRequest scope allowed)")
  case True
  then obtain caller scope allowed where "h = Asked caller (SetConsentRequest scope allowed)" by blast
  with assms show ?thesis
    by (auto simp: surface_step_def switch_run calls_of_def managed_def split: option.splits)
next
  case False
  then have q: "\<forall>c \<in> set (calls_of su en h b). \<not> switches c" using calls_switch by blast
  have "switch_of s c v = v" if "\<not> switches c" for c v using that by (cases c) simp_all
  then have "fold (switch_of s) cs v = v" if "\<forall>c \<in> set cs. \<not> switches c" for cs v
    using that by (induction cs arbitrary: v) simp_all
  moreover have "last_request su s [h] v = v" for v
  proof (cases h)
    case (Asked caller r)
    with False show ?thesis by (cases r) auto
  qed simp
  ultimately show ?thesis using assms q by (simp add: surface_step_def switch_run)
qed

lemma last_request_append: "last_request su s (hs @ hs') v = last_request su s hs' (last_request su s hs v)"
  by (induction su s hs v rule: last_request.induct) simp_all

lemma request_run:
  "s \<in> set OFFLOAD_SCOPES \<Longrightarrow>
     map_of (of_may (bk_consent (surface_run su en hs b))) s = last_request su s hs (map_of (of_may (bk_consent b)) s)"
  unfolding surface_run_def
proof (induction hs arbitrary: b)
  case (Cons h hs)
  then show ?case using last_request_append [of su s "[h]" hs] by (simp add: switch_request)
qed simp

lemma last_request_by_manager:
  "last_request su s hs v = Some x \<Longrightarrow> v \<noteq> Some x \<Longrightarrow>
     \<exists>caller who. Asked caller (SetConsentRequest s x) \<in> set hs \<and> manager_of su caller = Some who"
  by (induction su s hs v rule: last_request.induct) (fastforce split: if_splits)+

text \<open>What one happening does to the content that left.\<close>

lemma happening_content:
  assumes "contents (surface_step su en h b) \<noteq> contents b"
  shows "\<exists>caller provider scopes duration gone body. h = Asked caller (HttpChat (Some provider) scopes duration gone body) \<and>
    list_all (\<lambda>s. s \<in> set OFFLOAD_SCOPES \<and> map_of (of_may (bk_consent b)) s = Some True) (''prompt'' # header_scopes scopes)"
proof (cases h)
  case (SignInDone i verifier state conns)
  have "contents (broker_run en cs b) = contents b" if "\<forall>c \<in> set cs. \<not> generates c \<and> \<not> switches c" for cs b
    using that unfolding broker_run_def
  proof (induction cs arbitrary: b)
    case (Cons c cs)
    then have "contents (broker_step en c b) = contents b" by (intro quiet.quiet_step) simp_all
    with Cons show ?case by simp
  qed simp
  then have "contents (surface_step su en h b) = contents b"
    unfolding surface_step_def by (rule meta_mp) (auto simp: SignInDone calls_of_def split: if_splits)
  with assms show ?thesis by simp
next
  case (Asked caller r)
  then obtain c where c: "admitted_call su caller r = Some c" "contents (broker_step en c b) \<noteq> contents b"
    using assms by (auto simp: surface_step_def calls_of_def broker_run_def split: option.splits)
  from step_needs_consent [OF c(2)] c(1) Asked show ?thesis
    by (cases r) (auto simp: managed_def list_all_iff split: if_splits option.splits)
qed

text \<open>
  C5. Default deny, end to end. Over any requests from any callers, starting without a consent file: content leaves only
  in answer to a chat request on the socket, and for every scope its header names, and for \<open>prompt\<close>, the last
  accepted request about that scope turned it on and came from a caller whose program is on the allowlist.
\<close>

theorem content_leaves_by_a_managers_decision:
  assumes "broker_open providers Absent keys l = Inr b0"
    and "contents (surface_step su en h (surface_run su en hs b0)) \<noteq> contents (surface_run su en hs b0)"
  shows "\<exists>caller provider scopes duration gone body. h = Asked caller (HttpChat (Some provider) scopes duration gone body) \<and>
    list_all (\<lambda>s. last_request su s hs None = Some True \<and>
        (\<exists>m who. Asked m (SetConsentRequest s True) \<in> set hs \<and> manager_of su m = Some who))
      (''prompt'' # header_scopes scopes)"
proof -
  have "bk_consent b0 = \<lparr>of_file = Absent, of_may = [], of_writes = 0\<rparr>"
    using broker_open_fields [OF assms(1)] by (simp add: consent_open_def)
  then have may: "of_may (bk_consent b0) = []" by simp
  obtain caller provider scopes duration gone body where
    h: "h = Asked caller (HttpChat (Some provider) scopes duration gone body)"
    "list_all (\<lambda>s. s \<in> set OFFLOAD_SCOPES \<and> map_of (of_may (bk_consent (surface_run su en hs b0))) s = Some True)
       (''prompt'' # header_scopes scopes)"
    using happening_content [OF assms(2)] by blast
  have "last_request su s hs None = Some True \<and> (\<exists>m who. Asked m (SetConsentRequest s True) \<in> set hs \<and> manager_of su m = Some who)"
    if "s \<in> set (''prompt'' # header_scopes scopes)" for s
  proof -
    have "last_request su s hs None = Some True"
      using h(2) that request_run [of s su en hs b0] may unfolding list_all_iff by fastforce
    with last_request_by_manager [OF this] show ?thesis by blast
  qed
  with h(1) show ?thesis unfolding list_all_iff by blast
qed

definition sample_surface :: remote_surface where
  "sample_surface =
     \<lparr>su_us = 1000, su_exe = (\<lambda>p. if peer_pid p = Some 7 then Some ''/usr/bin/gnome-control-center'' else Some ''/tmp/app''),
      su_canon = Some, su_managers = default_managers\<rparr>"

definition sample_happenings :: "remote_happening list" where
  "sample_happenings =
     [Asked (Some (peer_of_socket (Some 1000) (Some 7) (Some 3))) (SetConsentRequest ''prompt'' True),
      Asked (Some (peer_of_socket (Some 1000) (Some 7) (Some 3))) (SetKeyRequest ''openai'' ''sk''),
      Asked (Some (peer_of_socket (Some 1000) (Some 8) (Some 3))) (SetConsentRequest ''mail'' True)]"

theorem content_leaves_by_a_managers_decision_witness:
  "last_request sample_surface ''prompt'' sample_happenings None = Some True \<and>
   contents (surface_step sample_surface sample_remote (Asked None (HttpChat (Some ''openai'') (Some ''mail'') 1 (\<lambda>_ _. False) sample_body))
     (surface_run sample_surface sample_remote sample_happenings sample_broker)) = []"
proof -
  let ?b = "surface_run sample_surface sample_remote sample_happenings sample_broker"
  let ?h = "\<lambda>scopes. Asked None (HttpChat (Some ''openai'') scopes 1 (\<lambda>_ _. False) sample_body)"
  have o: "broker_open Absent Absent [] empty_ledger = Inr sample_broker"
    by (simp add: broker_open_def registry_open_def consent_open_def sample_broker_def)
  have n: "length (contents ?b) = 0" "length (contents (surface_step sample_surface sample_remote (?h None) ?b)) = 1" by code_simp+
  then have "contents (surface_step sample_surface sample_remote (?h None) ?b) \<noteq> contents ?b" by force
  from content_leaves_by_a_managers_decision [OF o this]
  have p: "last_request sample_surface ''prompt'' sample_happenings None = Some True" by auto
  have m: "last_request sample_surface ''mail'' sample_happenings None = None" "header_scopes (Some ''mail'') = [''mail'']" by code_simp+
  have "contents (surface_step sample_surface sample_remote (?h (Some ''mail'')) ?b) = contents ?b"
  proof (rule ccontr)
    assume "contents (surface_step sample_surface sample_remote (?h (Some ''mail'')) ?b) \<noteq> contents ?b"
    from content_leaves_by_a_managers_decision [OF o this] m show False by auto
  qed
  with n p show ?thesis by simp
qed

text \<open>On the socket the user is not compared: an unknown or foreign uid passes that check.\<close>

lemma socket_uid_is_not_compared: "is_same_user_as_us us (peer_of_socket uid pid fd)"
  by (simp add: is_same_user_as_us_def peer_of_socket_def)

end
