(* ===== verification/Remote_Edges.thy ===== *)
theory Remote_Edges
  imports Remote_Life
begin

text \<open>
  A tool call through both translations, credentials on file, and what the broker does at its edges: failed writes,
  an over-long frame, a malformed callback, a refresh nobody recorded.
\<close>

section \<open>Tool calls\<close>

lemma foldl_map_insert: "map_of (foldl (\<lambda>m (k, v). map_insert k v m) m0 kvs) = map_of m0 ++ map_of (rev kvs)"
  by (induction kvs arbitrary: m0) (auto simp: map_add_def fun_eq_iff split: option.split)

lemma json_get_object [simp]: "json_get (json_object kvs) k = map_of (rev kvs) k"
  by (simp add: json_object_def json_get_def foldl_map_insert)

lemma json_at_object [simp]: "json_at (json_object kvs) k = (case map_of (rev kvs) k of Some x \<Rightarrow> x | None \<Rightarrow> JNull)"
  by (simp add: json_at_def)

lemma as_simps [simp]: "as_str (JStr s) = Some s" "as_array (JArr xs) = Some xs"
  by (simp_all add: as_str_def as_array_def)

text \<open>The assistant's turn the harness sends back: the message of a normalised answer.\<close>

definition first_message :: "json \<Rightarrow> json" where
  "first_message answer = json_at (json_nth (json_at answer ''choices'') 0) ''message''"

text \<open>
  C29. A tool call survives the loop. The first tool call of an Anthropic answer, normalised and sent back as the
  assistant's turn, is rendered as a block with the same id, name and input that the provider wrote, provided its
  input can be printed and parsed back.
\<close>

theorem tool_call_survives_the_loop:
  assumes blocks: "blocks_of upstream ''tool_use'' = block # blocks" and printed: "parse (print (json_at block ''input'')) = Some (json_at block ''input'')"
    and fields: "json_at block ''id'' = JStr i" "json_at block ''name'' = JStr name"
  shows "anthropic_message parse (first_message (translate_response print AnthropicMessages upstream)) =
    Inr ([], [json_object [(''role'', JStr ''assistant''), (''content'', JArr [json_object
      [(''type'', JStr ''tool_use''), (''id'', json_at block ''id''), (''name'', json_at block ''name''),
       (''input'', json_at block ''input'')]])]])"
proof -
  have calls: "map2 (tool_call print) [0..<Suc (length blocks)] (block # blocks) =
      tool_call print 0 block # map2 (tool_call print) [1..<Suc (length blocks)] blocks"
    by (simp add: upt_conv_Cons del: upt_Suc)
  have m: "first_message (translate_response print AnthropicMessages upstream) =
      json_object [(''role'', JStr ''assistant''),
        (''content'', JStr (concat (List.map_filter (\<lambda>b. as_str (json_at b ''text'')) (blocks_of upstream ''text'')))),
        (''tool_calls'', JArr (tool_call print 0 block # map2 (tool_call print) [1..<Suc (length blocks)] blocks))]"
    by (simp add: first_message_def translate_response_def Let_def calls json_nth_def blocks del: map2_map_map upt_Suc)
  show ?thesis
    unfolding m using fields printed
    by (simp add: anthropic_message_def Let_def tool_use_block_def tool_call_def unwrap_or_def)
qed

definition sample_block :: json where
  "sample_block = json_object [(''type'', JStr ''tool_use''), (''id'', JStr ''t1''), (''name'', JStr ''read''), (''input'', JObj [(''p'', JStr ''x'')])]"

theorem tool_call_survives_the_loop_witness:
  "anthropic_message (\<lambda>t. if t = ''P'' then Some (JObj [(''p'', JStr ''x'')]) else None)
     (first_message (translate_response (\<lambda>v. ''P'') AnthropicMessages (json_object [(''content'', JArr [sample_block])]))) =
   Inr ([], [json_object [(''role'', JStr ''assistant''), (''content'', JArr [json_object
      [(''type'', JStr ''tool_use''), (''id'', JStr ''t1''), (''name'', JStr ''read''), (''input'', JObj [(''p'', JStr ''x'')])]])]])"
proof -
  have b: "blocks_of (json_object [(''content'', JArr [sample_block])]) ''tool_use'' = [sample_block]" by code_simp
  have f: "json_at sample_block ''id'' = JStr ''t1''" "json_at sample_block ''name'' = JStr ''read''"
    "json_at sample_block ''input'' = JObj [(''p'', JStr ''x'')]" by code_simp+
  show ?thesis
    using tool_call_survives_the_loop [OF b _ f(1, 2), of "\<lambda>t. if t = ''P'' then Some (JObj [(''p'', JStr ''x'')]) else None" "\<lambda>v. ''P''"] f
    by simp
qed

text \<open>Of several calls in one turn only the first is sent back; of a streamed answer none.\<close>

lemma later_tool_calls_are_dropped:
  "json_at m ''role'' = JStr ''assistant'' \<Longrightarrow> json_at m ''tool_calls'' = JArr (call # calls) \<Longrightarrow>
   anthropic_message parse m = Inr ([], [json_object [(''role'', JStr ''assistant''), (''content'', JArr [tool_use_block parse call])]])"
  by (simp add: anthropic_message_def Let_def unwrap_or_def)

lemma streamed_tool_use_is_dropped:
  "json_at v ''type'' = JStr ''content_block_start'' \<Longrightarrow> translate_anthropic t v = (t, None)"
  "json_at v ''type'' = JStr ''content_block_delta'' \<Longrightarrow> json_at (json_at v ''delta'') ''text'' = JNull \<Longrightarrow>
     translate_anthropic t v = (t, None)"
  by (simp_all add: translate_anthropic_def Let_def unwrap_or_def as_str_def)

section \<open>Credentials\<close>

lemma safe_name_Inr: "safe_name name = Inr n \<longleftrightarrow> n = name \<and> name \<noteq> [] \<and> CHR ''/'' \<notin> set name \<and> CHR 92 \<notin> set name \<and>
    CHR 0x00 \<notin> set name \<and> \<not> starts_with name ''.''"
  by (auto simp: safe_name_def starts_with_iff)

lemma trim_by_idem: "trim_by P (trim_by P s) = trim_by P s"
proof -
  have e: "dropWhile P (rev (dropWhile P (rev t))) = rev (dropWhile P (rev t))" if "dropWhile P t = t" for t
  proof (cases t)
    case Nil
    then show ?thesis by simp
  next
    case (Cons c u)
    with that have c: "\<not> P c" by (metis dropWhile.simps(2) length_dropWhile_le not_less_eq_eq length_Cons)
    then have "dropWhile P (rev u @ [c]) = dropWhile P (rev u) @ [c]" by (induction u rule: rev_induct) simp_all
    with Cons c show ?thesis by simp
  qed
  have "dropWhile P (dropWhile P s) = dropWhile P s" by (rule dropWhile_idem)
  from e [OF this] show ?thesis by (simp add: trim_by_def trim_start_by_def trim_end_by_def)
qed

lemma key_path_inj: "key_path j = Inr d \<Longrightarrow> i \<noteq> j \<Longrightarrow> d \<noteq> i @ ''.key''"
  by (auto simp: key_path_def path_of_def safe_name_Inr split: sum.splits)

lemma get_other:
  assumes "i \<noteq> j" "\<And>d. d \<noteq> i @ ''.key'' \<Longrightarrow> map_of (ss_files s') d = map_of (ss_files s) d"
  shows "secrets_get unreadable j s' = secrets_get unreadable j s"
  using assms key_path_inj [of j _ i] by (auto simp: secrets_get_def read_secret_def split: sum.split)

lemma removed_other: "d \<noteq> i @ ''.key'' \<Longrightarrow> map_of (ss_files (fst (secrets_remove io i s))) d = map_of (ss_files s) d"
  by (auto simp: secrets_remove_def remove_file_def key_path_def path_of_def safe_name_def split: sum.split)

text \<open>
  A stored key is read back trimmed and unchanged; storing or removing one provider's key leaves every other
  provider's key alone; and every name a key is kept under is one path component that is not hidden.
\<close>

theorem key_roundtrip:
  assumes "secrets_set io i key s = (s', Inr u)" "\<forall>n. \<not> unreadable n" "i \<noteq> j"
  shows "secrets_get unreadable i s' = (case safe_name i of Inl e \<Rightarrow> Inl e | Inr n \<Rightarrow> Inr (trim key)) \<and>
    secrets_get unreadable j s' = secrets_get unreadable j s \<and>
    secrets_get unreadable j (fst (secrets_remove io i s')) = secrets_get unreadable j s \<and>
    list_all (\<lambda>(n, v). n \<in> fst ` set (ss_files s) \<or> n = i @ ''.key'' \<and> CHR ''/'' \<notin> set n \<and> \<not> starts_with n ''.'') (ss_files s')"
proof -
  have p: "safe_name (i @ ''.key'') = Inr (i @ ''.key'')" "ss_files s' = al_put (i @ ''.key'') (trim key) (ss_files s)"
    using assms(1) by (auto simp: secrets_set_def secrets_set_named_def path_of_def write_then_rename_def safe_name_def Let_def
        split: sum.splits if_splits)
  have "key_path i = (case safe_name i of Inl e \<Rightarrow> Inl e | Inr n \<Rightarrow> Inr (i @ ''.key''))"
    using p(1) by (simp add: key_path_def path_of_def split: sum.split)
  then have "secrets_get unreadable i s' = (case safe_name i of Inl e \<Rightarrow> Inl e | Inr n \<Rightarrow> Inr (trim key))"
    using assms(2) p(2) by (simp add: secrets_get_def read_secret_def trim_def trim_by_idem split: sum.split)
  moreover have "secrets_get unreadable j s' = secrets_get unreadable j s"
    "secrets_get unreadable j (fst (secrets_remove io i s')) = secrets_get unreadable j s"
    using assms(3) p(2) by (auto intro!: get_other simp: removed_other)
  moreover have "n \<in> fst ` set (ss_files s) \<or> n = i @ ''.key'' \<and> CHR ''/'' \<notin> set n \<and> \<not> starts_with n ''.''"
    if "(n, v) \<in> set (ss_files s')" for n v
  proof -
    have "n \<in> insert (i @ ''.key'') (fst ` set (ss_files s))"
    proof -
      have "n \<in> fst ` set (al_put (i @ ''.key'') (trim key) (ss_files s))" using that unfolding p(2) by (rule image_eqI [rotated]) simp
      then show ?thesis by simp
    qed
    then show ?thesis using p(1) unfolding safe_name_Inr by auto
  qed
  ultimately show ?thesis by (auto simp: list_all_iff)
qed

theorem key_roundtrip_witness:
  "secrets_get (\<lambda>_. False) ''openai'' (fst (secrets_set (\<lambda>_. IoOk) ''openai'' '' sk '' \<lparr>ss_files = [], ss_writes = 0\<rparr>)) = Inr ''sk''"
proof -
  have s: "secrets_set (\<lambda>_. IoOk) ''openai'' '' sk '' \<lparr>ss_files = [], ss_writes = 0\<rparr> =
      (\<lparr>ss_files = [(''openai.key'', ''sk'')], ss_writes = 1\<rparr>, Inr ())" by code_simp
  have n: "safe_name ''openai'' = Inr ''openai''" "trim '' sk '' = ''sk''" by code_simp+
  have "secrets_get (\<lambda>_. False) ''openai'' \<lparr>ss_files = [(''openai.key'', ''sk'')], ss_writes = 1\<rparr> = Inr ''sk''"
    using key_roundtrip [OF s, of "\<lambda>_. False" "''groq''", THEN conjunct1] n by simp
  then show ?thesis using s by simp
qed

section \<open>At the edges\<close>

text \<open>An over-long frame is refused for good, and the stream goes on reading.\<close>

lemma overflow_is_not_an_end:
  assumes "sp_overflowed (st_parser s)" "\<not> gone n (length out)"
  shows "stream_loop en gone n (NetBytes b # rs) s out = stream_loop en gone (Suc n) rs s out"
  using assms by (subst stream_loop.simps) (simp add: sse_feed_def Let_def)

text \<open>A switch whose write or row failed is on all the same, until the next start.\<close>

lemma failed_switch_is_on:
  assumes "scope \<in> set OFFLOAD_SCOPES" "re_consent_io en (of_writes (bk_consent b)) = IoFailed"
  shows "\<exists>e. snd (set_consent en who scope True b) = Inl e \<and>
    consent_allowed (bk_consent (fst (set_consent en who scope True b))) scope \<and>
    of_file (bk_consent (fst (set_consent en who scope True b))) = of_file (bk_consent b) \<and>
    bk_ledger (fst (set_consent en who scope True b)) = bk_ledger b"
  using assms by (simp add: set_consent_def consent_set_def fs_write_def Let_def consent_allowed_def)

lemma unrecorded_switch_is_on:
  assumes "scope \<in> set OFFLOAD_SCOPES" "re_consent_io en (of_writes (bk_consent b)) = IoOk" "\<not> re_ledger_ok en (l_tries (bk_ledger b))"
  shows "\<exists>e. snd (set_consent en who scope True b) = Inl e \<and>
    consent_allowed (bk_consent (fst (set_consent en who scope True b))) scope \<and>
    l_entries (bk_ledger (fst (set_consent en who scope True b))) = l_entries (bk_ledger b)"
  using assms by (simp add: set_consent_def consent_set_def fs_write_def Let_def consent_allowed_def attempt_def broker_append_def ledger_append_def)

text \<open>A provider row whose write failed stays in memory.\<close>

lemma failed_registration_stays:
  assumes "valid_id i" "validate_base_url parse raw loc = Inr url" "\<forall>p \<in> set (provider_list r). ps_id p \<noteq> i" "io (rg_writes r) = IoFailed"
  shows "snd (registry_add_custom io parse i name raw loc r) = Inl RegistryIo \<and>
    registry_get (fst (registry_add_custom io parse i name raw loc r)) i = Inr (custom_spec i name url loc)"
proof -
  have "List.find (\<lambda>p. ps_id p = i) (provider_list r @ [custom_spec i name url loc]) = Some (custom_spec i name url loc)"
  proof -
    have "List.find (\<lambda>p. ps_id p = i) (xs @ [custom_spec i name url loc]) = Some (custom_spec i name url loc)"
      if "\<forall>p \<in> set xs. ps_id p \<noteq> i" for xs
      using that by (induction xs) (simp_all add: custom_spec_def)
    with assms(3) show ?thesis by blast
  qed
  with assms show ?thesis
    by (auto simp: registry_add_custom_def registry_persist_def write_then_rename_def registry_get_def provider_list_def Let_def)
qed

text \<open>
  One connection to the callback port with an escape cut short ends the waiting task by a panic; the entry of the
  provider stays, and every further sign-in is refused.
\<close>

lemma bad_callback_blocks_sign_in:
  assumes "oauth_provider_of i = Some p" "parse_query query = None" "split_once 63 target = Some (ascii (op_callback_path p), query)"
    and "i \<in> set (bk_active b)"
  shows "finish_login en i verifier state (Some target # conns) b = (b, None)"
    and "snd (begin_login i bind_error challenge state' b) = Inl (SignInProgress (op_label p))"
  using assms by (simp_all add: finish_login_def accept_one_def begin_login_def)

lemma bad_query: "parse_query (ascii ''code=%a'' @ utf8_encode [CHR 0xE9]) = None"
  by code_simp

text \<open>
  A refresh leaves before any row is written, and when the request behind it then fails to render no row is written
  at all.
\<close>

definition sample_refresh :: remote_env where
  "sample_refresh = sample_remote\<lparr>re_stored_refresh := (\<lambda>raw. Some raw)\<rparr>"

definition sample_session :: broker where
  "sample_session =
     sample_broker\<lparr>bk_secrets := \<lparr>ss_files = [(''openai.oauth.json'', ''r'')], ss_writes = 0\<rparr>,
       bk_consent := \<lparr>of_file = Absent, of_may = [(''prompt'', True)], of_writes = 0\<rparr>\<rparr>"

lemma refresh_leaves_unrecorded:
  "map snd (bk_sent (fst (list_models sample_refresh ''openai'' sample_session))) =
     [TokenRequest (op_token_url OPENAI) (refresh_params OPENAI ''r'')]"
  "l_entries (bk_ledger (fst (list_models sample_refresh ''openai'' sample_session))) = []"
  by code_simp+

end
