(* ===== verification/Install_Plan.thy ===== *)
theory Install_Plan
  imports Remote_Bytes Remote_Json
begin

text \<open>
  Which disk \<open>lisa install\<close> may erase: \<open>cli/lisa/src/install_plan.rs\<close>. Device paths, mount sources and everything
  printed are UTF-8 bytes; labels, types and UUIDs are strings. Sizes are \<open>u64\<close>.
\<close>

definition MIN_TARGET_BYTES :: "64 word" where
  "MIN_TARGET_BYTES = 23 * 1073741824"

section \<open>Topology\<close>

record disk_partition =
  pt_path :: bytes
  pt_size :: "64 word"
  pt_label :: "string option"
  pt_uuid :: "string option"

record block_node =
  nd_path :: bytes
  nd_kind :: string
  nd_fstype :: "string option"
  nd_uuid :: "string option"

record whole_disk =
  dk_path :: bytes
  dk_kind :: string
  dk_size :: "64 word"
  dk_removable :: bool
  dk_read_only :: bool
  dk_model :: "string option"
  dk_partitions :: "disk_partition list"
  dk_devices :: "block_node list"

definition MULTI_DEVICE_FSTYPES :: "string list" where
  "MULTI_DEVICE_FSTYPES = [''btrfs'', ''bcachefs'']"

definition owns :: "whole_disk \<Rightarrow> bytes \<Rightarrow> bool" where
  "owns d dev \<longleftrightarrow> (\<exists>n \<in> set (dk_devices d). nd_path n = dev)"

definition filesystems :: "whole_disk \<Rightarrow> (bytes \<times> string \<times> string) list" where
  "filesystems d =
     List.map_filter (\<lambda>n. case (nd_fstype n, nd_uuid n) of (Some t, Some u) \<Rightarrow> Some (nd_path n, t, u) | _ \<Rightarrow> None) (dk_devices d)"

section \<open>Reading lsblk\<close>

definition str_field :: "json \<Rightarrow> string \<Rightarrow> string option" where
  "str_field v key = map_option trim (as_str (json_at v key))"

text \<open>\<open>str::parse::<u64>\<close>: an optional plus sign, at least one digit, \<open>None\<close> above the range.\<close>

fun decimal_from :: "nat \<Rightarrow> string \<Rightarrow> nat option" where
  "decimal_from acc [] = Some acc"
| "decimal_from acc (c # s) = (if is_ascii_digit c then decimal_from (acc * 10 + (ccode c - 48)) s else None)"

definition parse_u64 :: "string \<Rightarrow> (64 word) option" where
  "parse_u64 s =
     (let digits = (case s of c # t \<Rightarrow> if c = CHR ''+'' then t else s | [] \<Rightarrow> [])
      in if digits = [] then None
         else (case decimal_from 0 digits of
                 Some n \<Rightarrow> if n < 2 ^ 64 then Some (word_of_nat n) else None
               | None \<Rightarrow> None))"

definition num_field :: "json \<Rightarrow> string \<Rightarrow> (64 word) option" where
  "num_field v key =
     (case json_at v key of JNum n \<Rightarrow> as_u64 (JNum n) | JStr s \<Rightarrow> parse_u64 s | _ \<Rightarrow> None)"

definition bool_field :: "json \<Rightarrow> string \<Rightarrow> bool" where
  "bool_field v key \<longleftrightarrow>
     (case json_at v key of
        JBool b \<Rightarrow> b
      | JStr s \<Rightarrow> s = ''1'' \<or> s = ''true''
      | JNum n \<Rightarrow> as_u64 (JNum n) = Some 1
      | _ \<Rightarrow> False)"

definition non_empty :: "string option \<Rightarrow> string option" where
  "non_empty x = (case x of Some s \<Rightarrow> if s = [] then None else Some s | None \<Rightarrow> None)"

definition children :: "json \<Rightarrow> json list" where
  "children v = (case as_array (json_at v ''children'') of Some cs \<Rightarrow> cs | None \<Rightarrow> [])"

lemma child_size: "c \<in> set (children v) \<Longrightarrow> size c < size v"
proof -
  assume c: "c \<in> set (children v)"
  then obtain kvs cs where v: "v = JObj kvs" "map_of kvs ''children'' = Some (JArr cs)" "c \<in> set cs"
    by (auto simp: children_def json_at_def json_get_def as_array_def split: option.splits json.splits)
  have "size c < size (JArr cs)" using size_list_estimation' [OF v(3), of "size c" size] by simp
  moreover have "(''children'', JArr cs) \<in> set kvs" using v(2) by (rule map_of_SomeD)
  then have "size (JArr cs) < size v"
    using size_list_estimation' [of "(''children'', JArr cs)" kvs "size (JArr cs)" "\<lambda>p. size_prod (\<lambda>_. 0) size p"]
    by (simp add: v(1))
  ultimately show ?thesis by simp
qed

definition node_of :: "json \<Rightarrow> block_node option" where
  "node_of v =
     map_option (\<lambda>p. \<lparr>nd_path = utf8_encode p, nd_kind = unwrap_or [] (str_field v ''type''),
        nd_fstype = map_option to_lowercase (non_empty (str_field v ''fstype'')),
        nd_uuid = map_option to_lowercase (non_empty (str_field v ''uuid''))\<rparr>) (str_field v ''path'')"

function flatten_devices :: "json \<Rightarrow> block_node list" where
  "flatten_devices v =
     (case node_of v of Some n \<Rightarrow> [n] | None \<Rightarrow> []) @ concat (map flatten_devices (children v))"
  by pat_completeness auto
termination by (relation "measure size") (auto simp: child_size)

declare flatten_devices.simps [simp del]

definition partition_of :: "json \<Rightarrow> disk_partition option" where
  "partition_of p =
     (if str_field p ''type'' \<noteq> Some ''part'' then None
      else map_option (\<lambda>path. \<lparr>pt_path = utf8_encode path, pt_size = unwrap_or 0 (num_field p ''size''),
             pt_label = str_field p ''partlabel'', pt_uuid = map_option to_lowercase (str_field p ''partuuid'')\<rparr>) (str_field p ''path''))"

definition disk_of :: "json \<Rightarrow> whole_disk option" where
  "disk_of d =
     (let kind = unwrap_or [] (str_field d ''type'')
      in if kind \<noteq> ''disk'' \<and> kind \<noteq> ''loop'' then None
         else map_option (\<lambda>path.
           \<lparr>dk_path = utf8_encode path, dk_kind = kind, dk_size = unwrap_or 0 (num_field d ''size''),
            dk_removable = bool_field d ''rm'', dk_read_only = bool_field d ''ro'', dk_model = non_empty (str_field d ''model''),
            dk_partitions = List.map_filter partition_of (children d), dk_devices = flatten_devices d\<rparr>) (str_field d ''path''))"

text \<open>The output of lsblk as a JSON value; \<open>None\<close>: it has no array of block devices.\<close>

definition parse_lsblk :: "json \<Rightarrow> whole_disk list option" where
  "parse_lsblk v = map_option (List.map_filter disk_of) (as_array (json_at v ''blockdevices''))"

section \<open>Reading the mounts and the loader variable\<close>

record mount =
  mt_source :: bytes
  mt_target :: bytes

record system_facts =
  sf_mounts :: "mount list"
  sf_loader :: "string option"

definition is_octal :: "8 word \<Rightarrow> bool" where
  "is_octal b \<longleftrightarrow> 48 \<le> b \<and> b < 56"

fun octal_bytes :: "bytes \<Rightarrow> bytes" where
  "octal_bytes [] = []"
| "octal_bytes (b # bs) =
     (case bs of
        d0 # d1 # d2 # rest \<Rightarrow>
          (let code = unat (d0 - 48) * 64 + unat (d1 - 48) * 8 + unat (d2 - 48)
           in if b = 92 \<and> is_octal d0 \<and> is_octal d1 \<and> is_octal d2 \<and> code < 256
              then word_of_nat code # octal_bytes rest else b # octal_bytes bs)
      | _ \<Rightarrow> b # octal_bytes bs)"

definition unescape_octal :: "bytes \<Rightarrow> bytes" where
  "unescape_octal s = utf8_lossy (octal_bytes s)"

text \<open>\<open>str::split_whitespace\<close>.\<close>

function byte_words :: "bytes \<Rightarrow> bytes \<Rightarrow> bytes list" where
  "byte_words word bs =
     (if bs = [] then (if word = [] then [] else [word])
      else (case List.find (\<lambda>w. w \<noteq> [] \<and> starts_with bs w) white_space of
              Some w \<Rightarrow> (if word = [] then [] else [word]) @ byte_words [] (drop (length w) bs)
            | None \<Rightarrow> byte_words (word @ [hd bs]) (tl bs)))"
  by pat_completeness auto
termination
  by (relation "measure (\<lambda>(word, bs). length bs)") (auto simp: find_Some_iff)

declare byte_words.simps [simp del]

definition mount_of :: "bytes \<Rightarrow> mount option" where
  "mount_of line =
     (case byte_words [] line of
        s # t # rest \<Rightarrow> Some \<lparr>mt_source = hd (split_on (\<lambda>b. b = 91) (unescape_octal s)), mt_target = unescape_octal t\<rparr>
      | _ \<Rightarrow> None)"

definition parse_mounts :: "bytes \<Rightarrow> mount list" where
  "parse_mounts text = List.map_filter mount_of (byte_lines text)"

text \<open>
  The EFI variable: four bytes of attributes and UTF-16 up to a zero. Surrogates are no scalars and are dropped; a scalar
  above U+00FF is outside the model and read as a question mark.
\<close>

fun utf16_units :: "bytes \<Rightarrow> nat list" where
  "utf16_units (a # b # rest) = (unat a + 256 * unat b) # utf16_units rest"
| "utf16_units bs = []"

definition unit_char :: "nat \<Rightarrow> char option" where
  "unit_char u = (if 55296 \<le> u \<and> u < 57344 then None else Some (if u < 256 then char_of u else CHR ''?''))"

definition decode_loader_partuuid :: "bytes \<Rightarrow> string option" where
  "decode_loader_partuuid raw =
     (if length raw < 4 then None
      else (let s = to_lowercase (trim (List.map_filter unit_char (takeWhile (\<lambda>u. u \<noteq> 0) (utf16_units (drop 4 raw)))))
            in if s = [] then None else Some s))"

text \<open>
  The mount table and the variable, each \<open>None\<close> when it cannot be read; for the table, also when it is not UTF-8.
\<close>

definition read_facts :: "bytes option \<Rightarrow> bytes option \<Rightarrow> system_facts" where
  "read_facts mounts loader =
     \<lparr>sf_mounts = (case mounts of Some s \<Rightarrow> parse_mounts s | None \<Rightarrow> []),
      sf_loader = (case loader of Some b \<Rightarrow> decode_loader_partuuid b | None \<Rightarrow> None)\<rparr>"

section \<open>Where the system runs from\<close>

datatype evidence =
    RootMount bytes
  | RootFilesystemMember bytes string string
  | LoaderPartition bytes

definition root_mounts :: "system_facts \<Rightarrow> mount list" where
  "root_mounts facts = filter (\<lambda>m. mt_target m = ascii ''/'') (sf_mounts facts)"

definition root_filesystems :: "whole_disk list \<Rightarrow> system_facts \<Rightarrow> (string \<times> string) list" where
  "root_filesystems disks facts =
     foldl (\<lambda>out (path, source, t, u). if path = source \<and> t \<in> set MULTI_DEVICE_FSTYPES \<and> (t, u) \<notin> set out then out @ [(t, u)] else out) []
       (concat (map (\<lambda>m. concat (map (\<lambda>d. map (\<lambda>(path, t, u). (path, mt_source m, t, u)) (filesystems d)) disks)) (root_mounts facts)))"

definition root_evidence :: "whole_disk \<Rightarrow> whole_disk list \<Rightarrow> system_facts \<Rightarrow> evidence list" where
  "root_evidence d disks facts =
     (let mounts = map (\<lambda>m. RootMount (mt_source m)) (filter (\<lambda>m. owns d (mt_source m)) (root_mounts facts))
      in mounts @
         concat (map (\<lambda>(t, u). List.map_filter (\<lambda>(path, t', u').
           if t' \<noteq> t \<or> u' \<noteq> u \<or> RootMount path \<in> set mounts then None else Some (RootFilesystemMember path t u)) (filesystems d))
           (root_filesystems disks facts)))"

definition loader_claims :: "string \<Rightarrow> whole_disk \<Rightarrow> bool" where
  "loader_claims uuid d \<longleftrightarrow> (\<exists>p \<in> set (dk_partitions d). pt_uuid p = Some uuid)"

definition loader_identifies :: "whole_disk \<Rightarrow> whole_disk list \<Rightarrow> system_facts \<Rightarrow> string \<Rightarrow> bool" where
  "loader_identifies d disks facts uuid \<longleftrightarrow>
     loader_claims uuid d \<and>
     (let claimants = filter (loader_claims uuid) disks;
          rooted = filter (\<lambda>c. root_evidence c disks facts \<noteq> []) claimants
      in length claimants < 2 \<or> (case rooted of [only] \<Rightarrow> dk_path only = dk_path d | _ \<Rightarrow> True))"

definition boot_evidence :: "whole_disk \<Rightarrow> whole_disk list \<Rightarrow> system_facts \<Rightarrow> evidence list" where
  "boot_evidence d disks facts =
     root_evidence d disks facts @
     (case sf_loader facts of
        None \<Rightarrow> []
      | Some uuid \<Rightarrow>
          if loader_identifies d disks facts uuid
          then map (\<lambda>p. LoaderPartition (pt_path p)) (filter (\<lambda>p. pt_uuid p = Some uuid) (dk_partitions d)) else [])"

definition root_disks :: "whole_disk list \<Rightarrow> system_facts \<Rightarrow> whole_disk list" where
  "root_disks disks facts = filter (\<lambda>d. root_evidence d disks facts \<noteq> []) disks"

definition boot_disks :: "whole_disk list \<Rightarrow> system_facts \<Rightarrow> whole_disk list" where
  "boot_disks disks facts =
     (let roots = root_disks disks facts
      in if roots \<noteq> [] then roots else filter (\<lambda>d. boot_evidence d disks facts \<noteq> []) disks)"

definition boot_disk :: "whole_disk list \<Rightarrow> system_facts \<Rightarrow> whole_disk option" where
  "boot_disk disks facts = (case boot_disks disks facts of d # ds \<Rightarrow> Some d | [] \<Rightarrow> None)"

definition is_live_session :: "whole_disk list \<Rightarrow> system_facts \<Rightarrow> bool option" where
  "is_live_session disks facts = map_option dk_removable (boot_disk disks facts)"

definition mounts_on :: "whole_disk \<Rightarrow> system_facts \<Rightarrow> mount list" where
  "mounts_on d facts = filter (\<lambda>m. owns d (mt_source m)) (sf_mounts facts)"

section \<open>The decision\<close>

datatype refusal =
    NoSuchDevice bytes
  | IsAPartition bytes bytes
  | BootDiskUnknown bytes
  | IsTheBootDisk bytes "evidence list"
  | ReadOnlyDisk bytes
  | TooSmall bytes "64 word" "64 word"
  | InUse bytes "mount list"

text \<open>
  \<open>{:.1}\<close> of the size in GiB: the size as a double (53 bits, ties to even), then one decimal, ties to even.
\<close>

definition half_even :: "nat \<Rightarrow> nat \<Rightarrow> nat" where
  "half_even n m = (let q = n div m; r = n mod m in if 2 * r < m \<or> 2 * r = m \<and> even q then q else q + 1)"

definition as_f64 :: "nat \<Rightarrow> nat" where
  "as_f64 n =
     (let e = (if n < 2 ^ 53 then 0 else length (takeWhile (\<lambda>k. 2 ^ (53 + k) \<le> n) [0..<12])) in half_even n (2 ^ e) * 2 ^ e)"

definition human :: "64 word \<Rightarrow> string" where
  "human bytes =
     (let tenths = half_even (as_f64 (unat bytes) * 10) 1073741824
      in nat_str (tenths div 10) @ ''.'' @ nat_str (tenths mod 10) @ '' GiB'')"

record install_plan =
  ip_target :: bytes
  ip_size :: "64 word"
  ip_model :: "string option"
  ip_removable :: bool
  ip_destroys :: "bytes list"
  ip_boot_disks :: "bytes list"

definition destroyed_line :: "disk_partition \<Rightarrow> bytes" where
  "destroyed_line p =
     pt_path p @ ascii '' ('' @ ascii (human (pt_size p)) @ ascii '', '' @ utf8_encode (unwrap_or ''no label'' (pt_label p)) @ ascii '')''"

definition plan :: "bytes \<Rightarrow> whole_disk list \<Rightarrow> system_facts \<Rightarrow> 64 word \<Rightarrow> refusal + install_plan" where
  "plan target disks facts min_bytes =
     (case List.find (\<lambda>d. dk_path d = target) disks of
        None \<Rightarrow>
          (case List.find (\<lambda>d. owns d target) disks of
             Some owner \<Rightarrow> Inl (IsAPartition target (dk_path owner))
           | None \<Rightarrow> Inl (NoSuchDevice target))
      | Some disk \<Rightarrow>
          (let evidence = boot_evidence disk disks facts;
               roots = root_disks disks facts;
               live = mounts_on disk facts
           in if evidence \<noteq> [] then Inl (IsTheBootDisk target evidence)
              else if roots = [] then Inl (BootDiskUnknown target)
              else if dk_read_only disk then Inl (ReadOnlyDisk target)
              else if dk_size disk < min_bytes then Inl (TooSmall target (dk_size disk) min_bytes)
              else if live \<noteq> [] then Inl (InUse target live)
              else Inr \<lparr>ip_target = target, ip_size = dk_size disk, ip_model = dk_model disk, ip_removable = dk_removable disk,
                     ip_destroys = map destroyed_line (dk_partitions disk), ip_boot_disks = map dk_path roots\<rparr>))"

end
