(* ===== verification/Install_Run.thy ===== *)
theory Install_Run
  imports Install_Plan
begin

text \<open>
  What \<open>lisa install\<close> prints and does: the rest of \<open>install_plan.rs\<close>, and \<open>install_cmd\<close> with
  \<open>individualize_copied_fsids\<close> of \<open>cli/lisa/src/main.rs\<close>. Text is UTF-8 bytes.
\<close>

section \<open>Text\<close>

definition DASH :: bytes where
  "DASH = [32, 226, 128, 148, 32]"

definition evidence_text :: "evidence \<Rightarrow> bytes" where
  "evidence_text e =
     (case e of
        RootMount source \<Rightarrow> ascii ''/ is mounted from '' @ source
      | RootFilesystemMember device fstype uuid \<Rightarrow>
          device @ ascii '' is another device of the '' @ utf8_encode fstype @ ascii '' filesystem / is mounted from (UUID '' @
            utf8_encode uuid @ ascii '')''
      | LoaderPartition p \<Rightarrow> ascii ''the boot loader was loaded from '' @ p @ ascii '' (EFI LoaderDevicePartUUID)'')"

definition refusal_text :: "refusal \<Rightarrow> bytes" where
  "refusal_text r =
     (case r of
        NoSuchDevice target \<Rightarrow>
          target @ ascii '' is not a block device this system can see'' @ DASH @
            ascii ''`lisa install --list` shows the disks that are''
      | IsAPartition target disk \<Rightarrow>
          target @ ascii '' is not a whole disk'' @ DASH @ ascii ''it lives on '' @ disk @
            ascii ''. The image carries its own partition table, so it is written to a whole disk'' @ DASH @
            ascii ''you probably meant '' @ disk @ ascii '', which erases '' @ target @ ascii '' along with everything else on it''
      | BootDiskUnknown target \<Rightarrow>
          ascii ''cannot tell which disk the running root filesystem is on'' @ DASH @
            ascii ''/ did not resolve to any disk in the block-device tree'' @ DASH @ ascii ''so '' @ target @
            ascii '' cannot be ruled out as that disk. Refusing to write''
      | IsTheBootDisk target evidence \<Rightarrow>
          target @ ascii '' is the disk this system is running from'' @
            concat (map (\<lambda>e. [10] @ ascii ''   - '' @ evidence_text e) evidence) @
            [10] @ ascii ''   Boot the Lisa USB stick and install to the internal disk from there.''
      | ReadOnlyDisk target \<Rightarrow> target @ ascii '' is read-only (a write-protect switch, or a locked card)''
      | TooSmall target have need \<Rightarrow>
          target @ ascii '' is '' @ ascii (human have) @ DASH @ ascii ''the A/B layout needs at least '' @ ascii (human need) @
            ascii ''. A partial write destroys what is there now and boots nothing''
      | InUse target mounts \<Rightarrow>
          target @ ascii '' has mounted filesystems:'' @
            concat (map (\<lambda>m. [10] @ ascii ''   - '' @ mt_source m @ ascii '' at '' @ mt_target m) mounts) @
            [10] @ ascii ''   Unmount them first (writing under a mount corrupts it).'')"

definition describe :: "whole_disk \<Rightarrow> bytes" where
  "describe d =
     dk_path d @ DASH @ ascii (human (dk_size d)) @ ascii '' '' @ ascii (if dk_removable d then ''removable'' else ''internal'') @
       ascii '', '' @ utf8_encode (unwrap_or ''unknown'' (dk_model d))"

definition candidates ::
    "whole_disk list \<Rightarrow> system_facts \<Rightarrow> 64 word \<Rightarrow> (bytes \<times> (refusal + install_plan)) list" where
  "candidates disks facts min_bytes = map (\<lambda>d. (describe d, plan (dk_path d) disks facts min_bytes)) disks"

definition picker_header :: "whole_disk list \<Rightarrow> system_facts \<Rightarrow> bytes" where
  "picker_header disks facts =
     (let booted = map dk_path (boot_disks disks facts);
          named = join (ascii '', '') booted
      in if booted = [] then
           ascii ''!! cannot tell which disk this system is running from, so every disk below is refused'' @ [10]
         else if root_disks disks facts = [] then
           ascii ''!! the boot loader ran from '' @ named @ ascii '', but / did not resolve to any disk'' @ DASH @
             ascii ''so no other disk can be ruled out, and every disk below is refused'' @ [10]
         else if is_live_session disks facts = Some True then
           ascii ''>> running from removable media ('' @ named @ ascii '')'' @ DASH @
             ascii ''a live session; installing to another disk is what this verb is for'' @ [10]
         else ascii ''>> running from '' @ named @ DASH @ ascii ''an installed system, not a live session'' @ [10])"

definition picker_entry :: "bytes \<times> (refusal + install_plan) \<Rightarrow> bytes" where
  "picker_entry c =
     (case snd c of
        Inr p \<Rightarrow>
          ascii ''  [installable] '' @ fst c @ [10] @
            (if ip_destroys p = [] then ascii ''                (no partitions'' @ DASH @ ascii ''empty disk)'' @ [10] else []) @
            concat (map (\<lambda>l. ascii ''                erases '' @ l @ [10]) (ip_destroys p))
      | Inl r \<Rightarrow>
          ascii ''  [   refused ] '' @ fst c @ [10] @
            concat (map (\<lambda>l. ascii ''                '' @ strip_all white_space l @ [10]) (byte_lines (refusal_text r))))"

definition render_targets :: "whole_disk list \<Rightarrow> system_facts \<Rightarrow> 64 word \<Rightarrow> bytes" where
  "render_targets disks facts min_bytes =
     picker_header disks facts @ [10] @ concat (map picker_entry (candidates disks facts min_bytes))"

section \<open>The command\<close>

text \<open>
  The machine at one moment: what a path resolves to, the number of the device behind it (\<open>None\<close>: it cannot be
  opened), whether it is a block device (\<open>None\<close>: nothing is there), what lsblk and the mount table say.
\<close>

record machine =
  mc_canon :: "bytes \<Rightarrow> bytes option"
  mc_rdev :: "bytes \<Rightarrow> nat option"
  mc_block :: "bytes \<Rightarrow> bool option"
  mc_disks :: "whole_disk list option"
  mc_facts :: system_facts
  mc_listing :: "bytes \<Rightarrow> (bytes \<times> string) list option"

datatype disk_effect =
    WroteImage bytes nat
  | WroteFile bytes
  | Retuned bytes

datatype install_error =
    NotThere | NotLinux | AnswerFailed | StatFailed | TopologyFailed | Refused refusal | OpenFailed | DeviceChanged nat nat | ImageFailed

datatype image_source = ImageMissing | ImageBroken | ImageGood

text \<open>The filesystems the copy left, found again under the path it is given.\<close>

definition individualize_copied_fsids :: "machine \<Rightarrow> bytes \<Rightarrow> disk_effect list" where
  "individualize_copied_fsids m disk =
     (case mc_listing m disk of
        None \<Rightarrow> []
      | Some rows \<Rightarrow> map (\<lambda>(path, fstype). Retuned path) (filter (\<lambda>(path, fstype). fstype = ''btrfs'') rows))"

text \<open>The decision before the prompt: the planned path and its device number for a block device.\<close>

definition install_planned :: "machine \<Rightarrow> bool \<Rightarrow> bytes \<Rightarrow> install_error + (bytes \<times> nat) option" where
  "install_planned m linux target =
     (case mc_block m target of
        None \<Rightarrow> Inl NotThere
      | Some False \<Rightarrow> Inr None
      | Some True \<Rightarrow>
          if \<not> linux then Inl NotLinux
          else (let canonical = (case mc_canon m target of Some c \<Rightarrow> c | None \<Rightarrow> target)
                in case mc_rdev m canonical of
                     None \<Rightarrow> Inl StatFailed
                   | Some rdev \<Rightarrow>
                       (case mc_disks m of
                          None \<Rightarrow> Inl TopologyFailed
                        | Some disks \<Rightarrow>
                            (case plan (utf8_lossy canonical) disks (mc_facts m) MIN_TARGET_BYTES of
                               Inl r \<Rightarrow> Inl (Refused r)
                             | Inr p \<Rightarrow> Inr (Some (canonical, rdev))))))"

text \<open>
  \<open>before\<close> is the machine when the plan is made, \<open>opened\<close> when the device is opened after the prompt, \<open>after\<close>
  when the image has been written. \<open>answer\<close> is the line read at the prompt, \<open>None\<close> when reading it fails. The image is
  missing when it fails before the first byte, broken when it fails after.
\<close>

definition install_cmd ::
    "machine \<Rightarrow> machine \<Rightarrow> machine \<Rightarrow> bool \<Rightarrow> bool \<Rightarrow> bytes option \<Rightarrow> image_source \<Rightarrow> bytes \<Rightarrow> disk_effect list \<times> (install_error + unit)" where
  "install_cmd before opened after linux yes answer img target =
     (case install_planned before linux target of
        Inl e \<Rightarrow> ([], Inl e)
      | Inr planned \<Rightarrow>
          if \<not> yes \<and> answer = None then ([], Inl AnswerFailed)
          else if \<not> yes \<and> map_option trim_bytes answer \<noteq> Some (ascii ''ERASE'') then ([], Inr ())
          else (let path = (case planned of Some (p, r) \<Rightarrow> p | None \<Rightarrow> target)
                in case mc_rdev opened path of
                     None \<Rightarrow> ([], Inl OpenFailed)
                   | Some rdev \<Rightarrow>
                       (case planned of
                          Some (p, r) \<Rightarrow>
                            if rdev \<noteq> r then ([], Inl (DeviceChanged r rdev))
                            else (case img of
                                    ImageMissing \<Rightarrow> ([], Inl ImageFailed)
                                  | ImageBroken \<Rightarrow> ([WroteImage p rdev], Inl ImageFailed)
                                  | ImageGood \<Rightarrow> (WroteImage p rdev # individualize_copied_fsids after target, Inr ()))
                        | None \<Rightarrow>
                            (case img of
                               ImageMissing \<Rightarrow> ([], Inl ImageFailed)
                             | ImageBroken \<Rightarrow> ([WroteFile target], Inl ImageFailed)
                             | ImageGood \<Rightarrow> ([WroteFile target], Inr ())))))"

end
