(* ===== verification/Install_Safety.thy ===== *)
theory Install_Safety
  imports Install_Run
begin

text \<open>
  What \<open>lisa install\<close> may erase: the decision as a condition on the topology, the completeness of the device tree it
  rests on, the escaping of the mount table, and what the command writes.
\<close>

section \<open>The running root\<close>

text \<open>The root filesystem is on a disk when something on that disk is mounted at \<open>/\<close>, or carries the same filesystem as what is.\<close>

definition holds_root :: "whole_disk list \<Rightarrow> system_facts \<Rightarrow> whole_disk \<Rightarrow> bool" where
  "holds_root disks facts d \<longleftrightarrow>
     (\<exists>m \<in> set (sf_mounts facts). mt_target m = ascii ''/'' \<and>
        (owns d (mt_source m) \<or>
         (\<exists>e \<in> set disks. \<exists>path t u. (mt_source m, t, u) \<in> set (filesystems e) \<and> t \<in> set MULTI_DEVICE_FSTYPES \<and>
            (path, t, u) \<in> set (filesystems d))))"

lemma foldl_collect:
  "set (foldl (\<lambda>out (path, source, t, u). if path = source \<and> t \<in> M \<and> (t, u) \<notin> set out then out @ [(t, u)] else out) acc xs) =
     set acc \<union> {(t, u). \<exists>path. (path, path, t, u) \<in> set xs \<and> t \<in> M}"
proof (induction xs arbitrary: acc)
  case (Cons x xs)
  obtain path source t u where "x = (path, source, t, u)" by (cases x) auto
  then show ?case by (auto simp: Cons)
qed simp

lemma root_filesystems_iff:
  "(t, u) \<in> set (root_filesystems disks facts) \<longleftrightarrow>
     t \<in> set MULTI_DEVICE_FSTYPES \<and> (\<exists>m \<in> set (root_mounts facts). \<exists>d \<in> set disks. (mt_source m, t, u) \<in> set (filesystems d))"
  unfolding root_filesystems_def foldl_collect by auto force

lemma map_filter_Nil_iff: "List.map_filter f xs = [] \<longleftrightarrow> (\<forall>x \<in> set xs. f x = None)"
  by (induction xs) (auto simp: map_filter_simps split: option.splits)

lemma in_map_filter: "y \<in> set (List.map_filter f xs) \<longleftrightarrow> (\<exists>x \<in> set xs. f x = Some y)"
  by (induction xs) (auto simp: map_filter_simps split: option.splits)

lemma root_evidence_iff: "root_evidence d disks facts \<noteq> [] \<longleftrightarrow> holds_root disks facts d"
proof -
  let ?ms = "map (\<lambda>m. RootMount (mt_source m)) (filter (\<lambda>m. owns d (mt_source m)) (root_mounts facts))"
  have "root_evidence d disks facts \<noteq> [] \<longleftrightarrow> ?ms \<noteq> [] \<or>
      (\<exists>(t, u) \<in> set (root_filesystems disks facts). \<exists>path. (path, t, u) \<in> set (filesystems d))"
  proof (cases "?ms = []")
    case True
    then have "root_evidence d disks facts = concat (map (\<lambda>(t, u). List.map_filter (\<lambda>(path, t', u').
        if t' \<noteq> t \<or> u' \<noteq> u then None else Some (RootFilesystemMember path t u)) (filesystems d)) (root_filesystems disks facts))"
      unfolding root_evidence_def Let_def by simp
    then have "root_evidence d disks facts = [] \<longleftrightarrow>
        (\<forall>(t, u) \<in> set (root_filesystems disks facts). \<forall>(path, t', u') \<in> set (filesystems d). t' \<noteq> t \<or> u' \<noteq> u)"
      by (simp add: map_filter_Nil_iff split_def)
    with True show ?thesis by fastforce
  next
    case False
    then show ?thesis by (simp add: root_evidence_def Let_def)
  qed
  also have "\<dots> \<longleftrightarrow> holds_root disks facts d"
    by (fastforce simp: holds_root_def root_filesystems_iff root_mounts_def filter_empty_conv)
  finally show ?thesis .
qed

lemma root_disks_eq: "root_disks disks facts = filter (holds_root disks facts) disks"
  by (simp add: root_disks_def root_evidence_iff)

text \<open>The loader variable points at a disk unless other disks carry the same partition and the root singles one of them out.\<close>

definition loader_points_at :: "whole_disk list \<Rightarrow> system_facts \<Rightarrow> whole_disk \<Rightarrow> bool" where
  "loader_points_at disks facts d \<longleftrightarrow> (\<exists>uuid. sf_loader facts = Some uuid \<and> loader_identifies d disks facts uuid)"

lemma boot_evidence_iff: "boot_evidence d disks facts = [] \<longleftrightarrow> \<not> holds_root disks facts d \<and> \<not> loader_points_at disks facts d"
  by (auto simp: boot_evidence_def root_evidence_iff [symmetric] loader_points_at_def loader_identifies_def loader_claims_def filter_empty_conv
      split: option.splits)

section \<open>The decision\<close>

definition may_erase :: "whole_disk list \<Rightarrow> system_facts \<Rightarrow> 64 word \<Rightarrow> whole_disk \<Rightarrow> bool" where
  "may_erase disks facts min_bytes d \<longleftrightarrow>
     \<not> holds_root disks facts d \<and> \<not> loader_points_at disks facts d \<and> (\<exists>r \<in> set disks. holds_root disks facts r) \<and>
     \<not> dk_read_only d \<and> min_bytes \<le> dk_size d \<and> (\<forall>m \<in> set (sf_mounts facts). \<not> owns d (mt_source m))"

lemma plan_found:
  "List.find (\<lambda>d. dk_path d = target) disks = Some d \<Longrightarrow>
     (\<exists>p. plan target disks facts min_bytes = Inr p) \<longleftrightarrow> may_erase disks facts min_bytes d"
  by (auto simp: plan_def may_erase_def boot_evidence_iff root_disks_eq mounts_on_def filter_empty_conv Let_def not_less)

lemma find_path:
  "distinct (map dk_path disks) \<Longrightarrow> List.find (\<lambda>d. dk_path d = target) disks = Some d \<longleftrightarrow> d \<in> set disks \<and> dk_path d = target"
  by (induction disks) (auto simp: image_iff)

lemma plan_spare:
  assumes "plan target disks facts min_bytes = Inr q" "distinct (map dk_path disks)"
  shows "list_ex (\<lambda>d. dk_path d = target \<and> may_erase disks facts min_bytes d) disks"
proof -
  obtain d where d: "List.find (\<lambda>d. dk_path d = target) disks = Some d"
    using assms(1) by (auto simp: plan_def split: option.splits)
  then have "may_erase disks facts min_bytes d" using plan_found assms(1) by blast
  with d find_path [OF assms(2)] show ?thesis by (auto simp: list_ex_iff)
qed

text \<open>
  C7. Which disk may be erased. With distinct paths, the image may be written to a target exactly when the target is a
  whole disk, nothing in its device tree is mounted, it holds no device of the filesystem \<open>/\<close> is mounted from, the boot
  loader's partition is not on it (unless the running root says which of several copies is meant), some disk does hold
  the running root, and it is writable and large enough; and the disks named as running are those that hold the root,
  never the target.
\<close>

theorem erased_disk_is_spare:
  assumes "distinct (map dk_path disks)"
  shows "(case plan target disks facts min_bytes of
      Inr p \<Rightarrow> list_ex (\<lambda>d. dk_path d = target \<and> may_erase disks facts min_bytes d) disks \<and> ip_target p = target \<and>
        target \<notin> set (ip_boot_disks p) \<and> ip_boot_disks p = map dk_path (filter (holds_root disks facts) disks)
    | Inl r \<Rightarrow> \<not> list_ex (\<lambda>d. dk_path d = target \<and> may_erase disks facts min_bytes d) disks)"
proof (cases "List.find (\<lambda>d. dk_path d = target) disks")
  case None
  then have "\<not> list_ex (\<lambda>d. dk_path d = target \<and> may_erase disks facts min_bytes d) disks"
    by (auto simp: find_None_iff list_ex_iff)
  with None show ?thesis by (auto simp: plan_def split: option.split)
next
  case (Some d)
  then have here: "d \<in> set disks" "dk_path d = target" using find_path [OF assms, of target d] by auto
  have "inj_on dk_path (set disks)" using assms by (simp add: distinct_map)
  then have only: "e \<in> set disks \<Longrightarrow> dk_path e = target \<Longrightarrow> e = d" for e
    using here by (metis inj_onD)
  note d = only here
  have ex: "list_ex (\<lambda>d. dk_path d = target \<and> may_erase disks facts min_bytes d) disks \<longleftrightarrow> may_erase disks facts min_bytes d"
    unfolding list_ex_iff by (metis d)
  show ?thesis
  proof (cases "plan target disks facts min_bytes")
    case (Inl r)
    with plan_found [OF Some, of facts min_bytes] show ?thesis by (simp add: ex)
  next
    case (Inr p)
    then have may: "may_erase disks facts min_bytes d" using plan_found [OF Some, of facts min_bytes] by simp
    have "ip_target p = target \<and> ip_boot_disks p = map dk_path (filter (holds_root disks facts) disks)"
      using Inr Some by (auto simp: plan_def Let_def root_disks_eq split: if_splits)
    moreover have "target \<notin> set (map dk_path (filter (holds_root disks facts) disks))"
    proof
      assume "target \<in> set (map dk_path (filter (holds_root disks facts) disks))"
      then obtain e where "e \<in> set disks" "holds_root disks facts e" "dk_path e = target" by auto
      with only [of e] may show False by (simp add: may_erase_def)
    qed
    ultimately show ?thesis using Inr may by (simp add: ex)
  qed
qed

lemma unresolved_root_refuses:
  "\<not> (\<exists>r \<in> set disks. holds_root disks facts r) \<Longrightarrow> \<exists>r. plan target disks facts min_bytes = Inl r"
  by (auto simp: plan_def root_disks_eq filter_empty_conv Let_def split: option.split)

section \<open>The device tree\<close>

text \<open>The nodes of a block of lsblk's tree: the block, and what is below its children.\<close>

inductive below :: "json \<Rightarrow> json \<Rightarrow> bool" where
  itself: "below v v"
| child: "c \<in> set (children v) \<Longrightarrow> below c w \<Longrightarrow> below v w"

lemma flatten_complete: "n \<in> set (flatten_devices v) \<longleftrightarrow> (\<exists>w. below v w \<and> node_of w = Some n)"
proof (induction v rule: flatten_devices.induct)
  case (1 v)
  have "n \<in> set (flatten_devices v) \<longleftrightarrow> node_of v = Some n \<or> (\<exists>c \<in> set (children v). n \<in> set (flatten_devices c))"
    by (auto simp: flatten_devices.simps [of v] split: option.splits)
  also have "\<dots> \<longleftrightarrow> node_of v = Some n \<or> (\<exists>c \<in> set (children v). \<exists>w. below c w \<and> node_of w = Some n)"
    using 1 by blast
  also have "\<dots> \<longleftrightarrow> (\<exists>w. below v w \<and> node_of w = Some n)"
    by (metis below.simps)
  finally show ?case .
qed

lemma disk_of_path: "disk_of v = Some d \<Longrightarrow> dk_devices d = flatten_devices v \<and> (\<exists>p. str_field v ''path'' = Some p \<and> dk_path d = utf8_encode p)"
  by (auto simp: disk_of_def Let_def split: if_splits)

text \<open>
  C30. Whatever is mounted protects the whole disk under it. Take any block of lsblk's tree that is offered as a disk and
  any device at any depth below it, whatever its type; when the mount table has a line whose source is that device, the
  disk is refused.
\<close>

theorem mounted_tree_is_never_erased:
  assumes tree: "as_array (json_at v ''blockdevices'') = Some blocks" "block \<in> set blocks" "disk_of block = Some d"
    and device: "below block w" "node_of w = Some n"
    and line: "line \<in> set (byte_lines text)" "mount_of line = Some m" "mt_source m = nd_path n"
    and here: "parse_lsblk v = Some disks" "distinct (map dk_path disks)"
  shows "\<exists>r. plan (dk_path d) disks (read_facts (Some text) loader) min_bytes = Inl r"
proof -
  have "d \<in> set disks" using tree here(1) by (force simp: parse_lsblk_def in_map_filter)
  then have found: "List.find (\<lambda>e. dk_path e = dk_path d) disks = Some d" by (simp add: find_path [OF here(2)])
  have "n \<in> set (flatten_devices block)" using device flatten_complete by blast
  then have "owns d (mt_source m)" using line(3) disk_of_path [OF tree(3)] by (auto simp: owns_def)
  moreover have "m \<in> set (sf_mounts (read_facts (Some text) loader))"
    using line(1,2) by (auto simp: read_facts_def parse_mounts_def in_map_filter intro: bexI [of _ line])
  ultimately have "\<not> may_erase disks (read_facts (Some text) loader) min_bytes d" by (auto simp: may_erase_def)
  with plan_found [OF found] show ?thesis by (metis sum.exhaust)
qed

section \<open>The mount table\<close>

text \<open>How the kernel writes a field of the mount table: white space, backslash and number sign as three octal digits.\<close>

definition kernel_byte :: "8 word \<Rightarrow> bytes" where
  "kernel_byte b =
     (if b \<in> {9, 10, 32, 35, 92}
      then [92, 48 + word_of_nat (unat b div 64), 48 + word_of_nat (unat b div 8 mod 8), 48 + word_of_nat (unat b mod 8)] else [b])"

definition kernel_escape :: "bytes \<Rightarrow> bytes" where
  "kernel_escape bs = concat (map kernel_byte bs)"

lemma octal_plain: "b \<noteq> 92 \<Longrightarrow> octal_bytes (b # bs) = b # octal_bytes bs"
  by (auto simp: Let_def split: list.split)

lemma octal_escaped: "b \<in> {9, 10, 32, 35, 92} \<Longrightarrow> octal_bytes (kernel_byte b @ bs) = b # octal_bytes bs"
  by (auto simp: kernel_byte_def is_octal_def Let_def)

lemma octal_kernel: "octal_bytes (kernel_escape bs) = bs"
proof (induction bs)
  case (Cons b bs)
  show ?case
  proof (cases "b \<in> {9, 10, 32, 35, 92}")
    case True
    with Cons octal_escaped show ?thesis by (simp add: kernel_escape_def del: octal_bytes.simps)
  next
    case False
    with Cons show ?thesis by (simp add: kernel_escape_def kernel_byte_def octal_plain del: octal_bytes.simps)
  qed
qed (simp add: kernel_escape_def)

text \<open>White space the kernel leaves as it is splits the field; every other scalar stays in its word.\<close>

definition stray_white :: "char \<Rightarrow> bool" where
  "stray_white c \<longleftrightarrow> ccode c \<in> {11, 12, 13, 133, 160}"

abbreviation white_at :: "bytes \<Rightarrow> bytes option" where
  "white_at bs \<equiv> List.find (\<lambda>w. w \<noteq> [] \<and> starts_with bs w) white_space"

lemma byte_words_Cons: "white_at (b # bs) = None \<Longrightarrow> byte_words acc (b # bs) = byte_words (acc @ [b]) bs"
  by (subst byte_words.simps) simp

lemma no_white_at: "b \<notin> {9, 10, 11, 12, 13, 32, 194, 225, 226, 227} \<Longrightarrow> white_at (b # bs) = None"
  by (auto simp: find_None_iff white_space_def)

lemma no_white_at_194: "c \<noteq> 133 \<Longrightarrow> c \<noteq> 160 \<Longrightarrow> white_at (194 # c # bs) = None"
  by (auto simp: find_None_iff white_space_def)

lemma white_at_space: "white_at (32 # bs) = Some [32]"
  by (simp add: white_space_def)

lemma byte_words_space: "acc \<noteq> [] \<Longrightarrow> byte_words acc (32 # bs) = acc # byte_words [] bs"
  by (subst byte_words.simps) (simp add: white_at_space)

lemma lead_and_tail:
  fixes n :: nat
  shows "128 \<le> n \<Longrightarrow> n < 192 \<Longrightarrow> n div 64 = 2 \<and> n mod 64 = n - 128"
    and "192 \<le> n \<Longrightarrow> n < 256 \<Longrightarrow> n div 64 = 3 \<and> n mod 64 = n - 192"
proof -
  show "n div 64 = 2 \<and> n mod 64 = n - 128" if "128 \<le> n" "n < 192"
  proof -
    have "n div 64 = 2" by (rule div_nat_eqI) (use that in simp_all)
    then show ?thesis by (simp add: modulo_nat_def)
  qed
  show "n div 64 = 3 \<and> n mod 64 = n - 192" if "192 \<le> n" "n < 256"
  proof -
    have "n div 64 = 3" by (rule div_nat_eqI) (use that in simp_all)
    then show ?thesis by (simp add: modulo_nat_def)
  qed
qed

lemma utf8_char_cases:
  obtains "ccode c < 128" "utf8_char c = [word_of_nat (ccode c)]"
  | "128 \<le> ccode c" "ccode c < 192" "utf8_char c = [194, word_of_nat (ccode c)]"
  | "192 \<le> ccode c" "utf8_char c = [195, word_of_nat (ccode c - 64)]"
proof -
  have "ccode c < 256" by simp
  then consider "ccode c < 128" | "128 \<le> ccode c" "ccode c < 192" | "192 \<le> ccode c" "ccode c < 256" by linarith
  then show ?thesis
  proof cases
    case 1 with that(1) show ?thesis by (simp add: utf8_char_def)
  next
    case 2
    then show ?thesis using lead_and_tail(1) [OF 2] by (intro that(2)) (simp_all add: utf8_char_def of_nat_diff)
  next
    case 3
    then show ?thesis using lead_and_tail(2) [OF 3] by (intro that(3)) (simp_all add: utf8_char_def of_nat_diff)
  qed
qed

lemma byte_words_escaped:
  "b \<in> {9, 10, 32, 35, 92} \<Longrightarrow> byte_words acc (kernel_byte b @ bs) = byte_words (acc @ kernel_byte b) bs"
  by (auto simp: kernel_byte_def byte_words_Cons no_white_at)

lemma word_of_code_eq: "n < 256 \<Longrightarrow> (word_of_nat n :: 8 word) = numeral k \<longleftrightarrow> n = numeral k mod 256"
  by (simp add: word_unat_eq_iff unat_of_nat unat_numeral take_bit_eq_mod)

lemma byte_words_char:
  assumes "\<not> stray_white c"
  shows "byte_words acc (kernel_escape (utf8_char c) @ bs) = byte_words (acc @ kernel_escape (utf8_char c)) bs"
proof (cases c rule: utf8_char_cases)
  case 1
  let ?b = "word_of_nat (ccode c) :: 8 word"
  show ?thesis
  proof (cases "?b \<in> {9, 10, 32, 35, 92}")
    case True
    with byte_words_escaped [OF True] 1 show ?thesis by (simp add: kernel_escape_def)
  next
    case False
    then have "kernel_byte ?b = [?b]" by (simp add: kernel_byte_def)
    moreover have "white_at (?b # bs) = None"
      using 1 False assms by (intro no_white_at) (simp add: word_of_code_eq stray_white_def)
    ultimately show ?thesis using 1 by (simp add: kernel_escape_def byte_words_Cons)
  qed
next
  case 2
  let ?b = "word_of_nat (ccode c) :: 8 word"
  have "kernel_byte 194 = [194]" "kernel_byte ?b = [?b]" using 2 by (simp_all add: kernel_byte_def word_of_code_eq)
  moreover have "white_at (194 # ?b # bs) = None"
    using 2 assms by (intro no_white_at_194) (simp_all add: word_of_code_eq stray_white_def)
  moreover have "white_at (?b # bs) = None" using 2 by (intro no_white_at) (simp add: word_of_code_eq)
  ultimately show ?thesis using 2 by (simp add: kernel_escape_def byte_words_Cons)
next
  case 3
  let ?b = "word_of_nat (ccode c - 64) :: 8 word"
  have "ccode c < 256" by simp
  then have le: "ccode c - 64 < 192" "128 \<le> ccode c - 64" using 3(1) by linarith+
  have "kernel_byte 195 = [195]" by (simp add: kernel_byte_def)
  moreover have plain: "?b = numeral k \<Longrightarrow> 128 \<le> (numeral k mod 256 :: nat) \<and> (numeral k mod 256 :: nat) < 192" for k
    using le by (simp only: word_of_code_eq)
  then have "kernel_byte ?b = [?b]" by (auto simp: kernel_byte_def dest: plain)
  moreover have "white_at (195 # ?b # bs) = None" by (intro no_white_at) simp
  moreover have "white_at (?b # bs) = None" by (intro no_white_at) (auto dest: plain)
  ultimately show ?thesis using 3 by (simp add: kernel_escape_def byte_words_Cons)
qed

lemma kernel_escape_encode: "kernel_escape (utf8_encode (c # s)) = kernel_escape (utf8_char c) @ kernel_escape (utf8_encode s)"
  by (simp add: kernel_escape_def utf8_encode_def)

lemma byte_words_field:
  "list_all (\<lambda>c. \<not> stray_white c) s \<Longrightarrow>
     byte_words acc (kernel_escape (utf8_encode s) @ bs) = byte_words (acc @ kernel_escape (utf8_encode s)) bs"
proof (induction s arbitrary: acc)
  case Nil
  then show ?case by (simp add: utf8_encode_def kernel_escape_def)
next
  case (Cons c s)
  then show ?case by (simp add: kernel_escape_encode byte_words_char)
qed

lemma kernel_escape_Nil_iff: "kernel_escape (utf8_encode s) = [] \<longleftrightarrow> s = []"
proof (cases s)
  case (Cons c t)
  have "kernel_byte b \<noteq> []" for b by (simp add: kernel_byte_def)
  moreover obtain b bs where "utf8_char c = b # bs" by (cases c rule: utf8_char_cases) auto
  ultimately show ?thesis by (simp add: Cons kernel_escape_def utf8_encode_def)
qed (simp add: utf8_encode_def kernel_escape_def)


section \<open>What the command writes\<close>

lemma install_planned_disk:
  "install_planned m linux target = Inr (Some (p, r)) \<longleftrightarrow>
     mc_block m target = Some True \<and> linux \<and> p = (case mc_canon m target of Some c \<Rightarrow> c | None \<Rightarrow> target) \<and> mc_rdev m p = Some r \<and>
     (\<exists>disks q. mc_disks m = Some disks \<and> plan (utf8_lossy p) disks (mc_facts m) MIN_TARGET_BYTES = Inr q)"
  by (auto simp: install_planned_def Let_def split: option.splits bool.splits sum.splits)

lemma install_planned_file: "install_planned m linux target = Inr None \<longleftrightarrow> mc_block m target = Some False"
  by (auto simp: install_planned_def Let_def split: option.splits bool.splits sum.splits)

definition asked_and_answered :: "bool \<Rightarrow> bytes option \<Rightarrow> bool" where
  "asked_and_answered yes answer \<longleftrightarrow> yes \<or> map_option trim_bytes answer = Some (ascii ''ERASE'')"

definition image_is_written :: "machine \<Rightarrow> machine \<Rightarrow> bool \<Rightarrow> bytes \<Rightarrow> bytes \<Rightarrow> nat \<Rightarrow> bool" where
  "image_is_written before opened linux target p r \<longleftrightarrow>
     install_planned before linux target = Inr (Some (p, r)) \<and> mc_rdev opened p = Some r"

lemma install_cmd_writes:
  "WroteImage p r \<in> set (fst (install_cmd before opened after linux yes answer img target)) \<longleftrightarrow>
     image_is_written before opened linux target p r \<and> asked_and_answered yes answer \<and> img \<noteq> ImageMissing"
  by (auto simp: install_cmd_def image_is_written_def asked_and_answered_def individualize_copied_fsids_def Let_def
      split: option.splits sum.splits prod.splits if_splits image_source.splits)


end
