(* ===== verification/Install_Sample.thy ===== *)
theory Install_Sample
  imports Install_Safety
begin

text \<open>
  A concrete machine: a USB stick the system runs from, an encrypted internal disk, a blank one. The properties of the
  planner at it, and the cases where the planner and its documentation part.
\<close>

definition sample_part :: "string \<Rightarrow> string \<Rightarrow> (string \<times> json) list \<Rightarrow> json" where
  "sample_part path kind rest = JObj ([(''path'', JStr path), (''type'', JStr kind)] @ rest)"

definition sample_stick :: json where
  "sample_stick = JObj
     [(''path'', JStr ''/a''), (''type'', JStr ''disk''), (''size'', JNum (PosInt 31457280000)), (''rm'', JBool True),
      (''children'', JArr
        [sample_part ''/a1'' ''part'' [(''partuuid'', JStr ''AB-1'')],
         sample_part ''/a2'' ''part'' [(''fstype'', JStr ''btrfs''), (''uuid'', JStr ''77-F'')]])]"

definition sample_sealed :: json where
  "sample_sealed = JObj
     [(''path'', JStr ''/b''), (''type'', JStr ''disk''), (''size'', JNum (PosInt 31457280000)),
      (''children'', JArr
        [sample_part ''/b1'' ''part'' [(''children'', JArr [sample_part ''/c'' ''crypt'' []])]])]"

definition sample_blank :: json where
  "sample_blank = JObj
     [(''path'', JStr ''/d''), (''type'', JStr ''disk''), (''size'', JNum (PosInt 31457280000)), (''ro'', JStr ''0'')]"

definition sample_lsblk :: json where
  "sample_lsblk = JObj [(''blockdevices'', JArr [sample_stick, sample_sealed, sample_blank])]"

definition sample_table :: bytes where
  "sample_table = [47, 97, 50, 32, 47, 10, 47, 99, 32, 47, 92, 48, 52, 48, 10]"

definition sample_facts :: system_facts where
  "sample_facts = \<lparr>sf_mounts = [\<lparr>mt_source = [47, 97, 50], mt_target = [47]\<rparr>, \<lparr>mt_source = [47, 99], mt_target = [47, 32]\<rparr>],
     sf_loader = Some ''ab-1''\<rparr>"

lemma sample_lines: "byte_lines sample_table = [[47, 97, 50, 32, 47], [47, 99, 32, 47, 92, 48, 52, 48]]"
  by code_simp

lemma sample_mount: "mount_of [47, 99, 32, 47, 92, 48, 52, 48] = Some \<lparr>mt_source = [47, 99], mt_target = [47, 32]\<rparr>"
  by code_simp

definition sample_disk :: "bytes \<Rightarrow> bool \<Rightarrow> disk_partition list \<Rightarrow> block_node list \<Rightarrow> whole_disk" where
  "sample_disk path removable parts nodes =
     \<lparr>dk_path = path, dk_kind = ''disk'', dk_size = 31457280000, dk_removable = removable, dk_read_only = False, dk_model = None,
      dk_partitions = parts, dk_devices = \<lparr>nd_path = path, nd_kind = ''disk'', nd_fstype = None, nd_uuid = None\<rparr> # nodes\<rparr>"

definition sample_disks :: "whole_disk list" where
  "sample_disks =
     [sample_disk [47, 97] True
        [\<lparr>pt_path = [47, 97, 49], pt_size = 0, pt_label = None, pt_uuid = Some ''ab-1''\<rparr>,
         \<lparr>pt_path = [47, 97, 50], pt_size = 0, pt_label = None, pt_uuid = None\<rparr>]
        [\<lparr>nd_path = [47, 97, 49], nd_kind = ''part'', nd_fstype = None, nd_uuid = None\<rparr>,
         \<lparr>nd_path = [47, 97, 50], nd_kind = ''part'', nd_fstype = Some ''btrfs'', nd_uuid = Some ''77-f''\<rparr>],
      sample_disk [47, 98] False
        [\<lparr>pt_path = [47, 98, 49], pt_size = 0, pt_label = None, pt_uuid = None\<rparr>]
        [\<lparr>nd_path = [47, 98, 49], nd_kind = ''part'', nd_fstype = None, nd_uuid = None\<rparr>,
         \<lparr>nd_path = [47, 99], nd_kind = ''crypt'', nd_fstype = None, nd_uuid = None\<rparr>],
      sample_disk [47, 100] False [] []]"

lemma sample_parsed: "parse_lsblk sample_lsblk = Some sample_disks"
  by code_simp

lemma sample_distinct: "distinct (map dk_path sample_disks)"
  by (simp add: sample_disks_def sample_disk_def)

lemma sample_plans:
  "plan [47, 100] sample_disks sample_facts MIN_TARGET_BYTES =
     Inr \<lparr>ip_target = [47, 100], ip_size = 31457280000, ip_model = None, ip_removable = False, ip_destroys = [],
       ip_boot_disks = [[47, 97]]\<rparr>"
  by (simp add: plan_def sample_disks_def sample_disk_def sample_facts_def MIN_TARGET_BYTES_def boot_evidence_def root_evidence_def
      root_mounts_def root_disks_def root_filesystems_def filesystems_def MULTI_DEVICE_FSTYPES_def mounts_on_def owns_def
      map_filter_simps loader_identifies_def loader_claims_def ascii_def)

section \<open>The properties at the sample\<close>

lemma erased_disk_is_spare_witness:
  "may_erase sample_disks sample_facts MIN_TARGET_BYTES (sample_disk [47, 100] False [] []) \<and>
     [[47, 97]] = map dk_path (filter (holds_root sample_disks sample_facts) sample_disks)"
  using erased_disk_is_spare [OF sample_distinct, of "[47, 100]" sample_facts MIN_TARGET_BYTES]
  unfolding sample_plans by (simp add: sample_disks_def sample_disk_def)

lemma mounted_tree_is_never_erased_witness:
  "\<exists>r. plan [47, 98] sample_disks (read_facts (Some sample_table) None) MIN_TARGET_BYTES = Inl r"
proof -
  let ?d = "sample_disks ! 1" and ?w = "sample_part ''/c'' ''crypt'' []"
  have tree: "as_array (json_at sample_lsblk ''blockdevices'') = Some [sample_stick, sample_sealed, sample_blank]" by code_simp
  have disk: "disk_of sample_sealed = Some ?d" by code_simp
  have "sample_part ''/b1'' ''part'' [(''children'', JArr [?w])] \<in> set (children sample_sealed)"
    "?w \<in> set (children (sample_part ''/b1'' ''part'' [(''children'', JArr [?w])]))" by code_simp+
  then have under: "below sample_sealed ?w" by (blast intro: below.intros)
  have node: "node_of ?w = Some \<lparr>nd_path = [47, 99], nd_kind = ''crypt'', nd_fstype = None, nd_uuid = None\<rparr>" by code_simp
  have "\<exists>r. plan (dk_path ?d) sample_disks (read_facts (Some sample_table) None) MIN_TARGET_BYTES = Inl r"
    by (rule mounted_tree_is_never_erased [OF tree _ disk under node _ sample_mount _ sample_parsed sample_distinct])
      (simp_all add: sample_lines)
  then show ?thesis by (simp add: sample_disks_def sample_disk_def)
qed


definition sample_machine :: "(bytes \<Rightarrow> (bytes \<times> string) list option) \<Rightarrow> machine" where
  "sample_machine listing =
     \<lparr>mc_canon = \<lambda>p. Some [47, 100], mc_rdev = \<lambda>p. Some 7, mc_block = \<lambda>p. Some True, mc_disks = Some sample_disks,
      mc_facts = sample_facts, mc_listing = listing\<rparr>"

lemma sample_target_text: "utf8_lossy [47, 100] = [47, 100]"
  by code_simp

lemma sample_command:
  "install_cmd (sample_machine l) (sample_machine l) (sample_machine after) True True None ImageGood [47, 120] =
     (WroteImage [47, 100] 7 # individualize_copied_fsids (sample_machine after) [47, 120], Inr ())"
  by (simp add: install_cmd_def install_planned_def sample_machine_def sample_target_text sample_plans Let_def)


section \<open>Where the code and its documentation part\<close>

text \<open>
  A pool of two disks mounted at a directory: the mount table names one member, and the other is offered. Only the
  filesystem at \<open>/\<close> protects all its members.
\<close>

definition pool_member :: "bytes \<Rightarrow> string \<Rightarrow> whole_disk" where
  "pool_member path uuid =
     sample_disk path False [] [\<lparr>nd_path = path @ [49], nd_kind = ''part'', nd_fstype = Some ''btrfs'', nd_uuid = Some uuid\<rparr>]"

lemma other_pool_member_is_offered:
  "\<exists>p. plan [47, 100] [pool_member [47, 97] ''r'', pool_member [47, 98] ''data'', pool_member [47, 100] ''data'']
     \<lparr>sf_mounts = [\<lparr>mt_source = [47, 97, 49], mt_target = [47]\<rparr>, \<lparr>mt_source = [47, 98, 49], mt_target = [47, 109]\<rparr>], sf_loader = None\<rparr>
     MIN_TARGET_BYTES = Inr p"
  by (simp add: plan_def pool_member_def sample_disk_def MIN_TARGET_BYTES_def boot_evidence_def root_evidence_def
      root_mounts_def root_disks_def root_filesystems_def filesystems_def MULTI_DEVICE_FSTYPES_def mounts_on_def owns_def
      map_filter_simps ascii_def)

text \<open>The image goes to the planned device; the filesystems that are given a new identity are those under the typed name.\<close>

lemma retuned_by_name:
  "Retuned [47, 98, 49] \<in> set (fst (install_cmd (sample_machine Map.empty) (sample_machine Map.empty)
     (sample_machine [[47, 120] \<mapsto> [([47, 98, 49], ''btrfs'')]]) True True None ImageGood [47, 120]))"
  by (simp add: sample_command individualize_copied_fsids_def) (force simp: sample_machine_def)

text \<open>A no-break space ends the field: what is mounted at \<open>/\<close>, no-break space, \<open>x\<close> is taken for the root.\<close>

lemma no_break_space_reads_as_root: "mount_of [47, 98, 49, 32, 47, 194, 160, 120, 32] = Some \<lparr>mt_source = [47, 98, 49], mt_target = [47]\<rparr>"
  by code_simp

end
