(* ===== verification/Agent_Surface.thy ===== *)
theory Agent_Surface
  imports Agent_Bus_Undo Peer_App
begin

text \<open>
  The bus interface of the Agent Bus: \<open>daemons/agentd/src/dbus.rs\<close>, with \<open>libs/lisa-peer/src/prompt_surface.rs\<close>. A handler
  finds out who calls, turns the answer into the facts \<open>bus.rs\<close> decides on, and reports back.
\<close>

section \<open>Programs\<close>

definition MODEL_HOSTS :: "string list" where
  "MODEL_HOSTS = [''/usr/bin/lisa-harnessd'']"

definition PROMPT_SURFACE_PROGRAMS :: "string list" where
  "PROMPT_SURFACE_PROGRAMS = [''/usr/bin/lisa-assistant'', ''/usr/bin/gjs'']"

definition CONSENT_SURFACE_PROGRAMS :: "string list" where
  "CONSENT_SURFACE_PROGRAMS = [''/usr/bin/lisa-consentd'', ''/usr/bin/gjs'']"

definition exe_is_lisa_program :: "(path \<Rightarrow> path option) \<Rightarrow> bool \<Rightarrow> path option \<Rightarrow> path list \<Rightarrow> bool" where
  "exe_is_lisa_program canon same_user exe configured \<longleftrightarrow> may_manage same_user exe (resolve_managers canon configured) = Inr ()"

definition hosts_a_model :: "(path \<Rightarrow> path option) \<Rightarrow> bool \<Rightarrow> path option \<Rightarrow> bool" where
  "hosts_a_model canon same_user exe \<longleftrightarrow>
     may_manage same_user exe (resolve_managers canon (map path_components MODEL_HOSTS)) = Inr ()"

definition is_prompt_surface :: "(path \<Rightarrow> path option) \<Rightarrow> bool \<Rightarrow> path option \<Rightarrow> bool" where
  "is_prompt_surface canon same_user exe \<longleftrightarrow>
     \<not> hosts_a_model canon same_user exe \<and>
     may_manage same_user exe (resolve_managers canon (map path_components PROMPT_SURFACE_PROGRAMS)) = Inr ()"

definition exe_is_consent_program :: "(path \<Rightarrow> path option) \<Rightarrow> bool \<Rightarrow> path option \<Rightarrow> bool" where
  "exe_is_consent_program canon same_user exe \<longleftrightarrow>
     may_manage same_user exe (resolve_managers canon (map path_components CONSENT_SURFACE_PROGRAMS)) = Inr ()"

section \<open>Looking at a caller\<close>

text \<open>
  Every helper of a handler resolves the caller again, so each has a look of its own: the peer, the program behind it and
  its process, \<open>None\<close> where resolving failed. \<open>ags_json_error\<close> is the text of \<open>serde_json\<close> for arguments that do not parse.
\<close>

record look =
  lk_peer :: "peer option"
  lk_exe :: "string option"
  lk_process :: "process option"

record agent_surface =
  ags_us :: "32 word"
  ags_canon :: "path \<Rightarrow> path option"
  ags_brokered :: bool
  ags_json_error :: "string \<Rightarrow> string"

definition seen_as :: "(bool \<Rightarrow> path option \<Rightarrow> bool) \<Rightarrow> agent_surface \<Rightarrow> look \<Rightarrow> bool" where
  "seen_as check sur l \<longleftrightarrow>
     (case lk_peer l of None \<Rightarrow> False | Some p \<Rightarrow> check (is_same_user_as_us (ags_us sur) p) (map_option path_components (lk_exe l)))"

definition caller_is_lisa_program :: "agent_surface \<Rightarrow> look \<Rightarrow> bool" where
  "caller_is_lisa_program sur l \<longleftrightarrow>
     seen_as (\<lambda>same_user exe. exe_is_lisa_program (ags_canon sur) same_user exe default_managers \<or>
                hosts_a_model (ags_canon sur) same_user exe) sur l"

definition caller_hosts_a_model :: "agent_surface \<Rightarrow> look \<Rightarrow> bool" where
  "caller_hosts_a_model sur l \<longleftrightarrow> seen_as (hosts_a_model (ags_canon sur)) sur l"

definition caller_process :: "look \<Rightarrow> process option" where
  "caller_process l = (case lk_peer l of None \<Rightarrow> None | Some p \<Rightarrow> lk_process l)"

definition claimant_label :: "string option \<Rightarrow> peer_id \<Rightarrow> claimant" where
  "claimant_label exe p =
     (case exe of
        Some e \<Rightarrow> claimant_from (ai_app_id (identity_unattributed e))
      | None \<Rightarrow> claimant_from (case p of Bus name \<Rightarrow> ''peer:'' @ name | Direct \<Rightarrow> CLAIMANT_UNKNOWN))"

definition caller_claimant :: "look \<Rightarrow> claimant" where
  "caller_claimant l =
     (case lk_peer l of None \<Rightarrow> claimant_from CLAIMANT_UNKNOWN | Some p \<Rightarrow> claimant_label (lk_exe l) (peer_conn p))"

definition answerer_identity :: "agent_surface \<Rightarrow> look \<Rightarrow> bool \<times> process option" where
  "answerer_identity sur l =
     (case lk_peer l of
        None \<Rightarrow> (False, None)
      | Some p \<Rightarrow> (seen_as (exe_is_consent_program (ags_canon sur)) sur l, lk_process l))"

text \<open>\<open>owner\<close> is the broker's answer to who owns the consent name, \<open>None\<close> for nobody and for every failure to ask.\<close>

definition consent_role_at :: "peer_id \<Rightarrow> string option \<Rightarrow> consent_role" where
  "consent_role_at caller own =
     (case caller of
        Bus name \<Rightarrow> consent_role_of True (map_option (\<lambda>o'. (name, o')) own)
      | Direct \<Rightarrow> consent_role_of False None)"

section \<open>Replies\<close>

datatype fdo_error = FdoInvalidArgs string | FdoAccessDenied string | FdoFailed string

definition fdo_err :: "string \<Rightarrow> bus_error \<Rightarrow> fdo_error" where
  "fdo_err db e =
     (case e of
        BeUnknownCall i \<Rightarrow> FdoInvalidArgs (bus_error_text db e)
      | BeNotYours i \<Rightarrow> FdoInvalidArgs (bus_error_text db e)
      | BeNeedsConsentSurface i rule reason \<Rightarrow> FdoAccessDenied (bus_error_text db e)
      | _ \<Rightarrow> FdoFailed (bus_error_text db e))"

definition peer_error_text :: "peer_error \<Rightarrow> string" where
  "peer_error_text e =
     (case e of
        Unidentified \<Rightarrow> ''the caller could not be identified -- refusing''
      | NotTheOwner \<Rightarrow> ''this object belongs to a different caller''
      | BusFailure m \<Rightarrow> ''bus: '' @ m)"

definition disposition_of :: "confirmation \<Rightarrow> string" where
  "disposition_of c = (case c of Silent \<Rightarrow> ''executed'' | Chip \<Rightarrow> ''confirm-chip'' | Modal \<Rightarrow> ''confirm-modal'')"

definition outcome_reply :: "env \<Rightarrow> outcome \<Rightarrow> 64 word \<times> string \<times> string" where
  "outcome_reply en out =
     (case out of
        OExecuted i ref_id result \<Rightarrow>
          (i, ''executed'', env_text en (JObj [(''ledger_ref'', json_int ref_id), (''result'', result)]))
      | OFailed i ref_id error prov \<Rightarrow>
          (i, ''failed'', env_text en (JObj [(''error'', JStr error), (''ledger_ref'', json_int ref_id),
             (''provenance'', json_opt JStr prov)]))
      | OAwaiting i c esc spec \<Rightarrow> (i, disposition_of c, env_text en spec)
      | ODenied i reason \<Rightarrow> (i, ''denied'', env_text en (JObj [(''reason'', JStr reason)]))
      | ORefused i rule reason report \<Rightarrow> (i, ''refused'', env_text en (JObj [(''reason'', JStr reason), (''rule'', JStr rule)])))"

definition undo_report_json :: "undo_report \<Rightarrow> json" where
  "undo_report_json r =
     (case r of
        UrNothing \<Rightarrow> JObj [(''status'', JStr ''nothing'')]
      | UrNotUndoable app tool \<Rightarrow> JObj [(''status'', JStr ''not-undoable''), (''app_id'', JStr app), (''tool'', JStr tool)]
      | UrUndone app tool undo_tool result \<Rightarrow>
          JObj [(''status'', JStr ''undone''), (''app_id'', JStr app), (''tool'', JStr tool), (''undo_tool'', JStr undo_tool), (''result'', result)]
      | UrFailed app undo_tool error \<Rightarrow>
          JObj [(''status'', JStr ''failed''), (''app_id'', JStr app), (''undo_tool'', JStr undo_tool), (''error'', JStr error)])"

section \<open>Starting the dialog\<close>

datatype surface_start = NotNeeded | AlreadyRunning | StartIt

definition surface_start_of :: "bool \<Rightarrow> bool \<Rightarrow> bool \<Rightarrow> surface_start" where
  "surface_start_of brokered needed owned = (if \<not> brokered \<or> \<not> needed then NotNeeded else if owned then AlreadyRunning else StartIt)"

text \<open>What a handler sends besides its reply; the start is a request to the broker.\<close>

datatype emission = StartSurface | ConfirmationRequested "64 word" string | RefusalReported "64 word" string

definition start_consent_surface :: "agent_surface \<Rightarrow> string option \<Rightarrow> bool \<Rightarrow> emission list" where
  "start_consent_surface sur own needed =
     (if surface_start_of (ags_brokered sur) needed False = NotNeeded then []
      else if surface_start_of (ags_brokered sur) needed (own \<noteq> None) \<noteq> StartIt then [] else [StartSurface])"

definition emissions_of :: "agent_surface \<Rightarrow> env \<Rightarrow> string option \<Rightarrow> bool \<Rightarrow> outcome \<Rightarrow> emission list" where
  "emissions_of sur en own hosts out =
     (case out of
        OAwaiting i c esc spec \<Rightarrow>
          start_consent_surface sur own (c = Modal \<or> hosts) @ [ConfirmationRequested i (env_text en spec)]
      | ORefused i rule reason report \<Rightarrow> start_consent_surface sur own True @ [RefusalReported i (env_text en report)]
      | _ \<Rightarrow> [])"

section \<open>Handlers\<close>

text \<open>
  The options a caller sends: a value of another type counts as missing. \<open>caller\<close> is what the transport says of the sender.
\<close>

record call_ask =
  ca_app_id :: string
  ca_tool :: string
  ca_args_json :: string
  ca_actor :: "string option"
  ca_provenance :: "string list option"

record call_looks =
  cl_program :: look
  cl_claimant :: look
  cl_host :: look
  cl_process :: look
  cl_caller :: "peer_error + peer_id"
  cl_owner :: "string option"

definition asked_request :: "agent_surface \<Rightarrow> call_ask \<Rightarrow> json \<Rightarrow> call_looks \<Rightarrow> peer_id \<Rightarrow> call_request" where
  "asked_request sur ask args who caller =
     \<lparr>cr_actor = or_default ''host'' (ca_actor ask), cr_app_id = ca_app_id ask, cr_tool = ca_tool ask, cr_args = args,
      cr_chain = vc_chain (verify_chain (map provenance_parse (or_default [] (ca_provenance ask)))
        (caller_is_lisa_program sur (cl_program who)) (caller_claimant (cl_claimant who))),
      cr_caller = caller, cr_hosts_a_model = caller_hosts_a_model sur (cl_host who), cr_process = caller_process (cl_process who)\<rparr>"

definition request_call ::
    "agent_surface \<Rightarrow> env \<Rightarrow> int \<Rightarrow> call_ask \<Rightarrow> call_looks \<Rightarrow> agent_bus \<Rightarrow>
     agent_bus \<times> (fdo_error + 64 word \<times> string \<times> string) \<times> emission list" where
  "request_call sur en now ask who s =
     (case env_parse en (ca_args_json ask) of
        None \<Rightarrow> (s, Inl (FdoInvalidArgs (''args_json: '' @ ags_json_error sur (ca_args_json ask))), [])
      | Some args \<Rightarrow>
          (let c = caller_claimant (cl_claimant who);
               verified = verify_chain (map provenance_parse (or_default [] (ca_provenance ask))) (caller_is_lisa_program sur (cl_program who)) c;
               s1 = (if vc_downgraded verified then ledger_provenance_downgrade en c (ca_app_id ask) (ca_tool ask) s else s)
           in case cl_caller who of
                Inl e \<Rightarrow> (s1, Inl (FdoAccessDenied (peer_error_text e)), [])
              | Inr caller \<Rightarrow>
                  (let req = asked_request sur ask args who caller
                   in case request en now req s1 of
                        (s2, Inl e) \<Rightarrow> (s2, Inl (fdo_err (env_db_error en) e), [])
                      | (s2, Inr out) \<Rightarrow>
                          (s2, Inr (outcome_reply en out), emissions_of sur en (cl_owner who) (cr_hosts_a_model req) out))))"

definition answerer_of :: "agent_surface \<Rightarrow> peer_id \<Rightarrow> look \<Rightarrow> string option \<Rightarrow> answerer" where
  "answerer_of sur caller l own =
     \<lparr>an_peer = caller, an_consent = consent_role_at caller own, an_is_consent_program = fst (answerer_identity sur l),
      an_process = snd (answerer_identity sur l)\<rparr>"

definition confirm_call ::
    "agent_surface \<Rightarrow> env \<Rightarrow> int \<Rightarrow> 64 word \<Rightarrow> bool \<Rightarrow> peer_error + peer_id \<Rightarrow> look \<Rightarrow> string option \<Rightarrow> agent_bus \<Rightarrow>
     agent_bus \<times> (fdo_error + string \<times> string)" where
  "confirm_call sur en now i approve caller l own s =
     (case caller of
        Inl e \<Rightarrow> (s, Inl (FdoAccessDenied (peer_error_text e)))
      | Inr c \<Rightarrow>
          (case confirm en now i approve (answerer_of sur c l own) s of
             (s1, Inl e) \<Rightarrow> (s1, Inl (fdo_err (env_db_error en) e))
           | (s1, Inr out) \<Rightarrow> (s1, Inr (snd (outcome_reply en out)))))"

definition undo_call ::
    "env \<Rightarrow> peer_error + peer_id \<Rightarrow> agent_bus \<Rightarrow> agent_bus \<times> (fdo_error + string)" where
  "undo_call en caller s =
     (case caller of
        Inl e \<Rightarrow> (s, Inl (FdoAccessDenied (peer_error_text e)))
      | Inr c \<Rightarrow>
          (case undo en ''host'' c s of
             (s1, Inl e) \<Rightarrow> (s1, Inl (fdo_err (env_db_error en) e))
           | (s1, Inr r) \<Rightarrow> (s1, Inr (env_text en (undo_report_json r)))))"

text \<open>\<open>list_tools\<close> and \<open>discover\<close>.\<close>

definition list_tools_call :: "env \<Rightarrow> agent_bus \<Rightarrow> string" where
  "list_tools_call en s = env_text en (list_tools s)"

definition discover_call :: "env \<Rightarrow> string \<Rightarrow> agent_bus \<Rightarrow> string" where
  "discover_call en query s = env_text en (bus_discover query s)"

end
