(* ===== verification/Agent_Surface_Safety.thy ===== *)
theory Agent_Surface_Safety
  imports Agent_Surface
begin

text \<open>
  What the bus interface adds to the guarantees of the bus: who is behind a silent call and behind an approval, that a
  sweep of call ids learns nothing, and that whatever is parked was announced.
\<close>

section \<open>Programs on a list\<close>

text \<open>A look that places the caller: our user, and a program that one of the paths resolves to.\<close>

definition placed :: "agent_surface \<Rightarrow> string list \<Rightarrow> look \<Rightarrow> bool" where
  "placed sur programs l \<longleftrightarrow>
     (\<exists>p e. lk_peer l = Some p \<and> is_same_user_as_us (ags_us sur) p \<and> lk_exe l = Some e \<and>
        (\<exists>prog \<in> set programs. \<exists>m. ags_canon sur (path_components prog) = Some m \<and> path_eq m (path_components e)))"

lemma in_resolved: "m \<in> set (resolve_managers canon ps) \<longleftrightarrow> (\<exists>p \<in> set ps. canon p = Some m)"
  by (induction ps) (auto simp: resolve_managers_def map_filter_simps split: option.splits)

lemma may_manage_iff:
  "may_manage same_user exe ms = Inr () \<longleftrightarrow> same_user \<and> (\<exists>e. exe = Some e \<and> (\<exists>m \<in> set ms. path_eq m e))"
  by (auto simp: may_manage_def split: option.splits)

lemma on_list:
  "may_manage same_user exe (resolve_managers canon (map path_components programs)) = Inr () \<longleftrightarrow>
     same_user \<and> (\<exists>e. exe = Some e \<and> (\<exists>prog \<in> set programs. \<exists>m. canon (path_components prog) = Some m \<and> path_eq m e))"
proof -
  have "(\<exists>m \<in> set (resolve_managers canon (map path_components programs)). Q m) \<longleftrightarrow>
      (\<exists>prog \<in> set programs. \<exists>m. canon (path_components prog) = Some m \<and> Q m)" for Q
    unfolding Bex_def [of "set (resolve_managers canon (map path_components programs))"] in_resolved by auto
  then show ?thesis by (simp add: may_manage_iff)
qed

lemma seen_on_list:
  "seen_as (\<lambda>same_user exe. may_manage same_user exe (resolve_managers (ags_canon sur) (map path_components programs)) = Inr ()) sur l \<longleftrightarrow>
     placed sur programs l"
  unfolding seen_as_def placed_def on_list by (cases "lk_peer l"; cases "lk_exe l") simp_all

lemma seen_as_disj: "seen_as (\<lambda>u e. A u e \<or> B u e) sur l \<longleftrightarrow> seen_as A sur l \<or> seen_as B sur l"
  by (simp add: seen_as_def split: option.split)

lemma placed_append: "placed sur (a @ b) l \<longleftrightarrow> placed sur a l \<or> placed sur b l"
  unfolding placed_def set_append by blast

lemma lisa_program_placed: "caller_is_lisa_program sur l \<longleftrightarrow> placed sur (DEFAULT_MANAGERS @ MODEL_HOSTS) l"
  by (simp add: caller_is_lisa_program_def seen_as_disj placed_append exe_is_lisa_program_def hosts_a_model_def default_managers_def seen_on_list)

lemma host_placed: "caller_hosts_a_model sur l \<longleftrightarrow> placed sur MODEL_HOSTS l"
  by (simp add: caller_hosts_a_model_def hosts_a_model_def [abs_def] seen_on_list)

lemma consent_placed: "fst (answerer_identity sur l) \<longleftrightarrow> placed sur CONSENT_SURFACE_PROGRAMS l"
proof -
  have "seen_as (exe_is_consent_program (ags_canon sur)) sur l \<longleftrightarrow> placed sur CONSENT_SURFACE_PROGRAMS l"
    by (simp add: exe_is_consent_program_def [abs_def] seen_on_list)
  moreover have "lk_peer l = None \<Longrightarrow> \<not> placed sur CONSENT_SURFACE_PROGRAMS l" by (simp add: placed_def)
  ultimately show ?thesis by (auto simp: answerer_identity_def split: option.splits)
qed

section \<open>Silent calls\<close>

lemma provenance_parse_user [simp]: "provenance_parse s = PUser \<longleftrightarrow> s = ''user''"
  by (auto simp: provenance_parse_def split: option.splits)

lemma chain_of_users:
  "set (vc_chain (verify_chain (map provenance_parse ps) trusted c)) = {PUser} \<longleftrightarrow> trusted \<and> set ps = {''user''}"
proof (cases trusted)
  case True
  have "f ` A = {x} \<longleftrightarrow> A \<noteq> {} \<and> (\<forall>a \<in> A. f a = x)" for f :: "string \<Rightarrow> provenance" and A x by auto
  moreover have "A = {''user''} \<longleftrightarrow> A \<noteq> {} \<and> (\<forall>a \<in> A. a = ''user'')" for A by auto
  ultimately show ?thesis using True by (simp add: verify_chain_def)
next
  case False
  have "PUser \<notin> set (vc_chain (verify_chain (map provenance_parse ps) False c))"
    by (auto simp: verify_chain_def) (metis provenance_parse_user)
  with False show ?thesis by auto
qed

lemma downgrade_sel [simp]:
  "ab_dispatched (ledger_provenance_downgrade en c app tool s) = ab_dispatched s"
  "ab_registry (ledger_provenance_downgrade en c app tool s) = ab_registry s"
  "ab_grant (ledger_provenance_downgrade en c app tool s) = ab_grant s"
  "ab_pending (ledger_provenance_downgrade en c app tool s) = ab_pending s"
  "ab_next_id (ledger_provenance_downgrade en c app tool s) = ab_next_id s"
  by (simp_all add: ledger_provenance_downgrade_def Let_def)

lemma request_call_cases:
  obtains (unread) s1 e where "request_call sur en now ask who s = (s1, Inl e, [])" "ab_dispatched s1 = ab_dispatched s"
      "ab_pending s1 = ab_pending s" "ab_next_id s1 = ab_next_id s" "ab_grant s1 = ab_grant s"
  | (asked) args caller s1 req where "env_parse en (ca_args_json ask) = Some args" "cl_caller who = Inr caller"
      "req = asked_request sur ask args who caller"
      "ab_dispatched s1 = ab_dispatched s" "ab_pending s1 = ab_pending s" "ab_registry s1 = ab_registry s"
      "ab_grant s1 = ab_grant s" "ab_next_id s1 = ab_next_id s"
      "request_call sur en now ask who s =
         (case request en now req s1 of
            (s2, Inl e) \<Rightarrow> (s2, Inl (fdo_err (env_db_error en) e), [])
          | (s2, Inr out) \<Rightarrow> (s2, Inr (outcome_reply en out), emissions_of sur en (cl_owner who) (cr_hosts_a_model req) out))"
proof (cases "env_parse en (ca_args_json ask)")
  case None
  with unread [of s] show ?thesis by (simp add: request_call_def)
next
  case (Some args)
  let ?c = "caller_claimant (cl_claimant who)"
  let ?v = "verify_chain (map provenance_parse (or_default [] (ca_provenance ask))) (caller_is_lisa_program sur (cl_program who)) ?c"
  let ?s1 = "if vc_downgraded ?v then ledger_provenance_downgrade en ?c (ca_app_id ask) (ca_tool ask) s else s"
  show ?thesis
  proof (cases "cl_caller who")
    case (Inl e)
    with Some show ?thesis by (intro unread [of ?s1]) (simp_all add: request_call_def Let_def)
  next
    case (Inr caller)
    with Some show ?thesis by (intro asked [of args caller _ ?s1]) (simp_all add: request_call_def Let_def)
  qed
qed

lemma request_call_fst:
  "fst (case r of (s2, Inl e) \<Rightarrow> (s2, x e, y e) | (s2, Inr out) \<Rightarrow> (s2, z out, w out)) = fst r"
  by (auto split: prod.split sum.split)

text \<open>
  C4. Who acts without a person. Whatever a request claims, when it makes the daemon hand anything to an app at once, then the
  caller was seen as our user running a program on the list of managers or the model's host, it said user turns only, the
  call handed over is the one it asked for, with the arguments it sent, on a registered tool of read tier, and the guard
  did not refuse it.
\<close>

theorem only_lisa_programs_act_silently:
  assumes "ab_dispatched (fst (request_call sur en now ask who s)) \<noteq> ab_dispatched s"
  shows "\<exists>args decl. env_parse en (ca_args_json ask) = Some args \<and>
    ab_dispatched (fst (request_call sur en now ask who s)) = ab_dispatched s @ [(ca_app_id ask, ca_tool ask, args)] \<and>
    placed sur (DEFAULT_MANAGERS @ MODEL_HOSTS) (cl_program who) \<and> set (or_default [] (ca_provenance ask)) = {''user''} \<and>
    registry_tool (ab_registry s) (ca_app_id ask) (ca_tool ask) = Some decl \<and> td_tier decl = Read \<and>
    validate_args (td_input_schema decl) args = Inr () \<and>
    (\<exists>caller. cl_caller who = Inr caller \<and>
       \<not> is_refused (judge_call en (ab_next_id s) (asked_request sur ask args who caller) decl (ab_grant s)))"
proof (cases rule: request_call_cases [of sur en now ask who s])
  case (unread s1 e)
  with assms show ?thesis by simp
next
  case (asked args caller s1 req)
  have eq: "fst (request_call sur en now ask who s) = fst (request en now req s1)" by (simp add: asked(9) request_call_fst)
  with assms asked(4) have "ab_dispatched (fst (request en now req s1)) \<noteq> ab_dispatched s1" by simp
  from request_dispatched [of en now req s1] this
  obtain decl where "vetted en req decl s1" "td_tier decl = Read" "trusted_chain (cr_chain req)"
    "ab_dispatched (fst (request en now req s1)) = ab_dispatched s1 @ [call_of req]" by blast
  with asked eq show ?thesis
    by (auto simp: vetted_def vetted_call_def trusted_chain_set asked_request_def chain_of_users lisa_program_placed call_of_def)
qed

section \<open>Answers\<close>

lemma confirm_call_fst: "cl = Inr c \<Longrightarrow> fst (confirm_call sur en now i b cl l own s) = fst (confirm en now i b (answerer_of sur c l own) s)"
  by (simp add: confirm_call_def split: prod.split sum.split)

lemma role_is_surface: "consent_role_at (Bus name) own = RoleSurface \<longleftrightarrow> own = Some name"
  by (auto simp: consent_role_at_def consent_role_of_def split: option.splits)

lemma role_is_brokered: "consent_role_at caller own = RoleNoBroker \<longleftrightarrow> caller = Direct"
  by (auto simp: consent_role_at_def consent_role_of_def split: option.splits peer_id.splits)

text \<open>A look, together with the broker's answer, that shows the dialog: the name and a program from the list.\<close>

definition seen_as_dialog :: "agent_surface \<Rightarrow> peer_error + peer_id \<Rightarrow> look \<Rightarrow> string option \<Rightarrow> bool" where
  "seen_as_dialog sur caller l own \<longleftrightarrow>
     (\<exists>name. caller = Inr (Bus name) \<and> own = Some name) \<and> placed sur CONSENT_SURFACE_PROGRAMS l"

definition needs_dialog :: "pending \<Rightarrow> bool" where
  "needs_dialog p \<longleftrightarrow> cr_hosts_a_model (p_req p) \<or> res_confirmation (p_resolution p) = Modal"

lemma dialog_released:
  assumes "map_of (ab_pending s) i = Some p" "needs_dialog p" "caller \<noteq> Inr Direct"
    and "ab_dispatched (fst (confirm_call sur en now i b caller l own s)) \<noteq> ab_dispatched s"
  shows "b \<and> elapsed now p \<le> ab_ttl s \<and> seen_as_dialog sur caller l own \<and> caller \<noteq> Inr (owner_id (p_owner p)) \<and>
    \<not> same_process (lk_process l) (cr_process (p_req p))"
proof (cases caller)
  case (Inl e)
  with assms(4) show ?thesis by (simp add: confirm_call_def)
next
  case (Inr c)
  with assms(3) obtain name where c: "c = Bus name" by (cases c) auto
  let ?a = "answerer_of sur c l own"
  from assms(4) have "ab_dispatched (fst (confirm en now i b ?a s)) \<noteq> ab_dispatched s" by (simp add: confirm_call_fst [OF Inr])
  from confirm_cases [OF this]
  obtain q where q: "map_of (ab_pending s) i = Some q" "b" "judge_approval (approval_of q True ?a) = ApAllow" "elapsed now q \<le> ab_ttl s"
    by blast
  with assms(1) have same: "q = p" by simp
  have "independent_surface (approval_of p True ?a) \<or> own_chip (approval_of p True ?a)"
    using approval_cases [of "approval_of p True ?a"] q(3) same by simp
  moreover have "\<not> own_chip (approval_of p True ?a)"
    using assms(2) by (auto simp: own_chip_def approval_of_def needs_dialog_def answerer_of_def c role_is_brokered)
  ultimately have ind: "independent_surface (approval_of p True ?a)" by blast
  then have "placed sur CONSENT_SURFACE_PROGRAMS l"
    by (simp add: independent_surface_def verified_surface_def approval_of_def answerer_of_def consent_placed)
  moreover from this have "snd (answerer_identity sur l) = lk_process l" by (auto simp: answerer_identity_def placed_def)
  ultimately show ?thesis
    using ind q(2,4) same Inr c
    by (cases "p_owner p") (auto simp: independent_surface_def verified_surface_def approval_of_def answerer_of_def role_is_surface
        seen_as_dialog_def)
qed

text \<open>
  C9. Which program says yes. On a message bus a call that is destructive, or that the model's host asked for, is handed
  to its app by an answer only if the answer approves it in time, the broker names the answering connection as owner of
  the consent name, the program behind that connection was seen as our user's and is on the list of consent programs, and
  neither the connection nor the process is the one that asked; then exactly the parked call runs.
\<close>

theorem only_a_consent_program_releases:
  assumes "map_of (ab_pending s) i = Some p" "needs_dialog p" "caller \<noteq> Inr Direct"
    and "ab_dispatched (fst (confirm_call sur en now i b caller l own s)) \<noteq> ab_dispatched s"
  shows "b \<and> elapsed now p \<le> ab_ttl s \<and> seen_as_dialog sur caller l own \<and> caller \<noteq> Inr (owner_id (p_owner p)) \<and>
    \<not> same_process (lk_process l) (cr_process (p_req p)) \<and>
    ab_dispatched (fst (confirm_call sur en now i b caller l own s)) = ab_dispatched s @ [call_of (p_req p)]"
proof -
  have "ab_dispatched (fst (confirm_call sur en now i b caller l own s)) = ab_dispatched s @ [call_of (p_req p)]"
  proof (cases caller)
    case (Inr c)
    let ?a = "answerer_of sur c l own"
    have "ab_dispatched (fst (confirm en now i b ?a s)) \<noteq> ab_dispatched s" using assms(4) by (simp add: confirm_call_fst [OF Inr])
    from confirm_cases [OF this] assms(1) show ?thesis by (auto simp: confirm_call_fst [OF Inr] Let_def)
  qed (use assms(4) in \<open>simp add: confirm_call_def\<close>)
  with dialog_released [OF assms] show ?thesis by blast
qed

section \<open>Sweeping call ids\<close>

text \<open>
  C10. A sweep of call ids learns nothing. A caller that is not party to a call gets the same answer, name and text, for its
  id whether it is parked or not, approving or withdrawing, and changes nothing either way.
\<close>

theorem sweeping_learns_nothing:
  assumes "map_of (ab_pending s) i = Some p" "map_of (ab_pending t) i = None"
    and "\<not> party (approval_of p b (answerer_of sur c l own))"
  shows "snd (confirm_call sur en now i b (Inr c) l own s) = snd (confirm_call sur en now i b (Inr c) l own t) \<and>
    fst (confirm_call sur en now i b (Inr c) l own s) = s \<and> fst (confirm_call sur en now i b (Inr c) l own t) = t"
proof -
  have "judge_approval (approval_of p b (answerer_of sur c l own)) = ApNotYours" using approval_cases assms(3) by blast
  then have "confirm en now i b (answerer_of sur c l own) s = (s, Inl (BeNotYours i))"
    using assms(1) by (simp add: confirm_def may_answer_def refuse_answer_def)
  moreover have "confirm en now i b (answerer_of sur c l own) t = (t, Inl (BeUnknownCall i))"
    using assms(2) by (simp add: confirm_def)
  ultimately show ?thesis by (simp add: confirm_call_def fdo_err_def)
qed

section \<open>A concrete caller\<close>

definition sample_agent_surface :: agent_surface where
  "sample_agent_surface =
     \<lparr>ags_us = 1000, ags_canon = Some, ags_brokered = True, ags_json_error = (\<lambda>t. ''expected value'')\<rparr>"

definition sample_look :: "string \<Rightarrow> string \<Rightarrow> look" where
  "sample_look name exe =
     \<lparr>lk_peer = Some \<lparr>peer_conn = Bus name, peer_uid = Some 1000, peer_pid = Some 7, peer_fd = Some 3\<rparr>, lk_exe = Some exe, lk_process = None\<rparr>"

definition sample_ask :: call_ask where
  "sample_ask =
     \<lparr>ca_app_id = ''org.lisa.Calendar'', ca_tool = ''list_events'', ca_args_json = ''{}'', ca_actor = None, ca_provenance = Some [''user'']\<rparr>"

definition sample_looks :: "string \<Rightarrow> call_looks" where
  "sample_looks exe =
     \<lparr>cl_program = sample_look '':1.7'' exe, cl_claimant = sample_look '':1.7'' exe, cl_host = sample_look '':1.7'' exe,
      cl_process = sample_look '':1.7'' exe, cl_caller = Inr (Bus '':1.7''), cl_owner = None\<rparr>"

theorem only_lisa_programs_act_silently_witness:
  "placed sample_agent_surface (DEFAULT_MANAGERS @ MODEL_HOSTS) (cl_program (sample_looks ''/usr/lib/lisa/bin/lisa'')) \<and>
   ab_dispatched (fst (request_call sample_agent_surface sample_env 5 sample_ask (sample_looks ''/usr/lib/lisa/bin/lisa'') sample_bus)) =
     [(''org.lisa.Calendar'', ''list_events'', JObj [(''event_id'', JStr ''e1'')])]"
proof -
  let ?r = "request_call sample_agent_surface sample_env 5 sample_ask (sample_looks ''/usr/lib/lisa/bin/lisa'') sample_bus"
  have "length (ab_dispatched (fst ?r)) = 1" by code_simp
  then have "ab_dispatched (fst ?r) \<noteq> ab_dispatched sample_bus" by (auto simp: sample_parked_sel)
  from only_lisa_programs_act_silently [OF this] show ?thesis
    by (auto simp: sample_parked_sel sample_ask_def sample_env_def)
qed

theorem only_a_consent_program_releases_witness:
  "seen_as_dialog sample_agent_surface (Inr (Bus '':1.8'')) (sample_look '':1.8'' ''/usr/bin/lisa-consentd'') (Some '':1.8'') \<and>
   ab_dispatched (fst (confirm_call sample_agent_surface sample_env 6 1 True (Inr (Bus '':1.8''))
     (sample_look '':1.8'' ''/usr/bin/lisa-consentd'') (Some '':1.8'') sample_model_parked)) = [call_of sample_model_write]"
proof -
  let ?r = "confirm_call sample_agent_surface sample_env 6 1 True (Inr (Bus '':1.8'')) (sample_look '':1.8'' ''/usr/bin/lisa-consentd'')
     (Some '':1.8'') sample_model_parked"
  have "length (ab_dispatched (fst ?r)) = 1" by code_simp
  then have "ab_dispatched (fst ?r) \<noteq> ab_dispatched sample_model_parked" by (auto simp: sample_parked_sel)
  moreover have "map_of (ab_pending sample_model_parked) 1 = Some (sample_pending sample_model_write)"
    by (simp add: sample_model_parked_pending)
  moreover have "needs_dialog (sample_pending sample_model_write)"
    by (simp add: needs_dialog_def sample_pending_def sample_model_write_def)
  ultimately show ?thesis
    using only_a_consent_program_releases [of sample_model_parked 1 "sample_pending sample_model_write" "Inr (Bus '':1.8'')"]
    by (fastforce simp: sample_parked_sel sample_pending_def)
qed

theorem sweeping_learns_nothing_witness:
  "snd (confirm_call sample_agent_surface sample_env 6 1 False (Inr (Bus '':1.66'')) (sample_look '':1.66'' ''/usr/bin/evil'') None sample_model_parked) =
   snd (confirm_call sample_agent_surface sample_env 6 1 False (Inr (Bus '':1.66'')) (sample_look '':1.66'' ''/usr/bin/evil'') None sample_bus)"
proof -
  have "map_of (ab_pending sample_model_parked) 1 = Some (sample_pending sample_model_write)" "map_of (ab_pending sample_bus) 1 = None"
    by (simp_all add: sample_model_parked_pending sample_bus_def bus_new_def)
  moreover have "\<not> party (approval_of (sample_pending sample_model_write) False
      (answerer_of sample_agent_surface (Bus '':1.66'') (sample_look '':1.66'' ''/usr/bin/evil'') None))" by code_simp
  ultimately show ?thesis using sweeping_learns_nothing by blast
qed

end
