(* ===== verification/Consent_Daemon.thy ===== *)
theory Consent_Daemon
  imports Agent_Surface_Safety
begin

text \<open>
  The desktop consent surface: \<open>shell/consent/daemon/src\<close>. The daemon owns the bus name, draws each request through a
  child that has no bus, and turns a click into \<open>Confirm\<close>.
\<close>

section \<open>The channel to the dialog (protocol.rs)\<close>

datatype to_renderer = ToConfirm "64 word" string | ToRefusal "64 word" string

datatype answer = Allow | Deny | Dismiss

record from_renderer =
  fr_call_id :: "64 word"
  fr_answer :: answer

fun renderer_id :: "to_renderer \<Rightarrow> 64 word" where
  "renderer_id (ToConfirm i spec) = i"
| "renderer_id (ToRefusal i report) = i"

definition to_renderer_json :: "to_renderer \<Rightarrow> json" where
  "to_renderer_json m =
     (case m of
        ToConfirm i spec \<Rightarrow> JObj [(''kind'', JStr ''confirm''), (''call_id'', json_u64 i), (''spec'', JStr spec)]
      | ToRefusal i report \<Rightarrow> JObj [(''kind'', JStr ''refusal''), (''call_id'', json_u64 i), (''report'', JStr report)])"

definition to_line :: "(json \<Rightarrow> string) \<Rightarrow> to_renderer \<Rightarrow> string" where
  "to_line text m = text (to_renderer_json m) @ [CHR 0x0A]"

definition parse_answer :: "string \<Rightarrow> answer option" where
  "parse_answer s =
     (if s = ''allow'' then Some Allow else if s = ''deny'' then Some Deny else if s = ''dismiss'' then Some Dismiss else None)"

text \<open>
  The derived \<open>Deserialize\<close> of a struct: an object whose unknown keys are ignored and whose two keys come once each, or an
  array of the two values in order. An answer may be spelled as a one-key object with a null inside, as for any unit variant.
\<close>

definition answer_value :: "json \<Rightarrow> answer option" where
  "answer_value v =
     (case v of JStr s \<Rightarrow> parse_answer s | JObj [(k, JNull)] \<Rightarrow> parse_answer k | _ \<Rightarrow> None)"

definition once :: "string \<Rightarrow> (string \<times> json) list \<Rightarrow> json option" where
  "once k kvs = (case filter (\<lambda>kv. fst kv = k) kvs of [kv] \<Rightarrow> Some (snd kv) | _ \<Rightarrow> None)"

definition from_value :: "json \<Rightarrow> from_renderer option" where
  "from_value v =
     (case (case v of
              JObj kvs \<Rightarrow> (case (once ''call_id'' kvs, once ''answer'' kvs) of (Some i, Some a) \<Rightarrow> Some (i, a) | _ \<Rightarrow> None)
            | JArr [i, a] \<Rightarrow> Some (i, a)
            | _ \<Rightarrow> None) of
        None \<Rightarrow> None
      | Some (i, a) \<Rightarrow>
          (case (as_u64 i, answer_value a) of (Some n, Some b) \<Rightarrow> Some \<lparr>fr_call_id = n, fr_answer = b\<rparr> | _ \<Rightarrow> None))"

definition trim_line_end :: "string \<Rightarrow> string" where
  "trim_line_end s = rev (dropWhile (\<lambda>c. ccode c = 13 \<or> ccode c = 10) (rev s))"

definition from_line :: "(string \<Rightarrow> json option) \<Rightarrow> string \<Rightarrow> from_renderer option" where
  "from_line parse line = Option.bind (parse (trim_line_end line)) from_value"

definition confirm_for :: "answer \<Rightarrow> bool option" where
  "confirm_for a = (case a of Allow \<Rightarrow> Some True | Deny \<Rightarrow> Some False | Dismiss \<Rightarrow> None)"

section \<open>The child (renderer.rs)\<close>

definition RENDERER :: string where
  "RENDERER = ''/usr/share/lisa/shell/consent/lisa-consentd.js''"

definition GJS :: string where
  "GJS = ''/usr/bin/gjs''"

definition STRIPPED_ENV :: "string list" where
  "STRIPPED_ENV = [''DBUS_SESSION_BUS_ADDRESS'', ''DBUS_STARTER_ADDRESS'', ''DBUS_STARTER_BUS_TYPE'']"

definition A11Y_ADDRESS :: string where
  "A11Y_ADDRESS = ''AT_SPI_BUS_ADDRESS''"

text \<open>A release build: the override for development is compiled out.\<close>

definition renderer_path :: string where
  "renderer_path = RENDERER"

record child_command =
  cc_program :: string
  cc_args :: "string list"
  cc_env :: "string \<rightharpoonup> string"

definition renderer_command :: "string \<Rightarrow> string \<Rightarrow> string option \<Rightarrow> (string \<rightharpoonup> string) \<Rightarrow> child_command" where
  "renderer_command gjs script a11y own_env =
     \<lparr>cc_program = gjs, cc_args = [''-m'', script],
      cc_env = (fold (\<lambda>var e. e(var := None)) STRIPPED_ENV own_env)(A11Y_ADDRESS := a11y)\<rparr>"

text \<open>The child gets no address of the session bus, whatever the daemon was started with; the accessibility bus is what the daemon resolved.\<close>

lemma child_has_no_session_bus:
  "cc_env (renderer_command gjs script a11y own_env) var =
     (if var = A11Y_ADDRESS then a11y else if var \<in> set STRIPPED_ENV then None else own_env var)"
  by (auto simp: renderer_command_def STRIPPED_ENV_def A11Y_ADDRESS_def)

section \<open>The daemon (main.rs)\<close>

text \<open>
  Children are numbered as they are spawned. \<open>cn_queue\<close> is the channel the reader tasks write into, \<open>cn_log\<close> what left the
  daemon: lines written to a child and calls of \<open>Confirm\<close>.
\<close>

datatype consent_effect = Drew nat to_renderer | SentConfirm "64 word" bool

record consentd =
  cn_open :: "64 word list"
  cn_child :: "nat option"
  cn_spawned :: nat
  cn_queue :: "from_renderer list"
  cn_log :: "consent_effect list"

definition consentd_new :: consentd where
  "consentd_new = \<lparr>cn_open = [], cn_child = None, cn_spawned = 0, cn_queue = [], cn_log = []\<rparr>"

definition ping_text :: "string \<Rightarrow> string" where
  "ping_text version = ''lisa-consentd '' @ version"

definition consent_pending_count :: "consentd \<Rightarrow> nat" where
  "consent_pending_count d = length (cn_open d)"

definition to_renderer_of :: "string \<Rightarrow> 64 word \<Rightarrow> string \<Rightarrow> to_renderer option" where
  "to_renderer_of member i payload =
     (if member = ''ConfirmationRequested'' then Some (ToConfirm i payload)
      else if member = ''RefusalReported'' then Some (ToRefusal i payload) else None)"

text \<open>\<open>gone\<close>: the child the daemon holds has exited. \<open>spawned\<close>, \<open>written\<close>: whether spawning and writing succeed.\<close>

definition ensure :: "bool \<Rightarrow> bool \<Rightarrow> consentd \<Rightarrow> consentd \<times> bool" where
  "ensure gone spawned d =
     (if cn_child d \<noteq> None \<and> \<not> gone then (d, True)
      else (let d1 = d\<lparr>cn_open := []\<rparr>
            in if spawned then (d1\<lparr>cn_child := Some (cn_spawned d), cn_spawned := cn_spawned d + 1\<rparr>, True) else (d1, False)))"

definition show_dialog :: "bool \<Rightarrow> bool \<Rightarrow> bool \<Rightarrow> to_renderer \<Rightarrow> consentd \<Rightarrow> consentd \<times> bool" where
  "show_dialog gone spawned written m d =
     (if renderer_id m \<in> set (cn_open d) then (d, True)
      else (case ensure gone spawned d of
              (d1, False) \<Rightarrow> (d1, False)
            | (d1, True) \<Rightarrow>
                (if \<not> written then (d1, False)
                 else (d1\<lparr>cn_open := renderer_id m # cn_open d1,
                          cn_log := cn_log d1 @ [Drew (case cn_child d1 of Some g \<Rightarrow> g | None \<Rightarrow> 0) m]\<rparr>, True))))"

definition close_dialog :: "64 word \<Rightarrow> consentd \<Rightarrow> consentd \<times> bool" where
  "close_dialog i d = (d\<lparr>cn_open := removeAll i (cn_open d)\<rparr>, i \<in> set (cn_open d))"

text \<open>The two arms of the loop and the reader task of a child.\<close>

definition on_signal :: "bool \<Rightarrow> bool \<Rightarrow> bool \<Rightarrow> string \<Rightarrow> (64 word \<times> string) option \<Rightarrow> consentd \<Rightarrow> consentd" where
  "on_signal gone spawned written member body d =
     (case body of
        None \<Rightarrow> d
      | Some (i, payload) \<Rightarrow>
          (case to_renderer_of member i payload of
             None \<Rightarrow> d
           | Some m \<Rightarrow> fst (show_dialog gone spawned written m d)))"

definition on_child_line :: "(string \<Rightarrow> json option) \<Rightarrow> string \<Rightarrow> consentd \<Rightarrow> consentd" where
  "on_child_line parse line d =
     (case from_line parse line of None \<Rightarrow> d | Some a \<Rightarrow> d\<lparr>cn_queue := cn_queue d @ [a]\<rparr>)"

definition on_answer :: "consentd \<Rightarrow> consentd \<times> (64 word \<times> bool) option" where
  "on_answer d =
     (case cn_queue d of
        [] \<Rightarrow> (d, None)
      | a # rest \<Rightarrow>
          (case close_dialog (fr_call_id a) (d\<lparr>cn_queue := rest\<rparr>) of
             (d1, False) \<Rightarrow> (d1, None)
           | (d1, True) \<Rightarrow>
               (case confirm_for (fr_answer a) of
                  None \<Rightarrow> (d1, None)
                | Some b \<Rightarrow> (d1\<lparr>cn_log := cn_log d1 @ [SentConfirm (fr_call_id a) b]\<rparr>, Some (fr_call_id a, b)))))"

end
