(* ===== verification/Consent_System.thy ===== *)
theory Consent_System
  imports Consent_Daemon
begin

text \<open>
  The Agent Bus and the consent surface as one system: what the bus announces, the dialog draws, a person answers, and the
  surface's own connection confirms. Over every run a call that needs the dialog runs only after a click on a window that
  showed exactly it.
\<close>

section \<open>One surface\<close>

text \<open>A run of the daemon alone.\<close>

datatype surface_event =
    Signalled bool bool bool string "(64 word \<times> string) option"
  | ChildSaid string
  | AnswerTaken

fun surface_step_of :: "(string \<Rightarrow> json option) \<Rightarrow> surface_event \<Rightarrow> consentd \<Rightarrow> consentd" where
  "surface_step_of parse (Signalled gone spawned written member body) d = on_signal gone spawned written member body d"
| "surface_step_of parse (ChildSaid line) d = on_child_line parse line d"
| "surface_step_of parse AnswerTaken d = fst (on_answer d)"

lemma ensure_cases:
  obtains (kept) "ensure gone spawned d = (d, True)" "cn_child d \<noteq> None"
  | (fresh) "ensure gone spawned d = (d\<lparr>cn_open := [], cn_child := Some (cn_spawned d), cn_spawned := cn_spawned d + 1\<rparr>, True)"
  | (failed) "ensure gone spawned d = (d\<lparr>cn_open := []\<rparr>, False)"
  by (cases "cn_child d \<noteq> None \<and> \<not> gone"; cases spawned) (auto simp: ensure_def Let_def)

text \<open>What a step can add to the log, and to the dialogs that are open.\<close>

lemma show_dialog_cases:
  obtains (unchanged) "cn_log (fst (show_dialog gone spawned written m d)) = cn_log d" "cn_queue (fst (show_dialog gone spawned written m d)) = cn_queue d"
      "set (cn_open (fst (show_dialog gone spawned written m d))) \<subseteq> set (cn_open d)"
  | (drawn) g where "cn_log (fst (show_dialog gone spawned written m d)) = cn_log d @ [Drew g m]" "cn_queue (fst (show_dialog gone spawned written m d)) = cn_queue d"
      "renderer_id m \<notin> set (cn_open d)"
      "set (cn_open (fst (show_dialog gone spawned written m d))) \<subseteq> insert (renderer_id m) (set (cn_open d))"
proof (cases "renderer_id m \<in> set (cn_open d)")
  case True
  then show ?thesis by (intro unchanged) (simp_all add: show_dialog_def)
next
  case False
  show ?thesis
  proof (cases rule: ensure_cases [of gone spawned d])
    case failed
    with False show ?thesis by (intro unchanged) (simp_all add: show_dialog_def)
  next
    case kept
    with False show ?thesis by (cases written) (auto simp: show_dialog_def intro: unchanged drawn)
  next
    case fresh
    with False show ?thesis by (cases written) (auto simp: show_dialog_def intro: unchanged drawn)
  qed
qed

lemma on_answer_cases:
  obtains (nothing) "snd (on_answer d) = None" "cn_log (fst (on_answer d)) = cn_log d" "set (cn_open (fst (on_answer d))) \<subseteq> set (cn_open d)"
      "set (cn_queue (fst (on_answer d))) \<subseteq> set (cn_queue d)"
  | (answered) a rest b where "cn_queue d = a # rest" "fr_call_id a \<in> set (cn_open d)" "confirm_for (fr_answer a) = Some b"
      "snd (on_answer d) = Some (fr_call_id a, b)" "cn_log (fst (on_answer d)) = cn_log d @ [SentConfirm (fr_call_id a) b]"
      "set (cn_open (fst (on_answer d))) = set (cn_open d) - {fr_call_id a}" "cn_queue (fst (on_answer d)) = rest"
proof (cases "cn_queue d")
  case Nil
  show ?thesis by (rule nothing) (simp_all add: on_answer_def Nil)
next
  case (Cons a rest)
  note queue = Cons
  show ?thesis
  proof (cases "confirm_for (fr_answer a)")
    case None
    show ?thesis by (rule nothing) (use queue None in \<open>auto simp: on_answer_def close_dialog_def split: bool.split\<close>)
  next
    case (Some b)
    show ?thesis
    proof (cases "fr_call_id a \<in> set (cn_open d)")
      case True
      show ?thesis by (rule answered [of a rest b]) (use queue Some True in \<open>auto simp: on_answer_def close_dialog_def split: bool.split\<close>)
    next
      case False
      show ?thesis by (rule nothing) (use queue False in \<open>auto simp: on_answer_def close_dialog_def split: bool.split\<close>)
    qed
  qed
qed

text \<open>
  The discipline of one daemon: an open dialog has been drawn and not yet been answered, every answer in the channel was
  read from a child, and each \<open>Confirm\<close> answers a dialog of its own.
\<close>

definition draws_of :: "64 word \<Rightarrow> consent_effect list \<Rightarrow> nat" where
  "draws_of i log = length (filter (\<lambda>e. case e of Drew g m \<Rightarrow> renderer_id m = i | _ \<Rightarrow> False) log)"

definition confirms_of :: "64 word \<Rightarrow> consent_effect list \<Rightarrow> nat" where
  "confirms_of i log = length (filter (\<lambda>e. case e of SentConfirm j b \<Rightarrow> j = i | _ \<Rightarrow> False) log)"

lemma count_append [simp]:
  "draws_of i (log @ [Drew g m]) = draws_of i log + (if renderer_id m = i then 1 else 0)"
  "draws_of i (log @ [SentConfirm j b]) = draws_of i log"
  "confirms_of i (log @ [Drew g m]) = confirms_of i log"
  "confirms_of i (log @ [SentConfirm j b]) = confirms_of i log + (if j = i then 1 else 0)"
  by (simp_all add: draws_of_def confirms_of_def)

definition disciplined :: "consentd \<Rightarrow> bool" where
  "disciplined d \<longleftrightarrow>
     (\<forall>i. confirms_of i (cn_log d) \<le> draws_of i (cn_log d)) \<and>
     (\<forall>i \<in> set (cn_open d). confirms_of i (cn_log d) < draws_of i (cn_log d))"

lemma disciplined_new: "disciplined consentd_new"
  by (simp add: disciplined_def consentd_new_def confirms_of_def)

lemma disciplined_less: "disciplined d \<Longrightarrow> cn_log d' = cn_log d \<Longrightarrow> set (cn_open d') \<subseteq> set (cn_open d) \<Longrightarrow> disciplined d'"
  by (auto simp: disciplined_def)

lemma disciplined_show:
  assumes "disciplined d" shows "disciplined (fst (show_dialog gone spawned written m d))"
proof (cases rule: show_dialog_cases [of gone spawned written m d])
  case unchanged
  with assms show ?thesis by (auto intro: disciplined_less)
next
  case (drawn g)
  with assms show ?thesis by (auto simp: disciplined_def le_SucI less_SucI less_Suc_eq_le)
qed

lemma disciplined_answer:
  assumes "disciplined d" shows "disciplined (fst (on_answer d))"
proof (cases rule: on_answer_cases [of d])
  case nothing
  with assms show ?thesis by (auto intro: disciplined_less)
next
  case (answered a rest b)
  with assms show ?thesis by (auto simp: disciplined_def Suc_leI)
qed

lemma disciplined_step:
  assumes "disciplined d" shows "disciplined (surface_step_of parse e d)"
proof (cases e)
  case (ChildSaid line)
  with assms show ?thesis by (auto simp: on_child_line_def intro: disciplined_less split: option.split)
qed (use assms in \<open>auto simp: on_signal_def disciplined_show disciplined_answer split: option.split\<close>)

end
