(* ===== verification/Consent_Session.thy ===== *)
theory Consent_Session
  imports Consent_System
begin

text \<open>What a handler of the bus parks, announces and numbers, for the composition with the dialog.\<close>

section \<open>What a request parks\<close>

text \<open>The text of the announcement of a parked call.\<close>

definition spec_text :: "env \<Rightarrow> grant \<Rightarrow> 64 word \<Rightarrow> pending \<Rightarrow> string" where
  "spec_text en g i p =
     env_text en (spec_json i (p_req p) (p_decl p) (judge_call en i (p_req p) (p_decl p) g) (p_resolution p))"

lemma set_al_put_sub: "set (al_put i p m) \<subseteq> insert (i, p) (set m)"
  by (induction i p m rule: al_put.induct) auto

lemma deny_numbers [simp]:
  "ab_next_id (fst (ledger_deny en req r st m s)) = ab_next_id s"
  "ab_next_id (fst (deny_all en st m ps s)) = ab_next_id s"
proof -
  show d: "ab_next_id (fst (ledger_deny en req r st m s)) = ab_next_id s" for req r st m s by (simp add: ledger_deny_def)
  show "ab_next_id (fst (deny_all en st m ps s)) = ab_next_id s"
    by (induction ps arbitrary: s) (simp_all add: attempt_def d split: sum.split)
qed

lemma numbered_sel [simp]:
  "ab_next_id (snd (collect_expired en now s)) = ab_next_id s"
  "ab_next_id (snd (evict_greediest en s)) = ab_next_id s"
  "ab_next_id (fst (count_refusal c r s)) = ab_next_id s"
  "ab_next_id (fst (dispatch en app tool args s)) = ab_next_id s"
  "ab_next_id (fst (journal_call en req decl res ref result s)) = ab_next_id s"
  by (simp_all add: collect_expired_def evict_greediest_def count_refusal_def dispatch_def journal_call_def Let_def
      split: option.split prod.split)

lemma refuse_numbers [simp]: "ab_next_id (fst (refuse en i req decl v s)) = ab_next_id s"
  by (simp add: refuse_def Let_def attempt_def split: sum.split)

lemma execute_numbers [simp]: "ab_next_id (fst (execute en i req decl res ref s)) = ab_next_id s"
  using numbered_sel(4) [of en "cr_app_id req" "cr_tool req" "cr_args req" s]
  by (auto simp: execute_def Let_def simp del: numbered_sel(4) split: prod.split sum.split)

lemma park_numbers [simp]: "ab_next_id (fst (park en now i req decl v res ref s)) = ab_next_id s"
  using numbered_sel(2) [of en s]
  by (cases "evict_greediest en s") (auto simp: park_def Let_def attempt_def simp del: numbered_sel(2) split: option.split sum.split)

lemma admit_numbers [simp]: "ab_next_id (fst (admit en now i req decl s)) = ab_next_id s"
  by (simp add: admit_def Let_def attempt_def split: sum.split)

lemma attempt_numbers:
  "ab_next_id (fst r) = n \<Longrightarrow> (\<And>y t. ab_next_id t = n \<Longrightarrow> ab_next_id (fst (k y t)) = n) \<Longrightarrow> ab_next_id (fst (attempt r k)) = n"
  by (simp add: attempt_def split: sum.split)

lemma confirm_numbers [simp]: "ab_next_id (fst (confirm en now i b a s)) = ab_next_id s"
proof (cases "map_of (ab_pending s) i")
  case (Some p)
  show ?thesis
  proof (cases "may_answer i p b a")
    case (Inl err)
    with Some show ?thesis by (simp add: confirm_def refuse_answer_def attempt_numbers)
  next
    case (Inr u)
    with Some show ?thesis by (simp add: confirm_def Let_def attempt_numbers)
  qed
qed (simp add: confirm_def)

lemma on_journal_numbers [simp]: "ab_next_id (fst (on_journal f s)) = ab_next_id s"
  by (simp add: on_journal_def Let_def)

lemma undo_numbers [simp]: "ab_next_id (fst (undo en actor caller s)) = ab_next_id s"
proof -
  have "ab_next_id (fst (skip_entry en actor e t)) = ab_next_id t" for e t
    by (simp add: skip_entry_def attempt_def split: sum.split)
  moreover have "ab_next_id (fst (revert_entry en actor e tool args_text t)) = ab_next_id t" for e tool args_text t
    by (auto simp: revert_entry_def Let_def attempt_def dispatch_def split: sum.split)
  ultimately show ?thesis by (auto simp: undo_def attempt_def split: sum.split option.split)
qed

lemma evict_pending: "set (ab_pending (snd (evict_greediest en s))) \<subseteq> set (ab_pending s)"
  by (auto simp: evict_greediest_def Let_def set_al_del split: option.split prod.split)

definition announced_as :: "env \<Rightarrow> grant \<Rightarrow> 64 word \<Rightarrow> 64 word \<times> pending \<Rightarrow> bus_error + outcome \<Rightarrow> bool" where
  "announced_as en g i ip r \<longleftrightarrow>
     fst ip = i \<and> (\<exists>c esc spec. r = Inr (OAwaiting i c esc spec) \<and> env_text en spec = spec_text en g i (snd ip))"

lemma park_parks:
  assumes "ip \<in> set (ab_pending (fst (park en now i req decl (judge_call en i req decl g) res ref s)))"
  shows "ip \<in> set (ab_pending s) \<or> announced_as en g i ip (snd (park en now i req decl (judge_call en i req decl g) res ref s))"
proof -
  let ?p = "\<lparr>p_owner = Owner (cr_caller req), p_req = req, p_decl = decl, p_resolution = res, p_start_ref = ref,
    p_created = now, p_refusal_ledgered = False\<rparr>"
  have put: "ip \<in> set (al_put i ?p m) \<Longrightarrow> ip \<in> set m \<or> ip = (i, ?p)" for m using set_al_put_sub by fastforce
  show ?thesis
    using assms evict_pending [of en s]
    by (cases "evict_greediest en s") 
      (auto simp: park_def Let_def attempt_def announced_as_def spec_text_def dest!: put split: if_splits sum.splits option.splits)
qed

lemma admit_parks:
  assumes "ip \<in> set (ab_pending (fst (admit en now i req decl s)))"
  shows "ip \<in> set (ab_pending s) \<or> announced_as en (ab_grant s) i ip (snd (admit en now i req decl s))"
proof -
  let ?v = "judge_call en i req decl (ab_grant s)"
  let ?res = "resolve (td_tier decl) (cr_chain req)"
  show ?thesis
  proof (cases "is_refused ?v")
    case True
    with assms show ?thesis by (simp add: admit_def Let_def)
  next
    case False
    show ?thesis
    proof (cases "snd (ledger_put en (call_event en req ?res) s)")
      case (Inl e)
      with assms False show ?thesis by (simp add: admit_def Let_def)
    next
      case (Inr ref)
      with assms False park_parks [of ip en now i req decl "ab_grant s" ?res ref "fst (ledger_put en (call_event en req ?res) s)"]
      show ?thesis by (simp add: admit_def Let_def split: if_splits)
    qed
  qed
qed

lemma request_parks:
  assumes "ip \<in> set (ab_pending (fst (request en now req s)))"
  shows "ip \<in> set (ab_pending s) \<or> announced_as en (ab_grant s) (ab_next_id s) ip (snd (request en now req s))"
proof -
  let ?s0 = "s\<lparr>ab_next_id := ab_next_id s + 1\<rparr>"
  let ?c = "collect_expired en now ?s0"
  let ?d = "deny_all en ''expired'' ''confirmation expired'' (fst ?c) (snd ?c)"
  have d: "set (ab_pending (fst ?d)) \<subseteq> set (ab_pending s)" "ab_grant (fst ?d) = ab_grant s"
    using collect_expired_subset [of en now ?s0] by simp_all
  show ?thesis
    using assms d admit_parks [of ip en now "ab_next_id s" req _ "fst ?d"]
    by (auto simp: request_def Let_def attempt_def split: sum.splits option.splits)
qed

lemma request_numbers: "ab_next_id (fst (request en now req s)) = ab_next_id s + 1"
  by (auto simp: request_def Let_def attempt_def split: sum.split option.split)

section \<open>What stays\<close>

lemma evict_grant [simp]: "ab_grant (snd (evict_greediest en s)) = ab_grant s"
  by (simp add: evict_greediest_def Let_def split: option.split prod.split)

lemma execute_grant [simp]: "ab_grant (fst (execute en i req decl res ref s)) = ab_grant s"
  using dispatch_sel(7) [of en "cr_app_id req" "cr_tool req" "cr_args req" s]
  by (auto simp: execute_def Let_def journal_call_def simp del: dispatch_sel split: prod.split sum.split)

lemma refuse_grant [simp]: "ab_grant (fst (refuse en i req decl v s)) = ab_grant s"
  by (simp add: refuse_def Let_def attempt_def split: sum.split)

lemma park_grant [simp]: "ab_grant (fst (park en now i req decl v res ref s)) = ab_grant s"
  using evict_grant [of en s]
  by (cases "evict_greediest en s") (auto simp: park_def Let_def attempt_def simp del: evict_grant split: option.split sum.split)

lemma admit_grant [simp]: "ab_grant (fst (admit en now i req decl s)) = ab_grant s"
  by (simp add: admit_def Let_def attempt_def split: sum.split)

lemma request_grant [simp]: "ab_grant (fst (request en now req s)) = ab_grant s"
  by (simp add: request_def Let_def attempt_def split: sum.split option.split)

lemma attempt_grant: "ab_grant (fst r) = g \<Longrightarrow> (\<And>y t. ab_grant t = g \<Longrightarrow> ab_grant (fst (k y t)) = g) \<Longrightarrow> ab_grant (fst (attempt r k)) = g"
  by (simp add: attempt_def split: sum.split)

lemma confirm_grant [simp]: "ab_grant (fst (confirm en now i b a s)) = ab_grant s"
proof (cases "map_of (ab_pending s) i")
  case (Some p)
  show ?thesis
  proof (cases "may_answer i p b a")
    case (Inl err)
    with Some show ?thesis by (simp add: confirm_def refuse_answer_def attempt_grant)
  next
    case (Inr u)
    with Some show ?thesis by (simp add: confirm_def Let_def attempt_grant)
  qed
qed (simp add: confirm_def)

lemma on_journal_kept_sel [simp]:
  "ab_grant (fst (on_journal f s)) = ab_grant s" "ab_pending (fst (on_journal f s)) = ab_pending s"
  by (simp_all add: on_journal_def Let_def)

lemma skip_entry_sel [simp]:
  "ab_grant (fst (skip_entry en actor e s)) = ab_grant s" "ab_pending (fst (skip_entry en actor e s)) = ab_pending s"
  by (simp_all add: skip_entry_def attempt_def split: sum.split)

lemma revert_entry_sel [simp]:
  "ab_grant (fst (revert_entry en actor e tool args_text s)) = ab_grant s"
  "ab_pending (fst (revert_entry en actor e tool args_text s)) = ab_pending s"
  by (simp_all add: revert_entry_def Let_def attempt_def dispatch_def split: sum.split)

lemma undo_kept [simp]:
  "ab_grant (fst (undo en actor caller s)) = ab_grant s" "ab_pending (fst (undo en actor caller s)) = ab_pending s"
  by (auto simp: undo_def attempt_def split: sum.split option.split)

text \<open>An answer only takes calls away, but for the mark that a refusal of it was recorded.\<close>

lemma confirm_pending:
  assumes "ip \<in> set (ab_pending (fst (confirm en now i b a s)))"
  shows "\<exists>q. (fst ip, q) \<in> set (ab_pending s) \<and> spec_text en' g (fst ip) (snd ip) = spec_text en' g (fst ip) q"
proof (cases "map_of (ab_pending s) i")
  case None
  with assms show ?thesis by (intro exI [of _ "snd ip"]) (simp add: confirm_def)
next
  case (Some p)
  let ?p' = "p\<lparr>p_refusal_ledgered := True\<rparr>"
  have "set (ab_pending (fst (confirm en now i b a s))) \<subseteq> insert (i, ?p') (set (ab_pending s))"
    using Some set_al_put_sub [of i ?p' "ab_pending s"] set_al_del [of i "ab_pending s"]
    by (auto simp: confirm_def refuse_answer_def Let_def attempt_def split: sum.splits if_splits)
  with assms have "ip = (i, ?p') \<or> ip \<in> set (ab_pending s)" by blast
  then show ?thesis
  proof
    assume "ip = (i, ?p')"
    with map_of_SomeD [OF Some] show ?thesis by (intro exI [of _ p]) (simp add: spec_text_def)
  qed (intro exI [of _ "snd ip"], simp)
qed

section \<open>The session\<close>

text \<open>
  The bus, the dialog, what the bus announced, and what children said. \<open>me\<close> is the unique name of the surface's connection.
  A signal that was sent is delivered any number of times, in any order, or never; the daemon may be restarted.
\<close>

record session =
  ss_bus :: agent_bus
  ss_dialog :: consentd
  ss_sent :: "emission list"
  ss_said :: "string list"

datatype session_event =
    Requested int call_ask call_looks
  | UndoAsked "peer_error + peer_id"
  | PeerConfirmed int "64 word" bool "peer_error + peer_id" look "string option"
  | Delivered bool bool bool nat
  | DialogSaid string
  | Clicked int look "string option"
  | Restarted

definition deliver :: "bool \<Rightarrow> bool \<Rightarrow> bool \<Rightarrow> emission \<Rightarrow> consentd \<Rightarrow> consentd" where
  "deliver gone spawned written e d =
     (case e of
        StartSurface \<Rightarrow> d
      | ConfirmationRequested i t \<Rightarrow> on_signal gone spawned written ''ConfirmationRequested'' (Some (i, t)) d
      | RefusalReported i t \<Rightarrow> on_signal gone spawned written ''RefusalReported'' (Some (i, t)) d)"

fun session_step :: "agent_surface \<Rightarrow> env \<Rightarrow> string \<Rightarrow> session_event \<Rightarrow> session \<Rightarrow> session" where
  "session_step sur en me (Requested now ask who) S =
     (case request_call sur en now ask who (ss_bus S) of
        (b, reply, sent) \<Rightarrow> S\<lparr>ss_bus := b, ss_sent := ss_sent S @ sent\<rparr>)"
| "session_step sur en me (UndoAsked caller) S = S\<lparr>ss_bus := fst (undo_call en caller (ss_bus S))\<rparr>"
| "session_step sur en me (PeerConfirmed now i b caller l own) S =
     S\<lparr>ss_bus := fst (confirm_call sur en now i b caller l own (ss_bus S))\<rparr>"
| "session_step sur en me (Delivered gone spawned written k) S =
     (if k < length (ss_sent S) then S\<lparr>ss_dialog := deliver gone spawned written (ss_sent S ! k) (ss_dialog S)\<rparr> else S)"
| "session_step sur en me (DialogSaid line) S =
     S\<lparr>ss_dialog := on_child_line (env_parse en) line (ss_dialog S), ss_said := ss_said S @ [line]\<rparr>"
| "session_step sur en me (Clicked now l own) S =
     (case on_answer (ss_dialog S) of
        (d, None) \<Rightarrow> S\<lparr>ss_dialog := d\<rparr>
      | (d, Some (i, b)) \<Rightarrow>
          S\<lparr>ss_dialog := d, ss_bus := fst (confirm_call sur en now i b (Inr (Bus me)) l own (ss_bus S))\<rparr>)"
| "session_step sur en me Restarted S =
     S\<lparr>ss_dialog := consentd_new\<lparr>cn_log := cn_log (ss_dialog S)\<rparr>\<rparr>"

definition session_run :: "agent_surface \<Rightarrow> env \<Rightarrow> string \<Rightarrow> session_event list \<Rightarrow> session \<Rightarrow> session" where
  "session_run sur en me es S = fold (session_step sur en me) es S"

definition session_new :: "agent_bus \<Rightarrow> session" where
  "session_new b = \<lparr>ss_bus = b, ss_dialog = consentd_new, ss_sent = [], ss_said = []\<rparr>"

section \<open>The invariant\<close>

text \<open>After \<open>n\<close> requests on a bus that started at id \<open>i0\<close> with nothing parked.\<close>

fun announces :: "emission \<Rightarrow> to_renderer option" where
  "announces StartSurface = None"
| "announces (ConfirmationRequested i t) = Some (ToConfirm i t)"
| "announces (RefusalReported i t) = Some (ToRefusal i t)"

definition announced :: "session \<Rightarrow> to_renderer set" where
  "announced S = {m. \<exists>e \<in> set (ss_sent S). announces e = Some m}"

definition session_inv :: "env \<Rightarrow> grant \<Rightarrow> 64 word \<Rightarrow> nat \<Rightarrow> session \<Rightarrow> bool" where
  "session_inv en g i0 n S \<longleftrightarrow>
     ab_grant (ss_bus S) = g \<and> ab_next_id (ss_bus S) = i0 + word_of_nat n \<and>
     (\<forall>m \<in> announced S. \<exists>k < n. renderer_id m = i0 + word_of_nat k) \<and>
     (\<forall>m \<in> announced S. \<forall>m' \<in> announced S. renderer_id m = renderer_id m' \<longrightarrow> m = m') \<and>
     (\<forall>ip \<in> set (ab_pending (ss_bus S)). ToConfirm (fst ip) (spec_text en g (fst ip) (snd ip)) \<in> announced S) \<and>
     (\<forall>gen m. Drew gen m \<in> set (cn_log (ss_dialog S)) \<longrightarrow> m \<in> announced S) \<and>
     (\<forall>i \<in> set (cn_open (ss_dialog S)). \<exists>gen m. Drew gen m \<in> set (cn_log (ss_dialog S)) \<and> renderer_id m = i) \<and>
     (\<forall>a \<in> set (cn_queue (ss_dialog S)). \<exists>line \<in> set (ss_said S). from_line (env_parse en) line = Some a)"

lemma session_inv_new: "ab_pending b = [] \<Longrightarrow> session_inv en (ab_grant b) (ab_next_id b) 0 (session_new b)"
  by (simp add: session_inv_def session_new_def announced_def consentd_new_def)

text \<open>What a handler that is no request does to the bus: it takes parked calls away, and numbers nothing.\<close>

definition bus_kept :: "env \<Rightarrow> grant \<Rightarrow> agent_bus \<Rightarrow> agent_bus \<Rightarrow> bool" where
  "bus_kept en g b b' \<longleftrightarrow>
     ab_grant b' = ab_grant b \<and> ab_next_id b' = ab_next_id b \<and>
     (\<forall>ip \<in> set (ab_pending b'). \<exists>q. (fst ip, q) \<in> set (ab_pending b) \<and> spec_text en g (fst ip) (snd ip) = spec_text en g (fst ip) q)"

lemma bus_kept_refl: "bus_kept en g b b"
  by (auto simp: bus_kept_def)

lemma bus_kept_undo: "bus_kept en g b (fst (undo_call en caller b))"
proof (cases caller)
  case (Inr c)
  then have "fst (undo_call en caller b) = fst (undo en ''host'' c b)" by (simp add: undo_call_def split: prod.split sum.split)
  then show ?thesis by (auto simp: bus_kept_def)
qed (simp add: undo_call_def bus_kept_refl)

lemma bus_kept_confirm: "bus_kept en g b (fst (confirm_call sur en now i ok caller l own b))"
proof (cases caller)
  case (Inr c)
  then show ?thesis using confirm_pending by (auto simp: bus_kept_def confirm_call_fst)
qed (simp add: confirm_call_def bus_kept_refl)

lemma session_inv_bus:
  assumes "session_inv en g i0 n S" "bus_kept en g (ss_bus S) b"
  shows "session_inv en g i0 n (S\<lparr>ss_bus := b\<rparr>)"
proof -
  have "ToConfirm (fst ip) (spec_text en g (fst ip) (snd ip)) \<in> announced S" if "ip \<in> set (ab_pending b)" for ip
    using assms that unfolding session_inv_def bus_kept_def by (metis fst_conv snd_conv)
  then show ?thesis using assms unfolding session_inv_def bus_kept_def by (simp add: announced_def)
qed

lemma deliver_shows: "deliver gone spawned written e d = (case announces e of None \<Rightarrow> d | Some m \<Rightarrow> fst (show_dialog gone spawned written m d))"
  by (cases e) (simp_all add: deliver_def on_signal_def to_renderer_of_def)

definition dialog_inv :: "env \<Rightarrow> to_renderer set \<Rightarrow> string set \<Rightarrow> consentd \<Rightarrow> bool" where
  "dialog_inv en ms said d \<longleftrightarrow>
     (\<forall>gen m. Drew gen m \<in> set (cn_log d) \<longrightarrow> m \<in> ms) \<and>
     (\<forall>i \<in> set (cn_open d). \<exists>gen m. Drew gen m \<in> set (cn_log d) \<and> renderer_id m = i) \<and>
     (\<forall>a \<in> set (cn_queue d). \<exists>line \<in> said. from_line (env_parse en) line = Some a)"

lemma session_inv_dialog:
  "session_inv en g i0 n S \<Longrightarrow> dialog_inv en (announced S) (set (ss_said S)) d \<Longrightarrow> session_inv en g i0 n (S\<lparr>ss_dialog := d\<rparr>)"
  by (simp add: session_inv_def dialog_inv_def announced_def)

lemma dialog_of_session: "session_inv en g i0 n S \<Longrightarrow> dialog_inv en (announced S) (set (ss_said S)) (ss_dialog S)"
  by (simp add: session_inv_def dialog_inv_def)

lemma dialog_inv_less:
  assumes "dialog_inv en ms said d" "cn_log d' = cn_log d" "set (cn_open d') \<subseteq> set (cn_open d)" "set (cn_queue d') \<subseteq> set (cn_queue d)"
  shows "dialog_inv en ms said d'"
  using assms(1,3,4) unfolding dialog_inv_def assms(2) by blast

lemma dialog_inv_show:
  assumes "dialog_inv en ms said d" "m \<in> ms"
  shows "dialog_inv en ms said (fst (show_dialog gone spawned written m d))"
proof (cases rule: show_dialog_cases [of gone spawned written m d])
  case unchanged
  then show ?thesis by (intro dialog_inv_less [OF assms(1)]) simp_all
next
  case (drawn gen)
  let ?d' = "fst (show_dialog gone spawned written m d)"
  have log: "Drew gen' m' \<in> set (cn_log ?d') \<longleftrightarrow> Drew gen' m' \<in> set (cn_log d) \<or> gen' = gen \<and> m' = m" for gen' m'
    unfolding drawn(1) by auto
  show ?thesis using assms drawn(4) unfolding dialog_inv_def log drawn(2) by blast
qed

lemma dialog_inv_answer:
  assumes "dialog_inv en ms said d"
  shows "dialog_inv en ms said (fst (on_answer d))"
proof (cases rule: on_answer_cases [of d])
  case nothing
  then show ?thesis by (intro dialog_inv_less [OF assms]) simp_all
next
  case (answered a rest b)
  have log: "Drew gen m \<in> set (cn_log (fst (on_answer d))) \<longleftrightarrow> Drew gen m \<in> set (cn_log d)" for gen m
    unfolding answered(5) by simp
  have "set rest \<subseteq> set (cn_queue d)" by (simp add: answered(1) subset_insertI)
  then show ?thesis using assms unfolding dialog_inv_def log answered(6,7) by blast
qed

lemma dialog_inv_said:
  "dialog_inv en ms said d \<Longrightarrow> dialog_inv en ms (insert line said) (on_child_line (env_parse en) line d)"
  by (auto simp: dialog_inv_def on_child_line_def split: option.split)

end
