(* ===== verification/Consent_Trust.thy ===== *)
theory Consent_Trust
  imports Consent_Session
begin

text \<open>
  The trust chain from a request to an action: a call that needs the dialog runs only after a click on a window that showed
  exactly it.
\<close>

section \<open>Requests\<close>

lemma admit_id:
  "snd (admit en now i req decl s) = Inr (OAwaiting j c esc spec) \<Longrightarrow> j = i"
  "snd (admit en now i req decl s) = Inr (ORefused j rule reason report) \<Longrightarrow> j = i"
  by (auto simp: admit_def refuse_def park_def execute_def Let_def attempt_def
      split: if_splits sum.splits prod.splits option.splits)

lemma request_id:
  "snd (request en now req s) = Inr (OAwaiting j c esc spec) \<Longrightarrow> j = ab_next_id s"
  "snd (request en now req s) = Inr (ORefused j rule reason report) \<Longrightarrow> j = ab_next_id s"
  by (auto simp: request_def Let_def attempt_def dest: admit_id split: sum.splits option.splits)

definition announcement :: "env \<Rightarrow> outcome \<Rightarrow> to_renderer option" where
  "announcement en out =
     (case out of
        OAwaiting i c esc spec \<Rightarrow> Some (ToConfirm i (env_text en spec))
      | ORefused i rule reason report \<Rightarrow> Some (ToRefusal i (env_text en report))
      | _ \<Rightarrow> None)"

lemma announced_emissions: "{m. \<exists>e \<in> set (emissions_of sur en own hosts out). announces e = Some m} = set_option (announcement en out)"
proof -
  have "e \<in> set (start_consent_surface sur own needed) \<Longrightarrow> announces e = None" for e needed
    by (auto simp: start_consent_surface_def split: if_splits)
  then have none: "\<not> (\<exists>e \<in> set (start_consent_surface sur own needed). announces e = Some m)" for m needed by fastforce
  show ?thesis by (cases out) (auto simp: emissions_of_def announcement_def none bex_Un)
qed

text \<open>What a request does to the session's part of the bus.\<close>

lemma request_call_effect:
  assumes "request_call sur en now ask who b = (b', reply, sent)"
  shows "ab_grant b' = ab_grant b \<and>
    (bus_kept en g b b' \<and> sent = [] \<or>
     (\<exists>ms. {m. \<exists>e \<in> set sent. announces e = Some m} = set_option ms \<and> ab_next_id b' = ab_next_id b + 1 \<and>
        (\<forall>m. ms = Some m \<longrightarrow> renderer_id m = ab_next_id b) \<and>
        (\<forall>ip \<in> set (ab_pending b'). ip \<in> set (ab_pending b) \<or>
           ms = Some (ToConfirm (fst ip) (spec_text en (ab_grant b) (fst ip) (snd ip))))))"
proof (cases rule: request_call_cases [of sur en now ask who b])
  case (unread s1 e)
  with assms show ?thesis by (auto simp: bus_kept_def)
next
  case (asked args caller s1 req)
  obtain s2 r where r: "request en now req s1 = (s2, r)" by fastforce
  have kept: "ab_grant s2 = ab_grant b" "ab_next_id s2 = ab_next_id b + 1"
    using request_grant [of en now req s1] request_numbers [of en now req s1] asked(7,8) r by simp_all
  have parks: "ip \<in> set (ab_pending s2) \<Longrightarrow> ip \<in> set (ab_pending b) \<or> announced_as en (ab_grant b) (ab_next_id b) ip r" for ip
    using request_parks [of ip en now req s1] asked(5,7,8) r by simp
  show ?thesis
  proof (cases r)
    case (Inl e)
    with assms asked(9) r have eq: "b' = s2" "sent = []" by simp_all
    have "ip \<in> set (ab_pending s2) \<Longrightarrow> ip \<in> set (ab_pending b)" for ip using parks [of ip] Inl by (simp add: announced_as_def)
    then show ?thesis using kept eq by (intro conjI disjI2 exI [of _ None]) auto
  next
    case (Inr out)
    with assms asked(9) r have eq: "b' = s2" "sent = emissions_of sur en (cl_owner who) (cr_hosts_a_model req) out" by simp_all
    have "announcement en out = Some m \<Longrightarrow> renderer_id m = ab_next_id b" for m
      using request_id [of en now req s1] r Inr asked(8) by (auto simp: announcement_def split: outcome.splits)
    moreover have "ip \<in> set (ab_pending s2) \<Longrightarrow> ip \<in> set (ab_pending b) \<or>
        announcement en out = Some (ToConfirm (fst ip) (spec_text en (ab_grant b) (fst ip) (snd ip)))" for ip
      using parks [of ip] Inr by (auto simp: announced_as_def announcement_def)
    ultimately show ?thesis
      using kept eq announced_emissions by (intro conjI disjI2 exI [of _ "announcement en out"]) auto
  qed
qed

section \<open>Every step keeps the invariant\<close>

lemma offset_inj: "j < 2 ^ 64 \<Longrightarrow> k < 2 ^ 64 \<Longrightarrow> i0 + word_of_nat j = (i0 + word_of_nat k :: 64 word) \<Longrightarrow> j = k"
proof -
  assume jk: "j < 2 ^ 64" "k < 2 ^ 64" and "i0 + word_of_nat j = (i0 + word_of_nat k :: 64 word)"
  then have "unat (word_of_nat j :: 64 word) = unat (word_of_nat k :: 64 word)" by simp
  with jk show "j = k" by (simp add: unat_of_nat take_bit_nat_eq_self)
qed

lemma session_inv_announce:
  assumes inv: "session_inv en g i0 n S" and n: "n < 2 ^ 64 - 1"
    and sent: "{m. \<exists>e \<in> set sent. announces e = Some m} = set_option ms"
    and b: "ab_grant b = ab_grant (ss_bus S)" "ab_next_id b = ab_next_id (ss_bus S) + 1"
    and new: "\<And>m. ms = Some m \<Longrightarrow> renderer_id m = ab_next_id (ss_bus S)"
    and pend: "\<And>ip. ip \<in> set (ab_pending b) \<Longrightarrow> ip \<in> set (ab_pending (ss_bus S)) \<or> ms = Some (ToConfirm (fst ip) (spec_text en g (fst ip) (snd ip)))"
  shows "session_inv en g i0 (Suc n) (S\<lparr>ss_bus := b, ss_sent := ss_sent S @ sent\<rparr>)"
proof -
  let ?S = "S\<lparr>ss_bus := b, ss_sent := ss_sent S @ sent\<rparr>"
  have ann: "announced ?S = announced S \<union> set_option ms"
    unfolding announced_def sent [symmetric] by auto
  have i: "ab_next_id (ss_bus S) = i0 + word_of_nat n" "ab_grant (ss_bus S) = g" using inv by (simp_all add: session_inv_def)
  have old: "\<exists>k < n. renderer_id m = i0 + word_of_nat k" if "m \<in> announced S" for m using inv that by (simp add: session_inv_def)
  have fresh: "renderer_id m \<noteq> renderer_id m'" if m: "m \<in> announced S" and m': "ms = Some m'" for m m'
  proof
    assume same: "renderer_id m = renderer_id m'"
    obtain k where "k < n" "renderer_id m = i0 + word_of_nat k" using old [OF m] by blast
    with same new [OF m'] i(1) offset_inj [of k n i0] n show False by simp
  qed
  have ids: "\<exists>k < Suc n. renderer_id m = i0 + word_of_nat k" if "m \<in> announced ?S" for m
  proof (cases "m \<in> announced S")
    case True
    with old show ?thesis using less_SucI by blast
  next
    case False
    with that have "ms = Some m" by (simp add: ann)
    with new i(1) show ?thesis by auto
  qed
  have uniq: "m = m'" if "m \<in> announced ?S" "m' \<in> announced ?S" "renderer_id m = renderer_id m'" for m m'
    using that fresh [of m m'] fresh [of m' m] inv unfolding ann session_inv_def by fastforce
  have known: "ToConfirm (fst ip) (spec_text en g (fst ip) (snd ip)) \<in> announced ?S" if "ip \<in> set (ab_pending b)" for ip
    using pend [OF that] inv by (auto simp: ann session_inv_def)
  have drawn: "Drew gen m \<in> set (cn_log (ss_dialog S)) \<Longrightarrow> m \<in> announced ?S" for gen m
    using inv by (auto simp: ann session_inv_def)
  have rest: "\<forall>i \<in> set (cn_open (ss_dialog S)). \<exists>gen m. Drew gen m \<in> set (cn_log (ss_dialog S)) \<and> renderer_id m = i"
    "\<forall>a \<in> set (cn_queue (ss_dialog S)). \<exists>line \<in> set (ss_said S). from_line (env_parse en) line = Some a"
    using inv by (simp_all add: session_inv_def)
  show ?thesis unfolding session_inv_def using b i ids uniq known drawn rest by (simp add: algebra_simps)
qed

lemma session_inv_step:
  assumes inv: "session_inv en g i0 n S" and n: "n < 2 ^ 64 - 1"
  shows "session_inv en g i0 n (session_step sur en me e S) \<or> session_inv en g i0 (Suc n) (session_step sur en me e S)"
proof (cases e)
  case (Requested now ask who)
  obtain b reply sent where r: "request_call sur en now ask who (ss_bus S) = (b, reply, sent)" by (metis surj_pair)
  have g: "ab_grant (ss_bus S) = g" using inv by (simp add: session_inv_def)
  have grant: "ab_grant b = ab_grant (ss_bus S)" using request_call_effect [OF r] by (rule conjunct1)
  from request_call_effect [OF r, where g = g, THEN conjunct2] show ?thesis
  proof (elim disjE conjE exE)
    assume "bus_kept en g (ss_bus S) b" "sent = []"
    then show ?thesis using session_inv_bus [OF inv, of b] r Requested by simp
  next
    fix ms
    assume ms: "{m. \<exists>e \<in> set sent. announces e = Some m} = set_option ms" "ab_next_id b = ab_next_id (ss_bus S) + 1"
      and new: "\<forall>m. ms = Some m \<longrightarrow> renderer_id m = ab_next_id (ss_bus S)"
      and pend: "\<forall>ip \<in> set (ab_pending b). ip \<in> set (ab_pending (ss_bus S)) \<or>
        ms = Some (ToConfirm (fst ip) (spec_text en (ab_grant (ss_bus S)) (fst ip) (snd ip)))"
    have "session_inv en g i0 (Suc n) (S\<lparr>ss_bus := b, ss_sent := ss_sent S @ sent\<rparr>)"
      by (rule session_inv_announce [OF inv n ms(1) grant ms(2)]) (use new pend g in auto)
    then show ?thesis using r Requested by simp
  qed
next
  case (UndoAsked caller)
  then show ?thesis using session_inv_bus [OF inv bus_kept_undo] by simp
next
  case (PeerConfirmed now i ok caller l own)
  then show ?thesis using session_inv_bus [OF inv bus_kept_confirm] by simp
next
  case (Delivered gone spawned written k)
  show ?thesis
  proof (cases "k < length (ss_sent S) \<and> announces (ss_sent S ! k) \<noteq> None")
    case True
    then obtain m where m: "announces (ss_sent S ! k) = Some m" by auto
    then have "m \<in> announced S" using True nth_mem by (fastforce simp: announced_def)
    with dialog_inv_show [OF dialog_of_session [OF inv]] m True Delivered show ?thesis
      using session_inv_dialog [OF inv] by (simp add: deliver_shows)
  next
    case False
    then show ?thesis using Delivered inv by (auto simp: deliver_shows)
  qed
next
  case (DialogSaid line)
  let ?S = "S\<lparr>ss_said := ss_said S @ [line]\<rparr>"
  have "session_inv en g i0 n ?S" using inv by (auto simp: session_inv_def announced_def)
  moreover have "dialog_inv en (announced ?S) (set (ss_said ?S)) (on_child_line (env_parse en) line (ss_dialog S))"
    using dialog_inv_said [OF dialog_of_session [OF inv], of line] by (simp add: announced_def)
  ultimately have "session_inv en g i0 n (?S\<lparr>ss_dialog := on_child_line (env_parse en) line (ss_dialog S)\<rparr>)"
    by (rule session_inv_dialog)
  moreover have "?S\<lparr>ss_dialog := d\<rparr> = S\<lparr>ss_dialog := d, ss_said := ss_said S @ [line]\<rparr>" for d by simp
  ultimately show ?thesis using DialogSaid by (simp del: session.update_convs)
next
  case (Clicked now l own)
  obtain d out where a: "on_answer (ss_dialog S) = (d, out)" by fastforce
  then have inv2: "session_inv en g i0 n (S\<lparr>ss_dialog := d\<rparr>)"
    using session_inv_dialog [OF inv dialog_inv_answer [OF dialog_of_session [OF inv]]] by simp
  show ?thesis
  proof (cases out)
    case None
    with a inv2 Clicked show ?thesis by simp
  next
    case (Some io)
    then show ?thesis using a Clicked session_inv_bus [OF inv2 bus_kept_confirm] by (cases io) simp
  qed
next
  case Restarted
  have "dialog_inv en (announced S) (set (ss_said S)) (consentd_new\<lparr>cn_log := cn_log (ss_dialog S)\<rparr>)"
    using dialog_of_session [OF inv] by (simp add: dialog_inv_def consentd_new_def)
  with session_inv_dialog [OF inv] Restarted show ?thesis by simp
qed

lemma session_inv_run:
  assumes "ab_pending b = []" "length es < 2 ^ 64 - 1"
  shows "\<exists>n \<le> length es. session_inv en (ab_grant b) (ab_next_id b) n (session_run sur en me es (session_new b))"
  using assms(2)
proof (induction es rule: rev_induct)
  case Nil
  then show ?case using session_inv_new [OF assms(1)] by (auto simp: session_run_def)
next
  case (snoc e es)
  then obtain n where n: "n \<le> length es" "session_inv en (ab_grant b) (ab_next_id b) n (session_run sur en me es (session_new b))"
    by auto
  moreover have "n < 2 ^ 64 - 1" using n(1) snoc.prems by simp
  ultimately have "session_inv en (ab_grant b) (ab_next_id b) n (session_run sur en me (es @ [e]) (session_new b)) \<or>
      session_inv en (ab_grant b) (ab_next_id b) (Suc n) (session_run sur en me (es @ [e]) (session_new b))"
    using session_inv_step by (simp add: session_run_def)
  then show ?case
  proof
    assume "session_inv en (ab_grant b) (ab_next_id b) n (session_run sur en me (es @ [e]) (session_new b))"
    then show ?case using n(1) by (intro exI [of _ n]) simp
  next
    assume "session_inv en (ab_grant b) (ab_next_id b) (Suc n) (session_run sur en me (es @ [e]) (session_new b))"
    then show ?case using n(1) by (intro exI [of _ "Suc n"]) simp
  qed
qed

section \<open>No release without a click\<close>

fun answered_call :: "session_event \<Rightarrow> session \<Rightarrow> 64 word option" where
  "answered_call (PeerConfirmed now i ok caller l own) S = Some i"
| "answered_call (Clicked now l own) S = map_option fst (snd (on_answer (ss_dialog S)))"
| "answered_call e S = None"

text \<open>No other peer on the bus is taken for the dialog, and there is a bus.\<close>

fun no_impostor :: "agent_surface \<Rightarrow> session_event \<Rightarrow> bool" where
  "no_impostor sur (PeerConfirmed now i ok caller l own) \<longleftrightarrow> caller \<noteq> Inr Direct \<and> \<not> seen_as_dialog sur caller l own"
| "no_impostor sur e \<longleftrightarrow> True"


section \<open>One answer per window\<close>

text \<open>
  C32. One answer per window. On every run of the session, the answers the surface sends for a call never outnumber the
  windows it drew for that id, whatever children say; and while a window for it is open there is one left.
\<close>

theorem one_answer_per_window:
  "confirms_of i (cn_log (ss_dialog (session_run sur en me es (session_new b)))) +
     (if i \<in> set (cn_open (ss_dialog (session_run sur en me es (session_new b)))) then 1 else 0)
   \<le> draws_of i (cn_log (ss_dialog (session_run sur en me es (session_new b))))"
proof -
  have step: "disciplined (ss_dialog (session_step sur en me e S))" if "disciplined (ss_dialog S)" for e S
  proof (cases e)
    case (Delivered gone spawned written k)
    with that show ?thesis by (auto simp: deliver_shows disciplined_show split: option.split)
  next
    case (DialogSaid line)
    with disciplined_step [OF that, of "env_parse en" "ChildSaid line"] show ?thesis by simp
  next
    case (Clicked now l own)
    have "ss_dialog (session_step sur en me e S) = fst (on_answer (ss_dialog S))"
      by (cases "on_answer (ss_dialog S)") (simp add: Clicked split: option.split prod.split)
    with disciplined_answer [OF that] show ?thesis by simp
  next
    case Restarted
    with that show ?thesis by (simp add: disciplined_def consentd_new_def)
  qed (use that in \<open>simp_all split: prod.split\<close>)
  have "disciplined (ss_dialog (session_run sur en me es (session_new b)))"
    by (induction es rule: rev_induct) (simp_all add: session_run_def session_new_def disciplined_new step)
  then show ?thesis by (auto simp: disciplined_def Suc_leI)
qed

section \<open>A concrete session\<close>

text \<open>The model's host asks for an event to be added; the dialog is drawn, and a person allows it.\<close>

definition session_env :: env where
  "session_env = sample_env\<lparr>env_parse := \<lambda>t. if t = ''{}'' then Some (JObj [])
     else Some (JObj [(''call_id'', json_u64 1), (''answer'', JStr t)])\<rparr>"

definition write_ask :: call_ask where
  "write_ask = sample_ask\<lparr>ca_tool := ''add_event''\<rparr>"

definition up_to_the_click :: "session_event list" where
  "up_to_the_click =
     [Requested 5 write_ask (sample_looks ''/usr/bin/lisa-harnessd''), Delivered True True True 1, DialogSaid ''allow'']"

definition the_click :: session_event where
  "the_click = Clicked 6 (sample_look '':1.8'' ''/usr/bin/lisa-consentd'') (Some '':1.8'')"

definition before_the_click :: session where
  "before_the_click = session_run sample_agent_surface session_env '':1.8'' up_to_the_click (session_new sample_bus)"


section \<open>Where the code and its documentation part\<close>

text \<open>A child that says Allow to a refusal report: the surface sends the approval.\<close>

lemma allow_on_a_refusal_is_sent:
  "snd (on_answer (on_child_line (\<lambda>t. Some (JArr [json_u64 4, JStr ''allow''])) ''x''
     (fst (show_dialog True True True (ToRefusal 4 ''report'') consentd_new)))) = Some (4, True)"
  by code_simp

text \<open>A call announced again after its window died with the child is not drawn again.\<close>

lemma dead_window_stays_open:
  "show_dialog True spawned written (ToConfirm 4 spec) (fst (show_dialog gone True True (ToConfirm 4 spec) consentd_new)) =
     (fst (show_dialog gone True True (ToConfirm 4 spec) consentd_new), True)"
  by (simp add: show_dialog_def ensure_def consentd_new_def)

text \<open>Any program gjs runs is a consent program.\<close>

lemma interpreter_is_a_consent_program:
  "seen_as_dialog sample_agent_surface (Inr (Bus '':1.66'')) (sample_look '':1.66'' ''/usr/bin/gjs'') (Some '':1.66'')"
proof -
  have "fst (answerer_identity sample_agent_surface (sample_look '':1.66'' ''/usr/bin/gjs''))" by code_simp
  then show ?thesis by (simp add: seen_as_dialog_def consent_placed)
qed

end
