(* ===== verification/Spec2Isabelle.thy ===== *)
theory Spec2Isabelle
  imports Peer Guard_Consent Agent_Tier Ledger Guard_Verdict Guard_Owner Guard_Judge Guard_Shell_Total Guard_Contain
    Agent_Registry Agent_Journal Agent_Bus_Safety Agent_Bus_Undo Peer_App Portal_Sessions Portal_Quota Context_Memory Context_Embed Remote_Surface Remote_Edges
    Install_Sample Consent_Trust
begin

text \<open>
  Lisa OS, an operating system whose assistant acts through apps, with the rules about who may make it act, on what,
  and what may leave the machine written in Rust. This library models the programs that decide these things and proves
  what they decide. Paths below are relative to \<open>src/\<close>.

  \<^bold>\<open>The parts and how they meet.\<close>
  A program that wants a tool of an app called asks \<open>agentd\<close> on the session bus. \<open>agentd\<close> finds out who asks
  (\<open>lisa-peer\<close>), checks the provenance of the request, resolves the tier of the tool, lets \<open>lisa-guard\<close> judge the
  arguments, writes a row into \<open>lisa-ledger\<close>, and then acts, parks the call, or refuses. A parked call is announced;
  the consent daemon draws it in a dialog and answers with the click. Performed calls go into the undo journal.
  Sandboxed apps reach inference through the portal, which asks a person for consent, keeps quotas and records each use.
  \<open>contextd\<close> keeps the indexed documents with their provenance and the memory of each app. \<open>remoted\<close> is the one daemon
  that talks to model providers on the network. \<open>lisa install\<close> writes the system onto a disk.

  \<^bold>\<open>Which theory models what.\<close>
  \<^item> Shared. \<open>Lisa_Prelude\<close>: Rust string operations, statements that may fail (\<open>attempt\<close>), the locale \<open>severity_join\<close>
    of verdict orders. \<open>Json\<close>: \<open>serde_json::Value\<close>; parsing and printing text are arguments.
  \<^item> \<open>libs/lisa-peer\<close>. \<open>Peer\<close>: transport, owner binding and process identity (\<open>lib.rs\<close>, \<open>process.rs\<close>,
    \<open>identity.rs\<close>). \<open>Peer_App\<close>: app identities, the list of managers (\<open>app.rs\<close>, \<open>manager.rs\<close>).
  \<^item> \<open>libs/lisa-guard\<close>. \<open>Guard_Consent\<close>: \<open>consent.rs\<close>. \<open>Guard_Verdict\<close>: verdicts and \<open>overrides.rs\<close>.
    \<open>Guard_Owner\<close>: \<open>protections.rs\<close>. \<open>Guard_Path\<close>: lexical paths and symbolic links. \<open>Guard_Action\<close>,
    \<open>Guard_Judge\<close>: \<open>action.rs\<close>. \<open>Guard_Shell_Lex\<close>, \<open>Guard_Shell\<close>: \<open>shell.rs\<close>. \<open>Guard_Rules\<close>: \<open>rules.rs\<close>.
    \<open>Guard_Command\<close>: \<open>command.rs\<close>. \<open>Guard_Contain\<close>: \<open>path.rs\<close> over a file system with links. Their guarantees are in
    the theories whose names end in \<open>_Safety\<close> and \<open>_Total\<close>.
  \<^item> \<open>libs/lisa-ledger\<close>: \<open>Ledger\<close>, the table with its append-only triggers.
  \<^item> \<open>daemons/agentd\<close>. \<open>Agent_Tier\<close>: \<open>tier.rs\<close>. \<open>Agent_Manifest\<close>: \<open>manifest.rs\<close>. \<open>Agent_Registry\<close>:
    \<open>registry.rs\<close>. \<open>Agent_Journal\<close>: \<open>journal.rs\<close>. \<open>Agent_Bus\<close>: \<open>bus.rs\<close>, with \<open>Agent_Bus_Inv\<close>,
    \<open>Agent_Bus_Safety\<close>, \<open>Agent_Bus_Undo\<close>. \<open>Agent_Surface\<close>: \<open>dbus.rs\<close>, with \<open>Agent_Surface_Safety\<close>.
  \<^item> \<open>shell/consent/daemon\<close>. \<open>Consent_Daemon\<close>: \<open>protocol.rs\<close>, \<open>renderer.rs\<close>, \<open>main.rs\<close>. \<open>Consent_System\<close> and
    \<open>Consent_Session\<close> compose it with the bus; \<open>Consent_Trust\<close> has what holds of the whole.
  \<^item> \<open>portals/xdg-desktop-portal-lisa\<close>. \<open>Portal_Grants\<close>: \<open>grants.rs\<close>, \<open>quota.rs\<close>, \<open>consent.rs\<close>. \<open>Portal\<close>:
    \<open>portal.rs\<close>, with \<open>Portal_Inv\<close>, \<open>Portal_Safety\<close>, \<open>Portal_Steps\<close>, \<open>Portal_Sessions\<close>, \<open>Portal_Quota\<close>.
  \<^item> \<open>daemons/contextd\<close>. \<open>Context_Store\<close>: \<open>store.rs\<close>, \<open>index.rs\<close>, \<open>acl.rs\<close>. \<open>Context_Search\<close>: the searches and
    \<open>embed.rs\<close>. \<open>Context_Bus\<close>: \<open>dbus.rs\<close>. The other \<open>Context_\<close> theories hold the proofs.
  \<^item> \<open>daemons/remoted\<close>. \<open>Remote_Net\<close>: \<open>net.rs\<close>. \<open>Remote_Store\<close>: \<open>consent.rs\<close>, \<open>secrets.rs\<close>, \<open>registry.rs\<close>.
    \<open>Remote_Proxy\<close>: \<open>proxy.rs\<close>. \<open>Remote_Stream\<close>: \<open>stream.rs\<close>. \<open>Remote_Oauth\<close>: \<open>oauth.rs\<close>. \<open>Remote_Broker\<close>:
    \<open>service.rs\<close>. \<open>Remote_Surface\<close>: \<open>api.rs\<close> and \<open>dbus.rs\<close>. \<open>Remote_Bytes\<close> and \<open>Remote_Json\<close>: bytes, UTF-8 and
    JSON from the network. \<open>Remote_Gate\<close>, \<open>Remote_Policy\<close>, \<open>Remote_Routes\<close>, \<open>Remote_Life\<close>, \<open>Remote_Sse\<close>,
    \<open>Remote_Edges\<close>: the proofs.
  \<^item> \<open>cli/lisa\<close>. \<open>Install_Plan\<close>: \<open>install_plan.rs\<close>. \<open>Install_Run\<close>: its texts, and \<open>install_cmd\<close> of \<open>main.rs\<close>.
    \<open>Install_Safety\<close> has the proofs, \<open>Install_Sample\<close> a concrete machine.

  A state of the code is a record of the same fields; a method that changes it is a function that returns the new
  state; an error is the left side of a sum. What a handler reads from the outside is an argument, mostly a field of an
  environment record (\<open>env\<close>, \<open>portal_env\<close>, \<open>context_env\<close>, \<open>remote_env\<close>), and what it sends out is a list in the state
  or in the result.

  \<^bold>\<open>What the lemmas show.\<close>
  \<^item> Invariants over all runs come from one locale per daemon (\<open>bus_invariant\<close>, \<open>portal_invariant\<close>, \<open>broker_inv\<close>). Its
    assumptions are the small ways in which a handler touches the state; inside it every handler is shown to keep what
    the small moves keep; each invariant interprets it. So: no action of the bus without a ledger row, bounded queues,
    an immutable history; no session without consent and no inference without a row; nothing leaves the machine
    unrecorded.
  \<^item> The trust chain of a destructive call goes through three parts: the bus releases it only to the consent surface,
    the surface confirms only what a window was drawn for and a person allowed, and the window showed exactly the
    announcement of that call (\<open>Consent_Trust\<close>). The surface answers each window at most once.
  \<^item> The guard is compared with what a command does, written down program by program without the lexer (\<open>reads\<close>,
    \<open>line_destroys\<close>), with what a tool call may hide in its arguments (\<open>sub_value\<close>, \<open>respelled\<close>), and with where a
    write lands in a file system that may change under it.
  \<^item> The event parser of \<open>remoted\<close> equals a reference that sees the whole stream; a tool call survives both
    translations; an accepted address is public, in the words of the address blocks.
  \<^item> Pruning follows the plan it announced; a scoped search shows nothing outside the scopes; an app reads its own memory.
  \<^item> The installer erases a disk only when the running system is not on it, and writes to the disk it planned.
  \<^item> Functions that may panic or loop are shown to return where they do: the shell guard on ASCII input, the backfill
    loop, the containment walk.

  \<^bold>\<open>Bounds.\<close>
  Recursions follow the code's own limits. \<open>check_inner\<close> carries the levels of nesting left and starts with
  \<open>MAX_DEPTH + 1\<close>, one per call of the code. \<open>chain_loop\<close> counts down from \<open>MAX_HOPS\<close> as the code does; \<open>walk_path\<close> counts
  symbolic links with \<open>LINK_LIMIT\<close>, the 40 of Linux. No other fuel is used; loops without a bound of their own are
  proved to terminate by a measure, and \<open>embed_loop\<close>, which may not, is a partial function. Integers keep their width
  where arithmetic is done on them and wrap as a release build does; \<open>None\<close> in a result of the shell guard is a panic.
  A statement about a session of bus and dialog assumes fewer than \<open>2 ^ 64\<close> call ids.

  \<^bold>\<open>Where the model is coarser than the code.\<close>
  \<^item> A handler runs without interruption, with one reading of the clock, as the code does under its locks. The exceptions are
    \<open>OpenSession\<close>, in three phases with other handlers in between, and the installer, with three moments at which
    the machine may differ. Calls of the broker are atomic.
  \<^item> A database is the list of its rows; which statement fails is an argument. A failing transaction rolls back.
  \<^item> The order in which a hash map is walked is an argument (\<open>env_iter\<close>, \<open>env_owners\<close>, \<open>ce_iter\<close>), any order.
  \<^item> Strings hold characters up to 255; a longer dash in a message is written \<open>--\<close>. Text from the network and of the
    installer is bytes. Floating point numbers of the rankings are reals.
  \<^item> Announcements come from \<open>agentd\<close> alone; a child of the consent daemon may say any line.
  \<^item> Arguments: the bus daemon, \<open>/proc\<close>, SQLite and FTS5, URL parsing and DNS, TLS, random numbers, the answers of apps
    and providers, the text of JSON and TOML, \<open>lsblk\<close> and \<open>/proc/mounts\<close>.

  \<^bold>\<open>What is not modelled.\<close>
  Start-up code and serving loops, log lines and pages for the browser are I/O. The
  inference daemon, the model store, the agent loops (\<open>harnessd\<close>, \<open>harness-core\<close>, \<open>forge-harness\<close>), \<open>liblisa\<close>, the
  client libraries of the bus and the app servers are outside: whatever they do, they act through the parts above, which
  are shown for any caller. The other verbs of the command line tool run programs and print. The JavaScript of the
  desktop and the building of the image are not Rust.
\<close>

end
